(* ===== verification/Prelude.thy ===== *)
theory Prelude
  imports Complex_Main "HOL-Library.Sublist"
begin

text \<open>
  Shared vocabulary of the development: programs that pass a state and may raise an
  exception, their weakest preconditions, tables as lists of rows with a key, and the
  small list and option facts that the component theories share.
\<close>

section \<open>Programs with state and exceptions\<close>

text \<open>
  An \<open>async\<close> method of a service is a function of the state before it to its
  result and the state after it. \<open>Inl e\<close> is a rejected promise (a \<open>throw\<close>), \<open>Inr x\<close>
  the resolved value. The state after a \<open>throw\<close> is the state at that moment: what the
  method wrote before it threw stays written.
\<close>

type_synonym ('s, 'e, 'a) prog = "'s \<Rightarrow> ('e + 'a) \<times> 's"

definition return :: "'a \<Rightarrow> ('s, 'e, 'a) prog" where
  "return x s = (Inr x, s)"

definition throw :: "'e \<Rightarrow> ('s, 'e, 'a) prog" where
  "throw e s = (Inl e, s)"

definition bind :: "('s, 'e, 'a) prog \<Rightarrow> ('a \<Rightarrow> ('s, 'e, 'b) prog) \<Rightarrow> ('s, 'e, 'b) prog" where
  "bind m f s = (case m s of (Inl e, s') \<Rightarrow> (Inl e, s') | (Inr x, s') \<Rightarrow> f x s')"

definition attempt :: "('s, 'e, 'a) prog \<Rightarrow> ('e \<Rightarrow> ('s, 'e, 'a) prog) \<Rightarrow> ('s, 'e, 'a) prog" where
  "attempt m h s = (case m s of (Inl e, s') \<Rightarrow> h e s' | (Inr x, s') \<Rightarrow> (Inr x, s'))"

definition gets :: "('s \<Rightarrow> 'a) \<Rightarrow> ('s, 'e, 'a) prog" where
  "gets f s = (Inr (f s), s)"

definition modify :: "('s \<Rightarrow> 's) \<Rightarrow> ('s, 'e, unit) prog" where
  "modify f s = (Inr (), f s)"

definition require :: "bool \<Rightarrow> 'e \<Rightarrow> ('s, 'e, unit) prog" where
  "require b e = (if b then return () else throw e)"

definition the_or_throw :: "'e \<Rightarrow> 'a option \<Rightarrow> ('s, 'e, 'a) prog" where
  "the_or_throw e x = (case x of None \<Rightarrow> throw e | Some y \<Rightarrow> return y)"

text \<open>\<open>try { m } finally { f }\<close> with an \<open>f\<close> whose own failure is swallowed.\<close>

definition ensure :: "('s, 'e, 'a) prog \<Rightarrow> ('s, 'e, 'b) prog \<Rightarrow> ('s, 'e, 'a) prog" where
  "ensure m f s = (case m s of (r, s') \<Rightarrow> (r, snd (f s')))"

fun for_each :: "('x \<Rightarrow> ('s, 'e, unit) prog) \<Rightarrow> 'x list \<Rightarrow> ('s, 'e, unit) prog" where
  "for_each f [] = return ()"
| "for_each f (x # xs) = bind (f x) (\<lambda>_. for_each f xs)"

text \<open>The result and the final state of a run.\<close>

abbreviation result :: "('s, 'e, 'a) prog \<Rightarrow> 's \<Rightarrow> 'e + 'a" where
  "result m s \<equiv> fst (m s)"

abbreviation final :: "('s, 'e, 'a) prog \<Rightarrow> 's \<Rightarrow> 's" where
  "final m s \<equiv> snd (m s)"

subsection \<open>Weakest preconditions\<close>

text \<open>
  \<open>wp m Q E s\<close>: run from \<open>s\<close>, the program ends in \<open>Q x s'\<close> when it returns \<open>x\<close> and in
  \<open>E e s'\<close> when it raises \<open>e\<close>. The equations below compute it along the program text.
\<close>

definition wp :: "('s, 'e, 'a) prog \<Rightarrow> ('a \<Rightarrow> 's \<Rightarrow> bool) \<Rightarrow> ('e \<Rightarrow> 's \<Rightarrow> bool) \<Rightarrow> 's \<Rightarrow> bool" where
  "wp m Q E s = (case m s of (Inl e, s') \<Rightarrow> E e s' | (Inr x, s') \<Rightarrow> Q x s')"

named_theorems wp_simps "weakest precondition equations of the program constructors"
named_theorems prog_defs "definitions of the operations of the services"

lemma wp_return [wp_simps]: "wp (return x) Q E s = Q x s"
  by (simp add: wp_def return_def)

lemma wp_return_fun: "wp (return x) Q E = Q x"
  by (rule ext) (rule wp_return)

lemma wp_throw [wp_simps]: "wp (throw e) Q E s = E e s"
  by (simp add: wp_def throw_def)

lemma wp_bind [wp_simps]: "wp (bind m f) Q E s = wp m (\<lambda>x. wp (f x) Q E) E s"
  by (simp add: wp_def bind_def split: prod.split sum.split)

text \<open>The same equation before the state is known, to split a program after an abstract step.\<close>

lemma wp_bind_fun: "wp (bind m f) Q E = wp m (\<lambda>x. wp (f x) Q E) E"
  by (rule ext) (rule wp_bind)

lemma wp_attempt [wp_simps]: "wp (attempt m h) Q E s = wp m Q (\<lambda>e. wp (h e) Q E) s"
  by (simp add: wp_def attempt_def split: prod.split sum.split)

lemma wp_ensure [wp_simps]:
  "wp (ensure m f) Q E s = wp m (\<lambda>x. wp f (\<lambda>_. Q x) (\<lambda>_. Q x)) (\<lambda>e. wp f (\<lambda>_. E e) (\<lambda>_. E e)) s"
  by (auto simp: wp_def ensure_def split: prod.split sum.split)

lemma wp_gets [wp_simps]: "wp (gets f) Q E s = Q (f s) s"
  by (simp add: wp_def gets_def)

lemma wp_modify [wp_simps]: "wp (modify f) Q E s = Q () (f s)"
  by (simp add: wp_def modify_def)

lemma wp_require [wp_simps]: "wp (require b e) Q E s = (if b then Q () s else E e s)"
  by (simp add: require_def wp_simps)

lemma wp_the_or_throw [wp_simps]:
  "wp (the_or_throw e x) Q E s = (case x of None \<Rightarrow> E e s | Some y \<Rightarrow> Q y s)"
  by (simp add: the_or_throw_def wp_simps split: option.split)

lemma wp_if [wp_simps]: "wp (if b then m else n) Q E s = (if b then wp m Q E s else wp n Q E s)"
  by simp

lemma wp_case_option [wp_simps]:
  "wp (case x of None \<Rightarrow> m | Some y \<Rightarrow> f y) Q E s =
     (case x of None \<Rightarrow> wp m Q E s | Some y \<Rightarrow> wp (f y) Q E s)"
  by (simp split: option.split)

lemma wp_case_sum [wp_simps]:
  "wp (case x of Inl a \<Rightarrow> f a | Inr b \<Rightarrow> g b) Q E s =
     (case x of Inl a \<Rightarrow> wp (f a) Q E s | Inr b \<Rightarrow> wp (g b) Q E s)"
  by (simp split: sum.split)

lemma wp_case_prod [wp_simps]:
  "wp (case x of (a, b) \<Rightarrow> f a b) Q E s = (case x of (a, b) \<Rightarrow> wp (f a b) Q E s)"
  by (simp split: prod.split)

lemma wp_let [wp_simps]: "wp (Let x f) Q E s = (let y = x in wp (f y) Q E s)"
  by (simp add: Let_def)

lemma wp_mono:
  assumes "wp m Q E s"
    and "\<And>x s'. Q x s' \<Longrightarrow> Q' x s'" and "\<And>e s'. E e s' \<Longrightarrow> E' e s'"
  shows "wp m Q' E' s"
  using assms by (auto simp: wp_def split: prod.splits sum.splits)

text \<open>Sequencing: what the first step establishes is what the second starts from. A program
  that keeps an invariant keeps it on every path.\<close>

lemma wp_seq:
  assumes "wp m P F s" and "\<And>x t. P x t \<Longrightarrow> wp (f x) Q E t" and "\<And>e t. F e t \<Longrightarrow> E e t"
  shows "wp (bind m f) Q E s"
  unfolding wp_bind by (rule wp_mono[OF assms(1)]) (use assms(2,3) in auto)

lemma wp_keeps_seq:
  assumes "wp m (\<lambda>_. I) (\<lambda>_. I) s" and "\<And>x t. I t \<Longrightarrow> wp (f x) (\<lambda>_. I) (\<lambda>_. I) t"
  shows "wp (bind m f) (\<lambda>_. I) (\<lambda>_. I) s"
  by (rule wp_seq[OF assms(1)]) (use assms(2) in auto)

text \<open>Inversion of a run that returned.\<close>

lemma bind_InrE:
  assumes "bind m f s = (Inr y, s')"
  obtains x t where "m s = (Inr x, t)" "f x t = (Inr y, s')"
  using assms by (auto simp: bind_def split: prod.splits sum.splits)

lemma require_InrD: "require b e s = (Inr u, t) \<Longrightarrow> b \<and> t = s"
  by (auto simp: require_def return_def throw_def split: if_splits)

lemma the_or_throw_InrD: "the_or_throw e x s = (Inr y, t) \<Longrightarrow> x = Some y \<and> t = s"
  by (auto simp: the_or_throw_def return_def throw_def split: option.splits)

lemma return_InrD: "return x s = (Inr y, t) \<Longrightarrow> y = x \<and> t = s"
  by (auto simp: return_def)

lemma attempt_throw_InrE:
  assumes "attempt m (\<lambda>e. throw (g e)) s = (Inr y, t)"
  shows "m s = (Inr y, t)"
  using assms by (auto simp: attempt_def throw_def split: prod.splits sum.splits)

lemma gets_InrD: "gets f s = (Inr y, t) \<Longrightarrow> y = f s \<and> t = s"
  by (auto simp: gets_def)

lemma wp_final: "wp m (\<lambda>_. P) (\<lambda>_. P) s \<longleftrightarrow> P (final m s)"
  by (simp add: wp_def split: prod.split sum.split)

lemma wp_conj:
  "wp m Q E s \<Longrightarrow> wp m Q' E' s \<Longrightarrow> wp m (\<lambda>x t. Q x t \<and> Q' x t) (\<lambda>e t. E e t \<and> E' e t) s"
  by (auto simp: wp_def split: prod.splits sum.splits)

lemma wp_result_Inr: "m s = (Inr x, s') \<Longrightarrow> wp m Q E s \<Longrightarrow> Q x s'"
  by (simp add: wp_def)

lemma wp_result_Inl: "m s = (Inl e, s') \<Longrightarrow> wp m Q E s \<Longrightarrow> E e s'"
  by (simp add: wp_def)

lemma run_eq_wp: "m s = (Inr x, t) \<longleftrightarrow> wp m (\<lambda>y u. y = x \<and> u = t) (\<lambda>_ _. False) s"
  by (auto simp: wp_def split: prod.split sum.split)

lemma run_is_wp:
  "m s = out \<longleftrightarrow> wp m (\<lambda>x t. out = (Inr x, t)) (\<lambda>e t. out = (Inl e, t)) s"
  by (auto simp: wp_def split: prod.split sum.split)

lemma result_eq_wp: "result m s = Inr x \<longleftrightarrow> wp m (\<lambda>y _. y = x) (\<lambda>_ _. False) s"
  by (auto simp: wp_def split: prod.split sum.split)

lemma wp_runD: "wp m Q (\<lambda>_ _. False) s \<Longrightarrow> \<exists>x t. m s = (Inr x, t) \<and> Q x t"
  by (auto simp: wp_def split: prod.splits sum.splits)

lemma wp_runI: "m s = (Inr x, t) \<Longrightarrow> Q x t \<Longrightarrow> wp m Q E s"
  by (simp add: wp_def)

lemma wp_for_each_keeps:
  assumes "\<And>x s. x \<in> set xs \<Longrightarrow> I s \<Longrightarrow> wp (f x) (\<lambda>_. I) E s" and "I s"
  shows "wp (for_each f xs) (\<lambda>_. I) E s"
  using assms
proof (induction xs arbitrary: s)
  case Nil
  then show ?case by (simp add: wp_simps)
next
  case (Cons x xs)
  have "wp (f x) (\<lambda>_. I) E s" using Cons.prems by simp
  then have "wp (f x) (\<lambda>_. wp (for_each f xs) (\<lambda>_. I) E) E s"
    by (rule wp_mono) (use Cons in \<open>auto\<close>)
  then show ?case by (simp add: wp_simps)
qed

lemmas run_defs = return_def throw_def bind_def attempt_def ensure_def gets_def modify_def require_def
  the_or_throw_def

section \<open>Tables: lists of rows with a key\<close>

text \<open>
  A database table is the list of its rows in insertion order. \<open>find_row\<close> is a read by
  primary key, \<open>update_row\<close> an update by primary key, \<open>update_where\<close> an \<open>updateMany\<close>.
\<close>

definition find_row :: "('r \<Rightarrow> nat) \<Rightarrow> nat \<Rightarrow> 'r list \<Rightarrow> 'r option" where
  "find_row key i rows = List.find (\<lambda>r. key r = i) rows"

definition update_where :: "('r \<Rightarrow> bool) \<Rightarrow> ('r \<Rightarrow> 'r) \<Rightarrow> 'r list \<Rightarrow> 'r list" where
  "update_where p f rows = map (\<lambda>r. if p r then f r else r) rows"

definition update_row :: "('r \<Rightarrow> nat) \<Rightarrow> nat \<Rightarrow> ('r \<Rightarrow> 'r) \<Rightarrow> 'r list \<Rightarrow> 'r list" where
  "update_row key i f rows = update_where (\<lambda>r. key r = i) f rows"

definition unique_keys :: "('r \<Rightarrow> nat) \<Rightarrow> 'r list \<Rightarrow> bool" where
  "unique_keys key rows = distinct (map key rows)"

lemma find_row_Nil [simp]: "find_row key i [] = None"
  by (simp add: find_row_def)

lemma find_row_Cons [simp]:
  "find_row key i (r # rows) = (if key r = i then Some r else find_row key i rows)"
  by (simp add: find_row_def)

lemma update_row_Nil [simp]: "update_row key i f [] = []"
  by (simp add: update_row_def update_where_def)

lemma update_row_Cons [simp]:
  "update_row key i f (r # rows) = (if key r = i then f r else r) # update_row key i f rows"
  by (simp add: update_row_def update_where_def)

lemma find_row_key: "find_row key i rows = Some r \<Longrightarrow> key r = i"
  by (induction rows) (auto split: if_splits)

lemma find_row_in_set: "find_row key i rows = Some r \<Longrightarrow> r \<in> set rows"
  by (induction rows) (auto split: if_splits)

lemma find_SomeD: "List.find p xs = Some x \<Longrightarrow> x \<in> set xs \<and> p x"
  by (induction xs) (auto split: if_splits)

lemma find_unique:
  assumes "distinct (map key rows)" "r \<in> set rows" "p r" "\<And>x. p x \<Longrightarrow> key x = key r"
  shows "List.find p rows = Some r"
proof -
  have "List.find p rows \<noteq> None" using assms(2,3) by (auto simp: find_None_iff)
  then obtain x where x: "List.find p rows = Some x" by auto
  then have "x \<in> set rows" "key x = key r" using find_SomeD[OF x] assms(4) by auto
  then have "x = r" using assms(1,2) by (metis inj_on_contraD distinct_map)
  with x show ?thesis by simp
qed

lemma find_append:
  "List.find p (xs @ ys) = (case List.find p xs of None \<Rightarrow> List.find p ys | Some x \<Rightarrow> Some x)"
  by (induction xs) auto

lemma find_row_append:
  "find_row key i (xs @ ys) = (case find_row key i xs of None \<Rightarrow> find_row key i ys | Some r \<Rightarrow> Some r)"
  by (induction xs) auto

lemma find_row_None_iff: "find_row key i rows = None \<longleftrightarrow> i \<notin> key ` set rows"
  by (induction rows) auto

lemma find_row_unique:
  "unique_keys key rows \<Longrightarrow> r \<in> set rows \<Longrightarrow> find_row key (key r) rows = Some r"
  by (induction rows) (auto simp: unique_keys_def)

lemma find_row_update_row:
  assumes "\<And>r. key (f r) = key r"
  shows "find_row key j (update_row key i f rows) =
           (if i = j then map_option f (find_row key j rows) else find_row key j rows)"
  using assms by (induction rows) auto

lemma find_row_update_where:
  "(\<And>r. key (f r) = key r) \<Longrightarrow>
   find_row key j (update_where p f rows) = map_option (\<lambda>r. if p r then f r else r) (find_row key j rows)"
  by (induction rows) (auto simp: update_where_def)

lemma update_row_twice:
  "(\<And>r. key (g r) = key r) \<Longrightarrow> update_row key i f (update_row key i g rows) = update_row key i (\<lambda>r. f (g r)) rows"
  by (induction rows) auto

lemma find_owned:
  "find_row key i rows = Some r \<Longrightarrow> q r \<Longrightarrow> List.find (\<lambda>x. key x = i \<and> q x) rows = Some r"
  by (induction rows) (auto split: if_splits)

lemma map_key_update_row:
  "(\<And>r. key (f r) = key r) \<Longrightarrow> map key (update_row key i f rows) = map key rows"
  by (induction rows) auto

lemma unique_keys_update_row:
  "(\<And>r. key (f r) = key r) \<Longrightarrow> unique_keys key (update_row key i f rows) = unique_keys key rows"
  by (simp add: unique_keys_def map_key_update_row)

lemma unique_keys_append_one:
  "unique_keys key (rows @ [r]) \<longleftrightarrow> unique_keys key rows \<and> key r \<notin> key ` set rows"
  by (auto simp: unique_keys_def)

lemma set_update_row:
  "x \<in> set (update_row key i f rows) \<longleftrightarrow>
     (\<exists>r\<in>set rows. x = (if key r = i then f r else r))"
  by (induction rows) auto

lemma set_update_where:
  "x \<in> set (update_where p f rows) \<longleftrightarrow> (\<exists>r\<in>set rows. x = (if p r then f r else r))"
  by (induction rows) (auto simp: update_where_def)

lemma map_update_row_same:
  "(\<And>r. r \<in> set rows \<Longrightarrow> key r = i \<Longrightarrow> g (f r) = g r) \<Longrightarrow> map g (update_row key i f rows) = map g rows"
  by (induction rows) auto

lemma length_update_row [simp]: "length (update_row key i f rows) = length rows"
  by (induction rows) auto

lemma filter_update_row_other:
  "(\<And>r. r \<in> set rows \<Longrightarrow> key r = i \<Longrightarrow> p (f r) = p r \<and> \<not> p r) \<Longrightarrow>
     filter p (update_row key i f rows) = filter p rows"
  by (induction rows) auto

text \<open>\<open>findFirst\<close> with \<open>orderBy: { time: 'desc' }\<close>: a row with the greatest time.\<close>

fun latest_by :: "('r \<Rightarrow> int) \<Rightarrow> 'r list \<Rightarrow> 'r option" where
  "latest_by key [] = None"
| "latest_by key (r # rows) = (case latest_by key rows of
     None \<Rightarrow> Some r | Some r' \<Rightarrow> if key r < key r' then Some r' else Some r)"

lemma latest_by_None [simp]: "latest_by key rows = None \<longleftrightarrow> rows = []"
  by (cases rows) (auto split: option.splits if_splits)

lemma latest_by_SomeD:
  "latest_by key rows = Some r \<Longrightarrow> r \<in> set rows \<and> (\<forall>r'\<in>set rows. key r' \<le> key r)"
proof (induction rows arbitrary: r)
  case (Cons a rows)
  show ?case
  proof (cases "latest_by key rows")
    case None
    then show ?thesis using Cons.prems by simp
  next
    case (Some b)
    then show ?thesis using Cons.IH[OF Some] Cons.prems by (fastforce split: if_splits)
  qed
qed simp

text \<open>\<open>x ?? d\<close>.\<close>

definition or_else :: "'a option \<Rightarrow> 'a \<Rightarrow> 'a" where
  "or_else x d = (case x of None \<Rightarrow> d | Some y \<Rightarrow> y)"

section \<open>Decimal digits of integers\<close>

text \<open>\<open>Decimal.toFixed(0)\<close> of a whole number and template literals: the decimal digits.\<close>

fun show_nat :: "nat \<Rightarrow> string" where
  "show_nat n = (if n < 10 then [char_of (48 + n)] else show_nat (n div 10) @ [char_of (48 + n mod 10)])"

declare show_nat.simps [simp del]

definition show_int :: "int \<Rightarrow> string" where
  "show_int i = (if i < 0 then ''-'' @ show_nat (nat (- i)) else show_nat (nat i))"

text \<open>\<open>padStart(n, '0')\<close>, and \<open>toLowerCase\<close> on ASCII text.\<close>

definition pad_zeros :: "nat \<Rightarrow> string \<Rightarrow> string" where
  "pad_zeros n s = replicate (n - length s) CHR ''0'' @ s"

definition lower_char :: "char \<Rightarrow> char" where
  "lower_char c = (let n = of_char c :: nat in if 65 \<le> n \<and> n \<le> 90 then char_of (n + 32) else c)"

definition to_lower :: "string \<Rightarrow> string" where
  "to_lower s = map lower_char s"

text \<open>\<open>Array.join\<close>.\<close>

fun join_with :: "string \<Rightarrow> string list \<Rightarrow> string" where
  "join_with sep [] = []"
| "join_with sep [s] = s"
| "join_with sep (s # t # ts) = s @ sep @ join_with sep (t # ts)"

definition read_digits :: "string \<Rightarrow> nat" where
  "read_digits s = foldl (\<lambda>n c. 10 * n + (of_char c - 48)) 0 s"

definition read_int :: "string \<Rightarrow> int" where
  "read_int s = (case s of [] \<Rightarrow> 0
     | c # cs \<Rightarrow> if c = CHR ''-'' then - int (read_digits cs) else int (read_digits (c # cs)))"

lemma read_digits_snoc: "read_digits (s @ [c]) = 10 * read_digits s + (of_char c - 48)"
  by (simp add: read_digits_def)

lemma read_show_nat: "read_digits (show_nat n) = n"
proof (induction n rule: show_nat.induct)
  case (1 n)
  show ?case
  proof (cases "n < 10")
    case True
    then show ?thesis
      by (subst show_nat.simps) (simp add: read_digits_def)
  next
    case False
    with 1 have "read_digits (show_nat (n div 10)) = n div 10" by simp
    with False show ?thesis
      by (subst show_nat.simps) (simp add: read_digits_snoc)
  qed
qed

lemma show_nat_not_minus: "show_nat n \<noteq> [] \<and> CHR ''-'' \<notin> set (show_nat n)"
proof (induction n rule: show_nat.induct)
  case (1 n)
  have digit: "char_of (48 + k) \<noteq> CHR ''-''" if "k < 10" for k :: nat
  proof
    assume "char_of (48 + k) = CHR ''-''"
    then have "of_char (char_of (48 + k) :: char) = (of_char CHR ''-'' :: nat)" by simp
    with that show False by simp
  qed
  show ?case
  proof (cases "n < 10")
    case True
    with digit[of n] show ?thesis by (subst (1 2) show_nat.simps) auto
  next
    case False
    have "n mod 10 < 10" by simp
    from False 1 digit[OF this] show ?thesis by (subst (1 2) show_nat.simps) auto
  qed
qed

lemma read_show_int: "read_int (show_int i) = i"
proof (cases "i < 0")
  case True
  then show ?thesis by (simp add: show_int_def read_int_def read_show_nat)
next
  case False
  have *: "show_nat (nat i) \<noteq> []" "CHR ''-'' \<notin> set (show_nat (nat i))"
    using show_nat_not_minus by auto
  then obtain c cs where s: "show_nat (nat i) = c # cs" and "c \<noteq> CHR ''-''"
    by (cases "show_nat (nat i)") auto
  with False show ?thesis
    using read_show_nat[of "nat i"] by (simp add: show_int_def read_int_def)
qed

end
