(* ===== verification/Schema.thy ===== *)
theory Schema
  imports Prelude
begin

text \<open>
  The data model: the enumerations and tables of \<open>prisma/schema.prisma\<close> that the modelled
  services read and write. A table is a list of rows in insertion order. Identifiers
  (UUIDs) are natural numbers, times are milliseconds since the epoch, money and rates are
  rationals (the scale of each column is applied by the operations that write it), SAT
  amounts are integers. \<open>updated_at\<close> columns and relation fields are left out: the former is
  maintained by Prisma and never read by the services, the latter follow the foreign keys.
\<close>

type_synonym id = nat
type_synonym time = int
type_synonym money = rat
type_synonym sats = int

section \<open>Enumerations\<close>

datatype KycStatus = PENDING | UNDER_REVIEW | VERIFIED | FAILED

datatype KycIdType = BVN | NIN | PASSPORT | DRIVERS_LICENSE

datatype LoanApplicationStatus = NEW | CONTACTED | APPROVED | REJECTED | CLOSED

datatype LoanApplicationCollateralType =
    BITCOIN | USDT_USDC | MACBOOK_M1_OR_NEWER | IPHONE_13_OR_NEWER | CAR_2008_OR_NEWER

datatype LoanStatus = PENDING_COLLATERAL | ACTIVE | REPAID | LIQUIDATED | EXPIRED | CANCELLED

datatype RepaymentMethod = NGN | SAT

datatype DisbursementAccountKind = BANK | MOBILE_MONEY | CRYPTO_ADDRESS

datatype DisbursementAccountStatus = PENDING_VERIFICATION | VERIFIED | REJECTED

datatype PaymentRequestType = COLLATERAL | OFFRAMP_DEPOSIT

datatype PaymentNetwork = LIGHTNING | BTC_ONCHAIN | TRC20 | ERC20 | BANK_TRANSFER

datatype PaymentRequestStatus = PENDING | PAID | EXPIRED | CANCELLED

datatype DisbursementType = LOAN | OFFRAMP

datatype DisbursementRail = BANK_TRANSFER | MOBILE_MONEY | LIGHTNING | ONCHAIN

datatype DisbursementStatus = PENDING | PROCESSING | ON_HOLD | SUCCESSFUL | CANCELLED

datatype OutflowStatus = PENDING | PROCESSING | SUCCESSFUL | FAILED

datatype AssetPair = SAT_NGN | BTC_NGN | USDT_NGN | USDC_NGN

datatype TopUpStatus = PENDING_COLLATERAL | RECEIVED | EXPIRED | CANCELLED

datatype StatusTrigger = CUSTOMER | SYSTEM | COLLATERAL_WEBHOOK | DISBURSEMENT_WEBHOOK

text \<open>The string literal types of the services.\<close>

datatype MatchMethod = AUTO_AMOUNT | CUSTOMER_CLAIM | OPS_MANUAL

datatype SourceType = SOURCE_LOAN | SOURCE_OFFRAMP | SOURCE_LOAN_REPAYMENT

datatype Currency = CUR_NGN | CUR_SAT

text \<open>\<open>LoanReasonCodes\<close> of \<open>common/constants\<close>.\<close>

datatype LoanReasonCode =
    LOAN_CREATED | COLLATERAL_CONFIRMED | DISBURSEMENT_CONFIRMED | REPAYMENT_PARTIAL_NGN
  | REPAYMENT_COMPLETED | COLLATERAL_TOPPED_UP | COLLATERAL_RELEASED | LIQUIDATION_TRIGGERED
  | LIQUIDATION_COMPLETED | LIQUIDATION_REVERSED_BAD_RATE | INVOICE_EXPIRED
  | CUSTOMER_CANCELLED

text \<open>The reason marker that the collection webhook writes into \<open>provider_response\<close>.\<close>

datatype UnmatchedReason =
    no_user_for_va | below_floor | no_active_loans | multiple_active_loans | credit_failed
  | requery_unconfirmed | requery_mismatch

datatype json_value = JStr string | JNum rat | JInt int

section \<open>Tables\<close>

record user_row =
  u_id :: id
  u_email :: string
  u_email_verified :: bool
  u_totp_secret :: "string option"
  u_totp_enabled :: bool
  u_transaction_pin_hash :: "string option"
  u_transaction_pin_set_at :: "time option"
  u_transaction_pin_failed_attempts :: nat
  u_transaction_pin_locked_until :: "time option"
  u_is_active :: bool
  u_disbursement_enabled :: bool
  u_loan_enabled :: bool
  u_kyc_tier :: nat
  u_first_name :: "string option"
  u_middle_name :: "string option"
  u_last_name :: "string option"
  u_date_of_birth :: "time option"
  u_created_at :: time

record session_row =
  s_id :: id
  s_user_id :: id
  s_token_hash :: string
  s_expires_at :: time
  s_created_at :: time

record kyc_row =
  k_id :: id
  k_user_id :: id
  k_tier :: nat
  k_id_type :: "KycIdType option"
  k_id_number_hash :: "string option"
  k_encrypted_id_number :: "string option"
  k_legal_name :: "string option"
  k_date_of_birth :: "time option"
  k_status :: KycStatus
  k_failure_reason :: "string option"
  k_provider_reference :: "string option"
  k_provider_raw_response :: "string option"
  k_verified_at :: "time option"
  k_created_at :: time

record account_row =
  acct_id :: id
  acct_user_id :: id
  acct_kind :: DisbursementAccountKind
  acct_provider_name :: string
  acct_provider_code :: string
  acct_account_unique :: string
  acct_holder_name :: "string option"
  acct_is_default :: bool
  acct_status :: DisbursementAccountStatus
  acct_account_unique_tag :: "string option"
  acct_label :: "string option"
  acct_name_match_score :: "rat option"
  acct_verified_at :: "time option"
  acct_created_at :: time

record payment_request_row =
  pr_id :: id
  pr_user_id :: id
  pr_request_type :: PaymentRequestType
  pr_source_type :: SourceType
  pr_source_id :: id
  pr_network :: PaymentNetwork
  pr_expected_amount :: money
  pr_currency :: Currency
  pr_receiving_address :: string
  pr_payment_request :: "string option"
  pr_provider_reference :: "string option"
  pr_status :: PaymentRequestStatus
  pr_expires_at :: time
  pr_paid_at :: "time option"
  pr_inflow_id :: "id option"
  pr_created_at :: time

record provider_response =
  resp_unmatched_reason :: "UnmatchedReason option"
  resp_payer_name :: "string option"
  resp_payer_bank_name :: "string option"

record inflow_row =
  in_id :: id
  in_user_id :: "id option"
  in_amount :: money
  in_currency :: Currency
  in_network :: PaymentNetwork
  in_receiving_address :: string
  in_provider_reference :: string
  in_is_matched :: bool
  in_matched_at :: "time option"
  in_source_type :: "SourceType option"
  in_source_id :: "id option"
  in_provider_response :: "provider_response option"
  in_created_at :: time

record disbursement_row =
  dis_id :: id
  dis_user_id :: id
  dis_type :: DisbursementType
  dis_rail :: DisbursementRail
  dis_source_type :: DisbursementType
  dis_source_id :: id
  dis_amount :: money
  dis_currency :: Currency
  dis_provider_name :: string
  dis_provider_code :: "string option"
  dis_account_unique :: string
  dis_account_name :: "string option"
  dis_status :: DisbursementStatus
  dis_failure_reason :: "string option"
  dis_on_hold_at :: "time option"
  dis_on_hold_alerted_at :: "time option"
  dis_cancelled_at :: "time option"
  dis_cancelled_by_ops_user_id :: "id option"
  dis_cancellation_reason :: "string option"
  dis_created_at :: time

record outflow_row =
  out_id :: id
  out_disbursement_id :: id
  out_user_id :: id
  out_attempt_number :: nat
  out_provider :: string
  out_provider_reference :: string
  out_provider_tx_id :: "string option"
  out_status :: OutflowStatus
  out_failure_reason :: "string option"
  out_failure_code :: "string option"
  out_initiated_at :: "time option"
  out_confirmed_at :: "time option"
  out_created_at :: time

record price_feed_row =
  pf_id :: id
  pf_pair :: AssetPair
  pf_rate_buy_origin :: rat
  pf_rate_sell_origin :: rat
  pf_rate_buy :: rat
  pf_rate_sell :: rat
  pf_markup_percent :: rat
  pf_source :: string
  pf_fetched_at :: time

record loan_row =
  l_id :: id
  l_user_id :: id
  l_disbursement_account_id :: id
  l_collateral_amount_sat :: sats
  l_ltv_percent :: rat
  l_principal_ngn :: money
  l_origination_fee_ngn :: money
  l_daily_interest_rate_bps :: nat
  l_daily_custody_fee_ngn :: money
  l_initial_collateral_usd :: money
  l_sat_ngn_rate_at_creation :: rat
  l_status :: LoanStatus
  l_collateral_received_at :: "time option"
  l_disbursement_id :: "id option"
  l_repayment_method :: "RepaymentMethod option"
  l_repayment_reference :: "id option"
  l_repaid_at :: "time option"
  l_collateral_release_address :: "string option"
  l_collateral_released_at :: "time option"
  l_collateral_release_reference :: "string option"
  l_liquidated_at :: "time option"
  l_liquidation_reference :: "string option"
  l_liquidation_rate_actual :: "rat option"
  l_surplus_released_sat :: "sats option"
  l_terms_accepted_at :: time
  l_created_at :: time

record repayment_account_row =
  va_id :: id
  va_user_id :: id
  va_virtual_account_no :: string
  va_virtual_account_name :: string
  va_bank_name :: string
  va_provider :: string
  va_is_active :: bool
  va_deactivated_at :: "time option"
  va_created_at :: time

record repayment_row =
  rep_id :: id
  rep_loan_id :: id
  rep_inflow_id :: id
  rep_amount_ngn :: money
  rep_applied_to_principal :: money
  rep_applied_to_interest :: money
  rep_applied_to_custody :: money
  rep_overpay_ngn :: money
  rep_match_method :: MatchMethod
  rep_created_at :: time

record topup_row =
  tu_id :: id
  tu_loan_id :: id
  tu_provider_ref :: string
  tu_payment_request :: string
  tu_receiving_address :: string
  tu_expected_amount_sat :: sats
  tu_expires_at :: time
  tu_status :: TopUpStatus

record status_log_row =
  sl_id :: id
  sl_loan_id :: id
  sl_user_id :: id
  sl_from_status :: "LoanStatus option"
  sl_to_status :: LoanStatus
  sl_triggered_by :: StatusTrigger
  sl_triggered_by_id :: "string option"
  sl_reason_code :: LoanReasonCode
  sl_reason_detail :: "string option"
  sl_metadata :: "(string \<times> json_value) list"
  sl_created_at :: time

record webhook_log_row =
  wh_id :: id
  wh_provider :: string
  wh_received_at :: time
  wh_http_method :: string
  wh_http_path :: string
  wh_headers :: "(string \<times> string) list"
  wh_raw_body :: string
  wh_body_length :: nat
  wh_signature_valid :: "bool option"
  wh_outcome :: string
  wh_outcome_detail :: "string option"
  wh_processed_at :: "time option"
  wh_external_reference :: "string option"

record ops_user_row =
  ou_id :: id
  ou_email :: string
  ou_password_hash :: string
  ou_totp_secret :: "string option"
  ou_totp_enabled :: bool
  ou_full_name :: string
  ou_is_active :: bool
  ou_last_login_at :: "time option"

record ops_session_row =
  os_id :: id
  os_ops_user_id :: id
  os_token_hash :: string
  os_expires_at :: time
  os_ip_address :: "string option"
  os_user_agent :: "string option"
  os_created_at :: time

record loan_application_row =
  la_id :: id
  la_first_name :: string
  la_last_name :: string
  la_email :: string
  la_phone :: string
  la_collateral_type :: LoanApplicationCollateralType
  la_collateral_description :: "string option"
  la_loan_amount_ngn :: money
  la_status :: LoanApplicationStatus
  la_client_ip :: "string option"
  la_user_agent :: "string option"
  la_created_at :: time

record audit_row =
  au_id :: id
  au_ops_user_id :: id
  au_action :: string
  au_target_type :: string
  au_target_id :: string
  au_created_at :: time

end
