(* ===== verification/Errors.thy ===== *)
theory Errors
  imports Schema
begin

text \<open>
  The exceptions of \<open>common/errors/bitmonie.errors.ts\<close> and what the API answers for them
  (\<open>common/filters/global-exception.filter.ts\<close>). An exception is a value of one datatype,
  its constructor arguments are the contexts of the TypeScript constructors; each section
  of the errors file is one datatype and one function to the code, the HTTP status and the details. The
  customer-facing message texts are not modelled. \<open>BitmonieException\<close> is the base class where a
  service raises it directly. \<open>PrismaUniqueViolation\<close> is Prisma's P2002
  on the named index, \<open>PrismaRecordNotFound\<close> its P2025, \<open>OtherError\<close> any other rejection.
\<close>

section \<open>The exceptions\<close>

datatype loan_exn =
    PriceFeedStaleException int "string option"
  | LoanKycRequiredException
  | LoanDisbursementAccountRequiredException
  | LoanAmountTooLowException string
  | LoanAmountTooHighException string
  | LoanInvalidTransitionException LoanStatus LoanStatus
  | LoanNotFoundException
  | LoanNotActiveException LoanStatus
  | LoanNotActiveForDisbursementException LoanStatus
  | LoanHasActiveDisbursementException id DisbursementStatus
  | LoanNotLiquidatedException LoanStatus
  | LiquidationNotBadRateException "rat option" rat rat

datatype inflow_exn =
    InflowBelowFloorException string string
  | PendingLoanAlreadyExistsException
  | AddCollateralAlreadyPendingException
  | NoUnmatchedInflowException
  | InflowNotFoundException
  | InflowAlreadyMatchedException "time option" "id option"
  | CollateralAlreadyReleasedException time "string option"
  | ReleaseAddressAlreadySetException
  | ReleaseAddressOtpRequiredException
  | ReleaseAddressNotYetSetException
  | CollateralReleaseNotEligibleException string
  | CollateralReleaseSendFailedException string
  | RepaymentAccountNotReadyException

datatype disbursement_account_exn =
    DisbursementAccountNameMismatchException rat
  | DisbursementAccountDuplicateException
  | DisbursementAccountLookupFailedException
  | DisbursementAccountMaxPerKindException DisbursementAccountKind nat
  | DisbursementAccountUnverifiedException

datatype kyc_exn =
    KycAlreadyVerifiedException
  | KycUpgradeRequiredException nat
  | KycBiodataMismatchException
  | KycPendingException
  | KycNotFoundException
  | KycIdNumberTakenException

datatype disbursement_exn =
    CollateralInvoiceFailedException
  | DisbursementTransferFailedException
  | DisbursementNotFoundException
  | DisbursementNotOnHoldException DisbursementStatus
  | DisbursementTerminalException DisbursementStatus
  | DisbursementNoActiveOutflowException

datatype auth_exn =
    AccountSuspendedException
  | DisbursementDisabledException
  | LoanDisabledException
  | AuthInvalidCredentialsException
  | AuthOtpExpiredException
  | AuthOtpMaxAttemptsException
  | Auth2faRequiredException

datatype pin_exn =
    TransactionPinNotSetException
  | TransactionPinAlreadySetException
  | TransactionPinInvalidException
  | TransactionPinLockedException time
  | TransactionFactorRequiredException
  | TransactionFactorNotSetException

datatype ops_exn =
    OpsInvalidCredentialsException
  | OpsTwoFactorRequiredException string
  | OpsTwoFactorEnrolmentRequiredException string
  | OpsTwoFactorInvalidException
  | OpsSessionInvalidException
  | OpsUserDisabledException
  | OpsTargetUserNotFoundException

datatype exn =
    LoanE loan_exn
  | InflowE inflow_exn
  | DisbursementAccountE disbursement_account_exn
  | KycE kyc_exn
  | DisbursementE disbursement_exn
  | AuthE auth_exn
  | PinE pin_exn
  | OpsE ops_exn
  | IdempotencyConflictException
  | BitmonieException string nat
  | UnauthorizedException string
  | NotFoundException string
  | BadRequestException string
  | PrismaUniqueViolation string
  | PrismaRecordNotFound
  | PrismaForeignKeyViolation string
  | OtherError string

section \<open>Code, HTTP status and details\<close>

datatype detail_value =
    DText string | DTime time | DRat rat | DNull | DId id | DLoanStatus LoanStatus
  | DDisbursementStatus DisbursementStatus | DKind DisbursementAccountKind nat | DAge int

record http_error =
  he_code :: string
  he_status :: nat
  he_details :: "(string \<times> detail_value) list"

definition http_error :: "string \<Rightarrow> nat \<Rightarrow> (string \<times> detail_value) list \<Rightarrow> http_error" where
  "http_error c st ds = \<lparr>he_code = c, he_status = st, he_details = ds\<rparr>"

definition loan_exception :: "loan_exn \<Rightarrow> http_error" where
  "loan_exception e = (case e of
     PriceFeedStaleException ms pair \<Rightarrow>
       http_error ''PRICE_FEED_STALE'' 422
         [(case pair of None \<Rightarrow> ''rate'' | Some p \<Rightarrow> p, DAge ms)]
   | LoanKycRequiredException \<Rightarrow> http_error ''LOAN_KYC_REQUIRED'' 422 []
   | LoanDisbursementAccountRequiredException \<Rightarrow>
       http_error ''LOAN_DISBURSEMENT_ACCOUNT_REQUIRED'' 422 []
   | LoanAmountTooLowException m \<Rightarrow>
       http_error ''LOAN_AMOUNT_TOO_LOW'' 400 [(''principal_ngn'', DText (''Minimum is N'' @ m))]
   | LoanAmountTooHighException m \<Rightarrow>
       http_error ''LOAN_AMOUNT_TOO_HIGH'' 400 [(''principal_ngn'', DText (''Maximum is N'' @ m))]
   | LoanInvalidTransitionException _ _ \<Rightarrow> http_error ''LOAN_INVALID_TRANSITION'' 409 []
   | LoanNotFoundException \<Rightarrow> http_error ''LOAN_NOT_FOUND'' 404 []
   | LoanNotActiveException st \<Rightarrow>
       http_error ''LOAN_NOT_ACTIVE'' 409 [(''status'', DLoanStatus st)]
   | LoanNotActiveForDisbursementException st \<Rightarrow>
       http_error ''LOAN_NOT_ACTIVE_FOR_DISBURSEMENT'' 409 [(''status'', DLoanStatus st)]
   | LoanHasActiveDisbursementException i st \<Rightarrow>
       http_error ''LOAN_HAS_ACTIVE_DISBURSEMENT'' 409
         [(''disbursement_id'', DId i), (''status'', DDisbursementStatus st)]
   | LoanNotLiquidatedException st \<Rightarrow>
       http_error ''LOAN_NOT_LIQUIDATED'' 409 [(''status'', DLoanStatus st)]
   | LiquidationNotBadRateException actual creation limit \<Rightarrow>
       http_error ''LIQUIDATION_NOT_BAD_RATE'' 409
         [(''liquidation_rate_actual'', case actual of None \<Rightarrow> DNull | Some r \<Rightarrow> DRat r),
          (''sat_ngn_rate_at_creation'', DRat creation), (''sanity_floor'', DRat limit)])"

definition inflow_exception :: "inflow_exn \<Rightarrow> http_error" where
  "inflow_exception e = (case e of
     InflowBelowFloorException received least \<Rightarrow>
       http_error ''INFLOW_BELOW_FLOOR'' 422
         [(''amount_ngn'', DText (''Received '' @ received @ '' but minimum is '' @ least))]
   | PendingLoanAlreadyExistsException \<Rightarrow> http_error ''LOAN_PENDING_ALREADY_EXISTS'' 409 []
   | AddCollateralAlreadyPendingException \<Rightarrow> http_error ''ADD_COLLATERAL_ALREADY_PENDING'' 409 []
   | NoUnmatchedInflowException \<Rightarrow> http_error ''NO_UNMATCHED_INFLOW'' 404 []
   | InflowNotFoundException \<Rightarrow> http_error ''INFLOW_NOT_FOUND'' 404 []
   | InflowAlreadyMatchedException m src \<Rightarrow>
       http_error ''INFLOW_ALREADY_MATCHED'' 409
         ((case m of None \<Rightarrow> [] | Some t \<Rightarrow> [(''matched_at'', DTime t)]) @
          (case src of None \<Rightarrow> [] | Some i \<Rightarrow> [(''source_id'', DId i)]))
   | CollateralAlreadyReleasedException t ref \<Rightarrow>
       http_error ''COLLATERAL_ALREADY_RELEASED'' 409
         ((''released_at'', DTime t) #
          (case ref of None \<Rightarrow> [] | Some r \<Rightarrow> if r = [] then [] else [(''reference'', DText r)]))
   | ReleaseAddressAlreadySetException \<Rightarrow> http_error ''RELEASE_ADDRESS_ALREADY_SET'' 409 []
   | ReleaseAddressOtpRequiredException \<Rightarrow> http_error ''RELEASE_ADDRESS_OTP_REQUIRED'' 422 []
   | ReleaseAddressNotYetSetException \<Rightarrow> http_error ''RELEASE_ADDRESS_NOT_YET_SET'' 409 []
   | CollateralReleaseNotEligibleException reason \<Rightarrow>
       http_error ''COLLATERAL_RELEASE_NOT_ELIGIBLE'' 409 [(''reason'', DText reason)]
   | CollateralReleaseSendFailedException err \<Rightarrow>
       http_error ''COLLATERAL_RELEASE_SEND_FAILED'' 502 [(''error'', DText err)]
   | RepaymentAccountNotReadyException \<Rightarrow> http_error ''REPAYMENT_ACCOUNT_NOT_READY'' 422 [])"

definition disbursement_account_exception :: "disbursement_account_exn \<Rightarrow> http_error" where
  "disbursement_account_exception e = (case e of
     DisbursementAccountNameMismatchException score \<Rightarrow>
       http_error ''DISBURSEMENT_ACCOUNT_NAME_MISMATCH'' 422 [(''account_unique'', DRat score)]
   | DisbursementAccountDuplicateException \<Rightarrow>
       http_error ''DISBURSEMENT_ACCOUNT_DUPLICATE'' 409
         [(''account_unique'', DText ''An account with the same provider_code and account_unique already exists for this kind'')]
   | DisbursementAccountLookupFailedException \<Rightarrow>
       http_error ''DISBURSEMENT_ACCOUNT_LOOKUP_FAILED'' 422
         [(''account_unique'', DText ''Provider returned no account holder for this bank/account combination'')]
   | DisbursementAccountMaxPerKindException kind limit \<Rightarrow>
       http_error ''DISBURSEMENT_ACCOUNT_MAX_PER_KIND'' 400 [(''kind'', DKind kind limit)]
   | DisbursementAccountUnverifiedException \<Rightarrow>
       http_error ''DISBURSEMENT_ACCOUNT_UNVERIFIED'' 422 [])"

definition kyc_exception :: "kyc_exn \<Rightarrow> http_error" where
  "kyc_exception e = (case e of
     KycAlreadyVerifiedException \<Rightarrow> http_error ''KYC_ALREADY_VERIFIED'' 409 []
   | KycUpgradeRequiredException tier \<Rightarrow>
       http_error ''KYC_UPGRADE_REQUIRED'' 403
         [(''kyc_tier'', DText (''Required tier: '' @ show_nat tier))]
   | KycBiodataMismatchException \<Rightarrow> http_error ''KYC_BIODATA_MISMATCH'' 422 []
   | KycPendingException \<Rightarrow> http_error ''KYC_PENDING'' 403 []
   | KycNotFoundException \<Rightarrow> http_error ''KYC_NOT_FOUND'' 404 []
   | KycIdNumberTakenException \<Rightarrow> http_error ''KYC_ID_NUMBER_TAKEN'' 409 [])"

definition disbursement_exception :: "disbursement_exn \<Rightarrow> http_error" where
  "disbursement_exception e = (case e of
     CollateralInvoiceFailedException \<Rightarrow> http_error ''COLLATERAL_INVOICE_FAILED'' 500 []
   | DisbursementTransferFailedException \<Rightarrow> http_error ''DISBURSEMENT_TRANSFER_FAILED'' 500 []
   | DisbursementNotFoundException \<Rightarrow> http_error ''DISBURSEMENT_NOT_FOUND'' 404 []
   | DisbursementNotOnHoldException st \<Rightarrow>
       http_error ''DISBURSEMENT_NOT_ON_HOLD'' 409 [(''status'', DDisbursementStatus st)]
   | DisbursementTerminalException st \<Rightarrow>
       http_error ''DISBURSEMENT_TERMINAL'' 409 [(''status'', DDisbursementStatus st)]
   | DisbursementNoActiveOutflowException \<Rightarrow> http_error ''DISBURSEMENT_NO_ACTIVE_OUTFLOW'' 409 [])"

definition auth_exception :: "auth_exn \<Rightarrow> http_error" where
  "auth_exception e = (case e of
     AccountSuspendedException \<Rightarrow> http_error ''ACCOUNT_SUSPENDED'' 403 []
   | DisbursementDisabledException \<Rightarrow> http_error ''DISBURSEMENT_DISABLED'' 403 []
   | LoanDisabledException \<Rightarrow> http_error ''LOAN_DISABLED'' 403 []
   | AuthInvalidCredentialsException \<Rightarrow> http_error ''AUTH_INVALID_CREDENTIALS'' 401 []
   | AuthOtpExpiredException \<Rightarrow> http_error ''AUTH_OTP_EXPIRED'' 422 []
   | AuthOtpMaxAttemptsException \<Rightarrow> http_error ''AUTH_OTP_MAX_ATTEMPTS'' 429 []
   | Auth2faRequiredException \<Rightarrow> http_error ''AUTH_2FA_REQUIRED'' 401 [])"

definition pin_exception :: "pin_exn \<Rightarrow> http_error" where
  "pin_exception e = (case e of
     TransactionPinNotSetException \<Rightarrow> http_error ''TRANSACTION_PIN_NOT_SET'' 409 []
   | TransactionPinAlreadySetException \<Rightarrow> http_error ''TRANSACTION_PIN_ALREADY_SET'' 409 []
   | TransactionPinInvalidException \<Rightarrow> http_error ''TRANSACTION_PIN_INVALID'' 401 []
   | TransactionPinLockedException t \<Rightarrow>
       http_error ''TRANSACTION_PIN_LOCKED'' 429 [(''unlocks_at'', DTime t)]
   | TransactionFactorRequiredException \<Rightarrow> http_error ''TRANSACTION_FACTOR_REQUIRED'' 422 []
   | TransactionFactorNotSetException \<Rightarrow> http_error ''TRANSACTION_FACTOR_NOT_SET'' 422 [])"

definition ops_exception :: "ops_exn \<Rightarrow> http_error" where
  "ops_exception e = (case e of
     OpsInvalidCredentialsException \<Rightarrow> http_error ''OPS_INVALID_CREDENTIALS'' 401 []
   | OpsTwoFactorRequiredException c \<Rightarrow>
       http_error ''OPS_2FA_REQUIRED'' 401 [(''challenge_id'', DText c)]
   | OpsTwoFactorEnrolmentRequiredException t \<Rightarrow>
       http_error ''OPS_2FA_ENROLMENT_REQUIRED'' 403 [(''enrolment_token'', DText t)]
   | OpsTwoFactorInvalidException \<Rightarrow> http_error ''OPS_2FA_INVALID'' 401 []
   | OpsSessionInvalidException \<Rightarrow> http_error ''OPS_SESSION_INVALID'' 401 []
   | OpsUserDisabledException \<Rightarrow> http_error ''OPS_USER_DISABLED'' 403 []
   | OpsTargetUserNotFoundException \<Rightarrow> http_error ''OPS_TARGET_USER_NOT_FOUND'' 404 [])"

definition idempotency_exception :: http_error where
  "idempotency_exception = http_error ''IDEMPOTENCY_CONFLICT'' 409 []"

section \<open>The exception filter\<close>

definition bitmonie_exception :: "exn \<Rightarrow> http_error option" where
  "bitmonie_exception e = (case e of
     LoanE x \<Rightarrow> Some (loan_exception x)
   | InflowE x \<Rightarrow> Some (inflow_exception x)
   | DisbursementAccountE x \<Rightarrow> Some (disbursement_account_exception x)
   | KycE x \<Rightarrow> Some (kyc_exception x)
   | DisbursementE x \<Rightarrow> Some (disbursement_exception x)
   | AuthE x \<Rightarrow> Some (auth_exception x)
   | PinE x \<Rightarrow> Some (pin_exception x)
   | OpsE x \<Rightarrow> Some (ops_exception x)
   | IdempotencyConflictException \<Rightarrow> Some idempotency_exception
   | BitmonieException c st \<Rightarrow> Some (http_error c st [])
   | _ \<Rightarrow> None)"

definition codeForStatus :: "nat \<Rightarrow> string" where
  "codeForStatus status =
     (if status = 400 then ''BAD_REQUEST'' else if status = 401 then ''UNAUTHORIZED''
      else if status = 403 then ''FORBIDDEN'' else if status = 404 then ''NOT_FOUND''
      else if status = 409 then ''CONFLICT'' else if status = 422 then ''UNPROCESSABLE_ENTITY''
      else if status = 429 then ''TOO_MANY_REQUESTS'' else ''INTERNAL_ERROR'')"

record error_body =
  eb_status :: nat
  eb_code :: string
  eb_details :: "(string \<times> detail_value) list"
  eb_request_id :: "string option"
  eb_kyc_required :: bool
  eb_prompt_kyc :: "string option"

definition http_status :: "exn \<Rightarrow> nat option" where
  "http_status e = (case e of UnauthorizedException _ \<Rightarrow> Some 401 | NotFoundException _ \<Rightarrow> Some 404
     | BadRequestException _ \<Rightarrow> Some 400 | _ \<Rightarrow> None)"

definition filter_catch :: "string option \<Rightarrow> exn \<Rightarrow> error_body" where
  "filter_catch header e =
     (let request_id = (if header = Some [] then None else header) in
      case bitmonie_exception e of
        Some h \<Rightarrow> \<lparr>eb_status = he_status h, eb_code = he_code h, eb_details = he_details h,
                   eb_request_id = request_id,
                   eb_kyc_required = (case e of KycE (KycUpgradeRequiredException _) \<Rightarrow> True | _ \<Rightarrow> False),
                   eb_prompt_kyc = (case e of KycE (KycUpgradeRequiredException t) \<Rightarrow> Some (''tier-'' @ show_nat t)
                                    | _ \<Rightarrow> None)\<rparr>
      | None \<Rightarrow>
          (case http_status e of
             Some status \<Rightarrow>
               \<lparr>eb_status = status, eb_code = codeForStatus status, eb_details = [], eb_request_id = request_id,
                eb_kyc_required = False, eb_prompt_kyc = None\<rparr>
           | None \<Rightarrow>
               \<lparr>eb_status = 500, eb_code = ''INTERNAL_ERROR'', eb_details = [], eb_request_id = request_id,
                eb_kyc_required = False, eb_prompt_kyc = None\<rparr>))"

lemmas exception_defs = loan_exception_def inflow_exception_def disbursement_account_exception_def
  kyc_exception_def disbursement_exception_def auth_exception_def pin_exception_def
  ops_exception_def idempotency_exception_def bitmonie_exception_def http_error_def

end
