(* ===== verification/Display.thy ===== *)
theory Display
  imports Errors
begin

text \<open>
  \<open>common/formatting/ngn-display.ts\<close>: customers see whole naira. \<open>'ceil'\<close> is used for
  amounts the customer pays, \<open>'floor'\<close> for amounts the customer receives.
\<close>

datatype display_mode = ceil_mode | floor_mode

definition displayNgn :: "rat \<Rightarrow> display_mode \<Rightarrow> string" where
  "displayNgn amount mode =
     show_int (case mode of ceil_mode \<Rightarrow> \<lceil>amount\<rceil> | floor_mode \<Rightarrow> \<lfloor>amount\<rfloor>)"

definition displayed :: "string \<Rightarrow> rat" where
  "displayed s = of_int (read_int s)"

lemma displayed_ceil: "displayed (displayNgn a ceil_mode) = of_int \<lceil>a\<rceil>"
  by (simp add: displayed_def displayNgn_def read_show_int)

lemma displayed_floor: "displayed (displayNgn a floor_mode) = of_int \<lfloor>a\<rfloor>"
  by (simp add: displayed_def displayNgn_def read_show_int)

text \<open>The figure a customer is shown, read back as a number, differs from the exact
  amount by less than one naira, on the safe side: what they are asked to pay is never less
  than what they owe, what they are told they receive is never more than what is sent.\<close>

theorem displayNgn_safe_side:
  "a \<le> displayed (displayNgn a ceil_mode) \<and> displayed (displayNgn a ceil_mode) < a + 1 \<and>
   displayed (displayNgn a floor_mode) \<le> a \<and> a < displayed (displayNgn a floor_mode) + 1"
proof -
  have "a \<le> of_int \<lceil>a\<rceil>" "of_int \<lceil>a\<rceil> < a + 1" "of_int \<lfloor>a\<rfloor> \<le> a" "a < of_int \<lfloor>a\<rfloor> + 1"
    by linarith+
  then show ?thesis by (simp add: displayed_ceil displayed_floor)
qed

end
