(* ===== verification/Rounding.thy ===== *)
theory Rounding
  imports Prelude
begin

text \<open>
  Rounding to a fixed number of significant digits in a fixed base: the arithmetic of
  \<open>decimal.js\<close> (base ten, twenty digits, halves away from zero) and of JavaScript's own
  numbers (base two, fifty-three digits, halves to even) are two instances. The locale
  \<open>significand\<close> states what the rounding of the scaled value to an integer must satisfy; the
  laws of the arithmetic follow from it once for both.
\<close>

fun ndigits :: "nat \<Rightarrow> nat \<Rightarrow> nat" where
  "ndigits b n = (if n < b \<or> b < 2 then 1 else Suc (ndigits b (n div b)))"

declare ndigits.simps [simp del]

definition sig_exp :: "nat \<Rightarrow> nat \<Rightarrow> rat \<Rightarrow> int" where
  "sig_exp b p x = (if 1 \<le> x then int p - int (ndigits b (nat \<lfloor>x\<rfloor>))
                    else int p - 1 + int (ndigits b (nat (\<lceil>1 / x\<rceil> - 1))))"

definition sig_pos :: "(rat \<Rightarrow> int) \<Rightarrow> nat \<Rightarrow> nat \<Rightarrow> rat \<Rightarrow> rat" where
  "sig_pos r b p x = of_int (r (x * of_nat b powi sig_exp b p x)) / of_nat b powi sig_exp b p x"

definition sig_round :: "(rat \<Rightarrow> int) \<Rightarrow> nat \<Rightarrow> nat \<Rightarrow> rat \<Rightarrow> rat" where
  "sig_round r b p x = (if x = 0 then 0 else if 0 < x then sig_pos r b p x else - sig_pos r b p (- x))"

text \<open>Halves to the even neighbour; halves up is the library's \<open>round\<close>.\<close>

definition half_even :: "rat \<Rightarrow> int" where
  "half_even x = (let f = \<lfloor>x\<rfloor> in
     if x - of_int f < 1 / 2 then f else if 1 / 2 < x - of_int f then f + 1
     else if even f then f else f + 1)"

lemma half_even_int [simp]: "half_even (of_int k) = k"
  by (simp add: half_even_def)

lemma half_even_near: "\<bar>of_int (half_even x) - x\<bar> \<le> 1 / 2"
proof -
  have "of_int \<lfloor>x\<rfloor> \<le> x" "x < of_int \<lfloor>x\<rfloor> + 1" by linarith+
  then show ?thesis unfolding half_even_def Let_def by (auto simp: abs_le_iff split: if_splits)
qed

lemma half_even_mono:
  assumes "x \<le> y"
  shows "half_even x \<le> half_even y"
proof (cases "\<lfloor>x\<rfloor> = \<lfloor>y\<rfloor>")
  case True
  with assms show ?thesis by (auto simp: half_even_def Let_def)
next
  case False
  with floor_mono[OF assms] have "\<lfloor>x\<rfloor> + 1 \<le> \<lfloor>y\<rfloor>" by linarith
  then show ?thesis by (auto simp: half_even_def Let_def)
qed

lemma ndigits_upper: "2 \<le> b \<Longrightarrow> n < b ^ ndigits b n"
proof (induction b n rule: ndigits.induct)
  case (1 b n)
  show ?case
  proof (cases "n < b")
    case False
    then have "n div b < b ^ ndigits b (n div b)" using 1 by simp
    then have "n < b * b ^ ndigits b (n div b)"
      using 1(2) by (simp add: div_less_iff_less_mult mult.commute)
    with False 1(2) show ?thesis by (subst ndigits.simps) simp
  qed (subst ndigits.simps, use 1(2) in simp)
qed

lemma ndigits_pos: "0 < ndigits b n"
  by (subst ndigits.simps) simp

lemma ndigits_lower: "2 \<le> b \<Longrightarrow> 0 < n \<Longrightarrow> b ^ (ndigits b n - 1) \<le> n"
proof (induction b n rule: ndigits.induct)
  case (1 b n)
  show ?case
  proof (cases "n < b")
    case False
    then have "b ^ (ndigits b (n div b) - 1) \<le> n div b"
      using 1 by (simp add: div_greater_zero_iff)
    then have "b ^ (ndigits b (n div b) - 1) * b \<le> n div b * b" by simp
    also have "\<dots> \<le> n" by simp
    finally have "b * b ^ (ndigits b (n div b) - 1) \<le> n" by (simp add: mult.commute)
    then have "b ^ ndigits b (n div b) \<le> n" using ndigits_pos[of b "n div b"] by (simp flip: power_Suc)
    with False 1(2) show ?thesis by (subst ndigits.simps) simp
  qed (subst ndigits.simps, use 1 in simp)
qed

locale significand =
  fixes r :: "rat \<Rightarrow> int" and b p :: nat
  assumes base: "2 \<le> b" and digits: "1 \<le> p"
    and r_int [simp]: "r (of_int k) = k"
    and r_near: "\<bar>of_int (r x) - x\<bar> \<le> 1 / 2"
    and r_mono: "x \<le> y \<Longrightarrow> r x \<le> r y"
begin

abbreviation base_rat :: rat where "base_rat \<equiv> of_nat b"

lemma base_gt: "1 < base_rat" "0 < base_rat" "1 \<le> base_rat"
  using base by simp_all

lemma power_step: "0 < n \<Longrightarrow> base_rat * base_rat ^ (n - 1) = base_rat ^ n"
  by (simp flip: power_Suc)

lemma exp_bounds:
  assumes "0 < x"
  shows "base_rat ^ (p - 1) \<le> x * base_rat powi sig_exp b p x"
    and "x * base_rat powi sig_exp b p x < base_rat ^ p"
proof -
  have "base_rat ^ (p - 1) \<le> x * base_rat powi sig_exp b p x \<and> x * base_rat powi sig_exp b p x < base_rat ^ p"
  proof (cases "1 \<le> x")
    case True
    define n where "n = ndigits b (nat \<lfloor>x\<rfloor>)"
    have fl: "0 < nat \<lfloor>x\<rfloor>" using True by simp
    have n: "0 < n" by (simp add: n_def ndigits_pos)
    have "b ^ (n - 1) \<le> nat \<lfloor>x\<rfloor>" using ndigits_lower[OF base fl] by (simp add: n_def)
    then have "int (b ^ (n - 1)) \<le> \<lfloor>x\<rfloor>" using fl by linarith
    then have lo: "base_rat ^ (n - 1) \<le> x" by (simp add: le_floor_iff)
    have "nat \<lfloor>x\<rfloor> < b ^ n" using ndigits_upper[OF base] by (simp add: n_def)
    then have "\<lfloor>x\<rfloor> < int (b ^ n)" using fl by linarith
    then have hi: "x < base_rat ^ n" by (simp add: floor_less_iff)
    have e: "base_rat powi sig_exp b p x = base_rat ^ p / base_rat ^ n"
      using True base_gt by (simp add: sig_exp_def n_def power_int_diff)
    have "base_rat ^ n \<le> base_rat * x"
      using mult_left_mono[OF lo, of base_rat] power_step[OF n] by simp
    then have "base_rat ^ n * base_rat ^ (p - 1) \<le> base_rat * x * base_rat ^ (p - 1)"
      by (intro mult_right_mono) simp_all
    also have "\<dots> = x * base_rat ^ p" using power_step[of p] digits by (simp add: mult_ac)
    finally show ?thesis unfolding e using hi base_gt by (simp add: field_simps)
  next
    case False
    define n where "n = ndigits b (nat (\<lceil>1 / x\<rceil> - 1))"
    have gt: "1 < 1 / x" using False assms by simp
    then have c: "2 \<le> \<lceil>1 / x\<rceil>" by linarith
    have n: "0 < n" by (simp add: n_def ndigits_pos)
    have "b ^ (n - 1) \<le> nat (\<lceil>1 / x\<rceil> - 1)"
      using ndigits_lower[OF base, of "nat (\<lceil>1 / x\<rceil> - 1)"] c by (simp add: n_def)
    then have "int (b ^ (n - 1)) < \<lceil>1 / x\<rceil>" using c by linarith
    then have lo: "base_rat ^ (n - 1) < 1 / x" by (simp add: less_ceiling_iff)
    have "nat (\<lceil>1 / x\<rceil> - 1) < b ^ n" using ndigits_upper[OF base] by (simp add: n_def)
    then have "\<lceil>1 / x\<rceil> \<le> int (b ^ n)" using c by linarith
    then have hi: "1 / x \<le> base_rat ^ n" by (simp add: ceiling_le_iff)
    have e: "base_rat powi sig_exp b p x = base_rat ^ (p - 1) * base_rat ^ n"
      using False base_gt digits by (simp add: sig_exp_def n_def power_int_add of_nat_diff flip: power_int_of_nat)
    have "base_rat ^ (n - 1) * x < 1" and one: "1 \<le> base_rat ^ n * x"
      using lo hi assms by (simp_all add: field_simps)
    then have "base_rat * (base_rat ^ (n - 1) * x) < base_rat * 1"
      by (intro mult_strict_left_mono) (use base_gt in simp_all)
    then have lt: "base_rat ^ n * x < base_rat" using power_step[OF n] by (simp add: mult.assoc[symmetric])
    have "base_rat ^ (p - 1) * 1 \<le> base_rat ^ (p - 1) * (base_rat ^ n * x)"
      using one by (intro mult_left_mono) simp_all
    moreover have "base_rat ^ (p - 1) * (base_rat ^ n * x) < base_rat ^ (p - 1) * base_rat"
      using lt base_gt by (intro mult_strict_left_mono) simp_all
    ultimately show ?thesis unfolding e using power_step[of p] digits by (simp add: mult_ac)
  qed
  then show "base_rat ^ (p - 1) \<le> x * base_rat powi sig_exp b p x"
    and "x * base_rat powi sig_exp b p x < base_rat ^ p" by auto
qed

lemma exp_antimono:
  assumes "0 < x" "x \<le> y"
  shows "sig_exp b p y \<le> sig_exp b p x"
proof (rule ccontr)
  assume "\<not> sig_exp b p y \<le> sig_exp b p x"
  then have "base_rat powi (sig_exp b p x + 1) \<le> base_rat powi sig_exp b p y"
    using base_gt by (intro power_int_increasing) auto
  then have s: "base_rat * base_rat powi sig_exp b p x \<le> base_rat powi sig_exp b p y"
    using base_gt by (simp add: power_int_add mult.commute)
  have "base_rat * (x * base_rat powi sig_exp b p x) = x * (base_rat * base_rat powi sig_exp b p x)" by simp
  also have "\<dots> \<le> x * base_rat powi sig_exp b p y" using assms s by (intro mult_left_mono) simp_all
  also have "\<dots> \<le> y * base_rat powi sig_exp b p y" using assms by (intro mult_right_mono) simp_all
  also have "\<dots> < base_rat ^ p" using assms exp_bounds(2)[of y] by simp
  finally have "base_rat * (x * base_rat powi sig_exp b p x) < base_rat * base_rat ^ (p - 1)"
    using power_step[of p] digits by simp
  then show False using exp_bounds(1)[OF assms(1)] base_gt by simp
qed

lemma r_le: "x \<le> of_int k \<Longrightarrow> r x \<le> k"
  using r_mono[of x "of_int k"] by simp

lemma r_ge: "of_int k \<le> x \<Longrightarrow> k \<le> r x"
  using r_mono[of "of_int k" x] by simp

lemma pos_ge: "0 < x \<Longrightarrow> base_rat ^ (p - 1) / base_rat powi sig_exp b p x \<le> sig_pos r b p x"
proof -
  assume "0 < x"
  then have "of_int (int b ^ (p - 1)) \<le> x * base_rat powi sig_exp b p x" using exp_bounds by simp
  then have "int b ^ (p - 1) \<le> r (x * base_rat powi sig_exp b p x)" by (rule r_ge)
  then have "base_rat ^ (p - 1) \<le> of_int (r (x * base_rat powi sig_exp b p x))"
    by (metis of_int_le_iff of_int_of_nat_eq of_int_power)
  then show ?thesis unfolding sig_pos_def using base_gt by (intro divide_right_mono) auto
qed

lemma pos_pos: "0 < x \<Longrightarrow> 0 < sig_pos r b p x"
  by (rule less_le_trans [OF _ pos_ge]) (use base_gt in auto)

lemma pos_le: "0 < x \<Longrightarrow> sig_pos r b p x \<le> base_rat ^ p / base_rat powi sig_exp b p x"
proof -
  assume "0 < x"
  then have "x * base_rat powi sig_exp b p x \<le> of_int (int b ^ p)"
    using exp_bounds(2) by (simp add: less_imp_le)
  then have "r (x * base_rat powi sig_exp b p x) \<le> int b ^ p" by (rule r_le)
  then have "of_int (r (x * base_rat powi sig_exp b p x)) \<le> base_rat ^ p"
    by (metis of_int_le_iff of_int_of_nat_eq of_int_power)
  then show ?thesis unfolding sig_pos_def using base_gt by (intro divide_right_mono) auto
qed

lemma pos_mono:
  assumes "0 < x" "x \<le> y"
  shows "sig_pos r b p x \<le> sig_pos r b p y"
proof (cases "sig_exp b p x = sig_exp b p y")
  case True
  have "x * base_rat powi sig_exp b p y \<le> y * base_rat powi sig_exp b p y"
    using assms by (intro mult_right_mono) simp_all
  then show ?thesis unfolding sig_pos_def True
    using base_gt by (intro divide_right_mono of_int_le_iff[THEN iffD2] r_mono) auto
next
  case False
  then have "sig_exp b p y + 1 \<le> sig_exp b p x" using exp_antimono[OF assms] by simp
  then have "base_rat powi (sig_exp b p y + 1) \<le> base_rat powi sig_exp b p x"
    using base_gt by (intro power_int_increasing) auto
  then have s: "base_rat * base_rat powi sig_exp b p y \<le> base_rat powi sig_exp b p x"
    using base_gt by (simp add: power_int_add mult.commute)
  have "sig_pos r b p x \<le> base_rat ^ p / base_rat powi sig_exp b p x" by (rule pos_le [OF assms(1)])
  also have "\<dots> \<le> base_rat ^ p / (base_rat * base_rat powi sig_exp b p y)"
    using s base_gt by (intro divide_left_mono) auto
  also have "\<dots> = base_rat ^ (p - 1) / base_rat powi sig_exp b p y"
    using base_gt power_step[of p] digits by (simp add: field_simps)
  also have "\<dots> \<le> sig_pos r b p y" using assms by (intro pos_ge) auto
  finally show ?thesis .
qed

lemma pos_near: "0 < x \<Longrightarrow> \<bar>sig_pos r b p x - x\<bar> * (2 * base_rat ^ (p - 1)) \<le> x"
proof -
  assume x: "0 < x"
  define e where "e = base_rat powi sig_exp b p x"
  have e: "0 < e" using base_gt by (simp add: e_def)
  have "(sig_pos r b p x - x) * e = of_int (r (x * e)) - x * e"
    using e by (simp add: sig_pos_def left_diff_distrib flip: e_def)
  then have "\<bar>(sig_pos r b p x - x) * e\<bar> \<le> 1 / 2" using r_near by simp
  then have "\<bar>sig_pos r b p x - x\<bar> * e * (2 * base_rat ^ (p - 1)) \<le> 1 / 2 * (2 * base_rat ^ (p - 1))"
    using e by (intro mult_right_mono) (simp_all add: abs_mult)
  also have "\<dots> \<le> x * e" using exp_bounds(1)[OF x] by (simp add: e_def)
  finally have "(\<bar>sig_pos r b p x - x\<bar> * (2 * base_rat ^ (p - 1))) * e \<le> x * e" by (simp add: mult_ac)
  then show ?thesis using e by simp
qed

lemma round_near: "\<bar>sig_round r b p x - x\<bar> * (2 * base_rat ^ (p - 1)) \<le> \<bar>x\<bar>"
proof -
  consider "x = 0" | "0 < x" | "0 < - x" by linarith
  then show ?thesis
  proof cases
    case 3
    then have "\<bar>sig_round r b p x - x\<bar> = \<bar>sig_pos r b p (- x) - (- x)\<bar>"
      by (simp add: sig_round_def abs_minus_commute)
    then show ?thesis using pos_near[OF 3] 3 by simp
  qed (use pos_near[of x] in \<open>auto simp: sig_round_def\<close>)
qed

lemma round_mono: "x \<le> y \<Longrightarrow> sig_round r b p x \<le> sig_round r b p y"
proof -
  assume le: "x \<le> y"
  have neg: "- sig_pos r b p (- a) < 0" if "a < 0" for a using pos_pos[of "- a"] that by simp
  consider "0 < x" | "y < 0" | "x \<le> 0" "0 \<le> y" by linarith
  then show ?thesis
  proof cases
    case 3
    then show ?thesis using neg[of x] pos_pos[of y] by (auto simp: sig_round_def)
  qed (use le in \<open>simp_all add: sig_round_def pos_mono\<close>)
qed

lemma pos_exact:
  assumes "0 < x" "x * base_rat ^ n \<in> \<int>" "x * base_rat ^ n < base_rat ^ p"
  shows "sig_pos r b p x = x"
proof -
  have bp: "base_rat ^ p = base_rat * base_rat ^ (p - 1)" using power_step[of p] digits by simp
  have "base_rat ^ (p - 1) * (x * base_rat ^ n) < (x * base_rat powi sig_exp b p x) * base_rat ^ p"
    using exp_bounds(1)[OF assms(1)] assms base_gt by (intro mult_le_less_imp_less) auto
  then have "base_rat ^ (p - 1) * (x * base_rat ^ n) < base_rat ^ (p - 1) * (x * (base_rat * base_rat powi sig_exp b p x))"
    using bp by (simp add: mult_ac)
  then have "x * base_rat ^ n < x * (base_rat * base_rat powi sig_exp b p x)"
    using base_gt by simp
  then have "base_rat ^ n < base_rat * base_rat powi sig_exp b p x" using assms(1) by simp
  then have "base_rat powi int n < base_rat powi (sig_exp b p x + 1)" using base_gt by (simp add: power_int_add mult.commute)
  then have "int n < sig_exp b p x + 1" using base_gt by (meson not_le power_int_increasing)
  then obtain k where k: "sig_exp b p x = int n + int k"
    by (metis zle_iff_zadd zless_add1_eq order_le_less add.commute int_ops(1))
  have "x * base_rat powi sig_exp b p x = (x * base_rat ^ n) * of_int (int b ^ k)"
    using base_gt by (simp add: k power_int_add)
  then have "x * base_rat powi sig_exp b p x \<in> \<int>" using assms(2) by (metis Ints_mult Ints_of_int)
  then obtain m where m: "x * base_rat powi sig_exp b p x = of_int m" by (auto elim: Ints_cases)
  have "sig_pos r b p x = of_int m / base_rat powi sig_exp b p x" by (simp add: sig_pos_def m)
  also have "\<dots> = x" using base_gt by (simp flip: m)
  finally show ?thesis .
qed

lemma round_exact:
  assumes "x * base_rat ^ n \<in> \<int>" "\<bar>x\<bar> * base_rat ^ n < base_rat ^ p"
  shows "sig_round r b p x = x"
proof -
  have "- x * base_rat ^ n \<in> \<int>" using assms(1) Ints_minus by fastforce
  then show ?thesis
    using assms pos_exact[of x n] pos_exact[of "- x" n] by (auto simp: sig_round_def abs_if split: if_splits)
qed

end

interpretation dec20: significand round 10 20
  by unfold_locales (simp, simp, simp, rule of_int_round_abs_le, rule Archimedean_Field.round_mono)

interpretation bin53: significand half_even 2 53
  by unfold_locales (simp, simp, simp, rule half_even_near, rule half_even_mono)

end
