(* ===== verification/Decimals.thy ===== *)
theory Decimals
  imports Rounding
begin

text \<open>
  The money arithmetic. The code computes with \<open>decimal.js\<close> values and stores them in
  PostgreSQL \<open>NUMERIC\<close> columns; neither is part of the repository, so both roundings are
  parameters of the model: a value is a rational, \<open>d_round\<close> is what \<open>plus\<close>, \<open>minus\<close>,
  \<open>mul\<close> and \<open>div\<close> apply to the exact result (20 significant digits by default),
  \<open>d_col s\<close> is what a column of scale \<open>s\<close> applies to the value written, \<open>d_fixed n\<close> is
  the value that \<open>toFixed(n)\<close> prints. The locale \<open>decimal_env\<close> states the documented
  behaviour the code relies on; \<open>js_decimals\<close> is a concrete instance of it.
\<close>

section \<open>The parameters\<close>

record decimals =
  d_round :: "rat \<Rightarrow> rat"
  d_col :: "nat \<Rightarrow> rat \<Rightarrow> rat"
  d_fixed :: "nat \<Rightarrow> rat \<Rightarrow> rat"

definition dplus :: "decimals \<Rightarrow> rat \<Rightarrow> rat \<Rightarrow> rat" where
  "dplus D a b = d_round D (a + b)"

definition dminus :: "decimals \<Rightarrow> rat \<Rightarrow> rat \<Rightarrow> rat" where
  "dminus D a b = d_round D (a - b)"

definition dmul :: "decimals \<Rightarrow> rat \<Rightarrow> rat \<Rightarrow> rat" where
  "dmul D a b = d_round D (a * b)"

definition ddiv :: "decimals \<Rightarrow> rat \<Rightarrow> rat \<Rightarrow> rat" where
  "ddiv D a b = d_round D (a / b)"

text \<open>
  A quotient whose divisor may be zero: \<open>decimal.js\<close> then returns a signed infinity or
  \<open>NaN\<close>, and every comparison with \<open>NaN\<close> is false.
\<close>

datatype ext_dec = Fin rat | PosInf | NegInf | NaN

definition ddiv_ext :: "decimals \<Rightarrow> rat \<Rightarrow> rat \<Rightarrow> ext_dec" where
  "ddiv_ext D a b =
     (if b \<noteq> 0 then Fin (ddiv D a b)
      else if a > 0 then PosInf else if a < 0 then NegInf else NaN)"

fun ext_lte :: "ext_dec \<Rightarrow> rat \<Rightarrow> bool" where
  "ext_lte (Fin a) b \<longleftrightarrow> a \<le> b"
| "ext_lte PosInf b \<longleftrightarrow> False"
| "ext_lte NegInf b \<longleftrightarrow> True"
| "ext_lte NaN b \<longleftrightarrow> False"

fun ext_gte :: "ext_dec \<Rightarrow> rat \<Rightarrow> bool" where
  "ext_gte (Fin a) b \<longleftrightarrow> b \<le> a"
| "ext_gte PosInf b \<longleftrightarrow> True"
| "ext_gte NegInf b \<longleftrightarrow> False"
| "ext_gte NaN b \<longleftrightarrow> False"

section \<open>What the code relies on\<close>

definition on_scale :: "nat \<Rightarrow> rat \<Rightarrow> bool" where
  "on_scale s a \<longleftrightarrow> a * 10 ^ s \<in> \<int>"

locale decimal_env =
  fixes D :: decimals
  assumes round_exact: "on_scale n a \<Longrightarrow> \<bar>a\<bar> * 10 ^ n < 10 ^ 20 \<Longrightarrow> d_round D a = a"
    and round_mono: "a \<le> b \<Longrightarrow> d_round D a \<le> d_round D b"
    and round_near: "\<bar>d_round D a - a\<bar> * (2 * 10 ^ 19) \<le> \<bar>a\<bar>"
    and col_scale: "on_scale s (d_col D s a)"
    and col_near: "\<bar>d_col D s a - a\<bar> * (2 * 10 ^ s) \<le> 1"
    and col_mono: "a \<le> b \<Longrightarrow> d_col D s a \<le> d_col D s b"

lemma on_scale_0 [simp]: "on_scale s 0"
  by (simp add: on_scale_def)

lemma on_scale_of_int [simp]: "on_scale s (of_int k)"
proof -
  have "of_int k * (10::rat) ^ s = of_int (k * 10 ^ s)" by simp
  then show ?thesis unfolding on_scale_def by (metis Ints_of_int)
qed

lemma on_scale_numeral [simp]: "on_scale s (numeral k)"
  using on_scale_of_int[of s "numeral k"] by simp

lemma on_scale_add: "on_scale s a \<Longrightarrow> on_scale s b \<Longrightarrow> on_scale s (a + b)"
  by (simp add: on_scale_def distrib_right)

lemma on_scale_diff: "on_scale s a \<Longrightarrow> on_scale s b \<Longrightarrow> on_scale s (a - b)"
  by (simp add: on_scale_def left_diff_distrib)

lemma on_scale_mult: "on_scale s a \<Longrightarrow> on_scale t b \<Longrightarrow> on_scale (s + t) (a * b)"
proof -
  assume "on_scale s a" "on_scale t b"
  then have "(a * 10 ^ s) * (b * 10 ^ t) \<in> \<int>" by (simp add: on_scale_def)
  then show ?thesis by (simp add: on_scale_def power_add mult.assoc mult.left_commute)
qed

lemma on_scale_mult_int: "on_scale s a \<Longrightarrow> on_scale s (a * of_int k)"
  using on_scale_mult[of s a 0 "of_int k"] by simp

lemma on_scale_mono: "on_scale s a \<Longrightarrow> s \<le> t \<Longrightarrow> on_scale t a"
proof -
  assume a: "on_scale s a" and st: "s \<le> t"
  have "a * 10 ^ t = (a * 10 ^ s) * of_int (10 ^ (t - s))"
    using st by (simp add: power_add [symmetric])
  then show ?thesis using a unfolding on_scale_def by (metis Ints_mult Ints_of_int)
qed

lemma on_scale_max: "on_scale s a \<Longrightarrow> on_scale s b \<Longrightarrow> on_scale s (max a b)"
  by (simp add: max_def)

lemma on_scale_min: "on_scale s a \<Longrightarrow> on_scale s b \<Longrightarrow> on_scale s (min a b)"
  by (simp add: min_def)

lemma on_scale_sum_list: "(\<And>a. a \<in> set as \<Longrightarrow> on_scale s a) \<Longrightarrow> on_scale s (sum_list as)"
  by (induction as) (auto intro: on_scale_add)

lemma on_scale_sum: "(\<And>i. on_scale s (f i)) \<Longrightarrow> on_scale s (sum f A)"
  by (induction A rule: infinite_finite_induct) (auto intro: on_scale_add)

text \<open>Two values of the same scale that are closer than one unit are equal.\<close>

lemma on_scale_eqI:
  assumes "on_scale s a" "on_scale s b" "\<bar>a - b\<bar> * 10 ^ s < 1"
  shows "a = b"
proof -
  from assms(1,2) have "(a - b) * 10 ^ s \<in> \<int>"
    using on_scale_diff on_scale_def by blast
  then obtain k :: int where k: "(a - b) * 10 ^ s = of_int k" by (auto elim: Ints_cases)
  moreover have "\<bar>(a - b) * 10 ^ s\<bar> < 1" using assms(3) by (simp add: abs_mult)
  ultimately have "\<bar>of_int k :: rat\<bar> < 1" by simp
  then have "k = 0" by linarith
  with k show ?thesis by simp
qed

context decimal_env begin

lemma round_0 [simp]: "d_round D 0 = 0"
  by (rule round_exact[of 0]) auto

text \<open>Rounding a nonnegative value moves it by at most half a unit of its twentieth digit.\<close>

lemma round_bounds:
  assumes "0 \<le> a"
  shows "a * (1 - 1 / (2 * 10 ^ 19)) \<le> d_round D a" and "d_round D a \<le> a * (1 + 1 / (2 * 10 ^ 19))"
  using round_near[of a] assms by (auto simp: field_simps abs_if split: if_splits)

lemma round_nonneg: "0 \<le> a \<Longrightarrow> 0 \<le> d_round D a"
  using round_mono[of 0 a] by simp

lemma round_nonpos: "a \<le> 0 \<Longrightarrow> d_round D a \<le> 0"
  using round_mono[of a 0] by simp

lemma dminus_nonneg: "b \<le> a \<Longrightarrow> 0 \<le> dminus D a b"
  by (simp add: dminus_def round_nonneg)

lemma dplus_nonneg: "0 \<le> a \<Longrightarrow> 0 \<le> b \<Longrightarrow> 0 \<le> dplus D a b"
  by (simp add: dplus_def round_nonneg)

lemma dmul_nonneg: "0 \<le> a \<Longrightarrow> 0 \<le> b \<Longrightarrow> 0 \<le> dmul D a b"
  by (simp add: dmul_def round_nonneg)

lemma ddiv_nonneg: "0 \<le> a \<Longrightarrow> 0 \<le> b \<Longrightarrow> 0 \<le> ddiv D a b"
  by (simp add: ddiv_def round_nonneg)

lemma col_exact: "on_scale s a \<Longrightarrow> d_col D s a = a"
proof (rule on_scale_eqI)
  assume "on_scale s a"
  then show "on_scale s (d_col D s a)" "on_scale s a" by (auto simp: col_scale)
  show "\<bar>d_col D s a - a\<bar> * 10 ^ s < 1" using col_near[of s a] by simp
qed

lemma col_0 [simp]: "d_col D s 0 = 0"
  by (rule col_exact) simp

lemma col_nonneg: "0 \<le> a \<Longrightarrow> 0 \<le> d_col D s a"
  using col_mono[of 0 a s] by simp

end

section \<open>A concrete instance: 20 significant digits, halves away from zero\<close>

definition half_up :: "nat \<Rightarrow> rat \<Rightarrow> rat" where
  "half_up s x = (if 0 \<le> x then of_int \<lfloor>x * 10 ^ s + 1 / 2\<rfloor> / 10 ^ s
                  else - (of_int \<lfloor>- x * 10 ^ s + 1 / 2\<rfloor> / 10 ^ s))"

definition js_decimals :: decimals where
  "js_decimals = \<lparr>d_round = sig_round round 10 20, d_col = half_up, d_fixed = half_up\<rparr>"

lemma half_up_scale: "on_scale s (half_up s x)"
  by (simp add: on_scale_def half_up_def)

lemma half_up_near: "\<bar>half_up s x - x\<bar> * (2 * 10 ^ s) \<le> 1"
proof -
  have *: "\<bar>of_int \<lfloor>a * 10 ^ s + 1 / 2\<rfloor> / 10 ^ s - a\<bar> * (2 * 10 ^ s) \<le> 1" for a :: rat
  proof -
    have "\<bar>of_int \<lfloor>a * 10 ^ s + 1 / 2\<rfloor> - a * 10 ^ s\<bar> \<le> 1 / 2" by linarith
    moreover have "\<bar>of_int \<lfloor>a * 10 ^ s + 1 / 2\<rfloor> / 10 ^ s - a\<bar> * 10 ^ s =
        \<bar>of_int \<lfloor>a * 10 ^ s + 1 / 2\<rfloor> - a * 10 ^ s\<bar>"
      using abs_mult[of "of_int \<lfloor>a * 10 ^ s + 1 / 2\<rfloor> / 10 ^ s - a" "10 ^ s"]
      by (simp add: left_diff_distrib)
    ultimately have "\<bar>of_int \<lfloor>a * 10 ^ s + 1 / 2\<rfloor> / 10 ^ s - a\<bar> * 10 ^ s \<le> 1 / 2" by simp
    then have "2 * (\<bar>of_int \<lfloor>a * 10 ^ s + 1 / 2\<rfloor> / 10 ^ s - a\<bar> * 10 ^ s) \<le> 1" by linarith
    then show ?thesis by (simp only: mult.left_commute)
  qed
  show ?thesis using *[of x] *[of "- x"] by (auto simp: half_up_def abs_minus_commute add.commute)
qed

lemma half_up_mono: "x \<le> y \<Longrightarrow> half_up s x \<le> half_up s y"
proof -
  assume le: "x \<le> y"
  have fl: "of_int \<lfloor>a * 10 ^ s + 1 / 2\<rfloor> / 10 ^ s \<le> (of_int \<lfloor>b * 10 ^ s + 1 / 2\<rfloor> / 10 ^ s :: rat)"
    if "a \<le> b" for a b :: rat
    using that by (intro divide_right_mono of_int_le_iff[THEN iffD2] floor_mono add_right_mono mult_right_mono) auto
  have nn: "0 \<le> (of_int \<lfloor>a * 10 ^ s + 1 / 2\<rfloor> / 10 ^ s :: rat)" if "0 \<le> a" for a :: rat
    using that by simp
  show ?thesis
  proof (cases "0 \<le> x")
    case True
    with le fl[of x y] show ?thesis by (simp add: half_up_def)
  next
    case False
    have "half_up s x \<le> 0" using False nn[of "- x"] by (simp add: half_up_def)
    moreover have "0 \<le> half_up s y" if "0 \<le> y" using that nn[of y] by (simp add: half_up_def)
    ultimately have "?thesis" if "0 \<le> y" using that by force
    moreover have "?thesis" if "\<not> 0 \<le> y"
      using that False le fl[of "- y" "- x"] by (simp add: half_up_def)
    ultimately show ?thesis by blast
  qed
qed

interpretation js: decimal_env js_decimals
proof unfold_locales
  fix n and a :: rat
  assume "on_scale n a" "\<bar>a\<bar> * 10 ^ n < 10 ^ 20"
  then show "d_round js_decimals a = a"
    using dec20.round_exact[of a n] by (simp add: js_decimals_def on_scale_def)
next
  fix a :: rat
  show "\<bar>d_round js_decimals a - a\<bar> * (2 * 10 ^ 19) \<le> \<bar>a\<bar>"
    using dec20.round_near[of a] by (simp add: js_decimals_def)
qed (simp_all add: js_decimals_def dec20.round_mono half_up_scale half_up_near half_up_mono)

end
