(* ===== verification/Accrual.thy ===== *)
theory Accrual
  imports Decimals Schema "HOL-Library.Multiset"
begin

text \<open>
  \<open>modules/loans/accrual.service.ts\<close>: what a loan owes at a moment. \<open>compute\<close> walks the
  repayments in the order they were credited and lets interest accrue on the principal left
  in each segment of days; \<open>daily_interest\<close> is the reference, interest day by day. The loop
  with its \<open>break\<close> is the recursion \<open>accrual_loop\<close>, whose state is the three variables of the
  loop. \<open>Math.ceil\<close> of the quotient of two millisecond counts is exact for every \<open>Date\<close>
  (the distance of a non-integer quotient to the next integer is above the rounding error).
\<close>

record accrual_loan =
  al_principal_ngn :: money
  al_daily_interest_rate_bps :: nat
  al_daily_custody_fee_ngn :: money
  al_collateral_received_at :: "time option"

record accrual_repayment =
  ar_applied_to_principal :: money
  ar_applied_to_interest :: money
  ar_applied_to_custody :: money
  ar_created_at :: time

record outstanding =
  o_principal_ngn :: money
  o_accrued_interest_ngn :: money
  o_accrued_custody_ngn :: money
  o_total_outstanding_ngn :: money
  o_days_elapsed :: int
  o_as_of :: time

definition MS_PER_DAY :: int where "MS_PER_DAY = 86400000"

definition ceilDays :: "time \<Rightarrow> time \<Rightarrow> int" where
  "ceilDays start end =
     (let ms = end - start in if ms \<le> 0 then 0 else \<lceil>(of_int ms / of_int MS_PER_DAY :: rat)\<rceil>)"

fun accrual_loop :: "decimals \<Rightarrow> time \<Rightarrow> int \<Rightarrow> rat \<Rightarrow> accrual_repayment list \<Rightarrow>
    money \<Rightarrow> int \<Rightarrow> money \<Rightarrow> money \<times> int \<times> money" where
  "accrual_loop D received final_day rate_factor [] current_principal cur_day gross_interest =
     (current_principal, cur_day, gross_interest)"
| "accrual_loop D received final_day rate_factor (rep # reps) current_principal cur_day gross_interest =
     (let rep_day = min (ceilDays received (ar_created_at rep)) final_day;
          segment_days = rep_day - cur_day;
          gross = (if segment_days > 0
                   then dplus D gross_interest
                          (dmul D (dmul D current_principal rate_factor) (of_int segment_days))
                   else gross_interest);
          left = dminus D current_principal (ar_applied_to_principal rep)
      in if rep_day \<ge> final_day then (left, rep_day, gross)
         else accrual_loop D received final_day rate_factor reps left rep_day gross)"

definition relevant_repayments :: "accrual_repayment list \<Rightarrow> time \<Rightarrow> accrual_repayment list" where
  "relevant_repayments reps as_of =
     sort_key ar_created_at (filter (\<lambda>r. ar_created_at r \<le> as_of) reps)"

definition gross_interest :: "decimals \<Rightarrow> accrual_loan \<Rightarrow> time \<Rightarrow> accrual_repayment list \<Rightarrow> int \<Rightarrow> money" where
  "gross_interest D loan received relevant final_day =
     (let rate_factor = ddiv D (of_nat (al_daily_interest_rate_bps loan)) 10000;
          (p, c, g) = accrual_loop D received final_day rate_factor relevant (al_principal_ngn loan) 0 0
      in if c < final_day
         then dplus D g (dmul D (dmul D p rate_factor) (of_int (final_day - c)))
         else g)"

definition compute :: "decimals \<Rightarrow> accrual_loan \<Rightarrow> accrual_repayment list \<Rightarrow> time \<Rightarrow> outstanding" where
  "compute D loan reps as_of =
     (case al_collateral_received_at loan of
        None \<Rightarrow> \<lparr>o_principal_ngn = al_principal_ngn loan, o_accrued_interest_ngn = 0,
                 o_accrued_custody_ngn = 0, o_total_outstanding_ngn = al_principal_ngn loan,
                 o_days_elapsed = 0, o_as_of = as_of\<rparr>
      | Some received \<Rightarrow>
          (let final_day = ceilDays received as_of;
               relevant = relevant_repayments reps as_of;
               gross = gross_interest D loan received relevant final_day;
               paid_principal = foldl (\<lambda>s r. dplus D s (ar_applied_to_principal r)) 0 relevant;
               paid_interest = foldl (\<lambda>s r. dplus D s (ar_applied_to_interest r)) 0 relevant;
               outstanding_principal = max (dminus D (al_principal_ngn loan) paid_principal) 0;
               outstanding_interest = max (dminus D gross paid_interest) 0;
               outstanding_custody = 0
           in \<lparr>o_principal_ngn = outstanding_principal,
               o_accrued_interest_ngn = outstanding_interest,
               o_accrued_custody_ngn = outstanding_custody,
               o_total_outstanding_ngn =
                 dplus D (dplus D outstanding_principal outstanding_interest) outstanding_custody,
               o_days_elapsed = final_day, o_as_of = as_of\<rparr>))"

section \<open>Days\<close>

lemma ceilDays_nonneg [simp]: "0 \<le> ceilDays s e"
  by (simp add: ceilDays_def MS_PER_DAY_def Let_def)

lemma ceilDays_mono: "e \<le> e' \<Longrightarrow> ceilDays s e \<le> ceilDays s e'"
  by (auto simp: ceilDays_def MS_PER_DAY_def Let_def intro!: ceiling_mono divide_right_mono)

lemma ceilDays_le_iff: "0 \<le> d \<Longrightarrow> ceilDays s e \<le> d \<longleftrightarrow> e - s \<le> d * MS_PER_DAY"
proof -
  assume d: "0 \<le> d"
  have "\<lceil>(of_int (e - s) / of_int MS_PER_DAY :: rat)\<rceil> \<le> d \<longleftrightarrow>
        (of_int (e - s) / of_int MS_PER_DAY :: rat) \<le> of_int d"
    by (rule ceiling_le_iff)
  also have "\<dots> \<longleftrightarrow> (of_int (e - s) :: rat) \<le> of_int (d * MS_PER_DAY)"
    by (simp add: MS_PER_DAY_def pos_divide_le_eq)
  also have "\<dots> \<longleftrightarrow> e - s \<le> d * MS_PER_DAY" by (simp only: of_int_le_iff)
  finally show ?thesis using d by (auto simp: ceilDays_def Let_def MS_PER_DAY_def)
qed

text \<open>Elapsed time is billed in whole days, rounded up: nothing before the collateral
  arrived, and after it the count of days is the least one that covers the elapsed time.\<close>

theorem ceilDays_least_cover:
  "(e \<le> s \<longrightarrow> ceilDays s e = 0) \<and>
   (s < e \<longrightarrow> (ceilDays s e - 1) * MS_PER_DAY < e - s \<and> e - s \<le> ceilDays s e * MS_PER_DAY)"
proof (intro conjI impI)
  assume "s < e"
  then have pos: "0 < ceilDays s e"
    using ceilDays_le_iff[of 0 s e] by (simp add: not_le[symmetric])
  show "e - s \<le> ceilDays s e * MS_PER_DAY" using ceilDays_le_iff[of "ceilDays s e" s e] pos by simp
  show "(ceilDays s e - 1) * MS_PER_DAY < e - s"
    using ceilDays_le_iff[of "ceilDays s e - 1" s e] pos by simp
qed (simp add: ceilDays_def)

theorem ceilDays_least_cover_witness:
  "ceilDays 0 86400001 = 2 \<and> (ceilDays 5 5 = 0 \<and> ceilDays 0 1 = 1)"
  using ceilDays_least_cover[of 5 5] ceilDays_least_cover[of 1 0] ceilDays_least_cover[of 86400001 0]
  by (simp add: MS_PER_DAY_def)

section \<open>The reference: interest day by day\<close>

text \<open>
  Day \<open>d\<close> (counted from 0) bears interest on the principal left after the repayments whose
  day is at most \<open>d\<close>: a repayment counts from the end of the day it falls in.
\<close>

definition principal_on :: "money \<Rightarrow> time \<Rightarrow> accrual_repayment list \<Rightarrow> int \<Rightarrow> money" where
  "principal_on p received reps d =
     p - (\<Sum>r\<leftarrow>reps. if ceilDays received (ar_created_at r) \<le> d
                            then ar_applied_to_principal r else 0)"

definition daily_interest :: "accrual_loan \<Rightarrow> time \<Rightarrow> accrual_repayment list \<Rightarrow> time \<Rightarrow> money" where
  "daily_interest loan received reps as_of =
     (\<Sum>d\<leftarrow>[0..<nat (ceilDays received as_of)].
        principal_on (al_principal_ngn loan) received
          (filter (\<lambda>r. ar_created_at r \<le> as_of) reps) (int d)
        * (of_nat (al_daily_interest_rate_bps loan) / 10000))"

text \<open>
  The amounts for which the arithmetic is exact: columns of two decimals, at most ten million
  naira of principal and of repaid principal (the largest self-serve loan), a rate of at most
  100 percent a day, and at most a million days.
\<close>

definition accrual_ok :: "accrual_loan \<Rightarrow> accrual_repayment list \<Rightarrow> time \<Rightarrow> time \<Rightarrow> bool" where
  "accrual_ok loan reps received as_of \<longleftrightarrow>
     on_scale 2 (al_principal_ngn loan) \<and> 0 \<le> al_principal_ngn loan \<and>
     al_principal_ngn loan \<le> 10 ^ 7 \<and> al_daily_interest_rate_bps loan \<le> 10000 \<and>
     as_of - received \<le> 10 ^ 6 * MS_PER_DAY \<and>
     (\<forall>r\<in>set reps. on_scale 2 (ar_applied_to_principal r) \<and> 0 \<le> ar_applied_to_principal r \<and>
        on_scale 2 (ar_applied_to_interest r) \<and> 0 \<le> ar_applied_to_interest r) \<and>
     sum_list (map ar_applied_to_principal reps) \<le> 10 ^ 7 \<and>
     sum_list (map ar_applied_to_interest reps) \<le> 10 ^ 13"

lemma principal_on_Nil [simp]: "principal_on p received [] d = p"
  by (simp add: principal_on_def)

lemma principal_on_Cons:
  "principal_on p received (r # reps) d =
     (if ceilDays received (ar_created_at r) \<le> d
      then principal_on (p - ar_applied_to_principal r) received reps d
      else principal_on p received reps d)"
  by (simp add: principal_on_def)

lemma principal_on_later:
  "(\<And>r. r \<in> set reps \<Longrightarrow> d < ceilDays received (ar_created_at r)) \<Longrightarrow> principal_on p received reps d = p"
  by (induction reps) (fastforce simp: principal_on_Cons)+

lemma sum_days_split:
  fixes f :: "int \<Rightarrow> rat"
  assumes "a \<le> b" "b \<le> c"
  shows "sum f {a..<c} = sum f {a..<b} + sum f {b..<c}"
proof -
  have "{a..<c} = {a..<b} \<union> {b..<c}" using assms by auto
  then show ?thesis by (simp add: sum.union_disjoint)
qed

text \<open>The bounds that keep a product and a sum of the loop within twenty digits.\<close>

definition loop_ok :: "money \<Rightarrow> int \<Rightarrow> money \<Rightarrow> bool" where
  "loop_ok p c g \<longleftrightarrow> on_scale 2 p \<and> \<bar>p\<bar> \<le> 10 ^ 7 \<and> on_scale 6 g \<and> \<bar>g\<bar> \<le> 10 ^ 7 * of_int c \<and>
     0 \<le> c \<and> c \<le> 10 ^ 6"

context decimal_env begin

lemma segment_exact:
  assumes ok: "loop_ok p c g" and rate: "on_scale 4 rate" "0 \<le> rate" "rate \<le> 1"
    and n: "0 \<le> n" "c + n \<le> 10 ^ 6"
  shows "dplus D g (dmul D (dmul D p rate) (of_int n)) = g + p * rate * of_int n"
    and "loop_ok p (c + n) (g + p * rate * of_int n)"
proof -
  have p: "on_scale 2 p" "\<bar>p\<bar> \<le> 10 ^ 7" and g: "on_scale 6 g" "\<bar>g\<bar> \<le> 10 ^ 7 * of_int c"
    and c: "0 \<le> c" using ok by (auto simp: loop_ok_def)
  have s6: "on_scale 6 (p * rate)" using on_scale_mult[OF p(1) rate(1)] by simp
  then have s6n: "on_scale 6 (p * rate * of_int n)" by (rule on_scale_mult_int)
  have "\<bar>p\<bar> * rate \<le> \<bar>p\<bar> * 1" using rate by (intro mult_left_mono) auto
  then have "\<bar>p * rate\<bar> \<le> \<bar>p\<bar>" using rate by (simp add: abs_mult)
  then have b: "\<bar>p * rate\<bar> \<le> 10 ^ 7" using p(2) by simp
  have "\<bar>p * rate * of_int n\<bar> = \<bar>p * rate\<bar> * of_int n" using n(1) by (simp add: abs_mult)
  also have "\<dots> \<le> 10 ^ 7 * of_int n" using b n(1) by (intro mult_right_mono) auto
  finally have bn: "\<bar>p * rate * of_int n\<bar> \<le> 10 ^ 7 * of_int n" .
  have sum: "\<bar>g + p * rate * of_int n\<bar> \<le> 10 ^ 7 * of_int (c + n)"
  proof -
    have "10 ^ 7 * of_int (c + n) = 10 ^ 7 * of_int c + (10 ^ 7 * of_int n :: rat)"
      by (simp add: distrib_left)
    then show ?thesis using g(2) bn by linarith
  qed
  have lim: "(10 ^ 7 * of_int (c + n) :: rat) \<le> 10 ^ 13" "(10 ^ 7 * of_int n :: rat) \<le> 10 ^ 13"
  proof -
    have "(of_int (c + n) :: rat) \<le> of_int (10 ^ 6)" "(of_int n :: rat) \<le> of_int (10 ^ 6)"
      using n c by (simp_all only: of_int_le_iff)
    then show "(10 ^ 7 * of_int (c + n) :: rat) \<le> 10 ^ 13" "(10 ^ 7 * of_int n :: rat) \<le> 10 ^ 13"
      by simp_all
  qed
  have e1: "dmul D p rate = p * rate"
    unfolding dmul_def using b by (intro round_exact[OF s6]) simp
  have e2: "dmul D (p * rate) (of_int n) = p * rate * of_int n"
    unfolding dmul_def using bn lim by (intro round_exact[OF s6n]) simp
  have s: "on_scale 6 (g + p * rate * of_int n)" using g(1) s6n by (rule on_scale_add)
  have e3: "dplus D g (p * rate * of_int n) = g + p * rate * of_int n"
    unfolding dplus_def using sum lim by (intro round_exact[OF s]) simp
  show "dplus D g (dmul D (dmul D p rate) (of_int n)) = g + p * rate * of_int n"
    by (simp add: e1 e2 e3)
  show "loop_ok p (c + n) (g + p * rate * of_int n)"
    using p s sum n c by (simp add: loop_ok_def)
qed

lemma dminus_principal_exact:
  assumes "on_scale 2 p" "\<bar>p - a\<bar> \<le> 10 ^ 7" "on_scale 2 a"
  shows "dminus D p a = p - a"
  unfolding dminus_def using assms by (intro round_exact[of 2] on_scale_diff) auto

text \<open>The loop together with the tail after it: the gross interest is the sum over the days.\<close>

lemma accrual_loop_sum:
  assumes "loop_ok p c g" and "on_scale 4 rate" "0 \<le> rate" "rate \<le> 1"
    and "c \<le> final_day" "final_day \<le> 10 ^ 6"
    and "\<forall>r\<in>set reps. on_scale 2 (ar_applied_to_principal r) \<and> 0 \<le> ar_applied_to_principal r"
    and "sum_list (map ar_applied_to_principal reps) \<le> p + 10 ^ 7"
    and "sorted (map ar_created_at reps)"
    and "\<forall>r\<in>set reps. c \<le> ceilDays received (ar_created_at r)"
  shows "(case accrual_loop D received final_day rate reps p c g of (p', c', g') \<Rightarrow>
            if c' < final_day then dplus D g' (dmul D (dmul D p' rate) (of_int (final_day - c'))) else g')
         = g + (\<Sum>d\<in>{c..<final_day}. principal_on p received reps d * rate)"
  using assms
proof (induction reps arbitrary: p c g)
  case Nil
  have "(\<Sum>d\<in>{c..<final_day}. p * rate) = p * rate * of_int (final_day - c)"
    using Nil.prems(5) by simp
  then show ?case
    using segment_exact(1)[OF Nil.prems(1-4), of "final_day - c"] Nil.prems(5,6) by simp
next
  case (Cons r reps)
  define raw where "raw = ceilDays received (ar_created_at r)"
  define day where "day = min raw final_day"
  define g' where "g' = g + p * rate * of_int (day - c)"
  define a where "a = ar_applied_to_principal r"
  have raw: "c \<le> raw" using Cons.prems(10) by (simp add: raw_def)
  then have day: "c \<le> day" "day \<le> final_day" using Cons.prems(5) by (auto simp: day_def)
  have seg: "(if day - c > 0 then dplus D g (dmul D (dmul D p rate) (of_int (day - c))) else g) = g'"
    using segment_exact(1)[OF Cons.prems(1-4), of "day - c"] day Cons.prems(6) by (auto simp: g'_def)
  have ok': "loop_ok p day g'"
    using segment_exact(2)[OF Cons.prems(1-4), of "day - c"] day Cons.prems(6) by (simp add: g'_def)
  have a: "on_scale 2 a" "0 \<le> a" and rest_nonneg: "0 \<le> sum_list (map ar_applied_to_principal reps)"
    using Cons.prems(7) by (auto simp: a_def intro!: sum_list_nonneg)
  have tot: "a + sum_list (map ar_applied_to_principal reps) \<le> p + 10 ^ 7"
    using Cons.prems(8) by (simp add: a_def)
  have p: "on_scale 2 p" "\<bar>p\<bar> \<le> 10 ^ 7" using Cons.prems(1) by (auto simp: loop_ok_def)
  have pa: "\<bar>p - a\<bar> \<le> 10 ^ 7" using p(2) a(2) tot rest_nonneg by linarith
  have left: "dminus D p a = p - a" using dminus_principal_exact[OF p(1) pa a(1)] .
  have before: "(\<Sum>d\<in>{c..<day}. principal_on p received (r # reps) d * rate) = p * rate * of_int (day - c)"
  proof -
    have "principal_on p received (r # reps) d = p" if "d \<in> {c..<day}" for d
    proof (rule principal_on_later)
      fix x assume "x \<in> set (r # reps)"
      then have "ar_created_at r \<le> ar_created_at x" using Cons.prems(9) by auto
      then have "raw \<le> ceilDays received (ar_created_at x)" unfolding raw_def by (rule ceilDays_mono)
      then show "d < ceilDays received (ar_created_at x)" using that by (simp add: day_def)
    qed
    then have "(\<Sum>d\<in>{c..<day}. principal_on p received (r # reps) d * rate) = (\<Sum>d\<in>{c..<day}. p * rate)"
      by simp
    then show ?thesis using day by simp
  qed
  have unfold: "accrual_loop D received final_day rate (r # reps) p c g =
      (if day \<ge> final_day then (p - a, day, g')
       else accrual_loop D received final_day rate reps (p - a) day g')"
    by (simp only: accrual_loop.simps Let_def flip: raw_def a_def day_def) (simp only: seg left)
  show ?case
  proof (cases "day \<ge> final_day")
    case True
    then have eq: "final_day = day" using day by simp
    show ?thesis unfolding unfold using True before by (simp add: eq g'_def)
  next
    case False
    then have rd: "raw = day" by (auto simp: day_def)
    have step: "accrual_loop D received final_day rate (r # reps) p c g =
        accrual_loop D received final_day rate reps (p - a) day g'"
      using False by (simp only: unfold if_False)
    have later: "\<forall>x\<in>set reps. day \<le> ceilDays received (ar_created_at x)"
    proof
      fix x assume "x \<in> set reps"
      then have "ar_created_at r \<le> ar_created_at x" using Cons.prems(9) by auto
      then have "raw \<le> ceilDays received (ar_created_at x)" unfolding raw_def by (rule ceilDays_mono)
      then show "day \<le> ceilDays received (ar_created_at x)" by (simp add: rd)
    qed
    have ok'': "loop_ok (p - a) day g'"
      using ok' pa a(1) by (auto simp: loop_ok_def intro: on_scale_diff)
    have "(case accrual_loop D received final_day rate reps (p - a) day g' of (p', c', g') \<Rightarrow>
            if c' < final_day then dplus D g' (dmul D (dmul D p' rate) (of_int (final_day - c'))) else g')
          = g' + (\<Sum>d\<in>{day..<final_day}. principal_on (p - a) received reps d * rate)"
      by (rule Cons.IH[OF ok'' Cons.prems(2-4) day(2) Cons.prems(6)])
         (use Cons.prems(7,9) tot later in auto)
    moreover have "(\<Sum>d\<in>{day..<final_day}. principal_on p received (r # reps) d * rate) =
        (\<Sum>d\<in>{day..<final_day}. principal_on (p - a) received reps d * rate)"
      by (intro sum.cong) (auto simp: principal_on_Cons rd a_def simp flip: raw_def)
    moreover have "(\<Sum>d\<in>{c..<final_day}. principal_on p received (r # reps) d * rate) =
        p * rate * of_int (day - c) + (\<Sum>d\<in>{day..<final_day}. principal_on p received (r # reps) d * rate)"
      using sum_days_split[OF day, of "\<lambda>d. principal_on p received (r # reps) d * rate"] before by simp
    ultimately show ?thesis by (simp only: step g'_def add.assoc)
  qed
qed

lemma paid_sum_exact:
  assumes "\<forall>r\<in>set reps. on_scale 2 (f r) \<and> 0 \<le> f r" and "on_scale 2 s" "0 \<le> s"
    and "s + sum_list (map f reps) \<le> 10 ^ 13"
  shows "foldl (\<lambda>s r. dplus D s (f r)) s reps = s + sum_list (map f reps)"
  using assms
proof (induction reps arbitrary: s)
  case (Cons r reps)
  have nn: "0 \<le> sum_list (map f reps)" using Cons.prems(1) by (intro sum_list_nonneg) auto
  have "on_scale 2 (s + f r)" using Cons.prems by (auto intro: on_scale_add)
  moreover have "0 \<le> s + f r" "s + f r \<le> 10 ^ 13" using Cons.prems nn by auto
  ultimately have "dplus D s (f r) = s + f r"
    unfolding dplus_def by (intro round_exact[of 2]) auto
  then show ?case
    using Cons.IH[of "s + f r"] Cons.prems \<open>on_scale 2 (s + f r)\<close> \<open>0 \<le> s + f r\<close>
    by (simp add: add.assoc)
qed simp

end

lemma sum_list_sort_key: "sum_list (map f (sort_key k xs)) = (sum_list (map f xs) :: rat)"
proof -
  have "mset (map f (sort_key k xs)) = mset (map f xs)" by simp
  then show ?thesis by (metis sum_mset_sum_list)
qed

lemma principal_on_sort: "principal_on p received (sort_key k reps) d = principal_on p received reps d"
  by (simp add: principal_on_def sum_list_sort_key)

lemma sum_list_filter_le:
  "\<forall>x\<in>set xs. 0 \<le> f x \<Longrightarrow> sum_list (map f (filter p xs)) \<le> (sum_list (map f xs) :: rat)"
  by (induction xs) auto

lemma sum_upt_int: "(\<Sum>d\<leftarrow>[0..<n]. f (int d)) = (\<Sum>d\<in>{0..<int n}. f d :: rat)"
proof (induction n)
  case (Suc n)
  have "{0..<int (Suc n)} = insert (int n) {0..<int n}" by auto
  then show ?case using Suc by (simp add: add.commute)
qed simp

lemma daily_interest_sum:
  "daily_interest loan received reps as_of =
     (\<Sum>d\<in>{0..<ceilDays received as_of}.
        principal_on (al_principal_ngn loan) received (relevant_repayments reps as_of) d *
        (of_nat (al_daily_interest_rate_bps loan) / 10000))"
  using sum_upt_int[of "\<lambda>d. principal_on (al_principal_ngn loan) received
      (filter (\<lambda>r. ar_created_at r \<le> as_of) reps) d * (of_nat (al_daily_interest_rate_bps loan) / 10000)"
      "nat (ceilDays received as_of)"]
  by (simp add: daily_interest_def relevant_repayments_def principal_on_sort)

lemma rate_factor_scale: "on_scale 4 (of_nat n / 10000)"
  by (simp add: on_scale_def)

lemma principal_on_bounds:
  assumes "\<forall>r\<in>set reps. 0 \<le> ar_applied_to_principal r"
  shows "principal_on p received reps d \<le> p"
    and "p - sum_list (map ar_applied_to_principal reps) \<le> principal_on p received reps d"
proof -
  have "(\<Sum>r\<leftarrow>reps. if ceilDays received (ar_created_at r) \<le> d then ar_applied_to_principal r else 0)
      \<le> sum_list (map ar_applied_to_principal reps)"
    using assms by (intro sum_list_mono) auto
  moreover have "0 \<le> (\<Sum>r\<leftarrow>reps. if ceilDays received (ar_created_at r) \<le> d
      then ar_applied_to_principal r else 0)"
    using assms by (intro sum_list_nonneg) auto
  ultimately show "principal_on p received reps d \<le> p"
    and "p - sum_list (map ar_applied_to_principal reps) \<le> principal_on p received reps d"
    by (simp_all add: principal_on_def)
qed

lemma principal_on_scale:
  "on_scale 2 p \<Longrightarrow> \<forall>r\<in>set reps. on_scale 2 (ar_applied_to_principal r) \<Longrightarrow>
   on_scale 2 (principal_on p received reps d)"
  unfolding principal_on_def by (intro on_scale_diff on_scale_sum_list) auto

lemma relevant_facts:
  assumes "accrual_ok loan reps received as_of"
  defines "rel \<equiv> relevant_repayments reps as_of"
  shows "\<forall>r\<in>set rel. on_scale 2 (ar_applied_to_principal r) \<and> 0 \<le> ar_applied_to_principal r \<and>
           on_scale 2 (ar_applied_to_interest r) \<and> 0 \<le> ar_applied_to_interest r"
    and "sum_list (map ar_applied_to_principal rel) \<le> 10 ^ 7"
    and "sum_list (map ar_applied_to_interest rel) \<le> 10 ^ 13"
    and "sorted (map ar_created_at rel)"
proof -
  have ok: "\<forall>r\<in>set reps. on_scale 2 (ar_applied_to_principal r) \<and> 0 \<le> ar_applied_to_principal r \<and>
           on_scale 2 (ar_applied_to_interest r) \<and> 0 \<le> ar_applied_to_interest r"
    and sums: "sum_list (map ar_applied_to_principal reps) \<le> 10 ^ 7"
      "sum_list (map ar_applied_to_interest reps) \<le> 10 ^ 13"
    using assms(1) by (simp_all add: accrual_ok_def)
  show "\<forall>r\<in>set rel. on_scale 2 (ar_applied_to_principal r) \<and> 0 \<le> ar_applied_to_principal r \<and>
           on_scale 2 (ar_applied_to_interest r) \<and> 0 \<le> ar_applied_to_interest r"
    using ok by (simp add: rel_def relevant_repayments_def)
  show "sum_list (map ar_applied_to_principal rel) \<le> 10 ^ 7"
    using sum_list_filter_le[of reps ar_applied_to_principal] ok sums(1)
    by (auto simp: rel_def relevant_repayments_def sum_list_sort_key intro: order_trans)
  show "sum_list (map ar_applied_to_interest rel) \<le> 10 ^ 13"
    using sum_list_filter_le[of reps ar_applied_to_interest] ok sums(2)
    by (auto simp: rel_def relevant_repayments_def sum_list_sort_key intro: order_trans)
  show "sorted (map ar_created_at rel)" by (simp add: rel_def relevant_repayments_def)
qed

lemma daily_interest_bounds:
  assumes ok: "accrual_ok loan reps received as_of"
  shows "on_scale 6 (daily_interest loan received reps as_of)"
    and "\<bar>daily_interest loan received reps as_of\<bar> \<le> 10 ^ 13"
proof -
  let ?rel = "relevant_repayments reps as_of"
  let ?rate = "of_nat (al_daily_interest_rate_bps loan) / 10000 :: rat"
  let ?f = "\<lambda>d. principal_on (al_principal_ngn loan) received ?rel d * ?rate"
  have p: "on_scale 2 (al_principal_ngn loan)" "0 \<le> al_principal_ngn loan" "al_principal_ngn loan \<le> 10 ^ 7"
    and rate: "al_daily_interest_rate_bps loan \<le> 10000" and days: "as_of - received \<le> 10 ^ 6 * MS_PER_DAY"
    using ok by (simp_all add: accrual_ok_def)
  note rel = relevant_facts[OF ok]
  have scale: "on_scale 6 (?f d)" for d
    using on_scale_mult[OF principal_on_scale[of "al_principal_ngn loan" ?rel received d] rate_factor_scale]
      p rel by simp
  have bound: "\<bar>?f d\<bar> \<le> 10 ^ 7" for d
  proof -
    have b: "\<bar>principal_on (al_principal_ngn loan) received ?rel d\<bar> \<le> 10 ^ 7"
      using principal_on_bounds[of ?rel "al_principal_ngn loan" received d] rel p by fastforce
    have "\<bar>principal_on (al_principal_ngn loan) received ?rel d\<bar> * ?rate \<le> 10 ^ 7 * 1"
      using b rate by (intro mult_mono) auto
    then show ?thesis by (simp add: abs_mult)
  qed
  have fin: "ceilDays received as_of \<le> 10 ^ 6" using days by (simp add: ceilDays_le_iff)
  have "\<bar>sum ?f {0..<ceilDays received as_of}\<bar> \<le> (\<Sum>d\<in>{0..<ceilDays received as_of}. \<bar>?f d\<bar>)"
    by (rule sum_abs)
  also have "\<dots> \<le> of_nat (card {0..<ceilDays received as_of}) * 10 ^ 7"
    using bound by (intro sum_bounded_above) auto
  also have "\<dots> = of_int (ceilDays received as_of) * 10 ^ 7" by simp
  also have "\<dots> \<le> of_int (10 ^ 6) * 10 ^ 7" using fin by (intro mult_right_mono) (simp_all only: of_int_le_iff, simp)
  finally show "\<bar>daily_interest loan received reps as_of\<bar> \<le> 10 ^ 13" by (simp add: daily_interest_sum)
  have "on_scale 6 (sum ?f {0..<ceilDays received as_of})"
    using scale by (rule on_scale_sum)
  then show "on_scale 6 (daily_interest loan received reps as_of)" by (simp add: daily_interest_sum)
qed

section \<open>The service computes the reference\<close>

definition owed_principal :: "accrual_loan \<Rightarrow> accrual_repayment list \<Rightarrow> time \<Rightarrow> money" where
  "owed_principal loan reps as_of = max (al_principal_ngn loan
     - sum_list (map ar_applied_to_principal (filter (\<lambda>r. ar_created_at r \<le> as_of) reps))) 0"

definition owed_interest :: "accrual_loan \<Rightarrow> time \<Rightarrow> accrual_repayment list \<Rightarrow> time \<Rightarrow> money" where
  "owed_interest loan received reps as_of = max (daily_interest loan received reps as_of
     - sum_list (map ar_applied_to_interest (filter (\<lambda>r. ar_created_at r \<le> as_of) reps))) 0"

context decimal_env begin

lemma gross_interest_exact:
  assumes ok: "accrual_ok loan reps received as_of"
  shows "gross_interest D loan received (relevant_repayments reps as_of) (ceilDays received as_of)
         = daily_interest loan received reps as_of"
proof -
  let ?rel = "relevant_repayments reps as_of"
  let ?rate = "of_nat (al_daily_interest_rate_bps loan) / 10000 :: rat"
  have p: "on_scale 2 (al_principal_ngn loan)" "0 \<le> al_principal_ngn loan" "al_principal_ngn loan \<le> 10 ^ 7"
    and rate: "al_daily_interest_rate_bps loan \<le> 10000" and days: "as_of - received \<le> 10 ^ 6 * MS_PER_DAY"
    using ok by (simp_all add: accrual_ok_def)
  have r: "ddiv D (of_nat (al_daily_interest_rate_bps loan)) 10000 = ?rate"
    unfolding ddiv_def using rate by (intro round_exact[OF rate_factor_scale]) auto
  have fin: "ceilDays received as_of \<le> 10 ^ 6" using days by (simp add: ceilDays_le_iff)
  note rel = relevant_facts[OF ok]
  have "(case accrual_loop D received (ceilDays received as_of) ?rate ?rel (al_principal_ngn loan) 0 0 of
           (p', c', g') \<Rightarrow> if c' < ceilDays received as_of
             then dplus D g' (dmul D (dmul D p' ?rate) (of_int (ceilDays received as_of - c'))) else g')
        = 0 + (\<Sum>d\<in>{0..<ceilDays received as_of}. principal_on (al_principal_ngn loan) received ?rel d * ?rate)"
  proof (rule accrual_loop_sum)
    show "loop_ok (al_principal_ngn loan) 0 0" using p by (simp add: loop_ok_def)
    show "sum_list (map ar_applied_to_principal ?rel) \<le> al_principal_ngn loan + 10 ^ 7"
      using rel p by linarith
  qed (use rel rate fin in \<open>auto simp: rate_factor_scale\<close>)
  then show ?thesis by (simp add: gross_interest_def Let_def r daily_interest_sum split: prod.split)
qed

lemma compute_facts:
  assumes rec: "al_collateral_received_at loan = Some received"
    and ok: "accrual_ok loan reps received as_of"
  shows "compute D loan reps as_of =
     \<lparr>o_principal_ngn = owed_principal loan reps as_of,
      o_accrued_interest_ngn = owed_interest loan received reps as_of, o_accrued_custody_ngn = 0,
      o_total_outstanding_ngn = owed_principal loan reps as_of + owed_interest loan received reps as_of,
      o_days_elapsed = ceilDays received as_of, o_as_of = as_of\<rparr>"
proof -
  let ?rel = "relevant_repayments reps as_of"
  let ?pp = "sum_list (map ar_applied_to_principal ?rel)" and ?pi = "sum_list (map ar_applied_to_interest ?rel)"
  let ?g = "daily_interest loan received reps as_of"
  note rel = relevant_facts[OF ok] and g = daily_interest_bounds[OF ok]
  have p: "on_scale 2 (al_principal_ngn loan)" "0 \<le> al_principal_ngn loan" "al_principal_ngn loan \<le> 10 ^ 7"
    using ok by (simp_all add: accrual_ok_def)
  have nn: "0 \<le> ?pp" "0 \<le> ?pi" using rel(1) by (auto intro!: sum_list_nonneg)
  have sc: "on_scale 2 ?pp" "on_scale 2 ?pi" using rel(1) by (auto intro!: on_scale_sum_list)
  have pp: "foldl (\<lambda>s r. dplus D s (ar_applied_to_principal r)) 0 ?rel = ?pp"
    using paid_sum_exact[of ?rel ar_applied_to_principal 0] rel(1,2) by simp
  have pi: "foldl (\<lambda>s r. dplus D s (ar_applied_to_interest r)) 0 ?rel = ?pi"
    using paid_sum_exact[of ?rel ar_applied_to_interest 0] rel(1,3) by simp
  have e1: "dminus D (al_principal_ngn loan) ?pp = al_principal_ngn loan - ?pp"
    using dminus_principal_exact[of "al_principal_ngn loan" ?pp] p sc(1) nn rel(2) by simp
  have s6: "on_scale 6 (?g - ?pi)" using g(1) on_scale_mono[OF sc(2)] by (intro on_scale_diff) simp_all
  have b6: "\<bar>?g - ?pi\<bar> \<le> 2 * 10 ^ 13" using g(2) nn rel(3) by simp
  have e2: "dminus D ?g ?pi = ?g - ?pi"
    unfolding dminus_def using b6 by (intro round_exact[OF s6]) simp
  define a where "a = max (al_principal_ngn loan - ?pp) 0"
  define b where "b = max (?g - ?pi) 0"
  have a: "on_scale 6 a" "0 \<le> a" "a \<le> 10 ^ 7"
    using p nn sc by (auto simp: a_def intro!: on_scale_max on_scale_diff on_scale_mono[of 2 _ 6])
  have b: "on_scale 6 b" "0 \<le> b" "b \<le> 10 ^ 13"
    using s6 g(2) nn by (auto simp: b_def intro!: on_scale_max)
  have sab: "on_scale 6 (a + b)" using a b by (intro on_scale_add)
  have e3: "dplus D (dplus D a b) 0 = a + b"
  proof -
    have "\<bar>a + b\<bar> * 10 ^ 6 < 10 ^ 20" using a b by simp
    then have "d_round D (a + b) = a + b" using round_exact[OF sab] by simp
    then show ?thesis by (simp add: dplus_def)
  qed
  have "owed_principal loan reps as_of = a" "owed_interest loan received reps as_of = b"
    by (simp_all add: owed_principal_def owed_interest_def a_def b_def relevant_repayments_def sum_list_sort_key)
  then show ?thesis
    using gross_interest_exact[OF ok] e3
    by (simp add: compute_def rec Let_def pp pi e1 e2 flip: a_def b_def)
qed

lemma compute_parts_nonneg:
  assumes "0 \<le> al_principal_ngn loan"
  shows "0 \<le> o_principal_ngn (compute D loan reps as_of)"
    "0 \<le> o_accrued_interest_ngn (compute D loan reps as_of)"
    "0 \<le> o_accrued_custody_ngn (compute D loan reps as_of)"
    "0 \<le> o_total_outstanding_ngn (compute D loan reps as_of)"
    "0 \<le> o_days_elapsed (compute D loan reps as_of)"
  using assms by (auto simp: compute_def Let_def intro!: dplus_nonneg split: option.split)

end

text \<open>C12. For every loan and ledger within the bounds of \<open>accrual_ok\<close>, in whatever order the
  ledger is read, the service's walk over the segments returns exactly the day-by-day
  figures: the principal not yet repaid, the interest of each day on the principal left that
  day minus the interest paid, no custody fee, and their sum as the total.\<close>

theorem compute_is_daily_reference:
  assumes "decimal_env D" and "al_collateral_received_at loan = Some received"
    and "accrual_ok loan reps received as_of"
  shows "o_principal_ngn (compute D loan reps as_of) = owed_principal loan reps as_of \<and>
    o_accrued_interest_ngn (compute D loan reps as_of) = owed_interest loan received reps as_of \<and>
    o_accrued_custody_ngn (compute D loan reps as_of) = 0 \<and>
    o_total_outstanding_ngn (compute D loan reps as_of) =
      owed_principal loan reps as_of + owed_interest loan received reps as_of"
  by (simp add: decimal_env.compute_facts[OF assms])

definition sample_loan :: accrual_loan where
  "sample_loan = \<lparr>al_principal_ngn = 100000, al_daily_interest_rate_bps = 30,
     al_daily_custody_fee_ngn = 0, al_collateral_received_at = Some 0\<rparr>"

definition sample_ledger :: "accrual_repayment list" where
  "sample_ledger =
     [\<lparr>ar_applied_to_principal = 49700, ar_applied_to_interest = 300, ar_applied_to_custody = 0,
       ar_created_at = 86400000\<rparr>]"

lemma sample_ok: "accrual_ok sample_loan sample_ledger 0 259200000"
  by (simp add: accrual_ok_def sample_loan_def sample_ledger_def MS_PER_DAY_def)

theorem compute_is_daily_reference_witness:
  "o_total_outstanding_ngn (compute js_decimals sample_loan sample_ledger 259200000) =
     (506018 / 10 :: rat)"
proof -
  have "o_total_outstanding_ngn (compute js_decimals sample_loan sample_ledger 259200000) =
     owed_principal sample_loan sample_ledger 259200000 +
     owed_interest sample_loan 0 sample_ledger 259200000"
    using compute_is_daily_reference[OF js.decimal_env_axioms _ sample_ok] by (simp add: sample_loan_def)
  also have "\<dots> = 506018 / 10"
    by code_simp
  finally show ?thesis .
qed

lemma owed_perm:
  assumes "mset reps = mset reps'"
  shows "owed_principal loan reps as_of = owed_principal loan reps' as_of"
    and "owed_interest loan received reps as_of = owed_interest loan received reps' as_of"
    and "accrual_ok loan reps received as_of = accrual_ok loan reps' received as_of"
proof -
  have f: "mset (filter P reps) = mset (filter P reps')" for P using assms by simp
  have s: "sum_list (map g (filter P reps)) = (sum_list (map g (filter P reps')) :: rat)" for g P
    using f[of P] by (metis mset_map sum_mset_sum_list)
  have all: "sum_list (map g reps) = (sum_list (map g reps') :: rat)" for g
    using assms by (metis mset_map sum_mset_sum_list)
  have "set reps = set reps'" using assms by (metis set_mset_mset)
  then show "accrual_ok loan reps received as_of = accrual_ok loan reps' received as_of"
    by (simp add: accrual_ok_def all)
  show "owed_principal loan reps as_of = owed_principal loan reps' as_of"
    by (simp add: owed_principal_def s)
  show "owed_interest loan received reps as_of = owed_interest loan received reps' as_of"
    by (simp add: owed_interest_def daily_interest_def principal_on_def s)
qed

text \<open>The ledger is append-only but its rows may be read in any order: permuting the
  repayments, also those credited in the same millisecond, never changes what is owed.\<close>

theorem compute_order_irrelevant:
  assumes "decimal_env D" and "mset reps = mset reps'"
    and "al_collateral_received_at loan = Some received" and "accrual_ok loan reps received as_of"
  shows "compute D loan reps as_of = compute D loan reps' as_of"
proof -
  have "accrual_ok loan reps' received as_of" using assms(4) owed_perm(3)[OF assms(2)] by simp
  then show ?thesis
    using decimal_env.compute_facts[OF assms(1,3)] assms(4) owed_perm(1,2)[OF assms(2)] by simp
qed

definition second_credit :: accrual_repayment where
  "second_credit = \<lparr>ar_applied_to_principal = 10000, ar_applied_to_interest = 150,
     ar_applied_to_custody = 0, ar_created_at = 86400000\<rparr>"

theorem compute_order_irrelevant_witness:
  "compute js_decimals sample_loan (second_credit # sample_ledger) 259200000 =
   compute js_decimals sample_loan (sample_ledger @ [second_credit]) 259200000"
proof (rule compute_order_irrelevant)
  show "decimal_env js_decimals" by (rule js.decimal_env_axioms)
  show "al_collateral_received_at sample_loan = Some 0" by (simp add: sample_loan_def)
  show "accrual_ok sample_loan (second_credit # sample_ledger) 0 259200000"
    by (simp add: accrual_ok_def sample_loan_def sample_ledger_def second_credit_def MS_PER_DAY_def)
qed simp

section \<open>Bounds and growth\<close>

text \<open>Nothing owed is ever negative, whatever the ledger holds and however the arithmetic
  rounds: the floors at zero hold for every input with a nonnegative principal.\<close>

theorem compute_nonneg:
  assumes "decimal_env D" and "0 \<le> al_principal_ngn loan"
  shows "0 \<le> o_principal_ngn (compute D loan reps as_of) \<and>
    0 \<le> o_accrued_interest_ngn (compute D loan reps as_of) \<and>
    0 \<le> o_accrued_custody_ngn (compute D loan reps as_of) \<and>
    0 \<le> o_total_outstanding_ngn (compute D loan reps as_of) \<and>
    0 \<le> o_days_elapsed (compute D loan reps as_of)"
  using decimal_env.compute_parts_nonneg[OF assms, of reps as_of] by simp

theorem compute_nonneg_witness:
  "0 \<le> o_total_outstanding_ngn (compute js_decimals sample_loan sample_ledger 259200000)"
  using compute_nonneg[OF js.decimal_env_axioms, of sample_loan] by (simp add: sample_loan_def)

lemma filter_all: "(\<And>r. r \<in> set xs \<Longrightarrow> p r) \<Longrightarrow> filter p xs = xs"
  by (induction xs) auto

text \<open>Time only adds: with no further repayment, what a loan owes tomorrow is at least what
  it owes today.\<close>

theorem compute_grows:
  assumes "decimal_env D" and "al_collateral_received_at loan = Some received"
    and "accrual_ok loan reps received t'" and "t \<le> t'" and "\<forall>r\<in>set reps. ar_created_at r \<le> t"
    and "sum_list (map ar_applied_to_principal reps) \<le> al_principal_ngn loan"
  shows "o_total_outstanding_ngn (compute D loan reps t) \<le> o_total_outstanding_ngn (compute D loan reps t')"
proof -
  let ?rate = "of_nat (al_daily_interest_rate_bps loan) / 10000 :: rat"
  have ok: "accrual_ok loan reps received t" using assms(3,4) by (auto simp: accrual_ok_def)
  have f: "filter (\<lambda>r. ar_created_at r \<le> u) reps = reps" if "t \<le> u" for u
    using assms(5) that by (auto intro!: filter_all)
  have nn: "\<forall>r\<in>set reps. 0 \<le> ar_applied_to_principal r" using ok by (simp add: accrual_ok_def)
  have rel: "principal_on p received (relevant_repayments reps u) d = principal_on p received reps d"
    if "t \<le> u" for p d u by (simp add: relevant_repayments_def f that principal_on_sort)
  have left: "0 \<le> principal_on (al_principal_ngn loan) received reps d" for d
    using principal_on_bounds(2)[OF nn, of "al_principal_ngn loan" received d] assms(6) by simp
  have "daily_interest loan received reps t \<le> daily_interest loan received reps t'"
    unfolding daily_interest_sum rel[OF order_refl] rel[OF assms(4)]
    using ceilDays_mono[OF assms(4), of received] left
    by (intro sum_mono2) (auto intro!: mult_nonneg_nonneg)
  then have "owed_interest loan received reps t \<le> owed_interest loan received reps t'"
    unfolding owed_interest_def f[OF order_refl] f[OF assms(4)] by (intro max.mono) auto
  moreover have "owed_principal loan reps t = owed_principal loan reps t'"
    by (simp add: owed_principal_def f assms(4))
  ultimately show ?thesis
    using decimal_env.compute_facts[OF assms(1,2) ok] decimal_env.compute_facts[OF assms(1,2,3)] by simp
qed

theorem compute_grows_witness:
  "o_total_outstanding_ngn (compute js_decimals sample_loan sample_ledger 86400000) \<le>
   o_total_outstanding_ngn (compute js_decimals sample_loan sample_ledger 259200000)"
  by (rule compute_grows[OF js.decimal_env_axioms _ sample_ok])
     (simp_all add: sample_loan_def sample_ledger_def)

end
