(* ===== verification/Constants.thy ===== *)
theory Constants
  imports Errors
begin

text \<open>
  \<open>common/constants/index.ts\<close>: the thresholds and windows of the product, in the order the
  file has them, and the Redis keys (\<open>rkey\<close>), to which the keys the other modules build
  with template strings are added.
\<close>

definition RATE_MARKUP_PERCENT :: rat where "RATE_MARKUP_PERCENT = 5 / 1000"
definition LOAN_LTV_PERCENT :: rat where "LOAN_LTV_PERCENT = 6 / 10"
definition LIQUIDATION_THRESHOLD :: rat where "LIQUIDATION_THRESHOLD = 11 / 10"
definition ALERT_THRESHOLD :: rat where "ALERT_THRESHOLD = 12 / 10"
definition COVERAGE_WARN_TIER :: rat where "COVERAGE_WARN_TIER = 12 / 10"
definition COVERAGE_MARGIN_CALL_TIER :: rat where "COVERAGE_MARGIN_CALL_TIER = 115 / 100"
definition MIN_LIQUIDATION_RATE_FRACTION :: rat where "MIN_LIQUIDATION_RATE_FRACTION = 5 / 10"

definition ORIGINATION_FEE_PER_100K_NGN :: rat where "ORIGINATION_FEE_PER_100K_NGN = 0"
definition DAILY_INTEREST_RATE_BPS :: nat where "DAILY_INTEREST_RATE_BPS = 30"
definition MIN_LOAN_NGN :: rat where "MIN_LOAN_NGN = 10000"
definition MAX_SELFSERVE_LOAN_NGN :: rat where "MAX_SELFSERVE_LOAN_NGN = 10000000"
definition MIN_PARTIAL_REPAYMENT_NGN :: rat where "MIN_PARTIAL_REPAYMENT_NGN = 10000"
definition KYC_EXEMPTION_THRESHOLD_NGN :: rat where "KYC_EXEMPTION_THRESHOLD_NGN = 500000"
definition INFLOW_OUTSTANDING_MATCH_TOLERANCE_NGN :: rat where
  "INFLOW_OUTSTANDING_MATCH_TOLERANCE_NGN = 1 / 2"

definition COLLATERAL_INVOICE_EXPIRY_SEC :: int where "COLLATERAL_INVOICE_EXPIRY_SEC = 1800"
definition COLLATERAL_TOPUP_EXPIRY_SEC :: int where "COLLATERAL_TOPUP_EXPIRY_SEC = 1800"
definition OUTFLOW_PROCESSING_STALE_SEC :: int where "OUTFLOW_PROCESSING_STALE_SEC = 300"
definition PRICE_FEED_STALE_MS :: int where "PRICE_FEED_STALE_MS = 1200000"
definition PRICE_CACHE_TTL_SEC :: int where "PRICE_CACHE_TTL_SEC = 600"
definition SATS_PER_BTC :: rat where "SATS_PER_BTC = 100000000"
definition ALERT_COOLDOWN_SEC :: int where "ALERT_COOLDOWN_SEC = 86400"
definition COVERAGE_NOTIFY_COOLDOWN_SEC :: int where "COVERAGE_NOTIFY_COOLDOWN_SEC = 28800"
definition SESSION_TTL_SEC :: int where "SESSION_TTL_SEC = 86400"
definition MAX_DISBURSEMENT_ACCOUNTS_PER_KIND :: nat where "MAX_DISBURSEMENT_ACCOUNTS_PER_KIND = 5"
definition IDEMPOTENCY_TTL_SEC :: int where "IDEMPOTENCY_TTL_SEC = 86400"
definition OPS_SESSION_TTL_SEC :: int where "OPS_SESSION_TTL_SEC = 28800"
definition OPS_CHALLENGE_TTL_SEC :: int where "OPS_CHALLENGE_TTL_SEC = 300"
definition OPS_ENROLMENT_TTL_SEC :: int where "OPS_ENROLMENT_TTL_SEC = 900"
definition TRANSACTION_PIN_LENGTH :: nat where "TRANSACTION_PIN_LENGTH = 6"
definition TRANSACTION_PIN_MAX_ATTEMPTS :: nat where "TRANSACTION_PIN_MAX_ATTEMPTS = 5"
definition TRANSACTION_PIN_LOCKOUT_SEC :: int where "TRANSACTION_PIN_LOCKOUT_SEC = 900"

lemmas rate_constants = RATE_MARKUP_PERCENT_def LOAN_LTV_PERCENT_def LIQUIDATION_THRESHOLD_def
  ALERT_THRESHOLD_def COVERAGE_WARN_TIER_def COVERAGE_MARGIN_CALL_TIER_def
  MIN_LIQUIDATION_RATE_FRACTION_def

lemmas fee_constants = ORIGINATION_FEE_PER_100K_NGN_def DAILY_INTEREST_RATE_BPS_def MIN_LOAN_NGN_def
  MAX_SELFSERVE_LOAN_NGN_def MIN_PARTIAL_REPAYMENT_NGN_def KYC_EXEMPTION_THRESHOLD_NGN_def
  INFLOW_OUTSTANDING_MATCH_TOLERANCE_NGN_def SATS_PER_BTC_def

lemmas window_constants = COLLATERAL_INVOICE_EXPIRY_SEC_def COLLATERAL_TOPUP_EXPIRY_SEC_def
  OUTFLOW_PROCESSING_STALE_SEC_def PRICE_FEED_STALE_MS_def PRICE_CACHE_TTL_SEC_def
  ALERT_COOLDOWN_SEC_def COVERAGE_NOTIFY_COOLDOWN_SEC_def SESSION_TTL_SEC_def
  TRANSACTION_PIN_MAX_ATTEMPTS_def TRANSACTION_PIN_LOCKOUT_SEC_def IDEMPOTENCY_TTL_SEC_def
  OPS_SESSION_TTL_SEC_def OPS_CHALLENGE_TTL_SEC_def OPS_ENROLMENT_TTL_SEC_def

section \<open>Redis keys\<close>

text \<open>
  A template string with its arguments is a constructor with these arguments: two keys are
  equal exactly when their templates and arguments are, because the templates have distinct
  fixed prefixes.
\<close>

datatype OtpPurpose =
    otp_verify | otp_login | otp_release_address_change
  | otp_transaction_pin_set | otp_transaction_pin_change | otp_transaction_pin_disable

datatype rkey =
    PRICE AssetPair
  | PRICE_STALE
  | IDEMPOTENCY id string
  | PAYMENT_REQUEST_PENDING string
  | COLLATERAL_TOPUP_PENDING string
  | ALERT_SENT id
  | COVERAGE_WARN_NOTIFIED id
  | COVERAGE_MARGIN_CALL_NOTIFIED id
  | COLLATERAL_RELEASE_LOCK id
  | COLLATERAL_RELEASE_ALERTED id
  | WORKER_HEARTBEAT string
  | OTP_CODE OtpPurpose string
  | OTP_ATTEMPTS OtpPurpose string
  | OPS_CHALLENGE string
  | OPS_ENROLMENT string
  | SCOPED_OTP_CODE OtpPurpose id "id option"
  | SCOPED_OTP_ATTEMPTS OtpPurpose id "id option"

text \<open>Redis stores strings; the values the services store are decoded where they are read.\<close>

datatype rval =
    VStr string
  | VInt int
  | VRates rat rat
  | VInFlight
  | VResponse nat string

end
