(* ===== verification/Calculator.thy ===== *)
theory Calculator
  imports Constants Decimals Display
begin

text \<open>
  \<open>modules/loans/calculator.service.ts\<close>: the quote. The collateral is sized so that the
  principal is 60 percent of its value at the sell rate, rounded up to a whole SAT.
\<close>

record calculator_input =
  ci_principal_ngn :: money
  ci_sat_ngn_rate :: rat
  ci_btc_usd_rate :: rat

record calculator_result =
  cr_principal_ngn :: money
  cr_origination_fee_ngn :: money
  cr_daily_custody_fee_ngn :: money
  cr_daily_interest_rate_bps :: nat
  cr_daily_interest_ngn :: money
  cr_collateral_amount_sat :: sats
  cr_initial_collateral_usd :: money
  cr_ltv_percent :: rat
  cr_sat_ngn_rate_at_creation :: rat
  cr_amount_to_receive_ngn :: money
  cr_initial_liquidation_rate_ngn :: rat
  cr_initial_alert_rate_ngn :: rat

definition validate :: "calculator_input \<Rightarrow> exn option" where
  "validate input =
     (if ci_sat_ngn_rate input \<le> 0 \<or> ci_btc_usd_rate input \<le> 0
      then Some (LoanE (PriceFeedStaleException 0 None))
      else if ci_principal_ngn input < MIN_LOAN_NGN
      then Some (LoanE (LoanAmountTooLowException (show_int \<lfloor>MIN_LOAN_NGN\<rfloor>)))
      else if ci_principal_ngn input > MAX_SELFSERVE_LOAN_NGN
      then Some (LoanE (LoanAmountTooHighException (show_int \<lfloor>MAX_SELFSERVE_LOAN_NGN\<rfloor>)))
      else None)"

definition collateral_sat :: "decimals \<Rightarrow> money \<Rightarrow> rat \<Rightarrow> sats" where
  "collateral_sat D principal_ngn sat_ngn_rate =
     (let collateral_ngn = ddiv D principal_ngn LOAN_LTV_PERCENT
      in \<lceil>ddiv D collateral_ngn sat_ngn_rate\<rceil>)"

definition calculate :: "decimals \<Rightarrow> calculator_input \<Rightarrow> exn + calculator_result" where
  "calculate D input =
     (case validate input of
        Some e \<Rightarrow> Inl e
      | None \<Rightarrow>
          (let p = ci_principal_ngn input;
               rate = ci_sat_ngn_rate input;
               collateral_amount_sat = collateral_sat D p rate;
               sat_decimal = of_int collateral_amount_sat;
               origination_units = of_int \<lceil>ddiv D p 100000\<rceil>;
               origination_fee_ngn = dmul D origination_units ORIGINATION_FEE_PER_100K_NGN
           in Inr \<lparr>cr_principal_ngn = p,
                   cr_origination_fee_ngn = origination_fee_ngn,
                   cr_daily_custody_fee_ngn = 0,
                   cr_daily_interest_rate_bps = DAILY_INTEREST_RATE_BPS,
                   cr_daily_interest_ngn = ddiv D (dmul D p (of_nat DAILY_INTEREST_RATE_BPS)) 10000,
                   cr_collateral_amount_sat = collateral_amount_sat,
                   cr_initial_collateral_usd =
                     dmul D (ddiv D sat_decimal SATS_PER_BTC) (ci_btc_usd_rate input),
                   cr_ltv_percent = LOAN_LTV_PERCENT,
                   cr_sat_ngn_rate_at_creation = rate,
                   cr_amount_to_receive_ngn = dminus D p origination_fee_ngn,
                   cr_initial_liquidation_rate_ngn = ddiv D (dmul D p LIQUIDATION_THRESHOLD) sat_decimal,
                   cr_initial_alert_rate_ngn = ddiv D (dmul D p ALERT_THRESHOLD) sat_decimal\<rparr>))"

lemma calculate_fields:
  assumes "calculate D input = Inr r"
  shows "cr_collateral_amount_sat r = collateral_sat D (ci_principal_ngn input) (ci_sat_ngn_rate input)"
    and "cr_initial_liquidation_rate_ngn r =
      ddiv D (dmul D (ci_principal_ngn input) LIQUIDATION_THRESHOLD) (of_int (cr_collateral_amount_sat r))"
    and "cr_initial_alert_rate_ngn r =
      ddiv D (dmul D (ci_principal_ngn input) ALERT_THRESHOLD) (of_int (cr_collateral_amount_sat r))"
    and "cr_ltv_percent r = LOAN_LTV_PERCENT"
    and "10000 \<le> ci_principal_ngn input" "ci_principal_ngn input \<le> 10000000" "0 < ci_sat_ngn_rate input"
  using assms
  by (auto simp: calculate_def validate_def Let_def MIN_LOAN_NGN_def MAX_SELFSERVE_LOAN_NGN_def
      split: option.splits if_splits)

text \<open>A quote is refused exactly when a rate is not positive or the principal is outside
  the self-serve range, with the stale-feed error taking precedence and the amount errors
  naming the violated limit; otherwise it is a quote for the principal asked.\<close>

theorem calculate_outcomes:
  "(case calculate D input of
      Inl e \<Rightarrow>
        (ci_sat_ngn_rate input \<le> 0 \<or> ci_btc_usd_rate input \<le> 0) \<and>
          e = LoanE (PriceFeedStaleException 0 None) \<or>
        0 < ci_sat_ngn_rate input \<and> 0 < ci_btc_usd_rate input \<and>
          (ci_principal_ngn input < 10000 \<and> e = LoanE (LoanAmountTooLowException ''10000'') \<or>
           10000000 < ci_principal_ngn input \<and> e = LoanE (LoanAmountTooHighException ''10000000''))
    | Inr r \<Rightarrow>
        0 < ci_sat_ngn_rate input \<and> 0 < ci_btc_usd_rate input \<and> 10000 \<le> ci_principal_ngn input \<and>
        ci_principal_ngn input \<le> 10000000 \<and> cr_principal_ngn r = ci_principal_ngn input \<and>
        cr_sat_ngn_rate_at_creation r = ci_sat_ngn_rate input \<and> cr_daily_custody_fee_ngn r = 0)"
proof -
  have "show_int 10000 = ''10000''" "show_int 10000000 = ''10000000''" 
    by (simp_all add: show_int_def show_nat.simps char_of_def bit_iff_odd)
  then show ?thesis
    by (auto simp: calculate_def validate_def MIN_LOAN_NGN_def MAX_SELFSERVE_LOAN_NGN_def Let_def)
qed

context decimal_env begin

lemma fee_waived:
  assumes "calculate D input = Inr r" and "on_scale 2 (ci_principal_ngn input)"
  shows "cr_origination_fee_ngn r = 0" and "cr_amount_to_receive_ngn r = ci_principal_ngn input"
proof -
  have p: "0 \<le> ci_principal_ngn input" "ci_principal_ngn input \<le> 10000000"
    using calculate_fields(5,6)[OF assms(1)] by auto
  show f: "cr_origination_fee_ngn r = 0"
    using assms(1) by (auto simp: calculate_def Let_def fee_constants dmul_def split: option.splits)
  have "cr_amount_to_receive_ngn r = dminus D (ci_principal_ngn input) (cr_origination_fee_ngn r)"
    using assms(1) by (auto simp: calculate_def Let_def split: option.splits)
  then show "cr_amount_to_receive_ngn r = ci_principal_ngn input"
    using f round_exact[OF assms(2)] p by (simp add: dminus_def)
qed

lemma daily_interest_exact:
  assumes "calculate D input = Inr r" and "on_scale 2 (ci_principal_ngn input)"
  shows "cr_daily_interest_ngn r = ci_principal_ngn input * 3 / 1000"
proof -
  let ?p = "ci_principal_ngn input"
  have p: "0 \<le> ?p" "?p \<le> 10000000"
    using calculate_fields(5,6)[OF assms(1)] by auto
  have s: "on_scale 2 (?p * 30)" using on_scale_mult_int[OF assms(2), of 30] by simp
  then have "on_scale 6 (?p * 30 / 10000)"
    unfolding on_scale_def by (simp add: field_simps)
  then have "ddiv D (?p * 30) 10000 = ?p * 30 / 10000"
    unfolding ddiv_def using p by (intro round_exact) auto
  moreover have "dmul D ?p 30 = ?p * 30"
    unfolding dmul_def using p by (intro round_exact[OF s]) simp
  ultimately show ?thesis
    using assms(1) by (auto simp: calculate_def Let_def fee_constants split: option.splits)
qed

text \<open>Two roundings to twenty digits move the collateral by less than a part in \<open>10 ^ 19\<close>.\<close>

lemma collateral_bounds:
  assumes "0 < p" "0 < rate"
  shows "p / LOAN_LTV_PERCENT / rate * (1 - 1 / 10 ^ 19) \<le> of_int (collateral_sat D p rate)"
    and "of_int (collateral_sat D p rate) < p / LOAN_LTV_PERCENT / rate * (1 + 2 / 10 ^ 19) + 1"
proof -
  define e :: rat where "e = 1 / (2 * 10 ^ 19)"
  define x where "x = p / LOAN_LTV_PERCENT"
  have x: "0 < x" using assms by (simp add: x_def rate_constants)
  define y where "y = ddiv D p LOAN_LTV_PERCENT"
  have y: "x * (1 - e) \<le> y" "y \<le> x * (1 + e)"
    using round_bounds[of x] x by (simp_all add: y_def x_def ddiv_def e_def)
  have e: "0 < e" "e < 1" by (simp_all add: e_def)
  have y0: "0 \<le> y" using y(1) x e by (simp add: order_trans[OF _ y(1)])
  define z where "z = ddiv D y rate"
  have z: "y / rate * (1 - e) \<le> z" "z \<le> y / rate * (1 + e)"
    using round_bounds[of "y / rate"] y0 assms by (simp_all add: z_def ddiv_def e_def)
  have "x / rate * (1 - e) * (1 - e) = x * (1 - e) / rate * (1 - e)" by simp
  also have "\<dots> \<le> y / rate * (1 - e)"
    using y(1) assms e by (intro mult_right_mono divide_right_mono) auto
  finally have lo: "x / rate * ((1 - e) * (1 - e)) \<le> z" using z(1) by (simp add: mult.assoc)
  have "y / rate * (1 + e) \<le> x * (1 + e) / rate * (1 + e)"
    using y(2) assms e by (intro mult_right_mono divide_right_mono) auto
  then have hi: "z \<le> x / rate * ((1 + e) * (1 + e))" using z(2) by (simp add: mult.assoc)
  have xr: "0 \<le> x / rate" using x assms by simp
  have "1 - 1 / 10 ^ 19 \<le> (1 - e) * (1 - e)" "(1 + e) * (1 + e) \<le> 1 + 2 / 10 ^ 19"
    by (simp_all add: e_def)
  then have "x / rate * (1 - 1 / 10 ^ 19) \<le> z" "z \<le> x / rate * (1 + 2 / 10 ^ 19)"
    using lo hi mult_left_mono[OF _ xr] by (blast intro: order_trans)+
  moreover have "collateral_sat D p rate = \<lceil>z\<rceil>" by (simp add: collateral_sat_def z_def y_def Let_def)
  moreover have "z \<le> of_int \<lceil>z\<rceil>" "of_int \<lceil>z\<rceil> < z + 1" by linarith+
  ultimately show "p / LOAN_LTV_PERCENT / rate * (1 - 1 / 10 ^ 19) \<le> of_int (collateral_sat D p rate)"
    and "of_int (collateral_sat D p rate) < p / LOAN_LTV_PERCENT / rate * (1 + 2 / 10 ^ 19) + 1"
    unfolding x_def by linarith+
qed

lemma quotient_bounds:
  assumes "0 < p" "0 < k" "0 < q"
  shows "p * k / q * (1 - 1 / 10 ^ 19) \<le> ddiv D (dmul D p k) q"
    and "ddiv D (dmul D p k) q \<le> p * k / q * (1 + 2 / 10 ^ 19)"
proof -
  define e :: rat where "e = 1 / (2 * 10 ^ 19)"
  define x where "x = p * k"
  have x: "0 < x" using assms by (simp add: x_def)
  have e: "0 < e" "e < 1" by (simp_all add: e_def)
  define y where "y = dmul D p k"
  have y: "x * (1 - e) \<le> y" "y \<le> x * (1 + e)"
    using round_bounds[of x] x by (simp_all add: y_def x_def dmul_def e_def)
  have y0: "0 \<le> y" using x e by (simp add: order_trans[OF _ y(1)])
  have z: "y / q * (1 - e) \<le> ddiv D y q" "ddiv D y q \<le> y / q * (1 + e)"
    using round_bounds[of "y / q"] y0 assms by (simp_all add: ddiv_def e_def)
  have "x * (1 - e) / q * (1 - e) \<le> y / q * (1 - e)"
    using y(1) assms e by (intro mult_right_mono divide_right_mono) auto
  then have lo: "x / q * ((1 - e) * (1 - e)) \<le> ddiv D y q" using z(1) by (simp add: mult.assoc)
  have "y / q * (1 + e) \<le> x * (1 + e) / q * (1 + e)"
    using y(2) assms e by (intro mult_right_mono divide_right_mono) auto
  then have hi: "ddiv D y q \<le> x / q * ((1 + e) * (1 + e))" using z(2) by (simp add: mult.assoc)
  have xq: "0 \<le> x / q" using x assms by simp
  have "1 - 1 / 10 ^ 19 \<le> (1 - e) * (1 - e)" "(1 + e) * (1 + e) \<le> 1 + 2 / 10 ^ 19"
    by (simp_all add: e_def)
  then show "p * k / q * (1 - 1 / 10 ^ 19) \<le> ddiv D (dmul D p k) q"
    and "ddiv D (dmul D p k) q \<le> p * k / q * (1 + 2 / 10 ^ 19)"
    using lo hi mult_left_mono[OF _ xq] unfolding y_def[symmetric] x_def[symmetric]
    by (blast intro: order_trans)+
qed

end

context decimal_env begin

lemma sizing:
  assumes "calculate D input = Inr r"
  shows "ci_principal_ngn input * (1 - 1 / 10 ^ 19) \<le>
      of_int (cr_collateral_amount_sat r) * ci_sat_ngn_rate input * (6 / 10) \<and>
    (of_int (cr_collateral_amount_sat r) - 1) * ci_sat_ngn_rate input * (6 / 10) <
      ci_principal_ngn input * (1 + 2 / 10 ^ 19) \<and>
    0 < cr_collateral_amount_sat r"
proof -
  let ?p = "ci_principal_ngn input" and ?r = "ci_sat_ngn_rate input"
  note f = calculate_fields[OF assms]
  have p: "0 < ?p" using f(5) by simp
  define c where "c = (of_int (cr_collateral_amount_sat r) :: rat)"
  have unit: "0 < ?r * (6 / 10)" using f(7) by simp
  have b: "?p / LOAN_LTV_PERCENT / ?r * (1 - 1 / 10 ^ 19) \<le> c"
    "c < ?p / LOAN_LTV_PERCENT / ?r * (1 + 2 / 10 ^ 19) + 1"
    using collateral_bounds[OF p f(7)] by (simp_all add: c_def f(1))
  have cancel: "?p / LOAN_LTV_PERCENT / ?r * k * (?r * (6 / 10)) = ?p * k" for k
    using f(7) by (simp add: LOAN_LTV_PERCENT_def)
  have lo: "?p * (1 - 1 / 10 ^ 19) \<le> c * (?r * (6 / 10))"
    using mult_right_mono[OF b(1) less_imp_le[OF unit]] by (simp only: cancel)
  have "(c - 1) * (?r * (6 / 10)) < ?p / LOAN_LTV_PERCENT / ?r * (1 + 2 / 10 ^ 19) * (?r * (6 / 10))"
    using b(2) unit by (intro mult_strict_right_mono) linarith+
  then have hi: "(c - 1) * (?r * (6 / 10)) < ?p * (1 + 2 / 10 ^ 19)" by (simp only: cancel)
  have "0 < c * (?r * (6 / 10))" using lo p by (intro less_le_trans[OF _ lo]) simp
  then have "0 < c" using unit by (simp add: zero_less_mult_iff)
  then show ?thesis using lo hi by (simp add: c_def mult.assoc)
qed

lemma thresholds:
  assumes "calculate D input = Inr r"
  shows "cr_initial_liquidation_rate_ngn r < cr_initial_alert_rate_ngn r \<and>
    cr_initial_alert_rate_ngn r < ci_sat_ngn_rate input"
proof -
  let ?p = "ci_principal_ngn input" and ?r = "ci_sat_ngn_rate input"
  define c where "c = (of_int (cr_collateral_amount_sat r) :: rat)"
  note f = calculate_fields[OF assms] and size = sizing[OF assms]
  have p: "0 < ?p" using f(5) by simp
  have c: "0 < c" using size by (simp add: c_def)
  define u where "u = ?p / c"
  have u: "0 < u" using p c by (simp add: u_def)
  have "?p * (1 - 1 / 10 ^ 19) \<le> ?r * (6 / 10) * c" using size by (simp add: c_def mult_ac)
  then have ur: "u * (1 - 1 / 10 ^ 19) \<le> ?r * (6 / 10)"
    using c by (simp add: u_def pos_divide_le_eq)
  have "cr_initial_liquidation_rate_ngn r \<le> u * (11 / 10) * (1 + 2 / 10 ^ 19)"
    using quotient_bounds(2)[OF p, of "11 / 10" c] c by (simp add: f(2) LIQUIDATION_THRESHOLD_def u_def flip: c_def)
  moreover have "u * (12 / 10) * (1 - 1 / 10 ^ 19) \<le> cr_initial_alert_rate_ngn r"
    using quotient_bounds(1)[OF p, of "12 / 10" c] c by (simp add: f(3) ALERT_THRESHOLD_def u_def flip: c_def)
  moreover have "cr_initial_alert_rate_ngn r \<le> u * (12 / 10) * (1 + 2 / 10 ^ 19)"
    using quotient_bounds(2)[OF p, of "12 / 10" c] c by (simp add: f(3) ALERT_THRESHOLD_def u_def flip: c_def)
  moreover have "u * (11 / 10) * (1 + 2 / 10 ^ 19) < u * (12 / 10) * (1 - 1 / 10 ^ 19)"
    "u * (12 / 10) * (1 + 2 / 10 ^ 19) < u * (1 - 1 / 10 ^ 19) * (10 / 6)"
    using u by simp_all
  ultimately show ?thesis using ur by simp
qed

end

text \<open>C28. The collateral of a quote covers the loan at the loan-to-value ratio and no more than
  one SAT beyond it: its value times 60 percent is at least the principal, and one SAT less
  would not be (both up to the twenty digits of the arithmetic).\<close>

theorem collateral_sizing:
  assumes "decimal_env D" and "calculate D input = Inr r"
  shows "ci_principal_ngn input * (1 - 1 / 10 ^ 19) \<le>
      of_int (cr_collateral_amount_sat r) * ci_sat_ngn_rate input * (6 / 10) \<and>
    (of_int (cr_collateral_amount_sat r) - 1) * ci_sat_ngn_rate input * (6 / 10) <
      ci_principal_ngn input * (1 + 2 / 10 ^ 19) \<and>
    0 < cr_collateral_amount_sat r"
  by (rule decimal_env.sizing[OF assms])

text \<open>A loan is never born in distress: the rate at which the quote says it would be
  liquidated lies strictly below the rate of its alert, which lies strictly below the rate at
  which the collateral was sized.\<close>

theorem quote_thresholds_ordered:
  assumes "decimal_env D" and "calculate D input = Inr r"
  shows "cr_initial_liquidation_rate_ngn r < cr_initial_alert_rate_ngn r \<and>
    cr_initial_alert_rate_ngn r < ci_sat_ngn_rate input"
  by (rule decimal_env.thresholds[OF assms])

definition sample_quote :: calculator_input where
  "sample_quote = \<lparr>ci_principal_ngn = 100000, ci_sat_ngn_rate = 8 / 10, ci_btc_usd_rate = 60000\<rparr>"

lemma sample_quote_ok: "\<exists>r. calculate D sample_quote = Inr r"
  by (simp add: calculate_def validate_def sample_quote_def fee_constants Let_def)

theorem collateral_sizing_witness:
  "case calculate js_decimals sample_quote of
     Inr r \<Rightarrow> 208333 < cr_collateral_amount_sat r \<and> cr_collateral_amount_sat r < 208335
   | Inl _ \<Rightarrow> False"
proof -
  obtain r where r: "calculate js_decimals sample_quote = Inr r" using sample_quote_ok by blast
  have "(208333 :: rat) < of_int (cr_collateral_amount_sat r)"
    "of_int (cr_collateral_amount_sat r) < (208335 :: rat)"
    using collateral_sizing[OF js.decimal_env_axioms r] by (simp_all add: sample_quote_def)
  then show ?thesis using r by simp
qed

theorem quote_thresholds_ordered_witness:
  "case calculate js_decimals sample_quote of
     Inr r \<Rightarrow> cr_initial_liquidation_rate_ngn r < 8 / 10 | Inl _ \<Rightarrow> False"
proof -
  obtain r where r: "calculate js_decimals sample_quote = Inr r" using sample_quote_ok by blast
  then show ?thesis
    using quote_thresholds_ordered[OF js.decimal_env_axioms r] by (simp add: sample_quote_def)
qed

end
