(* ===== verification/Store.thy ===== *)
theory Store
  imports Constants Decimals
begin

text \<open>
  What the services share: the database, Redis, the messages and payments that leave the
  system (in order, oldest first), the fire-and-forget tasks that a request handed over, and
  the clock, which stands still while one handler runs. Prisma's create, update, updateMany
  and \<open>$transaction\<close> and the Redis commands are the operations below; the interfaces
  \<open>table\<close> and \<open>kv_store\<close> state what the services rely on.
\<close>

section \<open>The state\<close>

record db =
  users :: "user_row list"
  sessions :: "session_row list"
  accounts :: "account_row list"
  payment_requests :: "payment_request_row list"
  inflows :: "inflow_row list"
  disbursements :: "disbursement_row list"
  outflows :: "outflow_row list"
  price_feeds :: "price_feed_row list"
  loans :: "loan_row list"
  repayment_accounts :: "repayment_account_row list"
  repayments :: "repayment_row list"
  topups :: "topup_row list"
  status_logs :: "status_log_row list"
  webhook_logs :: "webhook_log_row list"
  audits :: "audit_row list"
  kyc_verifications :: "kyc_row list"
  ops_users :: "ops_user_row list"
  ops_sessions :: "ops_session_row list"
  loan_applications :: "loan_application_row list"
  next_id :: id

datatype mail =
    LoanCreatedMail id
  | CollateralReceivedMail id
  | LoanDisbursedMail id money
  | RepaymentMail id money bool
  | CollateralReleasedMail id string
  | CoverageWarnMail id
  | MarginCallMail id
  | RepaymentAccountChangedMail string

datatype alert =
    UnmatchedInflowAlert UnmatchedReason string
  | SignatureOnlyCreditAlert string id
  | DisbursementOnHoldAlert id nat
  | ReleaseFailedAlert id bool
  | LiquidationAlert string id
  | PriceStaleAlert
  | NewLoanApplicationAlert id string string

datatype effect =
    MailSent id mail
  | OtpSent string string OtpPurpose
  | OpsAlerted alert
  | LightningSend id string sats "string + string"
  | Swapped id sats "string + rat"
  | TransferInitiated string money string string "string + string"

datatype task = ReleaseForLoan id

record world =
  w_db :: db
  w_redis :: "rkey \<Rightarrow> (rval \<times> time option) option"
  w_outbox :: "effect list"
  w_tasks :: "task list"
  w_clock :: time

type_synonym 'a service = "(world, exn, 'a) prog"

section \<open>Tables\<close>

record 'r table =
  t_rows :: "world \<Rightarrow> 'r list"
  t_put :: "('r list \<Rightarrow> 'r list) \<Rightarrow> world \<Rightarrow> world"
  t_key :: "'r \<Rightarrow> id"
  t_unique :: "(string \<times> ('r \<Rightarrow> 'r \<Rightarrow> bool)) list"

definition user_table :: "user_row table" where
  "user_table = \<lparr>t_rows = \<lambda>w. users (w_db w),
     t_put = \<lambda>f w. w\<lparr>w_db := (w_db w)\<lparr>users := f (users (w_db w))\<rparr>\<rparr>, t_key = u_id,
     t_unique = [(''users_email_key'', \<lambda>a b. u_email a = u_email b)]\<rparr>"

definition session_table :: "session_row table" where
  "session_table = \<lparr>t_rows = \<lambda>w. sessions (w_db w),
     t_put = \<lambda>f w. w\<lparr>w_db := (w_db w)\<lparr>sessions := f (sessions (w_db w))\<rparr>\<rparr>, t_key = s_id,
     t_unique = [(''sessions_token_hash_key'', \<lambda>a b. s_token_hash a = s_token_hash b)]\<rparr>"

definition account_table :: "account_row table" where
  "account_table = \<lparr>t_rows = \<lambda>w. accounts (w_db w),
     t_put = \<lambda>f w. w\<lparr>w_db := (w_db w)\<lparr>accounts := f (accounts (w_db w))\<rparr>\<rparr>, t_key = acct_id,
     t_unique = [(''destination_unique'', \<lambda>a b. acct_user_id a = acct_user_id b \<and> acct_kind a = acct_kind b \<and>
        acct_provider_code a = acct_provider_code b \<and> acct_account_unique a = acct_account_unique b),
        (''one_default_per_kind'', \<lambda>a b. acct_user_id a = acct_user_id b \<and>
        acct_kind a = acct_kind b \<and> acct_is_default a \<and> acct_is_default b)]\<rparr>"

definition payment_request_table :: "payment_request_row table" where
  "payment_request_table = \<lparr>t_rows = \<lambda>w. payment_requests (w_db w),
     t_put = \<lambda>f w. w\<lparr>w_db := (w_db w)\<lparr>payment_requests := f (payment_requests (w_db w))\<rparr>\<rparr>,
     t_key = pr_id,
     t_unique = [(''payment_requests_inflow_id_key'',
        \<lambda>a b. pr_inflow_id a = pr_inflow_id b \<and> pr_inflow_id a \<noteq> None \<and> pr_inflow_id b \<noteq> None)]\<rparr>"

definition inflow_table :: "inflow_row table" where
  "inflow_table = \<lparr>t_rows = \<lambda>w. inflows (w_db w),
     t_put = \<lambda>f w. w\<lparr>w_db := (w_db w)\<lparr>inflows := f (inflows (w_db w))\<rparr>\<rparr>, t_key = in_id,
     t_unique = [(''inflows_provider_reference_key'',
        \<lambda>a b. in_provider_reference a = in_provider_reference b)]\<rparr>"

definition disbursement_table :: "disbursement_row table" where
  "disbursement_table = \<lparr>t_rows = \<lambda>w. disbursements (w_db w),
     t_put = \<lambda>f w. w\<lparr>w_db := (w_db w)\<lparr>disbursements := f (disbursements (w_db w))\<rparr>\<rparr>,
     t_key = dis_id, t_unique = []\<rparr>"

definition outflow_table :: "outflow_row table" where
  "outflow_table = \<lparr>t_rows = \<lambda>w. outflows (w_db w),
     t_put = \<lambda>f w. w\<lparr>w_db := (w_db w)\<lparr>outflows := f (outflows (w_db w))\<rparr>\<rparr>, t_key = out_id,
     t_unique = [(''outflows_provider_reference_key'',
        \<lambda>a b. out_provider_reference a = out_provider_reference b)]\<rparr>"

definition price_feed_table :: "price_feed_row table" where
  "price_feed_table = \<lparr>t_rows = \<lambda>w. price_feeds (w_db w),
     t_put = \<lambda>f w. w\<lparr>w_db := (w_db w)\<lparr>price_feeds := f (price_feeds (w_db w))\<rparr>\<rparr>,
     t_key = pf_id, t_unique = []\<rparr>"

definition loan_table :: "loan_row table" where
  "loan_table = \<lparr>t_rows = \<lambda>w. loans (w_db w),
     t_put = \<lambda>f w. w\<lparr>w_db := (w_db w)\<lparr>loans := f (loans (w_db w))\<rparr>\<rparr>, t_key = l_id,
     t_unique =
       [(''loans_user_id_pending_unique'', \<lambda>a b. l_user_id a = l_user_id b \<and>
           l_status a = LoanStatus.PENDING_COLLATERAL \<and> l_status b = LoanStatus.PENDING_COLLATERAL),
        (''loans_disbursement_id_key'',
           \<lambda>a b. l_disbursement_id a = l_disbursement_id b \<and> l_disbursement_id a \<noteq> None \<and>
              l_disbursement_id b \<noteq> None)]\<rparr>"

definition repayment_account_table :: "repayment_account_row table" where
  "repayment_account_table = \<lparr>t_rows = \<lambda>w. repayment_accounts (w_db w),
     t_put = \<lambda>f w. w\<lparr>w_db := (w_db w)\<lparr>repayment_accounts := f (repayment_accounts (w_db w))\<rparr>\<rparr>,
     t_key = va_id,
     t_unique =
       [(''user_repayment_accounts_virtual_account_no_key'',
           \<lambda>a b. va_virtual_account_no a = va_virtual_account_no b),
        (''one_active_account_per_user'',
           \<lambda>a b. va_user_id a = va_user_id b \<and> va_is_active a \<and> va_is_active b)]\<rparr>"

definition repayment_table :: "repayment_row table" where
  "repayment_table = \<lparr>t_rows = \<lambda>w. repayments (w_db w),
     t_put = \<lambda>f w. w\<lparr>w_db := (w_db w)\<lparr>repayments := f (repayments (w_db w))\<rparr>\<rparr>, t_key = rep_id,
     t_unique = [(''loan_repayments_inflow_id_key'', \<lambda>a b. rep_inflow_id a = rep_inflow_id b)]\<rparr>"

definition topup_table :: "topup_row table" where
  "topup_table = \<lparr>t_rows = \<lambda>w. topups (w_db w),
     t_put = \<lambda>f w. w\<lparr>w_db := (w_db w)\<lparr>topups := f (topups (w_db w))\<rparr>\<rparr>, t_key = tu_id,
     t_unique =
       [(''collateral_topups_provider_ref_key'', \<lambda>a b. tu_provider_ref a = tu_provider_ref b),
        (''collateral_topups_loan_id_pending_unique'', \<lambda>a b. tu_loan_id a = tu_loan_id b \<and>
           tu_status a = TopUpStatus.PENDING_COLLATERAL \<and> tu_status b = TopUpStatus.PENDING_COLLATERAL)]\<rparr>"

definition status_log_table :: "status_log_row table" where
  "status_log_table = \<lparr>t_rows = \<lambda>w. status_logs (w_db w),
     t_put = \<lambda>f w. w\<lparr>w_db := (w_db w)\<lparr>status_logs := f (status_logs (w_db w))\<rparr>\<rparr>,
     t_key = sl_id, t_unique = []\<rparr>"

definition webhook_log_table :: "webhook_log_row table" where
  "webhook_log_table = \<lparr>t_rows = \<lambda>w. webhook_logs (w_db w),
     t_put = \<lambda>f w. w\<lparr>w_db := (w_db w)\<lparr>webhook_logs := f (webhook_logs (w_db w))\<rparr>\<rparr>,
     t_key = wh_id, t_unique = []\<rparr>"

definition audit_table :: "audit_row table" where
  "audit_table = \<lparr>t_rows = \<lambda>w. audits (w_db w),
     t_put = \<lambda>f w. w\<lparr>w_db := (w_db w)\<lparr>audits := f (audits (w_db w))\<rparr>\<rparr>,
     t_key = au_id, t_unique = []\<rparr>"

definition kyc_table :: "kyc_row table" where
  "kyc_table = \<lparr>t_rows = \<lambda>w. kyc_verifications (w_db w),
     t_put = \<lambda>f w. w\<lparr>w_db := (w_db w)\<lparr>kyc_verifications := f (kyc_verifications (w_db w))\<rparr>\<rparr>, t_key = k_id,
     t_unique = [(''kyc_verifications_user_id_tier_key'', \<lambda>a b. k_user_id a = k_user_id b \<and> k_tier a = k_tier b),
        (''kyc_verifications_id_type_id_number_hash_unique'', \<lambda>a b. k_id_type a = k_id_type b \<and>
           k_id_type a \<noteq> None \<and> k_id_type b \<noteq> None \<and> k_id_number_hash a = k_id_number_hash b \<and>
           k_id_number_hash a \<noteq> None \<and> k_id_number_hash b \<noteq> None)]\<rparr>"

definition ops_user_table :: "ops_user_row table" where
  "ops_user_table = \<lparr>t_rows = \<lambda>w. ops_users (w_db w),
     t_put = \<lambda>f w. w\<lparr>w_db := (w_db w)\<lparr>ops_users := f (ops_users (w_db w))\<rparr>\<rparr>, t_key = ou_id,
     t_unique = [(''ops_users_email_key'', \<lambda>a b. ou_email a = ou_email b)]\<rparr>"

definition ops_session_table :: "ops_session_row table" where
  "ops_session_table = \<lparr>t_rows = \<lambda>w. ops_sessions (w_db w),
     t_put = \<lambda>f w. w\<lparr>w_db := (w_db w)\<lparr>ops_sessions := f (ops_sessions (w_db w))\<rparr>\<rparr>, t_key = os_id,
     t_unique = [(''ops_sessions_token_hash_key'', \<lambda>a b. os_token_hash a = os_token_hash b)]\<rparr>"

definition loan_application_table :: "loan_application_row table" where
  "loan_application_table = \<lparr>t_rows = \<lambda>w. loan_applications (w_db w),
     t_put = \<lambda>f w. w\<lparr>w_db := (w_db w)\<lparr>loan_applications := f (loan_applications (w_db w))\<rparr>\<rparr>, t_key = la_id,
     t_unique = []\<rparr>"

lemmas table_defs = audit_table_def user_table_def session_table_def account_table_def payment_request_table_def
  inflow_table_def disbursement_table_def outflow_table_def price_feed_table_def loan_table_def
  repayment_account_table_def repayment_table_def topup_table_def status_log_table_def
  webhook_log_table_def kyc_table_def ops_user_table_def ops_session_table_def loan_application_table_def

text \<open>The rows, the key and the write of each table.\<close>

lemma table_rows:
  "t_rows user_table w = users (w_db w)" "t_key user_table = u_id"
  "t_rows session_table w = sessions (w_db w)" "t_key session_table = s_id"
  "t_rows account_table w = accounts (w_db w)" "t_key account_table = acct_id"
  "t_rows payment_request_table w = payment_requests (w_db w)" "t_key payment_request_table = pr_id"
  "t_rows inflow_table w = inflows (w_db w)" "t_key inflow_table = in_id"
  "t_rows disbursement_table w = disbursements (w_db w)" "t_key disbursement_table = dis_id"
  "t_rows outflow_table w = outflows (w_db w)" "t_key outflow_table = out_id"
  "t_rows price_feed_table w = price_feeds (w_db w)" "t_key price_feed_table = pf_id"
  "t_rows loan_table w = loans (w_db w)" "t_key loan_table = l_id"
  "t_rows repayment_account_table w = repayment_accounts (w_db w)" "t_key repayment_account_table = va_id"
  "t_rows repayment_table w = repayments (w_db w)" "t_key repayment_table = rep_id"
  "t_rows topup_table w = topups (w_db w)" "t_key topup_table = tu_id"
  "t_rows status_log_table w = status_logs (w_db w)" "t_key status_log_table = sl_id"
  "t_rows webhook_log_table w = webhook_logs (w_db w)" "t_key webhook_log_table = wh_id"
  "t_rows audit_table w = audits (w_db w)" "t_key audit_table = au_id"
  "t_rows kyc_table w = kyc_verifications (w_db w)" "t_key kyc_table = k_id"
  "t_rows ops_user_table w = ops_users (w_db w)" "t_key ops_user_table = ou_id"
  "t_rows ops_session_table w = ops_sessions (w_db w)" "t_key ops_session_table = os_id"
  "t_rows loan_application_table w = loan_applications (w_db w)" "t_key loan_application_table = la_id"
  by (simp_all add: table_defs)

lemma table_puts:
  "t_put user_table f0 w = w\<lparr>w_db := (w_db w)\<lparr>users := f0 (users (w_db w))\<rparr>\<rparr>"
  "t_put session_table f1 w = w\<lparr>w_db := (w_db w)\<lparr>sessions := f1 (sessions (w_db w))\<rparr>\<rparr>"
  "t_put account_table f2 w = w\<lparr>w_db := (w_db w)\<lparr>accounts := f2 (accounts (w_db w))\<rparr>\<rparr>"
  "t_put payment_request_table f3 w = w\<lparr>w_db := (w_db w)\<lparr>payment_requests := f3 (payment_requests (w_db w))\<rparr>\<rparr>"
  "t_put inflow_table f4 w = w\<lparr>w_db := (w_db w)\<lparr>inflows := f4 (inflows (w_db w))\<rparr>\<rparr>"
  "t_put disbursement_table f5 w = w\<lparr>w_db := (w_db w)\<lparr>disbursements := f5 (disbursements (w_db w))\<rparr>\<rparr>"
  "t_put outflow_table f6 w = w\<lparr>w_db := (w_db w)\<lparr>outflows := f6 (outflows (w_db w))\<rparr>\<rparr>"
  "t_put price_feed_table f7 w = w\<lparr>w_db := (w_db w)\<lparr>price_feeds := f7 (price_feeds (w_db w))\<rparr>\<rparr>"
  "t_put loan_table f8 w = w\<lparr>w_db := (w_db w)\<lparr>loans := f8 (loans (w_db w))\<rparr>\<rparr>"
  "t_put repayment_account_table f9 w = w\<lparr>w_db := (w_db w)\<lparr>repayment_accounts := f9 (repayment_accounts (w_db w))\<rparr>\<rparr>"
  "t_put repayment_table f10 w = w\<lparr>w_db := (w_db w)\<lparr>repayments := f10 (repayments (w_db w))\<rparr>\<rparr>"
  "t_put topup_table f11 w = w\<lparr>w_db := (w_db w)\<lparr>topups := f11 (topups (w_db w))\<rparr>\<rparr>"
  "t_put status_log_table f12 w = w\<lparr>w_db := (w_db w)\<lparr>status_logs := f12 (status_logs (w_db w))\<rparr>\<rparr>"
  "t_put webhook_log_table f13 w = w\<lparr>w_db := (w_db w)\<lparr>webhook_logs := f13 (webhook_logs (w_db w))\<rparr>\<rparr>"
  "t_put audit_table f14 w = w\<lparr>w_db := (w_db w)\<lparr>audits := f14 (audits (w_db w))\<rparr>\<rparr>"
  "t_put kyc_table f15 w = w\<lparr>w_db := (w_db w)\<lparr>kyc_verifications := f15 (kyc_verifications (w_db w))\<rparr>\<rparr>"
  "t_put ops_user_table f16 w = w\<lparr>w_db := (w_db w)\<lparr>ops_users := f16 (ops_users (w_db w))\<rparr>\<rparr>"
  "t_put ops_session_table f17 w = w\<lparr>w_db := (w_db w)\<lparr>ops_sessions := f17 (ops_sessions (w_db w))\<rparr>\<rparr>"
  "t_put loan_application_table f18 w = w\<lparr>w_db := (w_db w)\<lparr>loan_applications := f18 (loan_applications (w_db w))\<rparr>\<rparr>"
  by (simp_all add: table_defs)

lemmas table_ops = table_rows table_puts

subsection \<open>Prisma's operations\<close>

definition violated :: "'r table \<Rightarrow> 'r \<Rightarrow> 'r list \<Rightarrow> string option" where
  "violated T r rows =
     map_option fst (List.find (\<lambda>(_, clash). \<exists>r' \<in> set rows. t_key T r' \<noteq> t_key T r \<and> clash r r')
                       (t_unique T))"

definition create_row :: "'r table \<Rightarrow> (id \<Rightarrow> 'r) \<Rightarrow> 'r service" where
  "create_row T mk w =
     (let r = mk (next_id (w_db w)) in
      case violated T r (t_rows T w) of
        Some n \<Rightarrow> (Inl (PrismaUniqueViolation n), w)
      | None \<Rightarrow> (Inr r, t_put T (\<lambda>rows. rows @ [r])
                         (w\<lparr>w_db := (w_db w)\<lparr>next_id := Suc (next_id (w_db w))\<rparr>\<rparr>)))"

definition find_by_id :: "'r table \<Rightarrow> id \<Rightarrow> 'r option service" where
  "find_by_id T i = gets (\<lambda>w. find_row (t_key T) i (t_rows T w))"

definition find_first :: "'r table \<Rightarrow> ('r \<Rightarrow> bool) \<Rightarrow> 'r option service" where
  "find_first T p = gets (\<lambda>w. List.find p (t_rows T w))"

definition find_many :: "'r table \<Rightarrow> ('r \<Rightarrow> bool) \<Rightarrow> 'r list service" where
  "find_many T p = gets (\<lambda>w. filter p (t_rows T w))"

definition find_or_throw :: "'r table \<Rightarrow> id \<Rightarrow> 'r service" where
  "find_or_throw T i = bind (find_by_id T i) (the_or_throw PrismaRecordNotFound)"

definition update_by_id :: "'r table \<Rightarrow> id \<Rightarrow> ('r \<Rightarrow> 'r) \<Rightarrow> 'r service" where
  "update_by_id T i f w =
     (case find_row (t_key T) i (t_rows T w) of
        None \<Rightarrow> (Inl PrismaRecordNotFound, w)
      | Some r \<Rightarrow>
          (case violated T (f r) (t_rows T w) of
             Some n \<Rightarrow> (Inl (PrismaUniqueViolation n), w)
           | None \<Rightarrow> (Inr (f r), t_put T (update_row (t_key T) i f) w)))"

text \<open>\<open>updateMany\<close> on a table whose updated columns are in no unique index.\<close>

definition update_many :: "'r table \<Rightarrow> ('r \<Rightarrow> bool) \<Rightarrow> ('r \<Rightarrow> 'r) \<Rightarrow> nat service" where
  "update_many T p f w = (Inr (length (filter p (t_rows T w))), t_put T (update_where p f) w)"

definition delete_many :: "'r table \<Rightarrow> ('r \<Rightarrow> bool) \<Rightarrow> nat service" where
  "delete_many T p w = (Inr (length (filter p (t_rows T w))), t_put T (filter (\<lambda>r. \<not> p r)) w)"

text \<open>A \<open>throw\<close> inside \<open>$transaction\<close> restores the database, and only the database.\<close>

definition transaction :: "'a service \<Rightarrow> 'a service" where
  "transaction m w = (case m w of (Inl e, w') \<Rightarrow> (Inl e, w'\<lparr>w_db := w_db w\<rparr>) | (Inr x, w') \<Rightarrow> (Inr x, w'))"

definition now :: "time service" where
  "now = gets w_clock"

definition emit :: "effect \<Rightarrow> unit service" where
  "emit e = modify (\<lambda>w. w\<lparr>w_outbox := w_outbox w @ [e]\<rparr>)"

definition notify :: "id \<Rightarrow> mail \<Rightarrow> unit service" where
  "notify user m = emit (MailSent user m)"

definition page_ops :: "alert \<Rightarrow> unit service" where
  "page_ops a = emit (OpsAlerted a)"

definition spawn :: "task \<Rightarrow> unit service" where
  "spawn t = modify (\<lambda>w. w\<lparr>w_tasks := w_tasks w @ [t]\<rparr>)"

subsection \<open>Redis\<close>

definition live :: "world \<Rightarrow> rkey \<Rightarrow> rval option" where
  "live w k = (case w_redis w k of
     None \<Rightarrow> None
   | Some (v, None) \<Rightarrow> Some v
   | Some (v, Some t) \<Rightarrow> if w_clock w < t then Some v else None)"

definition set_key :: "rkey \<Rightarrow> rval \<Rightarrow> time option \<Rightarrow> world \<Rightarrow> world" where
  "set_key k v t w = w\<lparr>w_redis := (w_redis w)(k \<mapsto> (v, t))\<rparr>"

definition redis_get :: "rkey \<Rightarrow> rval option service" where
  "redis_get k = gets (\<lambda>w. live w k)"

definition redis_set :: "rkey \<Rightarrow> rval \<Rightarrow> unit service" where
  "redis_set k v = modify (set_key k v None)"

text \<open>\<open>SET key value EX ttl\<close>, and \<open>SET key value EX ttl NX\<close>, which answers whether it set.\<close>

definition redis_setex :: "rkey \<Rightarrow> rval \<Rightarrow> int \<Rightarrow> unit service" where
  "redis_setex k v ttl = modify (\<lambda>w. set_key k v (Some (w_clock w + ttl * 1000)) w)"

definition redis_setnx :: "rkey \<Rightarrow> rval \<Rightarrow> int \<Rightarrow> bool service" where
  "redis_setnx k v ttl w =
     (if live w k = None then (Inr True, set_key k v (Some (w_clock w + ttl * 1000)) w)
      else (Inr False, w))"

definition redis_del :: "rkey \<Rightarrow> unit service" where
  "redis_del k = modify (\<lambda>w. w\<lparr>w_redis := (w_redis w)(k := None)\<rparr>)"

subsection \<open>Weakest preconditions of the operations\<close>

lemma wp_create_row [wp_simps]:
  "wp (create_row T mk) Q E w =
     (case violated T (mk (next_id (w_db w))) (t_rows T w) of
        Some n \<Rightarrow> E (PrismaUniqueViolation n) w
      | None \<Rightarrow> Q (mk (next_id (w_db w)))
                  (t_put T (\<lambda>rows. rows @ [mk (next_id (w_db w))])
                     (w\<lparr>w_db := (w_db w)\<lparr>next_id := Suc (next_id (w_db w))\<rparr>\<rparr>)))"
  by (simp add: wp_def create_row_def Let_def split: option.split)

lemma wp_find_by_id [wp_simps]:
  "wp (find_by_id T i) Q E w = Q (find_row (t_key T) i (t_rows T w)) w"
  by (simp add: find_by_id_def wp_simps)

lemma wp_find_first [wp_simps]: "wp (find_first T p) Q E w = Q (List.find p (t_rows T w)) w"
  by (simp add: find_first_def wp_simps)

lemma wp_find_many [wp_simps]: "wp (find_many T p) Q E w = Q (filter p (t_rows T w)) w"
  by (simp add: find_many_def wp_simps)

lemma wp_find_or_throw [wp_simps]:
  "wp (find_or_throw T i) Q E w =
     (case find_row (t_key T) i (t_rows T w) of None \<Rightarrow> E PrismaRecordNotFound w | Some r \<Rightarrow> Q r w)"
  by (simp add: find_or_throw_def wp_simps)

lemma wp_update_by_id [wp_simps]:
  "wp (update_by_id T i f) Q E w =
     (case find_row (t_key T) i (t_rows T w) of
        None \<Rightarrow> E PrismaRecordNotFound w
      | Some r \<Rightarrow> (case violated T (f r) (t_rows T w) of
          Some n \<Rightarrow> E (PrismaUniqueViolation n) w
        | None \<Rightarrow> Q (f r) (t_put T (update_row (t_key T) i f) w)))"
  by (simp add: wp_def update_by_id_def split: option.split)

lemma wp_update_many [wp_simps]:
  "wp (update_many T p f) Q E w =
     Q (length (filter p (t_rows T w))) (t_put T (update_where p f) w)"
  by (simp add: wp_def update_many_def)

lemma wp_delete_many [wp_simps]:
  "wp (delete_many T p) Q E w =
     Q (length (filter p (t_rows T w))) (t_put T (filter (\<lambda>r. \<not> p r)) w)"
  by (simp add: wp_def delete_many_def)

lemma wp_transaction [wp_simps]:
  "wp (transaction m) Q E w = wp m Q (\<lambda>e w'. E e (w'\<lparr>w_db := w_db w\<rparr>)) w"
  by (simp add: wp_def transaction_def split: prod.split sum.split)

lemma wp_now [wp_simps]: "wp now Q E w = Q (w_clock w) w"
  by (simp add: now_def wp_simps)

lemma wp_emit [wp_simps]: "wp (emit e) Q E w = Q () (w\<lparr>w_outbox := w_outbox w @ [e]\<rparr>)"
  by (simp add: emit_def wp_simps)

lemma wp_notify [wp_simps]:
  "wp (notify u m) Q E w = Q () (w\<lparr>w_outbox := w_outbox w @ [MailSent u m]\<rparr>)"
  by (simp add: notify_def wp_simps)

lemma wp_page_ops [wp_simps]:
  "wp (page_ops a) Q E w = Q () (w\<lparr>w_outbox := w_outbox w @ [OpsAlerted a]\<rparr>)"
  by (simp add: page_ops_def wp_simps)

lemma wp_spawn [wp_simps]: "wp (spawn t) Q E w = Q () (w\<lparr>w_tasks := w_tasks w @ [t]\<rparr>)"
  by (simp add: spawn_def wp_simps)

lemma wp_redis_get [wp_simps]: "wp (redis_get k) Q E w = Q (live w k) w"
  by (simp add: redis_get_def wp_simps)

lemma wp_redis_set [wp_simps]: "wp (redis_set k v) Q E w = Q () (set_key k v None w)"
  by (simp add: redis_set_def wp_simps)

lemma wp_redis_setex [wp_simps]:
  "wp (redis_setex k v ttl) Q E w = Q () (set_key k v (Some (w_clock w + ttl * 1000)) w)"
  by (simp add: redis_setex_def wp_simps)

lemma wp_redis_setnx [wp_simps]:
  "wp (redis_setnx k v ttl) Q E w =
     (if live w k = None then Q True (set_key k v (Some (w_clock w + ttl * 1000)) w)
      else Q False w)"
  by (simp add: wp_def redis_setnx_def)

lemma wp_redis_del [wp_simps]: "wp (redis_del k) Q E w = Q () (w\<lparr>w_redis := (w_redis w)(k := None)\<rparr>)"
  by (simp add: redis_del_def wp_simps)

lemmas store_defs = create_row_def find_by_id_def find_first_def find_many_def find_or_throw_def
  update_by_id_def update_many_def delete_many_def transaction_def now_def emit_def notify_def
  page_ops_def spawn_def redis_get_def redis_set_def redis_setex_def redis_setnx_def redis_del_def

lemma set_key_fields [simp]:
  "w_db (set_key k v t w) = w_db w" "w_outbox (set_key k v t w) = w_outbox w"
  "w_tasks (set_key k v t w) = w_tasks w" "w_clock (set_key k v t w) = w_clock w"
  "w_redis (set_key k v t w) = (w_redis w)(k \<mapsto> (v, t))"
  by (simp_all add: set_key_def)

lemma live_SomeD:
  "live w k = Some v \<Longrightarrow> \<exists>t. w_redis w k = Some (v, t) \<and> (\<forall>u. t = Some u \<longrightarrow> w_clock w < u)"
  by (cases "w_redis w k") (auto simp: live_def split: option.splits if_splits)

lemma violated_no_index [simp]: "t_unique T = [] \<Longrightarrow> violated T r rows = None"
  by (simp add: violated_def)

lemma violated_empty [simp]: "violated T r [] = None"
  by (simp add: violated_def find_None_iff split_def)

lemma violated_NoneD:
  "violated T r rows = None \<Longrightarrow> (n, clash) \<in> set (t_unique T) \<Longrightarrow> r' \<in> set rows \<Longrightarrow>
   t_key T r' \<noteq> t_key T r \<Longrightarrow> \<not> clash r r'"
  by (fastforce simp: violated_def find_None_iff)

text \<open>A world with nothing in it, the starting point of the concrete runs.\<close>

definition empty_db :: db where
  "empty_db = \<lparr>users = [], sessions = [], accounts = [], payment_requests = [], inflows = [],
     disbursements = [], outflows = [], price_feeds = [], loans = [], repayment_accounts = [],
     repayments = [], topups = [], status_logs = [], webhook_logs = [], audits = [],
     kyc_verifications = [], ops_users = [], ops_sessions = [], loan_applications = [], next_id = 1\<rparr>"

definition empty_world :: world where
  "empty_world = \<lparr>w_db = empty_db, w_redis = \<lambda>_. None, w_outbox = [], w_tasks = [], w_clock = 0\<rparr>"

text \<open>\<open>INCR\<close> and \<open>EXPIRE\<close>.\<close>

definition expiry :: "world \<Rightarrow> rkey \<Rightarrow> time option" where
  "expiry w k = (case w_redis w k of None \<Rightarrow> None | Some (_, t) \<Rightarrow> t)"

definition redis_incr :: "rkey \<Rightarrow> unit service" where
  "redis_incr k = modify (\<lambda>w. case live w k of
     Some (VInt n) \<Rightarrow> set_key k (VInt (n + 1)) (expiry w k) w
   | _ \<Rightarrow> set_key k (VInt 1) None w)"

definition redis_expire :: "rkey \<Rightarrow> int \<Rightarrow> unit service" where
  "redis_expire k ttl = modify (\<lambda>w. case live w k of
     Some v \<Rightarrow> set_key k v (Some (w_clock w + ttl * 1000)) w
   | None \<Rightarrow> w)"

lemma wp_redis_incr [wp_simps]:
  "wp (redis_incr k) Q E w = Q () (case live w k of
     Some (VInt n) \<Rightarrow> set_key k (VInt (n + 1)) (expiry w k) w | _ \<Rightarrow> set_key k (VInt 1) None w)"
  by (simp add: redis_incr_def wp_simps)

lemma wp_redis_expire [wp_simps]:
  "wp (redis_expire k ttl) Q E w = Q () (case live w k of
     Some v \<Rightarrow> set_key k v (Some (w_clock w + ttl * 1000)) w | None \<Rightarrow> w)"
  by (simp add: redis_expire_def wp_simps)

text \<open>A key that was just written, and every other key.\<close>

lemma live_set_key [simp]:
  "live (set_key k v t w) j =
     (if j = k then (case t of None \<Rightarrow> Some v | Some u \<Rightarrow> if w_clock w < u then Some v else None)
      else live w j)"
  by (simp add: live_def split: option.split)

lemma live_del [simp]:
  "live (w\<lparr>w_redis := (w_redis w)(k := None)\<rparr>) j = (if j = k then None else live w j)"
  by (simp add: live_def split: option.split)

lemma live_gone [simp]: "live (w\<lparr>w_redis := m(k := None)\<rparr>) k = None"
  by (simp add: live_def)

lemma live_other_fields [simp]:
  "live (w\<lparr>w_outbox := x\<rparr>) k = live w k" "live (w\<lparr>w_tasks := y\<rparr>) k = live w k"
  "live (w\<lparr>w_db := d\<rparr>) k = live w k"
  by (simp_all add: live_def split: option.split)

lemma wp_redis_del_fun: "wp (redis_del k) Q E = (\<lambda>w. Q () (w\<lparr>w_redis := (w_redis w)(k := None)\<rparr>))"
  by (rule ext) (simp add: wp_simps)

section \<open>The interface of a table\<close>

text \<open>
  The services rely on a table being a component of its own: writing it changes its rows as
  told and nothing else. From this follow the facts about keys and unique indexes that every
  service uses.
\<close>

definition wf_table :: "'r table \<Rightarrow> world \<Rightarrow> bool" where
  "wf_table T w \<longleftrightarrow>
     unique_keys (t_key T) (t_rows T w) \<and> (\<forall>r\<in>set (t_rows T w). t_key T r < next_id (w_db w)) \<and>
     (\<forall>(n, clash)\<in>set (t_unique T). \<forall>a\<in>set (t_rows T w). \<forall>b\<in>set (t_rows T w).
        t_key T a \<noteq> t_key T b \<longrightarrow> \<not> clash a b)"

locale table =
  fixes T :: "'r table"
  assumes rows_put [simp]: "t_rows T (t_put T f w) = f (t_rows T w)"
    and rows_db: "w_db v = w_db w \<Longrightarrow> t_rows T v = t_rows T w"
    and rows_next_id [simp]: "t_rows T (w\<lparr>w_db := (w_db w)\<lparr>next_id := n\<rparr>\<rparr>) = t_rows T w"
    and put_next_id [simp]: "next_id (w_db (t_put T f w)) = next_id (w_db w)"
    and clash_sym: "(k, clash) \<in> set (t_unique T) \<Longrightarrow> clash a b = clash b a"
begin

lemma created:
  assumes "create_row T mk w = (Inr r, w')"
  shows "r = mk (next_id (w_db w))" and "t_rows T w' = t_rows T w @ [r]"
    and "next_id (w_db w') = Suc (next_id (w_db w))" and "violated T r (t_rows T w) = None"
  using assms by (auto simp: create_row_def Let_def split: option.splits)

lemma created_found:
  assumes "wf_table T w" and "\<And>i. t_key T (mk i) = i" and "create_row T mk w = (Inr r, w')"
  shows "find_row (t_key T) j (t_rows T w') =
           (if j = next_id (w_db w) then Some r else find_row (t_key T) j (t_rows T w))"
proof -
  have "find_row (t_key T) (next_id (w_db w)) (t_rows T w) = None"
    using assms(1) by (auto simp: find_row_None_iff wf_table_def)
  then show ?thesis
    using created[OF assms(3)] assms(2) by (auto simp: find_row_append split: option.split)
qed

lemma wf_append:
  assumes "wf_table T w" and "t_key T r = next_id (w_db w)" and "violated T r (t_rows T w) = None"
    and "t_rows T w' = t_rows T w @ [r]" and "next_id (w_db w') = Suc (next_id (w_db w))"
  shows "wf_table T w'"
proof -
  have "\<not> clash a b" if "(k, clash) \<in> set (t_unique T)" "a \<in> set (t_rows T w @ [r])"
    "b \<in> set (t_rows T w @ [r])" "t_key T a \<noteq> t_key T b" for k clash a b
    using that assms(1) violated_NoneD[OF assms(3) that(1)] clash_sym[OF that(1)]
    unfolding wf_table_def by (fastforce)
  moreover have "unique_keys (t_key T) (t_rows T w @ [r])"
    using assms(1,2) by (auto simp: unique_keys_append_one wf_table_def)
  ultimately show ?thesis using assms by (fastforce simp: wf_table_def)
qed

lemma wf_create:
  assumes "wf_table T w" and "\<And>i. t_key T (mk i) = i" and "create_row T mk w = (Inr r, w')"
  shows "wf_table T w'"
  using created[OF assms(3)] assms(1,2) by (intro wf_append[of w r w']) auto

lemma wf_update:
  assumes "wf_table T w" and "\<And>r. t_key T (f r) = t_key T r"
    and "update_by_id T i f w = (Inr x, w')"
  shows "wf_table T w'"
proof -
  obtain r where r: "find_row (t_key T) i (t_rows T w) = Some r"
    and v: "violated T (f r) (t_rows T w) = None" and w': "w' = t_put T (update_row (t_key T) i f) w"
    using assms(3) by (auto simp: update_by_id_def split: option.splits)
  have u: "unique_keys (t_key T) (t_rows T w)" using assms(1) by (simp add: wf_table_def)
  have only: "a = r" if "a \<in> set (t_rows T w)" "t_key T a = i" for a
    using find_row_unique[OF u that(1)] that(2) r by simp
  have old: "\<not> clash a b" if "(k, clash) \<in> set (t_unique T)" "a \<in> set (t_rows T w)"
    "b \<in> set (t_rows T w)" "t_key T a \<noteq> t_key T b" for k clash a b
    using that assms(1) by (fastforce simp: wf_table_def)
  have "\<not> clash a b" if c: "(k, clash) \<in> set (t_unique T)"
    and a: "a \<in> set (t_rows T w')" and b: "b \<in> set (t_rows T w')"
    and ne: "t_key T a \<noteq> t_key T b" for k clash a b
  proof -
    obtain a' where a': "a' \<in> set (t_rows T w)" "a = (if t_key T a' = i then f a' else a')"
      using a by (auto simp: w' set_update_row)
    obtain b' where b': "b' \<in> set (t_rows T w)" "b = (if t_key T b' = i then f b' else b')"
      using b by (auto simp: w' set_update_row)
    have ne': "t_key T a' \<noteq> t_key T b'" using ne a' b' assms(2) by (auto split: if_splits)
    have ri: "t_key T r = i" using r by (rule find_row_key)
    show ?thesis
    proof (cases "t_key T a' = i")
      case True
      with a' b' ne' only show ?thesis
        using violated_NoneD[OF v c b'(1)] assms(2)[of r] by auto
    next
      case False
      then show ?thesis
        using a' b' ne' only old[OF c a'(1) b'(1)] violated_NoneD[OF v c a'(1)] assms(2)[of r]
          clash_sym[OF c] by (auto split: if_splits)
    qed
  qed
  moreover have "\<forall>a\<in>set (t_rows T w'). t_key T a < next_id (w_db w')"
    using assms(1,2) by (auto simp: w' set_update_row wf_table_def)
  ultimately show ?thesis
    using u unique_keys_update_row[of "t_key T" f, OF assms(2)] by (auto simp: wf_table_def w')
qed

text \<open>An update of columns that no index reads and that are not the key keeps the table well
  formed, whichever rows it touches.\<close>

lemma wf_touch:
  assumes "wf_table T w" and "\<And>r. t_key T (f r) = t_key T r"
    and same: "\<And>k clash a b. (k, clash) \<in> set (t_unique T) \<Longrightarrow> clash (f a) b = clash a b"
    and w': "t_rows T w' = update_where p f (t_rows T w)" and n: "next_id (w_db w') = next_id (w_db w)"
  shows "wf_table T w'"
proof -
  have u: "unique_keys (t_key T) (t_rows T w')"
    using assms(1,2) by (simp add: wf_table_def unique_keys_def w' update_where_def o_def if_distrib cong: if_cong)
  have below: "\<forall>a\<in>set (t_rows T w'). t_key T a < next_id (w_db w')"
    using assms(1,2) by (auto simp: w' n set_update_where wf_table_def)
  have "\<not> clash a b" if c: "(k, clash) \<in> set (t_unique T)"
    and ab: "a \<in> set (t_rows T w')" "b \<in> set (t_rows T w')" "t_key T a \<noteq> t_key T b" for k clash a b
  proof -
    obtain a' b' where a': "a' \<in> set (t_rows T w)" "a = (if p a' then f a' else a')"
      and b': "b' \<in> set (t_rows T w)" "b = (if p b' then f b' else b')"
      using ab(1,2) by (auto simp: w' set_update_where)
    have "t_key T a' \<noteq> t_key T b'" using ab(3) a'(2) b'(2) assms(2) by (auto split: if_splits)
    then have "\<not> clash a' b'" using assms(1) c a'(1) b'(1) by (fastforce simp: wf_table_def)
    moreover have "clash a b = clash a' b'"
      using a'(2) b'(2) same[OF c] clash_sym[OF c] by (auto split: if_splits)
    ultimately show ?thesis by simp
  qed
  then show ?thesis using u below by (fastforce simp: wf_table_def)
qed

lemma wf_filter:
  assumes "wf_table T w" and "t_rows T w' = filter p (t_rows T w)" and "next_id (w_db w) \<le> next_id (w_db w')"
  shows "wf_table T w'"
proof -
  have "distinct (map (t_key T) (filter p (t_rows T w)))"
    using assms(1) by (simp add: wf_table_def unique_keys_def distinct_map_filter)
  then show ?thesis
    using assms unfolding wf_table_def unique_keys_def by fastforce
qed

lemma not_violated:
  assumes "wf_table T w" and "find_row (t_key T) i (t_rows T w) = Some r"
    and "t_key T r' = t_key T r"
    and "\<And>k clash b. (k, clash) \<in> set (t_unique T) \<Longrightarrow> clash r' b \<Longrightarrow> clash r b"
  shows "violated T r' (t_rows T w) = None"
proof -
  have "r \<in> set (t_rows T w)" using assms(2) by (rule find_row_in_set)
  then have "\<not> clash r' b" if "(k, clash) \<in> set (t_unique T)" "b \<in> set (t_rows T w)"
    "t_key T b \<noteq> t_key T r'" for k clash b
    using that assms(1,3) assms(4)[OF that(1)] unfolding wf_table_def by fastforce
  then show ?thesis by (auto simp: violated_def find_None_iff)
qed

end

interpretation user_tbl: table user_table
  by unfold_locales (auto simp: table_defs)

interpretation session_tbl: table session_table
  by unfold_locales (auto simp: table_defs)

interpretation account_tbl: table account_table
  by unfold_locales (auto simp: table_defs)

interpretation payment_request_tbl: table payment_request_table
  by unfold_locales (auto simp: table_defs)

interpretation inflow_tbl: table inflow_table
  by unfold_locales (auto simp: table_defs)

interpretation disbursement_tbl: table disbursement_table
  by unfold_locales (auto simp: table_defs)

interpretation outflow_tbl: table outflow_table
  by unfold_locales (auto simp: table_defs)

interpretation price_feed_tbl: table price_feed_table
  by unfold_locales (auto simp: table_defs)

interpretation loan_tbl: table loan_table
  by unfold_locales (auto simp: table_defs)

interpretation repayment_account_tbl: table repayment_account_table
  by unfold_locales (auto simp: table_defs)

interpretation repayment_tbl: table repayment_table
  by unfold_locales (auto simp: table_defs)

interpretation topup_tbl: table topup_table
  by unfold_locales (auto simp: table_defs)

interpretation status_log_tbl: table status_log_table
  by unfold_locales (auto simp: table_defs)

interpretation webhook_log_tbl: table webhook_log_table
  by unfold_locales (auto simp: table_defs)

interpretation audit_tbl: table audit_table
  by unfold_locales (auto simp: table_defs)

interpretation kyc_tbl: table kyc_table
  by unfold_locales (auto simp: table_defs)

interpretation ops_user_tbl: table ops_user_table
  by unfold_locales (auto simp: table_defs)

interpretation ops_session_tbl: table ops_session_table
  by unfold_locales (auto simp: table_defs)

interpretation loan_application_tbl: table loan_application_table
  by unfold_locales (auto simp: table_defs)

section \<open>The interface of the key-value store\<close>

text \<open>
  Locks and cooldowns rest on five laws of Redis: what a read returns after a write, that a
  key is absent after a delete, that \<open>NX\<close> answers whether the key was absent, and that a key
  with a time to live is absent once it has passed.
\<close>

locale kv_store =
  fixes get :: "'w \<Rightarrow> 'k \<Rightarrow> 'v option"
    and setnx :: "'k \<Rightarrow> 'v \<Rightarrow> int \<Rightarrow> 'w \<Rightarrow> bool \<times> 'w"
    and del :: "'k \<Rightarrow> 'w \<Rightarrow> 'w"
    and wait :: "int \<Rightarrow> 'w \<Rightarrow> 'w"
  assumes setnx_free: "get w k = None \<Longrightarrow> setnx k v ttl w = (True, w') \<Longrightarrow> 0 < ttl \<Longrightarrow> get w' k = Some v"
    and setnx_answer: "fst (setnx k v ttl w) = (get w k = None)"
    and setnx_taken: "get w k \<noteq> None \<Longrightarrow> snd (setnx k v ttl w) = w"
    and setnx_other: "k \<noteq> k' \<Longrightarrow> get (snd (setnx k v ttl w)) k' = get w k'"
    and del_gone: "get (del k w) k = None"
    and del_other: "k \<noteq> k' \<Longrightarrow> get (del k w) k' = get w k'"
    and expires: "get w k = None \<Longrightarrow> 0 < ttl \<Longrightarrow> 0 \<le> d \<Longrightarrow>
      get (wait d (snd (setnx k v ttl w))) k = (if d < ttl * 1000 then Some v else None)"
begin

text \<open>A lock that was taken refuses every other taker until its time to live has passed or it
  is deleted.\<close>

lemma lock_excludes:
  assumes "fst (setnx k v ttl w)" "0 < ttl" "0 \<le> d" "d < ttl * 1000"
  shows "\<not> fst (setnx k v' ttl' (wait d (snd (setnx k v ttl w))))"
  using assms expires[of w k ttl d v] by (simp add: setnx_answer)

lemma lock_expires:
  assumes "fst (setnx k v ttl w)" "0 < ttl" "ttl * 1000 \<le> d"
  shows "fst (setnx k v' ttl' (wait d (snd (setnx k v ttl w))))"
  using assms expires[of w k ttl d v] by (auto simp: setnx_answer intro: order.trans[of 0 "ttl * 1000" d])

lemma unlock_frees: "fst (setnx k v ttl (del k w))"
  by (simp add: setnx_answer del_gone)

end

definition setnx_world :: "rkey \<Rightarrow> rval \<Rightarrow> int \<Rightarrow> world \<Rightarrow> bool \<times> world" where
  "setnx_world k v ttl w = (case redis_setnx k v ttl w of (Inr b, w') \<Rightarrow> (b, w') | (Inl _, w') \<Rightarrow> (False, w'))"

definition del_world :: "rkey \<Rightarrow> world \<Rightarrow> world" where
  "del_world k w = w\<lparr>w_redis := (w_redis w)(k := None)\<rparr>"

definition wait_world :: "int \<Rightarrow> world \<Rightarrow> world" where
  "wait_world d w = w\<lparr>w_clock := w_clock w + d\<rparr>"

interpretation redis: kv_store live setnx_world del_world wait_world
  by unfold_locales
     (auto simp: live_def setnx_world_def redis_setnx_def set_key_def del_world_def wait_world_def
        split: if_splits option.splits prod.splits)

end
