(* ===== verification/LoanStatus.thy ===== *)
theory LoanStatus
  imports Store
begin

text \<open>
  \<open>modules/loans/loan-status.service.ts\<close>: the forward-only state machine of a loan. Every
  status change goes through \<open>transition\<close>, which checks it, writes it and appends a row to
  the status log in the caller's transaction.
\<close>

definition VALID_TRANSITIONS :: "LoanStatus \<Rightarrow> LoanStatus list" where
  "VALID_TRANSITIONS s = (case s of
     LoanStatus.PENDING_COLLATERAL \<Rightarrow> [LoanStatus.ACTIVE, LoanStatus.EXPIRED, LoanStatus.CANCELLED]
   | LoanStatus.ACTIVE \<Rightarrow> [LoanStatus.REPAID, LoanStatus.LIQUIDATED]
   | _ \<Rightarrow> [])"

definition SELF_TRANSITION_REASONS :: "LoanStatus \<Rightarrow> LoanReasonCode list" where
  "SELF_TRANSITION_REASONS s = (case s of
     LoanStatus.ACTIVE \<Rightarrow> [REPAYMENT_PARTIAL_NGN, COLLATERAL_TOPPED_UP]
   | LoanStatus.REPAID \<Rightarrow> [COLLATERAL_RELEASED]
   | _ \<Rightarrow> [])"

definition valid_transition :: "LoanStatus \<Rightarrow> LoanStatus \<Rightarrow> LoanReasonCode \<Rightarrow> bool" where
  "valid_transition from to reason =
     (if from = to then reason \<in> set (SELF_TRANSITION_REASONS from)
      else to \<in> set (VALID_TRANSITIONS from))"

definition assertValidTransition :: "LoanStatus \<Rightarrow> LoanStatus \<Rightarrow> LoanReasonCode \<Rightarrow> unit service" where
  "assertValidTransition from to reason =
     require (valid_transition from to reason) (LoanE (LoanInvalidTransitionException from to))"

record transition_params =
  tp_loan_id :: id
  tp_user_id :: id
  tp_from_status :: "LoanStatus option"
  tp_to_status :: LoanStatus
  tp_triggered_by :: StatusTrigger
  tp_triggered_by_id :: "string option"
  tp_reason_code :: LoanReasonCode
  tp_reason_detail :: "string option"
  tp_metadata :: "(string \<times> json_value) list"

definition status_log_of :: "transition_params \<Rightarrow> time \<Rightarrow> id \<Rightarrow> status_log_row" where
  "status_log_of p t i =
     \<lparr>sl_id = i, sl_loan_id = tp_loan_id p, sl_user_id = tp_user_id p,
      sl_from_status = tp_from_status p, sl_to_status = tp_to_status p,
      sl_triggered_by = tp_triggered_by p, sl_triggered_by_id = tp_triggered_by_id p,
      sl_reason_code = tp_reason_code p, sl_reason_detail = tp_reason_detail p,
      sl_metadata = tp_metadata p, sl_created_at = t\<rparr>"

definition transition :: "transition_params \<Rightarrow> unit service" where
  "transition p =
     bind (case tp_from_status p of
             None \<Rightarrow> return ()
           | Some from \<Rightarrow>
               bind (assertValidTransition from (tp_to_status p) (tp_reason_code p)) (\<lambda>_.
               if from \<noteq> tp_to_status p
               then bind (update_by_id loan_table (tp_loan_id p) (\<lambda>l. l\<lparr>l_status := tp_to_status p\<rparr>))
                      (\<lambda>_. return ())
               else return ()))
       (\<lambda>_. bind now (\<lambda>t. bind (create_row status_log_table (status_log_of p t)) (\<lambda>_. return ())))"

text \<open>The usual call: a loan row, the status to move to, who and why.\<close>

definition transition_from ::
    "loan_row \<Rightarrow> LoanStatus \<Rightarrow> StatusTrigger \<Rightarrow> LoanReasonCode \<Rightarrow> string option \<Rightarrow>
     (string \<times> json_value) list \<Rightarrow> unit service" where
  "transition_from l to trigger reason detail meta =
     transition \<lparr>tp_loan_id = l_id l, tp_user_id = l_user_id l, tp_from_status = Some (l_status l),
       tp_to_status = to, tp_triggered_by = trigger, tp_triggered_by_id = None,
       tp_reason_code = reason, tp_reason_detail = detail, tp_metadata = meta\<rparr>"

section \<open>The state machine\<close>

definition status_rank :: "LoanStatus \<Rightarrow> nat" where
  "status_rank s = (case s of LoanStatus.PENDING_COLLATERAL \<Rightarrow> 0 | LoanStatus.ACTIVE \<Rightarrow> 1 | _ \<Rightarrow> 2)"

lemma valid_transition_rank: "valid_transition a b r \<Longrightarrow> a \<noteq> b \<Longrightarrow> status_rank a < status_rank b"
  by (cases a; cases b) (auto simp: valid_transition_def VALID_TRANSITIONS_def status_rank_def)

inductive status_steps :: "LoanStatus \<Rightarrow> LoanStatus \<Rightarrow> bool" where
  status_stays: "status_steps a a"
| status_moves: "status_steps a b \<Longrightarrow> valid_transition b c reason \<Longrightarrow> status_steps a c"

lemma status_steps_rank: "status_steps a b \<Longrightarrow> a = b \<or> status_rank a < status_rank b"
proof (induction rule: status_steps.induct)
  case (status_moves a b c reason)
  then show ?case using valid_transition_rank[of b c reason] by (cases "b = c") auto
qed simp

inductive_cases status_steps_fromE: "status_steps a b"

text \<open>The loan state machine only moves forward: whatever sequence of permitted transitions
  is taken, a loan never returns to a status it has left, and \<open>REPAID\<close>, \<open>LIQUIDATED\<close>,
  \<open>EXPIRED\<close> and \<open>CANCELLED\<close> are final.\<close>

theorem status_forward_only:
  "(status_steps a b \<and> status_steps b a \<longrightarrow> a = b) \<and>
   (status_rank a = 2 \<and> status_steps a b \<longrightarrow> b = a)"
proof (intro conjI impI; elim conjE)
  assume "status_steps a b" "status_steps b a"
  then show "a = b" using status_steps_rank[of a b] status_steps_rank[of b a] by auto
next
  assume "status_rank a = 2" "status_steps a b"
  moreover have "status_rank b \<le> 2" by (cases b) (auto simp: status_rank_def)
  ultimately show "b = a" using status_steps_rank[of a b] by auto
qed

theorem status_forward_only_witness:
  "status_rank LoanStatus.REPAID = 2 \<and> status_steps LoanStatus.REPAID LoanStatus.REPAID \<and>
   \<not> status_steps LoanStatus.LIQUIDATED LoanStatus.ACTIVE"
proof -
  have "status_steps LoanStatus.REPAID LoanStatus.REPAID" by (rule status_steps.status_stays)
  moreover have "\<not> status_steps LoanStatus.LIQUIDATED LoanStatus.ACTIVE"
    using status_forward_only[of LoanStatus.LIQUIDATED LoanStatus.ACTIVE] by (auto simp: status_rank_def)
  ultimately show ?thesis by (simp add: status_rank_def)
qed

section \<open>The operation\<close>

lemma wp_assertValidTransition [wp_simps]:
  "wp (assertValidTransition a b r) Q E w =
     (if valid_transition a b r then Q () w else E (LoanE (LoanInvalidTransitionException a b)) w)"
  by (simp add: assertValidTransition_def wp_simps)

text \<open>What \<open>transition\<close> does on a loan that exists, is in the status the caller read, and moves
  to a status no unique index speaks about.\<close>

definition log_status :: "transition_params \<Rightarrow> world \<Rightarrow> world" where
  "log_status p w =
     t_put status_log_table (\<lambda>rows. rows @ [status_log_of p (w_clock w) (next_id (w_db w))])
       (w\<lparr>w_db := (w_db w)\<lparr>next_id := Suc (next_id (w_db w))\<rparr>\<rparr>)"

definition move_status :: "id \<Rightarrow> LoanStatus \<Rightarrow> world \<Rightarrow> world" where
  "move_status i to w = t_put loan_table (update_row l_id i (\<lambda>l. l\<lparr>l_status := to\<rparr>)) w"

lemma violated_status_log [simp]: "violated status_log_table r rows = None"
  by (simp add: violated_def table_defs)

lemma wp_transition:
  "wp (transition p) Q E w =
     (case tp_from_status p of
        None \<Rightarrow> Q () (log_status p w)
      | Some from \<Rightarrow>
          if \<not> valid_transition from (tp_to_status p) (tp_reason_code p)
          then E (LoanE (LoanInvalidTransitionException from (tp_to_status p))) w
          else if from = tp_to_status p then Q () (log_status p w)
          else (case find_row l_id (tp_loan_id p) (loans (w_db w)) of
                  None \<Rightarrow> E PrismaRecordNotFound w
                | Some l \<Rightarrow>
                    (case violated loan_table (l\<lparr>l_status := tp_to_status p\<rparr>) (loans (w_db w)) of
                       Some n \<Rightarrow> E (PrismaUniqueViolation n) w
                     | None \<Rightarrow> Q () (log_status p (move_status (tp_loan_id p) (tp_to_status p) w)))))"
  by (auto simp: transition_def wp_simps log_status_def move_status_def table_defs
      split: option.split)

lemma log_status_fields [simp]:
  "loans (w_db (log_status p w)) = loans (w_db w)" "w_redis (log_status p w) = w_redis w"
  "w_outbox (log_status p w) = w_outbox w" "w_tasks (log_status p w) = w_tasks w"
  "w_clock (log_status p w) = w_clock w" "users (w_db (log_status p w)) = users (w_db w)"
  "sessions (w_db (log_status p w)) = sessions (w_db w)"
  "accounts (w_db (log_status p w)) = accounts (w_db w)"
  "payment_requests (w_db (log_status p w)) = payment_requests (w_db w)"
  "inflows (w_db (log_status p w)) = inflows (w_db w)"
  "disbursements (w_db (log_status p w)) = disbursements (w_db w)"
  "outflows (w_db (log_status p w)) = outflows (w_db w)"
  "price_feeds (w_db (log_status p w)) = price_feeds (w_db w)"
  "repayment_accounts (w_db (log_status p w)) = repayment_accounts (w_db w)"
  "repayments (w_db (log_status p w)) = repayments (w_db w)"
  "topups (w_db (log_status p w)) = topups (w_db w)"
  "webhook_logs (w_db (log_status p w)) = webhook_logs (w_db w)"
  "audits (w_db (log_status p w)) = audits (w_db w)"
  "next_id (w_db (log_status p w)) = Suc (next_id (w_db w))"
  "status_logs (w_db (log_status p w)) =
     status_logs (w_db w) @ [status_log_of p (w_clock w) (next_id (w_db w))]"
  by (simp_all add: log_status_def table_defs)

lemma move_status_fields [simp]:
  "loans (w_db (move_status i to w)) = update_row l_id i (\<lambda>l. l\<lparr>l_status := to\<rparr>) (loans (w_db w))"
  "w_redis (move_status i to w) = w_redis w" "w_outbox (move_status i to w) = w_outbox w"
  "w_tasks (move_status i to w) = w_tasks w" "w_clock (move_status i to w) = w_clock w"
  "users (w_db (move_status i to w)) = users (w_db w)"
  "sessions (w_db (move_status i to w)) = sessions (w_db w)"
  "accounts (w_db (move_status i to w)) = accounts (w_db w)"
  "payment_requests (w_db (move_status i to w)) = payment_requests (w_db w)"
  "inflows (w_db (move_status i to w)) = inflows (w_db w)"
  "disbursements (w_db (move_status i to w)) = disbursements (w_db w)"
  "outflows (w_db (move_status i to w)) = outflows (w_db w)"
  "price_feeds (w_db (move_status i to w)) = price_feeds (w_db w)"
  "repayment_accounts (w_db (move_status i to w)) = repayment_accounts (w_db w)"
  "repayments (w_db (move_status i to w)) = repayments (w_db w)"
  "topups (w_db (move_status i to w)) = topups (w_db w)"
  "webhook_logs (w_db (move_status i to w)) = webhook_logs (w_db w)"
  "audits (w_db (move_status i to w)) = audits (w_db w)"
  "status_logs (w_db (move_status i to w)) = status_logs (w_db w)"
  "next_id (w_db (move_status i to w)) = next_id (w_db w)"
  by (simp_all add: move_status_def table_defs)

text \<open>A transition that returns wrote exactly one log row, for the transition asked.\<close>

lemma transition_logged:
  assumes "transition p w = (Inr u, w')"
  shows "status_logs (w_db w') = status_logs (w_db w) @ [status_log_of p (w_clock w) (next_id (w_db w))]"
proof -
  have "wp (transition p) (\<lambda>_ w'. status_logs (w_db w') =
      status_logs (w_db w) @ [status_log_of p (w_clock w) (next_id (w_db w))]) (\<lambda>_ _. True) w"
    by (auto simp: wp_transition split: option.split)
  with assms show ?thesis by (simp add: wp_def)
qed

end
