(* ===== verification/PriceFeed.thy ===== *)
theory PriceFeed
  imports Store
begin

text \<open>
  The price feed: \<open>providers/quidax/quidax.provider.ts\<close> (what a ticker response becomes),
  \<open>workers/price-feed.worker.ts\<close> (one polling cycle, whose process variables are
  \<open>feed_worker\<close>), \<open>modules/price-feed/price-feed-repository.ts\<close> and
  \<open>modules/price-feed/price-feed.service.ts\<close> (the rate that the rest of the program reads).
  The HTTP call is a parameter: \<open>None\<close> is a failed or malformed response.
\<close>

section \<open>Reading a rate\<close>

record rate_pair =
  rp_buy :: rat
  rp_sell :: rat

definition getLatestRate :: "AssetPair \<Rightarrow> (rat \<times> rat \<times> time) option service" where
  "getLatestRate pair =
     bind (find_many price_feed_table (\<lambda>r. pf_pair r = pair)) (\<lambda>rows.
     return (map_option (\<lambda>r. (pf_rate_buy r, pf_rate_sell r, pf_fetched_at r))
               (latest_by pf_fetched_at rows)))"

definition isPastStaleness :: "time \<Rightarrow> bool service" where
  "isPastStaleness fetched_at = bind now (\<lambda>t. return (t - fetched_at > PRICE_FEED_STALE_MS))"

definition parse_stale :: "rval option \<Rightarrow> time option" where
  "parse_stale v = (case v of Some (VInt t) \<Rightarrow> Some t | _ \<Rightarrow> None)"

definition AssetPair_name :: "AssetPair \<Rightarrow> string" where
  "AssetPair_name p = (case p of SAT_NGN \<Rightarrow> ''SAT_NGN'' | BTC_NGN \<Rightarrow> ''BTC_NGN''
     | USDT_NGN \<Rightarrow> ''USDT_NGN'' | USDC_NGN \<Rightarrow> ''USDC_NGN'')"

definition getCurrentRate :: "AssetPair \<Rightarrow> rate_pair service" where
  "getCurrentRate pair =
     bind (redis_get PRICE_STALE) (\<lambda>stale_flag.
     bind now (\<lambda>t.
     bind (case parse_stale stale_flag of
             None \<Rightarrow> return ()
           | Some since \<Rightarrow>
               if t - since > PRICE_FEED_STALE_MS
               then throw (LoanE (PriceFeedStaleException (t - since) (Some (AssetPair_name pair))))
               else return ()) (\<lambda>_.
     bind (redis_get (PRICE pair)) (\<lambda>cached.
     case cached of
       Some (VRates buy sell) \<Rightarrow> return \<lparr>rp_buy = buy, rp_sell = sell\<rparr>
     | _ \<Rightarrow>
         bind (getLatestRate pair) (\<lambda>db_rate.
         case db_rate of
           None \<Rightarrow> throw (LoanE (PriceFeedStaleException PRICE_FEED_STALE_MS (Some (AssetPair_name pair))))
         | Some (buy, sell, fetched_at) \<Rightarrow>
             bind (isPastStaleness fetched_at) (\<lambda>past.
             if past
             then throw (LoanE (PriceFeedStaleException (t - fetched_at) (Some (AssetPair_name pair))))
             else return \<lparr>rp_buy = buy, rp_sell = sell\<rparr>))))))"

definition isStale :: "bool service" where
  "isStale =
     bind (redis_get PRICE_STALE) (\<lambda>stale_flag.
     bind now (\<lambda>t.
     if (case parse_stale stale_flag of None \<Rightarrow> False | Some since \<Rightarrow> t - since > PRICE_FEED_STALE_MS)
     then return True
     else bind (getLatestRate SAT_NGN) (\<lambda>latest.
       case latest of None \<Rightarrow> return True | Some (_, _, fetched_at) \<Rightarrow> isPastStaleness fetched_at)))"

record rate_item =
  ri_pair :: AssetPair
  ri_rate_buy :: rat
  ri_rate_sell :: rat
  ri_fetched_at :: time

definition rate_item_of :: "decimals \<Rightarrow> AssetPair \<Rightarrow> rate_item service" where
  "rate_item_of D pair =
     bind (getCurrentRate pair) (\<lambda>rate. bind now (\<lambda>t.
     return \<lparr>ri_pair = pair, ri_rate_buy = d_fixed D 6 (rp_buy rate),
             ri_rate_sell = d_fixed D 6 (rp_sell rate), ri_fetched_at = t\<rparr>))"

definition getRates :: "decimals \<Rightarrow> rate_item list service" where
  "getRates D =
     bind (rate_item_of D SAT_NGN) (\<lambda>a. bind (rate_item_of D BTC_NGN) (\<lambda>b.
     bind (rate_item_of D USDT_NGN) (\<lambda>c. return [a, b, c])))"

section \<open>The worker\<close>

record tickers =
  tk_btc_buy :: rat
  tk_btc_sell :: rat
  tk_usdt_buy :: rat
  tk_usdt_sell :: rat

record provider_rate =
  fr_pair :: AssetPair
  fr_buy :: rat
  fr_sell :: rat
  fr_fetched_at :: time

definition fetchRates :: "decimals \<Rightarrow> tickers option \<Rightarrow> time \<Rightarrow> provider_rate list option" where
  "fetchRates D response fetched_at = (case response of None \<Rightarrow> None | Some tk \<Rightarrow> Some
     [\<lparr>fr_pair = BTC_NGN, fr_buy = tk_btc_sell tk, fr_sell = tk_btc_buy tk, fr_fetched_at = fetched_at\<rparr>,
      \<lparr>fr_pair = SAT_NGN, fr_buy = ddiv D (tk_btc_sell tk) SATS_PER_BTC,
       fr_sell = ddiv D (tk_btc_buy tk) SATS_PER_BTC, fr_fetched_at = fetched_at\<rparr>,
      \<lparr>fr_pair = USDT_NGN, fr_buy = tk_usdt_sell tk, fr_sell = tk_usdt_buy tk, fr_fetched_at = fetched_at\<rparr>])"

record feed_worker =
  fw_consecutive_failures :: nat
  fw_stale_since :: "time option"

definition STALE_ALERT_THRESHOLD_MS :: int where "STALE_ALERT_THRESHOLD_MS = 900000"

definition insert_rate :: "decimals \<Rightarrow> string \<Rightarrow> provider_rate \<Rightarrow> unit service" where
  "insert_rate D source rate =
     bind (create_row price_feed_table (\<lambda>i.
       \<lparr>pf_id = i, pf_pair = fr_pair rate,
        pf_rate_buy_origin = d_col D 6 (fr_buy rate), pf_rate_sell_origin = d_col D 6 (fr_sell rate),
        pf_rate_buy = d_col D 6 (dmul D (fr_buy rate) (dplus D 1 RATE_MARKUP_PERCENT)),
        pf_rate_sell = d_col D 6 (dmul D (fr_sell rate) (dminus D 1 RATE_MARKUP_PERCENT)),
        pf_markup_percent = RATE_MARKUP_PERCENT, pf_source = source,
        pf_fetched_at = fr_fetched_at rate\<rparr>)) (\<lambda>_. return ())"

definition cache_rate :: "decimals \<Rightarrow> provider_rate \<Rightarrow> unit service" where
  "cache_rate D rate =
     redis_setex (PRICE (fr_pair rate)) (VRates (d_fixed D 6 (fr_buy rate)) (d_fixed D 6 (fr_sell rate)))
       PRICE_CACHE_TTL_SEC"

definition runCycle :: "decimals \<Rightarrow> string \<Rightarrow> tickers option \<Rightarrow> feed_worker \<Rightarrow> feed_worker service" where
  "runCycle D source response fw =
     bind now (\<lambda>t.
     case fetchRates D response t of
       Some rates \<Rightarrow>
         bind (for_each (insert_rate D source) rates) (\<lambda>_.
         bind (for_each (cache_rate D) rates) (\<lambda>_.
         bind (redis_del PRICE_STALE) (\<lambda>_.
         bind (redis_set (WORKER_HEARTBEAT ''price_feed'') (VInt t)) (\<lambda>_.
         return \<lparr>fw_consecutive_failures = 0, fw_stale_since = None\<rparr>))))
     | None \<Rightarrow>
         let since = (case fw_stale_since fw of None \<Rightarrow> t | Some s \<Rightarrow> if s = 0 then t else s)
         in bind (redis_set PRICE_STALE (VInt since)) (\<lambda>_.
            bind (redis_set (WORKER_HEARTBEAT ''price_feed'') (VInt t)) (\<lambda>_.
            return \<lparr>fw_consecutive_failures = Suc (fw_consecutive_failures fw),
                    fw_stale_since =
                      (if t - since > STALE_ALERT_THRESHOLD_MS then Some t else Some since)\<rparr>)))"

section \<open>The feed as a system\<close>

text \<open>Polls succeed or fail, and time passes.\<close>

inductive feed_step :: "decimals \<Rightarrow> feed_worker \<times> world \<Rightarrow> feed_worker \<times> world \<Rightarrow> bool" for D where
  poll: "runCycle D source response fw w = (Inr fw', w') \<Longrightarrow> feed_step D (fw, w) (fw', w')"
| tick: "0 \<le> d \<Longrightarrow> feed_step D (fw, w) (fw, w\<lparr>w_clock := w_clock w + d\<rparr>)"

inductive feed_reachable :: "decimals \<Rightarrow> feed_worker \<times> world \<Rightarrow> bool" for D where
  start: "price_feeds (w_db w) = [] \<Longrightarrow> 
    (\<And>p. w_redis w (PRICE p) = None) \<Longrightarrow> feed_reachable D (fw, w)"
| next_state: "feed_reachable D c \<Longrightarrow> feed_step D c c' \<Longrightarrow> feed_reachable D c'"

inductive_cases feed_stepE: "feed_step D (fw, w) c"

text \<open>Every cache entry was written by a cycle that also stored the rate it holds.\<close>

definition cached_from :: "decimals \<Rightarrow> AssetPair \<Rightarrow> rat \<Rightarrow> rat \<Rightarrow> price_feed_row \<Rightarrow> bool" where
  "cached_from D pair buy sell row \<longleftrightarrow> pf_pair row = pair \<and>
     (\<exists>x y. pf_rate_buy_origin row = d_col D 6 x \<and> pf_rate_sell_origin row = d_col D 6 y \<and>
            buy = d_fixed D 6 x \<and> sell = d_fixed D 6 y)"

definition feed_ok :: "decimals \<Rightarrow> world \<Rightarrow> bool" where
  "feed_ok D w \<longleftrightarrow>
     (\<forall>r\<in>set (price_feeds (w_db w)). pf_fetched_at r \<le> w_clock w) \<and>
     (\<forall>pair v t. w_redis w (PRICE pair) = Some (v, t) \<longrightarrow>
        (\<exists>buy sell row. v = VRates buy sell \<and> row \<in> set (price_feeds (w_db w)) \<and>
           t = Some (pf_fetched_at row + PRICE_CACHE_TTL_SEC * 1000) \<and> cached_from D pair buy sell row))"

lemma violated_price_feed [simp]: "violated price_feed_table r rows = None"
  by (simp add: violated_def table_defs)

lemma wp_insert_rate [wp_simps]:
  "wp (insert_rate D source rate) Q E w =
     Q () (w\<lparr>w_db := (w_db w)\<lparr>next_id := Suc (next_id (w_db w)),
       price_feeds := price_feeds (w_db w) @
         [\<lparr>pf_id = next_id (w_db w), pf_pair = fr_pair rate,
           pf_rate_buy_origin = d_col D 6 (fr_buy rate), pf_rate_sell_origin = d_col D 6 (fr_sell rate),
           pf_rate_buy = d_col D 6 (dmul D (fr_buy rate) (dplus D 1 RATE_MARKUP_PERCENT)),
           pf_rate_sell = d_col D 6 (dmul D (fr_sell rate) (dminus D 1 RATE_MARKUP_PERCENT)),
           pf_markup_percent = RATE_MARKUP_PERCENT, pf_source = source,
           pf_fetched_at = fr_fetched_at rate\<rparr>]\<rparr>\<rparr>)"
  by (simp add: insert_rate_def wp_simps) (simp add: table_defs)

lemma wp_cache_rate [wp_simps]:
  "wp (cache_rate D rate) Q E w =
     Q () (set_key (PRICE (fr_pair rate)) (VRates (d_fixed D 6 (fr_buy rate)) (d_fixed D 6 (fr_sell rate)))
             (Some (w_clock w + PRICE_CACHE_TTL_SEC * 1000)) w)"
  by (simp add: cache_rate_def wp_simps)

lemma feed_ok_insert:
  "feed_ok D w \<Longrightarrow> pf_fetched_at row \<le> w_clock w \<Longrightarrow>
   feed_ok D (w\<lparr>w_db := (w_db w)\<lparr>next_id := n, price_feeds := price_feeds (w_db w) @ [row]\<rparr>\<rparr>)"
  unfolding feed_ok_def by (simp, meson UnCI)

lemma feed_ok_cache:
  "feed_ok D w \<Longrightarrow> row \<in> set (price_feeds (w_db w)) \<Longrightarrow> cached_from D pair buy sell row \<Longrightarrow>
   pf_fetched_at row = w_clock w \<Longrightarrow>
   feed_ok D (set_key (PRICE pair) (VRates buy sell) (Some (w_clock w + PRICE_CACHE_TTL_SEC * 1000)) w)"
  by (fastforce simp: feed_ok_def)

lemma feed_ok_other_key:
  "feed_ok D w \<Longrightarrow> \<forall>p. k \<noteq> PRICE p \<Longrightarrow> feed_ok D (set_key k v t w)"
  "feed_ok D w \<Longrightarrow> \<forall>p. k \<noteq> PRICE p \<Longrightarrow> feed_ok D (w\<lparr>w_redis := (w_redis w)(k := None)\<rparr>)"
  by (auto simp: feed_ok_def)

definition stored :: "decimals \<Rightarrow> provider_rate list \<Rightarrow> world \<Rightarrow> bool" where
  "stored D rates w \<longleftrightarrow> (\<forall>rate\<in>set rates. \<exists>row\<in>set (price_feeds (w_db w)).
     cached_from D (fr_pair rate) (d_fixed D 6 (fr_buy rate)) (d_fixed D 6 (fr_sell rate)) row \<and>
     pf_fetched_at row = fr_fetched_at rate)"

lemma insert_all:
  assumes "feed_ok D w" "\<forall>rate\<in>set rates. fr_fetched_at rate = w_clock w" "stored D before w"
  shows "wp (for_each (insert_rate D source) rates)
           (\<lambda>_ w'. feed_ok D w' \<and> w_clock w' = w_clock w \<and> stored D (before @ rates) w') (\<lambda>_ _. False) w"
  using assms
proof (induction rates arbitrary: w before)
  case (Cons rate rates)
  let ?row = "\<lparr>pf_id = next_id (w_db w), pf_pair = fr_pair rate,
           pf_rate_buy_origin = d_col D 6 (fr_buy rate), pf_rate_sell_origin = d_col D 6 (fr_sell rate),
           pf_rate_buy = d_col D 6 (dmul D (fr_buy rate) (dplus D 1 RATE_MARKUP_PERCENT)),
           pf_rate_sell = d_col D 6 (dmul D (fr_sell rate) (dminus D 1 RATE_MARKUP_PERCENT)),
           pf_markup_percent = RATE_MARKUP_PERCENT, pf_source = source,
           pf_fetched_at = fr_fetched_at rate\<rparr>"
  let ?w = "w\<lparr>w_db := (w_db w)\<lparr>next_id := Suc (next_id (w_db w)),
       price_feeds := price_feeds (w_db w) @ [?row]\<rparr>\<rparr>"
  have ok: "feed_ok D ?w" using Cons.prems by (intro feed_ok_insert) auto
  have st: "stored D (before @ [rate]) ?w"
    using Cons.prems(3) by (fastforce simp: stored_def cached_from_def)
  have "wp (for_each (insert_rate D source) rates)
      (\<lambda>_ w'. feed_ok D w' \<and> w_clock w' = w_clock ?w \<and> stored D ((before @ [rate]) @ rates) w') (\<lambda>_ _. False) ?w"
    using Cons.prems ok st by (intro Cons.IH) auto
  then show ?case by (simp add: wp_simps)
qed (simp add: wp_simps)

lemma cache_all:
  assumes "feed_ok D w" "stored D rates w" "\<forall>rate\<in>set rates. fr_fetched_at rate = w_clock w"
  shows "wp (for_each (cache_rate D) rates) (\<lambda>_. feed_ok D) (\<lambda>_ _. False) w"
proof -
  have "wp (for_each (cache_rate D) rates)
      (\<lambda>_ w'. feed_ok D w' \<and> stored D rates w' \<and> w_clock w' = w_clock w) (\<lambda>_ _. False) w"
  proof (rule wp_for_each_keeps)
    fix rate v
    assume r: "rate \<in> set rates" and v: "feed_ok D v \<and> stored D rates v \<and> w_clock v = w_clock w"
    then obtain row where "row \<in> set (price_feeds (w_db v))" "pf_fetched_at row = w_clock v"
      "cached_from D (fr_pair rate) (d_fixed D 6 (fr_buy rate)) (d_fixed D 6 (fr_sell rate)) row"
      using assms(3) by (fastforce simp: stored_def)
    then show "wp (cache_rate D rate) (\<lambda>_ w'. feed_ok D w' \<and> stored D rates w' \<and> w_clock w' = w_clock w)
        (\<lambda>_ _. False) v"
      using v feed_ok_cache[of D v row] by (simp add: wp_simps stored_def)
  qed (use assms in simp)
  then show ?thesis by (rule wp_mono) auto
qed

lemma fetched_now: "fetchRates D response t = Some rates \<Longrightarrow> rate \<in> set rates \<Longrightarrow> fr_fetched_at rate = t"
  by (auto simp: fetchRates_def split: option.splits)

lemma runCycle_keeps_feed_ok:
  assumes "feed_ok D w"
  shows "wp (runCycle D source response fw) (\<lambda>_. feed_ok D) (\<lambda>_ _. False) w"
proof (cases "fetchRates D response (w_clock w)")
  case None
  then show ?thesis
    using assms by (simp add: runCycle_def wp_simps Let_def feed_ok_other_key)
next
  case (Some rates)
  have now: "\<forall>rate\<in>set rates. fr_fetched_at rate = w_clock w" using fetched_now[OF Some] by blast
  have "wp (for_each (insert_rate D source) rates)
      (\<lambda>_ w'. feed_ok D w' \<and> w_clock w' = w_clock w \<and> stored D ([] @ rates) w') (\<lambda>_ _. False) w"
    using assms now by (intro insert_all) (auto simp: stored_def)
  then have "wp (for_each (insert_rate D source) rates)
      (\<lambda>_. wp (for_each (cache_rate D) rates) (\<lambda>_. feed_ok D) (\<lambda>_ _. False)) (\<lambda>_ _. False) w"
    by (rule wp_mono) (use now in \<open>auto intro: cache_all\<close>)
  then show ?thesis
    unfolding runCycle_def
    by (simp add: Some wp_simps, elim wp_mono)
       (auto simp: wp_simps feed_ok_other_key elim!: wp_mono)
qed

lemma feed_reachable_ok: "feed_reachable D c \<Longrightarrow> feed_ok D (snd c)"
proof (induction rule: feed_reachable.induct)
  case (start w fw)
  then show ?case by (simp add: feed_ok_def)
next
  case (next_state c c')
  from next_state(2) show ?case
  proof cases
    case (poll source response fw w fw' w')
    then show ?thesis
      using wp_result_Inr[where m = "runCycle D source response fw", OF poll(3) runCycle_keeps_feed_ok]
        next_state.IH by simp
  next
    case (tick d fw w)
    then show ?thesis using next_state.IH by (fastforce simp: feed_ok_def)
  qed
qed

text \<open>A rate that was served is a stored rate, as stored or as the provider quoted it.\<close>

definition served_from :: "decimals \<Rightarrow> AssetPair \<Rightarrow> rate_pair \<Rightarrow> price_feed_row \<Rightarrow> bool" where
  "served_from D pair r row \<longleftrightarrow>
     cached_from D pair (rp_buy r) (rp_sell r) row \<or>
     pf_pair row = pair \<and> rp_buy r = pf_rate_buy row \<and> rp_sell r = pf_rate_sell row"

lemma wp_getLatestRate [wp_simps]:
  "wp (getLatestRate pair) Q E w =
     Q (map_option (\<lambda>r. (pf_rate_buy r, pf_rate_sell r, pf_fetched_at r))
          (latest_by pf_fetched_at (filter (\<lambda>r. pf_pair r = pair) (price_feeds (w_db w))))) w"
  by (simp add: getLatestRate_def wp_simps) (simp add: table_defs)

lemma wp_isPastStaleness [wp_simps]:
  "wp (isPastStaleness t) Q E w = Q (w_clock w - t > PRICE_FEED_STALE_MS) w"
  by (simp add: isPastStaleness_def wp_simps)

lemma wp_getCurrentRate:
  "wp (getCurrentRate pair) Q E w =
     (case (case parse_stale (live w PRICE_STALE) of
              Some since \<Rightarrow> if w_clock w - since > PRICE_FEED_STALE_MS then Some since else None
            | None \<Rightarrow> None) of
        Some since \<Rightarrow> E (LoanE (PriceFeedStaleException (w_clock w - since) (Some (AssetPair_name pair)))) w
      | None \<Rightarrow>
          (case live w (PRICE pair) of
             Some (VRates buy sell) \<Rightarrow> Q \<lparr>rp_buy = buy, rp_sell = sell\<rparr> w
           | _ \<Rightarrow>
              (case latest_by pf_fetched_at (filter (\<lambda>r. pf_pair r = pair) (price_feeds (w_db w))) of
                 None \<Rightarrow> E (LoanE (PriceFeedStaleException PRICE_FEED_STALE_MS (Some (AssetPair_name pair)))) w
               | Some x \<Rightarrow>
                   if w_clock w - pf_fetched_at x > PRICE_FEED_STALE_MS
                   then E (LoanE (PriceFeedStaleException (w_clock w - pf_fetched_at x) (Some (AssetPair_name pair)))) w
                   else Q \<lparr>rp_buy = pf_rate_buy x, rp_sell = pf_rate_sell x\<rparr> w)))"
  by (auto simp: getCurrentRate_def wp_simps split: option.split rval.split)

text \<open>In every state that the polling worker can bring about: what the flag says of an outage.\<close>

definition down_since :: "world \<Rightarrow> time option" where
  "down_since w = parse_stale (live w PRICE_STALE)"

definition fresh_row :: "world \<Rightarrow> AssetPair \<Rightarrow> price_feed_row \<Rightarrow> bool" where
  "fresh_row w pair row \<longleftrightarrow> row \<in> set (price_feeds (w_db w)) \<and> pf_pair row = pair \<and>
     w_clock w - pf_fetched_at row \<le> 1200000 \<and> pf_fetched_at row \<le> w_clock w"

text \<open>While the flag is down or young, a call serves a row of the last twenty minutes or there is none.\<close>

lemma served_while_up:
  assumes ok: "feed_ok D w" and up: "\<not> (\<exists>since. down_since w = Some since \<and> 1200000 < w_clock w - since)"
  shows "wp (getCurrentRate pair) (\<lambda>r w'. w' = w \<and> (\<exists>row. fresh_row w pair row \<and> served_from D pair r row))
    (\<lambda>e w'. w' = w \<and> (\<nexists>row. fresh_row w pair row) \<and>
      (\<exists>age\<ge>1200000. e = LoanE (PriceFeedStaleException age (Some (AssetPair_name pair))))) w"
proof -
  let ?Q = "\<lambda>r w'. w' = w \<and> (\<exists>row. fresh_row w pair row \<and> served_from D pair r row)"
  let ?E = "\<lambda>e w'. w' = w \<and> (\<nexists>row. fresh_row w pair row) \<and>
    (\<exists>age\<ge>1200000. e = LoanE (PriceFeedStaleException age (Some (AssetPair_name pair))))"
  let ?rows = "filter (\<lambda>r. pf_pair r = pair) (price_feeds (w_db w))"
  have cached: "?Q \<lparr>rp_buy = buy, rp_sell = sell\<rparr> w" if c: "live w (PRICE pair) = Some (VRates buy sell)" for buy sell
  proof -
    obtain t where t: "w_redis w (PRICE pair) = Some (VRates buy sell, t)" "\<forall>u. t = Some u \<longrightarrow> w_clock w < u"
      using live_SomeD[OF c] by blast
    then obtain row where "row \<in> set (price_feeds (w_db w))"
      "t = Some (pf_fetched_at row + PRICE_CACHE_TTL_SEC * 1000)" "cached_from D pair buy sell row"
      using ok unfolding feed_ok_def by fastforce
    then show ?thesis
      using t ok by (fastforce simp: served_from_def fresh_row_def feed_ok_def PRICE_CACHE_TTL_SEC_def cached_from_def)
  qed
  have rates: "\<exists>buy sell. v = VRates buy sell" if "live w (PRICE pair) = Some v" for v
    using live_SomeD[OF that] ok unfolding feed_ok_def by fastforce
  have old: "?E (LoanE (PriceFeedStaleException (w_clock w - pf_fetched_at x) (Some (AssetPair_name pair)))) w"
    if "latest_by pf_fetched_at ?rows = Some x" "PRICE_FEED_STALE_MS < w_clock w - pf_fetched_at x" for x
    using latest_by_SomeD[OF that(1)] that(2) by (fastforce simp: fresh_row_def PRICE_FEED_STALE_MS_def)
  have recent: "?Q \<lparr>rp_buy = pf_rate_buy x, rp_sell = pf_rate_sell x\<rparr> w"
    if "latest_by pf_fetched_at ?rows = Some x" "\<not> PRICE_FEED_STALE_MS < w_clock w - pf_fetched_at x" for x
    using latest_by_SomeD[OF that(1)] that(2) ok
    by (auto simp: served_from_def fresh_row_def feed_ok_def PRICE_FEED_STALE_MS_def)
  have empty: "?E (LoanE (PriceFeedStaleException PRICE_FEED_STALE_MS (Some (AssetPair_name pair)))) w" if "?rows = []"
    using that by (auto simp: fresh_row_def filter_empty_conv PRICE_FEED_STALE_MS_def)
  have flag: "(case parse_stale (live w PRICE_STALE) of
      Some since \<Rightarrow> if w_clock w - since > PRICE_FEED_STALE_MS then Some since else None | None \<Rightarrow> None) = None"
    using up by (auto simp: down_since_def PRICE_FEED_STALE_MS_def split: option.split)
  show ?thesis
  proof (cases "live w (PRICE pair)")
    case None
    show ?thesis
    proof (cases "latest_by pf_fetched_at ?rows")
      case none: None
      then show ?thesis using empty by (simp only: wp_getCurrentRate flag None none option.case) (simp add: none flip: latest_by_None[of pf_fetched_at])
    next
      case (Some x)
      show ?thesis
        using old[OF Some] recent[OF Some] by (simp only: wp_getCurrentRate flag None Some option.case) simp
    qed
  next
    case (Some v)
    then obtain buy sell where "v = VRates buy sell" using rates by blast
    then show ?thesis using cached Some by (simp add: wp_getCurrentRate flag)
  qed
qed

text \<open>C33. In every state that the polling worker can bring about, a rate is served if and only if the feed is not
  flagged as down for more than twenty minutes and some rate of the pair was fetched in the last twenty minutes; what is
  served stems from such a row. When the flag is older, the request is refused with the age of the outage, whatever is cached;
  otherwise it is refused with an age of at least twenty minutes. The call changes nothing.\<close>

theorem served_rate_is_fresh:
  assumes "feed_reachable D (fw, w)"
  shows "\<exists>res. getCurrentRate pair w = (res, w) \<and>
    (if \<exists>since. down_since w = Some since \<and> 1200000 < w_clock w - since
     then res = Inl (LoanE (PriceFeedStaleException (w_clock w - the (down_since w)) (Some (AssetPair_name pair))))
     else case res of
       Inr r \<Rightarrow> \<exists>row. fresh_row w pair row \<and> served_from D pair r row
     | Inl e \<Rightarrow> (\<nexists>row. fresh_row w pair row) \<and>
         (\<exists>age\<ge>1200000. e = LoanE (PriceFeedStaleException age (Some (AssetPair_name pair)))))"
proof (cases "\<exists>since. down_since w = Some since \<and> 1200000 < w_clock w - since")
  case True
  then obtain since where "parse_stale (live w PRICE_STALE) = Some since" "PRICE_FEED_STALE_MS < w_clock w - since"
    by (auto simp: down_since_def PRICE_FEED_STALE_MS_def)
  then have "wp (getCurrentRate pair) (\<lambda>_ _. False) (\<lambda>e w'. w' = w \<and>
      e = LoanE (PriceFeedStaleException (w_clock w - since) (Some (AssetPair_name pair)))) w"
    by (simp add: wp_getCurrentRate)
  then show ?thesis
    using True \<open>parse_stale (live w PRICE_STALE) = Some since\<close>
    by (auto simp: down_since_def wp_def split: prod.splits sum.splits)
next
  case False
  then show ?thesis
    using False served_while_up[OF feed_reachable_ok[OF assms, simplified] False, of pair] by (auto simp: wp_def split: prod.splits sum.splits)
qed

definition sample_tickers :: tickers where
  "sample_tickers = \<lparr>tk_btc_buy = 90000000, tk_btc_sell = 91000000, tk_usdt_buy = 1500, tk_usdt_sell = 1510\<rparr>"

definition sample_cycle :: "feed_worker service" where
  "sample_cycle = runCycle js_decimals ''quidax'' (Some sample_tickers)
     \<lparr>fw_consecutive_failures = 0, fw_stale_since = None\<rparr>"

lemma sample_cycle_wp:
  "wp sample_cycle (\<lambda>fw' w'. fw' = \<lparr>fw_consecutive_failures = 0, fw_stale_since = None\<rparr> \<and>
     getCurrentRate USDT_NGN w' =
       (Inr \<lparr>rp_buy = d_fixed js_decimals 6 1510, rp_sell = d_fixed js_decimals 6 1500\<rparr>, w') \<and>
     down_since w' = None \<and> (\<forall>r\<in>set (price_feeds (w_db w')). pf_pair r \<noteq> USDC_NGN))
     (\<lambda>_ _. False) empty_world"
  by (simp add: sample_cycle_def runCycle_def fetchRates_def wp_simps run_eq_wp wp_getCurrentRate live_def
      parse_stale_def down_since_def empty_world_def empty_db_def sample_tickers_def window_constants)

theorem served_rate_is_fresh_witness:
  "\<exists>fw w. sample_cycle empty_world = (Inr fw, w) \<and> (\<exists>row. fresh_row w USDT_NGN row \<and>
     served_from js_decimals USDT_NGN \<lparr>rp_buy = d_fixed js_decimals 6 1510, rp_sell = d_fixed js_decimals 6 1500\<rparr> row) \<and>
     (\<exists>res. getCurrentRate USDC_NGN w = (Inl res, w))"
proof -
  obtain fw w where run: "sample_cycle empty_world = (Inr fw, w)"
    and rate: "getCurrentRate USDT_NGN w =
       (Inr \<lparr>rp_buy = d_fixed js_decimals 6 1510, rp_sell = d_fixed js_decimals 6 1500\<rparr>, w)"
    and w: "down_since w = None" "\<forall>r\<in>set (price_feeds (w_db w)). pf_pair r \<noteq> USDC_NGN"
    using wp_runD[OF sample_cycle_wp] by blast
  have "feed_reachable js_decimals (\<lparr>fw_consecutive_failures = 0, fw_stale_since = None\<rparr>, empty_world)"
    by (rule feed_reachable.start) (simp_all add: empty_world_def empty_db_def)
  then have feed: "feed_reachable js_decimals (fw, w)"
    using run unfolding sample_cycle_def by (blast intro: feed_reachable.next_state feed_step.poll)
  have "\<nexists>row. fresh_row w USDC_NGN row" using w(2) by (auto simp: fresh_row_def)
  moreover obtain res where "getCurrentRate USDC_NGN w = (res, w)" "case res of
      Inr r \<Rightarrow> \<exists>row. fresh_row w USDC_NGN row \<and> served_from js_decimals USDC_NGN r row | Inl e \<Rightarrow> True"
    using served_rate_is_fresh[OF feed, of USDC_NGN] w(1) by (fastforce split: sum.splits)
  ultimately show ?thesis
    using served_rate_is_fresh[OF feed, of USDT_NGN] run rate w(1) by (cases res) auto
qed

text \<open>The spread that every rate row is stored with does not reach the cache: within ten
  minutes of a successful poll the service serves the provider's own rates, and only when
  the cache entry has expired the stored ones, whose sell rate is lower by the spread.\<close>

theorem cached_rate_has_no_spread:
  assumes "runCycle D source (Some tk) fw w = (Inr fw', w')"
    and "\<forall>r\<in>set (price_feeds (w_db w)). pf_fetched_at r < w_clock w"
    and "0 \<le> d" and "d \<le> 1200000"
  shows "result (getCurrentRate USDT_NGN) (w'\<lparr>w_clock := w_clock w' + d\<rparr>) =
    Inr (if d < 600000
         then \<lparr>rp_buy = d_fixed D 6 (tk_usdt_sell tk), rp_sell = d_fixed D 6 (tk_usdt_buy tk)\<rparr>
         else \<lparr>rp_buy = d_col D 6 (dmul D (tk_usdt_sell tk) (dplus D 1 RATE_MARKUP_PERCENT)),
               rp_sell = d_col D 6 (dmul D (tk_usdt_buy tk) (dminus D 1 RATE_MARKUP_PERCENT))\<rparr>)"
proof -
  have last: "latest_by pf_fetched_at (xs @ [x]) = Some x"
    if "\<forall>r\<in>set xs. pf_fetched_at r < pf_fetched_at x" for xs and x :: price_feed_row
    using that by (induction xs) auto
  have "wp (runCycle D source (Some tk) fw) (\<lambda>_ w'. result (getCurrentRate USDT_NGN) (w'\<lparr>w_clock := w_clock w' + d\<rparr>) =
    Inr (if d < 600000
         then \<lparr>rp_buy = d_fixed D 6 (tk_usdt_sell tk), rp_sell = d_fixed D 6 (tk_usdt_buy tk)\<rparr>
         else \<lparr>rp_buy = d_col D 6 (dmul D (tk_usdt_sell tk) (dplus D 1 RATE_MARKUP_PERCENT)),
               rp_sell = d_col D 6 (dmul D (tk_usdt_buy tk) (dminus D 1 RATE_MARKUP_PERCENT))\<rparr>)) (\<lambda>_ _. True) w"
    using assms(2-4)
    by (simp add: runCycle_def fetchRates_def wp_simps result_eq_wp wp_getCurrentRate live_def
        parse_stale_def window_constants last)
  then show ?thesis using assms(1) by (simp add: wp_def)
qed

theorem cached_rate_has_no_spread_witness:
  "\<exists>fw w. sample_cycle empty_world = (Inr fw, w) \<and>
     result (getCurrentRate USDT_NGN) (w\<lparr>w_clock := w_clock w + 600000\<rparr>) =
       Inr \<lparr>rp_buy = 1517550000 / 10 ^ 6, rp_sell = 1492500000 / 10 ^ 6\<rparr>"
proof -
  obtain fw w where run: "sample_cycle empty_world = (Inr fw, w)"
    using wp_runD[OF sample_cycle_wp] by blast
  have "d_col js_decimals 6 (dmul js_decimals 1510 (dplus js_decimals 1 RATE_MARKUP_PERCENT)) = 1517550000 / 10 ^ 6"
    "d_col js_decimals 6 (dmul js_decimals 1500 (dminus js_decimals 1 RATE_MARKUP_PERCENT)) = 1492500000 / 10 ^ 6"
    by code_simp+
  then show ?thesis
    using run cached_rate_has_no_spread[of js_decimals "''quidax''" sample_tickers _ empty_world fw w 600000]
    unfolding sample_cycle_def by (simp add: empty_world_def empty_db_def sample_tickers_def)
qed

end
