(* ===== verification/Auth.thy ===== *)
theory Auth
  imports Store
begin

text \<open>
  \<open>modules/auth/auth.service.ts\<close> and \<open>modules/auth/session.service.ts\<close>: passwordless
  accounts. One-time codes live in Redis as a hash with a time to live of 15 minutes and a
  counter of attempts; the two code paths of the source, codes keyed by email and codes keyed
  by user and resource, are two interpretations of one interface. The cryptographic libraries
  (\<open>crypto\<close>, \<open>otplib\<close>, \<open>argon2\<close>) are parameters; comparing two digests is comparing their
  hexadecimal texts. Email addresses are ASCII. Sending an email is an effect that succeeds.
\<close>

record auth_env =
  ae_sha256 :: "string \<Rightarrow> string"
  ae_random_otp :: "world \<Rightarrow> nat"
  ae_random_token :: "world \<Rightarrow> string"
  ae_totp_secret :: "world \<Rightarrow> string"
  ae_totp_verify :: "string \<Rightarrow> string \<Rightarrow> time \<Rightarrow> bool"
  ae_encrypt :: "string \<Rightarrow> string"
  ae_decrypt :: "string \<Rightarrow> string"
  ae_argon2_hash :: "world \<Rightarrow> string \<Rightarrow> string"
  ae_argon2_verify :: "string \<Rightarrow> string \<Rightarrow> bool"

definition OTP_TTL_SEC :: int where "OTP_TTL_SEC = 900"
definition OTP_MAX_ATTEMPTS :: int where "OTP_MAX_ATTEMPTS = 5"
definition OTP_LENGTH :: nat where "OTP_LENGTH = 6"

definition hashOtp :: "auth_env \<Rightarrow> string \<Rightarrow> string" where
  "hashOtp A otp = ae_sha256 A otp"

definition safeCompareOtp :: "auth_env \<Rightarrow> string \<Rightarrow> string \<Rightarrow> bool" where
  "safeCompareOtp A otp stored_hash \<longleftrightarrow> hashOtp A otp = stored_hash"

definition generateOtp :: "auth_env \<Rightarrow> string service" where
  "generateOtp A = gets (\<lambda>w. pad_zeros OTP_LENGTH (show_nat (ae_random_otp A w)))"

definition read_attempts :: "rval option \<Rightarrow> int" where
  "read_attempts v = (case v of Some (VInt n) \<Rightarrow> n | _ \<Rightarrow> 0)"

section \<open>One-time codes\<close>

definition sendEmailOtp :: "auth_env \<Rightarrow> OtpPurpose \<Rightarrow> string \<Rightarrow> unit service" where
  "sendEmailOtp A purpose email =
     bind (generateOtp A) (\<lambda>otp.
     bind (redis_setex (OTP_CODE purpose email) (VStr (hashOtp A otp)) OTP_TTL_SEC) (\<lambda>_.
     bind (redis_del (OTP_ATTEMPTS purpose email)) (\<lambda>_.
     emit (OtpSent email otp purpose))))"

definition consumeEmailOtp :: "auth_env \<Rightarrow> OtpPurpose \<Rightarrow> string \<Rightarrow> string \<Rightarrow> unit service" where
  "consumeEmailOtp A purpose email otp =
     bind (redis_get (OTP_ATTEMPTS purpose email)) (\<lambda>attempts_raw.
     bind (require (read_attempts attempts_raw < OTP_MAX_ATTEMPTS) (AuthE AuthOtpMaxAttemptsException)) (\<lambda>_.
     bind (redis_get (OTP_CODE purpose email)) (\<lambda>stored.
     case stored of
       Some (VStr stored_hash) \<Rightarrow>
         bind (redis_incr (OTP_ATTEMPTS purpose email)) (\<lambda>_.
         bind (redis_expire (OTP_ATTEMPTS purpose email) OTP_TTL_SEC) (\<lambda>_.
         bind (require (safeCompareOtp A otp stored_hash) (AuthE AuthOtpExpiredException)) (\<lambda>_.
         bind (redis_del (OTP_CODE purpose email)) (\<lambda>_.
         redis_del (OTP_ATTEMPTS purpose email)))))
     | _ \<Rightarrow> throw (AuthE AuthOtpExpiredException))))"

definition sendScopedOtp :: "auth_env \<Rightarrow> OtpPurpose \<Rightarrow> id \<Rightarrow> id option \<Rightarrow> unit service" where
  "sendScopedOtp A purpose user_id resource_id =
     bind (find_or_throw user_table user_id) (\<lambda>user.
     bind (generateOtp A) (\<lambda>otp.
     bind (redis_setex (SCOPED_OTP_CODE purpose user_id resource_id) (VStr (hashOtp A otp)) OTP_TTL_SEC) (\<lambda>_.
     bind (redis_del (SCOPED_OTP_ATTEMPTS purpose user_id resource_id)) (\<lambda>_.
     emit (OtpSent (u_email user) otp purpose)))))"

definition consumeScopedOtp ::
    "auth_env \<Rightarrow> OtpPurpose \<Rightarrow> id \<Rightarrow> string \<Rightarrow> id option \<Rightarrow> unit service" where
  "consumeScopedOtp A purpose user_id otp resource_id =
     bind (redis_get (SCOPED_OTP_ATTEMPTS purpose user_id resource_id)) (\<lambda>attempts_raw.
     bind (require (read_attempts attempts_raw < OTP_MAX_ATTEMPTS) (AuthE AuthOtpMaxAttemptsException)) (\<lambda>_.
     bind (redis_get (SCOPED_OTP_CODE purpose user_id resource_id)) (\<lambda>stored.
     case stored of
       Some (VStr stored_hash) \<Rightarrow>
         bind (redis_incr (SCOPED_OTP_ATTEMPTS purpose user_id resource_id)) (\<lambda>_.
         bind (redis_expire (SCOPED_OTP_ATTEMPTS purpose user_id resource_id) OTP_TTL_SEC) (\<lambda>_.
         bind (require (safeCompareOtp A otp stored_hash) (AuthE AuthOtpExpiredException)) (\<lambda>_.
         bind (redis_del (SCOPED_OTP_CODE purpose user_id resource_id)) (\<lambda>_.
         redis_del (SCOPED_OTP_ATTEMPTS purpose user_id resource_id)))))
     | _ \<Rightarrow> throw (AuthE AuthOtpExpiredException))))"

definition sendReleaseAddressChangeOtp :: "auth_env \<Rightarrow> id \<Rightarrow> id \<Rightarrow> unit service" where
  "sendReleaseAddressChangeOtp A user_id loan_id =
     sendScopedOtp A otp_release_address_change user_id (Some loan_id)"

definition consumeReleaseAddressChangeOtp :: "auth_env \<Rightarrow> id \<Rightarrow> id \<Rightarrow> string \<Rightarrow> unit service" where
  "consumeReleaseAddressChangeOtp A user_id loan_id otp =
     consumeScopedOtp A otp_release_address_change user_id otp (Some loan_id)"

definition sendTransactionPinOtp :: "auth_env \<Rightarrow> id \<Rightarrow> OtpPurpose \<Rightarrow> unit service" where
  "sendTransactionPinOtp A user_id purpose = sendScopedOtp A purpose user_id None"

definition consumeTransactionPinOtp :: "auth_env \<Rightarrow> id \<Rightarrow> OtpPurpose \<Rightarrow> string \<Rightarrow> unit service" where
  "consumeTransactionPinOtp A user_id purpose otp = consumeScopedOtp A purpose user_id otp None"

section \<open>Sessions\<close>

definition session_create :: "auth_env \<Rightarrow> id \<Rightarrow> string service" where
  "session_create A user_id =
     bind (gets (ae_random_token A)) (\<lambda>token. bind now (\<lambda>t.
     bind (create_row session_table (\<lambda>i. \<lparr>s_id = i, s_user_id = user_id,
        s_token_hash = ae_sha256 A token, s_expires_at = t + SESSION_TTL_SEC * 1000,
        s_created_at = t\<rparr>)) (\<lambda>_.
     return token)))"

definition session_destroy :: "string \<Rightarrow> unit service" where
  "session_destroy token_hash =
     bind (delete_many session_table (\<lambda>s. s_token_hash s = token_hash)) (\<lambda>_. return ())"

definition session_destroyAll :: "id \<Rightarrow> unit service" where
  "session_destroyAll user_id =
     bind (delete_many session_table (\<lambda>s. s_user_id s = user_id)) (\<lambda>_. return ())"

section \<open>Accounts\<close>

definition find_user_by_email :: "string \<Rightarrow> user_row option service" where
  "find_user_by_email email = find_first user_table (\<lambda>u. u_email u = email)"

definition new_user :: "string \<Rightarrow> time \<Rightarrow> id \<Rightarrow> user_row" where
  "new_user email t i =
     \<lparr>u_id = i, u_email = email, u_email_verified = False, u_totp_secret = None,
      u_totp_enabled = False, u_transaction_pin_hash = None, u_transaction_pin_set_at = None,
      u_transaction_pin_failed_attempts = 0, u_transaction_pin_locked_until = None,
      u_is_active = True, u_disbursement_enabled = True, u_loan_enabled = True, u_kyc_tier = 0,
      u_first_name = None, u_middle_name = None, u_last_name = None, u_date_of_birth = None,
      u_created_at = t\<rparr>"

definition signup :: "auth_env \<Rightarrow> string \<Rightarrow> unit service" where
  "signup A raw_email =
     (let email = to_lower raw_email in
      bind (find_user_by_email email) (\<lambda>existing.
      case existing of
        Some u \<Rightarrow>
          if u_email_verified u then throw (BitmonieException ''AUTH_EMAIL_ALREADY_REGISTERED'' 409)
          else sendEmailOtp A otp_verify email
      | None \<Rightarrow>
          bind now (\<lambda>t. bind (create_row user_table (new_user email t)) (\<lambda>_. sendEmailOtp A otp_verify email))))"

definition verifyEmail :: "auth_env \<Rightarrow> string \<Rightarrow> string \<Rightarrow> unit service" where
  "verifyEmail A raw_email otp =
     (let email = to_lower raw_email in
      bind (find_user_by_email email) (\<lambda>user.
      case user of
        None \<Rightarrow> throw (AuthE AuthOtpExpiredException)
      | Some u \<Rightarrow>
          if u_email_verified u then throw (BitmonieException ''AUTH_EMAIL_ALREADY_VERIFIED'' 409)
          else bind (consumeEmailOtp A otp_verify email otp) (\<lambda>_.
               bind (update_by_id user_table (u_id u) (\<lambda>u. u\<lparr>u_email_verified := True\<rparr>)) (\<lambda>_.
               return ()))))"

definition resendVerificationEmail :: "auth_env \<Rightarrow> string \<Rightarrow> unit service" where
  "resendVerificationEmail A raw_email =
     (let email = to_lower raw_email in
      bind (find_user_by_email email) (\<lambda>user.
      case user of
        None \<Rightarrow> return ()
      | Some u \<Rightarrow> if u_email_verified u then return () else sendEmailOtp A otp_verify email))"

definition requestLoginOtp :: "auth_env \<Rightarrow> string \<Rightarrow> unit service" where
  "requestLoginOtp A raw_email =
     (let email = to_lower raw_email in
      bind (find_user_by_email email) (\<lambda>user.
      case user of
        None \<Rightarrow> throw (BitmonieException ''AUTH_ACCOUNT_NOT_FOUND'' 404)
      | Some u \<Rightarrow>
          if \<not> u_email_verified u then throw (BitmonieException ''AUTH_EMAIL_NOT_VERIFIED'' 422)
          else sendEmailOtp A otp_login email))"

definition verifyLoginOtp :: "auth_env \<Rightarrow> string \<Rightarrow> string \<Rightarrow> string service" where
  "verifyLoginOtp A raw_email otp =
     (let email = to_lower raw_email in
      bind (find_user_by_email email) (\<lambda>user.
      case user of
        None \<Rightarrow> throw (AuthE AuthOtpExpiredException)
      | Some u \<Rightarrow>
          if \<not> u_email_verified u then throw (BitmonieException ''AUTH_EMAIL_NOT_VERIFIED'' 422)
          else bind (consumeEmailOtp A otp_login email otp) (\<lambda>_. session_create A (u_id u))))"

definition logout :: "auth_env \<Rightarrow> string \<Rightarrow> unit service" where
  "logout A token = session_destroy (ae_sha256 A token)"

definition logoutAll :: "id \<Rightarrow> unit service" where
  "logoutAll user_id = session_destroyAll user_id"

section \<open>Two-factor authentication\<close>

definition setup2fa :: "auth_env \<Rightarrow> id \<Rightarrow> string service" where
  "setup2fa A user_id =
     bind (find_or_throw user_table user_id) (\<lambda>user.
     if u_totp_enabled user then throw (BitmonieException ''AUTH_2FA_ALREADY_ENABLED'' 409)
     else bind (gets (ae_totp_secret A)) (\<lambda>secret.
          bind (update_by_id user_table user_id
                  (\<lambda>u. u\<lparr>u_totp_secret := Some (ae_encrypt A secret), u_totp_enabled := False\<rparr>)) (\<lambda>_.
          return secret)))"

definition present :: "string option \<Rightarrow> string option" where
  "present s = (case s of None \<Rightarrow> None | Some t \<Rightarrow> if t = [] then None else Some t)"

definition check_totp :: "auth_env \<Rightarrow> string \<Rightarrow> string \<Rightarrow> unit service" where
  "check_totp A stored code =
     bind now (\<lambda>t. require (ae_totp_verify A (ae_decrypt A stored) code t) (AuthE AuthInvalidCredentialsException))"

definition confirm2fa :: "auth_env \<Rightarrow> id \<Rightarrow> string \<Rightarrow> unit service" where
  "confirm2fa A user_id totp_code =
     bind (find_or_throw user_table user_id) (\<lambda>user.
     if u_totp_enabled user then throw (BitmonieException ''AUTH_2FA_ALREADY_ENABLED'' 409)
     else (case present (u_totp_secret user) of
        None \<Rightarrow> throw (BitmonieException ''AUTH_2FA_SETUP_REQUIRED'' 400)
      | Some stored \<Rightarrow>
          bind (check_totp A stored totp_code) (\<lambda>_.
          bind (update_by_id user_table user_id (\<lambda>u. u\<lparr>u_totp_enabled := True\<rparr>)) (\<lambda>_. return ()))))"

definition disable2fa :: "auth_env \<Rightarrow> id \<Rightarrow> string \<Rightarrow> unit service" where
  "disable2fa A user_id totp_code =
     bind (find_or_throw user_table user_id) (\<lambda>user.
     case (if u_totp_enabled user then present (u_totp_secret user) else None) of
        None \<Rightarrow> throw (BitmonieException ''AUTH_2FA_NOT_ENABLED'' 400)
      | Some stored \<Rightarrow>
          bind (check_totp A stored totp_code) (\<lambda>_.
          bind (update_by_id user_table user_id
                  (\<lambda>u. u\<lparr>u_totp_enabled := False, u_totp_secret := None\<rparr>)) (\<lambda>_. return ())))"

definition verifyTotpForUser :: "auth_env \<Rightarrow> id \<Rightarrow> string \<Rightarrow> unit service" where
  "verifyTotpForUser A user_id totp_code =
     bind (find_or_throw user_table user_id) (\<lambda>user.
     case (if u_totp_enabled user then present (u_totp_secret user) else None) of
        None \<Rightarrow> throw (AuthE Auth2faRequiredException)
      | Some stored \<Rightarrow> check_totp A stored totp_code)"

section \<open>The interface of a code channel\<close>

text \<open>
  What a consumer of codes does, for the key that holds the digest of the code and the key
  that counts the attempts: refuse after five attempts, count the attempt before comparing,
  and delete both keys when the code matches.
\<close>

definition count_attempt :: "rkey \<Rightarrow> world \<Rightarrow> world" where
  "count_attempt k w =
     set_key k (VInt (read_attempts (live w k) + 1)) (Some (w_clock w + OTP_TTL_SEC * 1000)) w"

definition consume_spec :: "auth_env \<Rightarrow> rkey \<Rightarrow> rkey \<Rightarrow> string \<Rightarrow> (exn + unit) \<times> world \<Rightarrow> world \<Rightarrow> bool" where
  "consume_spec A code_key attempts_key otp outcome w \<longleftrightarrow> outcome =
     (if OTP_MAX_ATTEMPTS \<le> read_attempts (live w attempts_key)
      then (Inl (AuthE AuthOtpMaxAttemptsException), w)
      else case live w code_key of
        Some (VStr h) \<Rightarrow>
          if safeCompareOtp A otp h
          then (Inr (), del_world attempts_key (del_world code_key (count_attempt attempts_key w)))
          else (Inl (AuthE AuthOtpExpiredException), count_attempt attempts_key w)
      | _ \<Rightarrow> (Inl (AuthE AuthOtpExpiredException), w))"

text \<open>A sequence of submissions, each after a delay.\<close>

fun submissions :: "(string \<Rightarrow> unit service) \<Rightarrow> (int \<times> string) list \<Rightarrow> world \<Rightarrow> world" where
  "submissions consume [] w = w"
| "submissions consume ((d, otp) # gs) w =
     submissions consume gs (final (consume otp) (wait_world d w))"

locale otp_channel =
  fixes A :: auth_env and consume :: "string \<Rightarrow> unit service" and code_key attempts_key :: rkey
  assumes distinct_keys: "code_key \<noteq> attempts_key"
    and consume_spec: "consume_spec A code_key attempts_key otp (consume otp w) w"
begin

lemma consume_eq:
  "consume otp w =
     (if OTP_MAX_ATTEMPTS \<le> read_attempts (live w attempts_key)
      then (Inl (AuthE AuthOtpMaxAttemptsException), w)
      else case live w code_key of
        Some (VStr h) \<Rightarrow>
          if safeCompareOtp A otp h
          then (Inr (), del_world attempts_key (del_world code_key (count_attempt attempts_key w)))
          else (Inl (AuthE AuthOtpExpiredException), count_attempt attempts_key w)
      | _ \<Rightarrow> (Inl (AuthE AuthOtpExpiredException), w))"
  using consume_spec[of otp w] by (simp add: consume_spec_def)

lemma consume_clock: "w_clock (final (consume otp) w) = w_clock w"
  by (auto simp: consume_eq count_attempt_def del_world_def split: option.split rval.split)

lemma single_use:
  assumes "consume otp w = (Inr (), w')"
  shows "safeCompareOtp A otp (case live w code_key of Some (VStr h) \<Rightarrow> h | _ \<Rightarrow> [])"
    and "live w code_key \<noteq> None" and "result (consume otp') (wait_world d w') \<noteq> Inr ()"
proof -
  have "w_redis w' code_key = None"
    using assms distinct_keys
    by (auto simp: consume_eq count_attempt_def del_world_def set_key_def
        split: if_splits option.splits rval.splits)
  then have "live (wait_world d w') code_key = None" by (simp add: live_def wait_world_def)
  then show "result (consume otp') (wait_world d w') \<noteq> Inr ()" by (simp add: consume_eq)
qed (use assms in \<open>auto simp: consume_eq split: if_splits option.splits rval.splits\<close>)

definition code_state :: "string \<Rightarrow> time \<Rightarrow> int \<Rightarrow> world \<Rightarrow> bool" where
  "code_state h t n w \<longleftrightarrow> w_redis w code_key = Some (VStr h, Some t) \<and>
     (t \<le> w_clock w \<or>
      (if n = 0 then w_redis w attempts_key = None
       else \<exists>u\<ge>t. w_redis w attempts_key = Some (VInt n, Some u)))"

lemma code_state_wait: "code_state h t n w \<Longrightarrow> 0 \<le> d \<Longrightarrow> code_state h t n (wait_world d w)"
  by (auto simp: code_state_def wait_world_def)

lemma code_state_attempts:
  "code_state h t n w \<Longrightarrow> w_clock w < t \<Longrightarrow> 0 \<le> n \<Longrightarrow> read_attempts (live w attempts_key) = n"
  by (auto simp: code_state_def live_def read_attempts_def split: if_splits)

lemma wrong_guess:
  assumes "code_state h t n w" "0 \<le> n" "n \<le> 5" "\<not> safeCompareOtp A otp h" "t \<le> w_clock w + 900000"
  shows "code_state h t (min 5 (n + 1)) (final (consume otp) w)"
proof (cases "t \<le> w_clock w")
  case True
  then have "live w code_key = None" using assms(1) by (simp add: code_state_def live_def)
  then show ?thesis using assms(1) True by (auto simp: consume_eq code_state_def)
next
  case False
  then have c: "live w code_key = Some (VStr h)" and n: "read_attempts (live w attempts_key) = n"
    using assms(1,2) code_state_attempts[of h t n w] by (auto simp: code_state_def live_def)
  show ?thesis
  proof (cases "n = 5")
    case True
    then show ?thesis using assms(1) n by (simp add: consume_eq OTP_MAX_ATTEMPTS_def)
  next
    case False
    then have "final (consume otp) w = count_attempt attempts_key w"
      using assms(3,4) c n by (simp add: consume_eq OTP_MAX_ATTEMPTS_def)
    then show ?thesis
      using assms False n distinct_keys
      by (auto simp: code_state_def count_attempt_def OTP_TTL_SEC_def min_def)
  qed
qed

lemma wrong_guesses:
  assumes "code_state h t n w" "0 \<le> n" "n \<le> 5" "t \<le> w_clock w + 900000"
    and "\<forall>(d, otp)\<in>set gs. 0 \<le> d \<and> \<not> safeCompareOtp A otp h"
  shows "code_state h t (min 5 (n + int (length gs))) (submissions consume gs w) \<and>
    w_clock w \<le> w_clock (submissions consume gs w)"
  using assms
proof (induction gs arbitrary: n w)
  case (Cons g gs)
  obtain d otp where g: "g = (d, otp)" by (cases g)
  let ?w = "final (consume otp) (wait_world d w)"
  have "code_state h t (min 5 (n + 1)) ?w"
    using Cons.prems g code_state_wait[of h t n w d]
    by (intro wrong_guess) (auto simp: wait_world_def)
  moreover have "w_clock ?w = w_clock w + d" by (simp add: consume_clock wait_world_def)
  ultimately show ?case
    using Cons.IH[of "min 5 (n + 1)" ?w] Cons.prems g by (auto simp: min_def add.assoc split: if_splits)
qed auto

text \<open>Five wrong submissions burn the code: not even the right code is accepted any more.\<close>

lemma five_guesses:
  assumes "code_state h t 0 w" "t \<le> w_clock w + 900000"
    and "\<forall>(d, otp)\<in>set gs. 0 \<le> d \<and> \<not> safeCompareOtp A otp h" and "5 \<le> length gs" and "0 \<le> d"
  shows "result (consume otp) (wait_world d (submissions consume gs w)) \<noteq> Inr ()"
proof -
  let ?w = "wait_world d (submissions consume gs w)"
  have s: "code_state h t 5 ?w"
    using wrong_guesses[of h t 0 w gs] assms code_state_wait by (auto simp: min_def split: if_splits)
  show ?thesis
  proof (cases "t \<le> w_clock ?w")
    case True
    then have "live ?w code_key = None" using s by (simp add: code_state_def live_def)
    then show ?thesis by (simp add: consume_eq)
  next
    case False
    then show ?thesis
      using code_state_attempts[OF s] by (simp add: consume_eq OTP_MAX_ATTEMPTS_def)
  qed
qed

lemma submissions_clock:
  "w_clock (submissions consume gs w) = w_clock w + sum_list (map fst gs)"
  by (induction gs arbitrary: w) (auto simp: consume_clock wait_world_def)

text \<open>Within its time to live the right code is accepted exactly after fewer than five wrong
  ones.\<close>

lemma right_code:
  assumes "code_state h t 0 w" "t \<le> w_clock w + 900000"
    and "\<forall>(d, otp)\<in>set gs. 0 \<le> d \<and> \<not> safeCompareOtp A otp h" and "0 \<le> d"
    and "w_clock w + sum_list (map fst gs) + d < t" and "safeCompareOtp A otp h"
  shows "result (consume otp) (wait_world d (submissions consume gs w)) = Inr () \<longleftrightarrow> length gs < 5"
proof (cases "length gs < 5")
  case True
  let ?w = "wait_world d (submissions consume gs w)"
  have "code_state h t (int (length gs)) ?w"
    using wrong_guesses[of h t 0 w gs] assms(1-4) True code_state_wait[of h t _ _ d]
    by (auto simp: min_def split: if_splits)
  moreover have "w_clock ?w < t"
    using assms(5) by (simp add: wait_world_def submissions_clock)
  ultimately have "read_attempts (live ?w attempts_key) = int (length gs)"
    "live ?w code_key = Some (VStr h)"
    by (auto simp: code_state_attempts) (simp add: code_state_def live_def)
  then show ?thesis using True assms(6) by (simp add: consume_eq OTP_MAX_ATTEMPTS_def)
next
  case False
  then show ?thesis using five_guesses[OF assms(1-3) _ assms(4)] by simp
qed

end

lemma consume_unfold:
  assumes "code_key \<noteq> attempts_key"
    and "c = bind (redis_get attempts_key) (\<lambda>attempts_raw.
     bind (require (read_attempts attempts_raw < OTP_MAX_ATTEMPTS) (AuthE AuthOtpMaxAttemptsException)) (\<lambda>_.
     bind (redis_get code_key) (\<lambda>stored.
     case stored of
       Some (VStr stored_hash) \<Rightarrow>
         bind (redis_incr attempts_key) (\<lambda>_.
         bind (redis_expire attempts_key OTP_TTL_SEC) (\<lambda>_.
         bind (require (safeCompareOtp A otp stored_hash) (AuthE AuthOtpExpiredException)) (\<lambda>_.
         bind (redis_del code_key) (\<lambda>_.
         redis_del attempts_key))))
     | _ \<Rightarrow> throw (AuthE AuthOtpExpiredException))))"
  shows "consume_spec A code_key attempts_key otp (c w) w"
proof -
  have twice: "set_key k v t (set_key k v' t' w) = set_key k v t w" for k v t v' t'
    by (simp add: set_key_def)
  have bump: "wp (redis_incr k) (\<lambda>_. wp (redis_expire k OTP_TTL_SEC) Q E) E w = Q () (count_attempt k w)"
    for k Q and E :: "exn \<Rightarrow> world \<Rightarrow> bool"
    using live_SomeD[of w k]
    by (auto simp: wp_simps count_attempt_def read_attempts_def twice expiry_def split: option.split rval.split)
  show ?thesis
    unfolding consume_spec_def run_is_wp assms(2)
    by (simp add: wp_redis_get wp_require wp_throw wp_bind_fun bump wp_redis_del del_world_def not_less split: option.split rval.split)
qed

interpretation email_otp: otp_channel A "consumeEmailOtp A purpose email"
    "OTP_CODE purpose email" "OTP_ATTEMPTS purpose email" for A purpose email
  by unfold_locales (auto intro!: consume_unfold simp: consumeEmailOtp_def)

interpretation scoped_otp: otp_channel A "\<lambda>otp. consumeScopedOtp A purpose user_id otp resource_id"
    "SCOPED_OTP_CODE purpose user_id resource_id" "SCOPED_OTP_ATTEMPTS purpose user_id resource_id"
    for A purpose user_id resource_id
  by unfold_locales (auto intro!: consume_unfold simp: consumeScopedOtp_def)

definition sent_code :: "auth_env \<Rightarrow> world \<Rightarrow> string" where
  "sent_code A w = pad_zeros OTP_LENGTH (show_nat (ae_random_otp A w))"

lemma sendEmailOtp_state:
  "sendEmailOtp A purpose email w = (Inr (), w1) \<Longrightarrow>
   email_otp.code_state purpose email (hashOtp A (sent_code A w)) (w_clock w + 900000) 0 w1 \<and>
   w_clock w1 = w_clock w"
  by (auto simp: sendEmailOtp_def generateOtp_def run_defs store_defs email_otp.code_state_def
      sent_code_def OTP_TTL_SEC_def)

text \<open>A code sent by email opens the account exactly once it is presented within fifteen
  minutes and after fewer than five wrong codes: five wrong submissions burn it, however they
  are spread in time, and the right code is then refused as well.\<close>

theorem email_code_burns_after_five:
  assumes "sendEmailOtp A purpose email w = (Inr (), w1)"
    and "\<forall>(d, g)\<in>set guesses. 0 \<le> d \<and> ae_sha256 A g \<noteq> ae_sha256 A (sent_code A w)"
    and "0 \<le> d" and "sum_list (map fst guesses) + d < 900000"
  shows "result (consumeEmailOtp A purpose email (sent_code A w))
      (wait_world d (submissions (consumeEmailOtp A purpose email) guesses w1)) = Inr ()
    \<longleftrightarrow> length guesses < 5"
  using sendEmailOtp_state[OF assms(1)] assms(2-4)
  by (intro email_otp.right_code[where t = "w_clock w + 900000" and h = "hashOtp A (sent_code A w)"])
     (auto simp: safeCompareOtp_def hashOtp_def)

definition toy_auth :: auth_env where
  "toy_auth = \<lparr>ae_sha256 = rev, ae_random_otp = (\<lambda>w. 4711), ae_random_token = (\<lambda>w. show_nat (next_id (w_db w))),
     ae_totp_secret = (\<lambda>_. ''K''), ae_totp_verify = (\<lambda>s c t. c = show_int (t div 30000)),
     ae_encrypt = rev, ae_decrypt = rev, ae_argon2_hash = (\<lambda>_. rev), ae_argon2_verify = (\<lambda>h p. h = rev p)\<rparr>"

theorem email_code_burns_after_five_witness:
  "\<exists>w1. sendEmailOtp toy_auth otp_login ''a@b'' empty_world = (Inr (), w1) \<and>
     result (consumeEmailOtp toy_auth otp_login ''a@b'' (sent_code toy_auth empty_world))
       (wait_world 1 (submissions (consumeEmailOtp toy_auth otp_login ''a@b'')
          (replicate 5 (1000, ''000000'')) w1)) \<noteq> Inr ()"
proof -
  obtain w1 where w1: "sendEmailOtp toy_auth otp_login ''a@b'' empty_world = (Inr (), w1)"
    by (auto simp: sendEmailOtp_def generateOtp_def run_defs store_defs)
  have sha: "ae_sha256 toy_auth = rev" by (simp add: toy_auth_def)
  have rep: "replicate 2 x = [x, x]" for x :: char by (simp add: numeral_2_eq_2)
  have code: "sent_code toy_auth empty_world = ''004711''"
    by (simp add: sent_code_def toy_auth_def pad_zeros_def OTP_LENGTH_def show_nat.simps char_of_def
        bit_iff_odd rep)
  have "result (consumeEmailOtp toy_auth otp_login ''a@b'' (sent_code toy_auth empty_world))
       (wait_world 1 (submissions (consumeEmailOtp toy_auth otp_login ''a@b'')
          (replicate 5 (1000, ''000000'')) w1)) = Inr () \<longleftrightarrow> length (replicate 5 (1000 :: int, ''000000'')) < 5"
    by (rule email_code_burns_after_five[OF w1]) (simp_all add: code sha sum_list_replicate)
  then show ?thesis using w1 by auto
qed

end
