(* ===== verification/Guards.thy ===== *)
theory Guards
  imports Auth
begin

text \<open>
  \<open>common/guards/session.guard.ts\<close> and \<open>common/guards/kyc-tier.guard.ts\<close>: who a request comes
  from, and whether their verification tier suffices. The headers and cookies of a request
  are a record; the decorator's metadata is the required tier.
\<close>

record request =
  rq_session_cookie :: "string option"
  rq_authorization :: "string option"

definition starts_with :: "string \<Rightarrow> string \<Rightarrow> bool" where
  "starts_with p s \<longleftrightarrow> take (length p) s = p"

definition extractToken :: "request \<Rightarrow> string option" where
  "extractToken request =
     (case present (rq_session_cookie request) of
        Some c \<Rightarrow> Some c
      | None \<Rightarrow>
          (case rq_authorization request of
             Some h \<Rightarrow> if starts_with ''Bearer '' h then Some (drop 7 h) else None
           | None \<Rightarrow> None))"

definition session_canActivate :: "auth_env \<Rightarrow> request \<Rightarrow> user_row service" where
  "session_canActivate A request =
     (case present (extractToken request) of
        None \<Rightarrow> throw (UnauthorizedException [])
      | Some token \<Rightarrow>
          bind (find_first session_table (\<lambda>s. s_token_hash s = ae_sha256 A token)) (\<lambda>session.
          bind now (\<lambda>t.
          case session of
            None \<Rightarrow> throw (UnauthorizedException [])
          | Some s \<Rightarrow>
              if s_expires_at s < t then throw (UnauthorizedException [])
              else bind (find_by_id user_table (s_user_id s)) (\<lambda>user.
                   case user of
                     None \<Rightarrow> throw (UnauthorizedException [])
                   | Some u \<Rightarrow> if u_is_active u then return u else throw (AuthE AccountSuspendedException)))))"

definition kyc_canActivate :: "nat option \<Rightarrow> user_row option \<Rightarrow> exn + bool" where
  "kyc_canActivate required_tier user =
     (case required_tier of
        None \<Rightarrow> Inr True
      | Some tier \<Rightarrow>
          (case user of
             None \<Rightarrow> Inl (KycE (KycUpgradeRequiredException tier))
           | Some u \<Rightarrow> if u_kyc_tier u < tier then Inl (KycE (KycUpgradeRequiredException tier)) else Inr True))"

lemma wp_session_canActivate [wp_simps]:
  "wp (session_canActivate A request) Q E w =
     (case present (extractToken request) of
        None \<Rightarrow> E (UnauthorizedException []) w
      | Some token \<Rightarrow>
          (case List.find (\<lambda>s. s_token_hash s = ae_sha256 A token) (sessions (w_db w)) of
             None \<Rightarrow> E (UnauthorizedException []) w
           | Some s \<Rightarrow>
               if s_expires_at s < w_clock w then E (UnauthorizedException []) w
               else (case find_row u_id (s_user_id s) (users (w_db w)) of
                  None \<Rightarrow> E (UnauthorizedException []) w
                | Some u \<Rightarrow> if u_is_active u then Q u w else E (AuthE AccountSuspendedException) w)))"
  by (auto simp: session_canActivate_def wp_simps table_defs split: option.split)

definition bearer :: "string \<Rightarrow> request" where
  "bearer token = \<lparr>rq_session_cookie = None, rq_authorization = Some (''Bearer '' @ token)\<rparr>"

lemma extractToken_bearer [simp]: "extractToken (bearer token) = Some token"
  by (simp add: extractToken_def bearer_def present_def starts_with_def)

lemma verifyLoginOtp_result:
  assumes "verifyLoginOtp A email otp w = (Inr token, w')"
  shows "\<exists>u w1. List.find (\<lambda>u. u_email u = to_lower email) (users (w_db w)) = Some u \<and> u_email_verified u \<and>
    consumeEmailOtp A otp_login (to_lower email) otp w = (Inr (), w1) \<and>
    session_create A (u_id u) w1 = (Inr token, w')"
  using assms
  by (auto simp: verifyLoginOtp_def find_user_by_email_def run_defs store_defs Let_def table_defs
      split: option.splits if_splits prod.splits sum.splits)

lemma consumeEmailOtp_db:
  "consumeEmailOtp A purpose email otp w = (r, w1) \<Longrightarrow> w_db w1 = w_db w \<and> w_clock w1 = w_clock w"
  by (auto simp: email_otp.consume_eq count_attempt_def del_world_def split: if_splits option.splits rval.splits)

text \<open>C32. A login mints a session for the verified owner of the address and for no one else: the
  token it returns authenticates that user for 24 hours as long as the account is active, the
  code it consumed cannot be used again, and logging the token out ends the session.\<close>

theorem login_session_lifecycle:
  assumes "wf_table session_table w" and "verifyLoginOtp A email otp w = (Inr token, w')"
    and "token \<noteq> []" and "0 \<le> d"
  shows "\<exists>u. u_email u = to_lower email \<and> u_email_verified u \<and> u \<in> set (users (w_db w)) \<and>
    (unique_keys u_id (users (w_db w)) \<longrightarrow> u_is_active u \<longrightarrow>
      (result (session_canActivate A (bearer token)) (wait_world d w') = Inr u \<longleftrightarrow> d \<le> 86400000)) \<and>
    result (verifyLoginOtp A email otp') (wait_world d w') \<noteq> Inr token' \<and>
    result (session_canActivate A (bearer token)) (final (logout A token) w') = Inl (UnauthorizedException [])"
proof -
  obtain u w1 where u: "List.find (\<lambda>u. u_email u = to_lower email) (users (w_db w)) = Some u"
    "u_email_verified u" and c: "consumeEmailOtp A otp_login (to_lower email) otp w = (Inr (), w1)"
    and s: "session_create A (u_id u) w1 = (Inr token, w')"
    using verifyLoginOtp_result[OF assms(2)] by blast
  have db: "w_db w1 = w_db w" "w_clock w1 = w_clock w" using consumeEmailOtp_db[OF c] by auto
  have mem: "u \<in> set (users (w_db w))" "u_email u = to_lower email"
    using u(1) by (auto simp: find_Some_iff)
  define row where "row = \<lparr>s_id = next_id (w_db w), s_user_id = u_id u, s_token_hash = ae_sha256 A token,
    s_expires_at = w_clock w + 86400000, s_created_at = w_clock w\<rparr>"
  have v: "violated session_table row (sessions (w_db w)) = None"
    and rows: "sessions (w_db w') = sessions (w_db w) @ [row]" and users': "users (w_db w') = users (w_db w)"
    and clock: "w_clock w' = w_clock w" and red: "w_redis w' = w_redis w1"
    using s by (auto simp: session_create_def run_defs store_defs Let_def table_defs db row_def SESSION_TTL_SEC_def
        split: option.splits)
  have fresh: "s_token_hash r \<noteq> ae_sha256 A token" if "r \<in> set (sessions (w_db w))" for r
  proof -
    have "s_id r < next_id (w_db w)" using assms(1) that by (auto simp: wf_table_def table_defs)
    then have "s_id r \<noteq> s_id row" by (simp add: row_def)
    then show ?thesis
      using violated_NoneD[OF v, of _ _ r] that by (auto simp: table_defs row_def)
  qed
  have find: "List.find (\<lambda>s. s_token_hash s = ae_sha256 A token) (sessions (w_db w')) = Some row"
  proof -
    have "List.find (\<lambda>s. s_token_hash s = ae_sha256 A token) (sessions (w_db w)) = None"
      using fresh by (auto simp: find_None_iff)
    then show ?thesis by (simp add: rows find_append) (simp add: row_def)
  qed
  have user: "find_row u_id (u_id u) (users (w_db w)) = Some u" if "unique_keys u_id (users (w_db w))"
    using find_row_unique[OF that mem(1)] .
  have "result (session_canActivate A (bearer token)) (wait_world d w') = Inr u \<longleftrightarrow> d \<le> 86400000"
    if "unique_keys u_id (users (w_db w))" "u_is_active u"
    using that find user clock assms(3,4) users'
    by (auto simp: result_eq_wp wp_simps present_def wait_world_def row_def)
  moreover have "result (verifyLoginOtp A email otp') (wait_world d w') \<noteq> Inr token'"
  proof
    assume "result (verifyLoginOtp A email otp') (wait_world d w') = Inr token'"
    then obtain w'' where "verifyLoginOtp A email otp' (wait_world d w') = (Inr token', w'')"
      by (cases "verifyLoginOtp A email otp' (wait_world d w')") auto
    from verifyLoginOtp_result[OF this]
    have "result (consumeEmailOtp A otp_login (to_lower email) otp') (wait_world d w') = Inr ()" by auto
    moreover have "live (wait_world d w') k = live (wait_world d w1) k" for k
      by (simp add: live_def wait_world_def red clock db split: option.split)
    ultimately show False
      using email_otp.single_use(3)[OF c, of otp' d] by (simp add: email_otp.consume_eq split: if_splits option.splits rval.splits)
  qed
  moreover have "result (session_canActivate A (bearer token)) (final (logout A token) w') = Inl (UnauthorizedException [])"
  proof -
    have "List.find (\<lambda>s. s_token_hash s = ae_sha256 A token)
        (filter (\<lambda>r. s_token_hash r \<noteq> ae_sha256 A token) xs) = None" for xs :: "session_row list"
      by (auto simp: find_None_iff)
    then show ?thesis
      using assms(3)
      by (simp add: logout_def session_destroy_def session_canActivate_def run_defs store_defs present_def table_defs)
  qed
  ultimately show ?thesis using u(2) mem by blast
qed

text \<open>The same user, seen through the sign-up, verification and login flow of the concrete
  environment.\<close>

definition sample_user :: user_row where
  "sample_user = (new_user ''a@b'' 0 1)\<lparr>u_email_verified := True\<rparr>"

definition sample_login_world :: world where
  "sample_login_world = empty_world\<lparr>w_db := empty_db\<lparr>users := [sample_user], next_id := 2\<rparr>,
     w_redis := (\<lambda>_. None)(OTP_CODE otp_login ''a@b'' \<mapsto> (VStr (rev ''004711''), Some 900000))\<rparr>"

theorem login_session_lifecycle_witness:
  "\<exists>w'. verifyLoginOtp toy_auth ''A@b'' ''004711'' sample_login_world = (Inr (show_nat 2), w') \<and>
     result (session_canActivate toy_auth (bearer (show_nat 2))) (wait_world 86400000 w') = Inr sample_user"
proof -
  have low: "to_lower ''A@b'' = ''a@b''" by code_simp
  have "\<exists>w'. verifyLoginOtp toy_auth ''A@b'' ''004711'' sample_login_world = (Inr (show_nat 2), w')"
    by (simp add: verifyLoginOtp_def low find_user_by_email_def run_defs store_defs sample_login_world_def
        sample_user_def new_user_def email_otp.consume_eq live_def read_attempts_def empty_world_def empty_db_def
        OTP_MAX_ATTEMPTS_def safeCompareOtp_def hashOtp_def toy_auth_def session_create_def del_world_def
        count_attempt_def set_key_def violated_def table_defs Let_def)
  then obtain w' where w': "verifyLoginOtp toy_auth ''A@b'' ''004711'' sample_login_world = (Inr (show_nat 2), w')"
    by blast
  have "wf_table session_table sample_login_world"
    by (simp add: wf_table_def unique_keys_def sample_login_world_def empty_db_def table_defs)
  from login_session_lifecycle[OF this w', of 86400000] w' show ?thesis
    using show_nat_not_minus[of 2]
    by (auto simp: sample_login_world_def sample_user_def new_user_def unique_keys_def)
qed

end
