(* ===== verification/TransactionPin.thy ===== *)
theory TransactionPin
  imports Auth
begin

text \<open>
  \<open>modules/auth/transaction-pin.service.ts\<close> and \<open>modules/auth/step-up.service.ts\<close>: the
  opt-in PIN with its lockout on the user row, and the check that a sensitive request carries
  a second factor. An empty string of a request is JavaScript's falsy string (\<open>present\<close>).
\<close>

section \<open>The PIN service\<close>

definition has_pin :: "user_row \<Rightarrow> bool" where
  "has_pin u \<longleftrightarrow> present (u_transaction_pin_hash u) \<noteq> None"

definition requestSetOtp :: "auth_env \<Rightarrow> id \<Rightarrow> unit service" where
  "requestSetOtp A user_id =
     bind (find_or_throw user_table user_id) (\<lambda>user.
     if has_pin user then throw (PinE TransactionPinAlreadySetException)
     else sendTransactionPinOtp A user_id otp_transaction_pin_set)"

definition requestChangeOtp :: "auth_env \<Rightarrow> id \<Rightarrow> unit service" where
  "requestChangeOtp A user_id =
     bind (find_or_throw user_table user_id) (\<lambda>user.
     if \<not> has_pin user then throw (PinE TransactionPinNotSetException)
     else sendTransactionPinOtp A user_id otp_transaction_pin_change)"

definition requestDisableOtp :: "auth_env \<Rightarrow> id \<Rightarrow> unit service" where
  "requestDisableOtp A user_id =
     bind (find_or_throw user_table user_id) (\<lambda>user.
     if \<not> has_pin user then throw (PinE TransactionPinNotSetException)
     else sendTransactionPinOtp A user_id otp_transaction_pin_disable)"

definition store_pin :: "id \<Rightarrow> string option \<Rightarrow> time option \<Rightarrow> unit service" where
  "store_pin user_id hash set_at =
     bind (update_by_id user_table user_id (\<lambda>u. u\<lparr>u_transaction_pin_hash := hash,
       u_transaction_pin_set_at := set_at, u_transaction_pin_failed_attempts := 0,
       u_transaction_pin_locked_until := None\<rparr>)) (\<lambda>_. return ())"

definition setPin :: "auth_env \<Rightarrow> id \<Rightarrow> string \<Rightarrow> string \<Rightarrow> unit service" where
  "setPin A user_id transaction_pin email_otp =
     bind (find_or_throw user_table user_id) (\<lambda>user.
     if has_pin user then throw (PinE TransactionPinAlreadySetException)
     else bind (consumeTransactionPinOtp A user_id otp_transaction_pin_set email_otp) (\<lambda>_.
          bind (gets (\<lambda>w. ae_argon2_hash A w transaction_pin)) (\<lambda>hash.
          bind now (\<lambda>t. store_pin user_id (Some hash) (Some t)))))"

definition verifyCurrentPinOrThrow :: "auth_env \<Rightarrow> id \<Rightarrow> string \<Rightarrow> unit service" where
  "verifyCurrentPinOrThrow A user_id pin =
     bind (find_or_throw user_table user_id) (\<lambda>user.
     bind now (\<lambda>t.
     case present (u_transaction_pin_hash user) of
       None \<Rightarrow> throw (PinE TransactionPinNotSetException)
     | Some hash \<Rightarrow>
         bind (case u_transaction_pin_locked_until user of
                 Some until \<Rightarrow>
                   if until > t then throw (PinE (TransactionPinLockedException until)) else return ()
               | None \<Rightarrow> return ()) (\<lambda>_.
         if ae_argon2_verify A hash pin
         then (if u_transaction_pin_failed_attempts user > 0 \<or> u_transaction_pin_locked_until user \<noteq> None
               then bind (update_by_id user_table user_id (\<lambda>u. u\<lparr>u_transaction_pin_failed_attempts := 0,
                            u_transaction_pin_locked_until := None\<rparr>)) (\<lambda>_. return ())
               else return ())
         else (let next_attempts = u_transaction_pin_failed_attempts user + 1;
                   should_lock = next_attempts \<ge> TRANSACTION_PIN_MAX_ATTEMPTS;
                   unlocks_at = t + TRANSACTION_PIN_LOCKOUT_SEC * 1000
               in bind (update_by_id user_table user_id (\<lambda>u. u\<lparr>
                     u_transaction_pin_failed_attempts := (if should_lock then 0 else next_attempts),
                     u_transaction_pin_locked_until := (if should_lock then Some unlocks_at else None)\<rparr>)) (\<lambda>_.
                  if should_lock then throw (PinE (TransactionPinLockedException unlocks_at))
                  else throw (PinE TransactionPinInvalidException))))))"

definition verifyPinOrThrow :: "auth_env \<Rightarrow> id \<Rightarrow> string \<Rightarrow> unit service" where
  "verifyPinOrThrow A user_id transaction_pin = verifyCurrentPinOrThrow A user_id transaction_pin"

definition changePin :: "auth_env \<Rightarrow> id \<Rightarrow> string \<Rightarrow> string \<Rightarrow> string \<Rightarrow> unit service" where
  "changePin A user_id current_transaction_pin new_transaction_pin email_otp =
     bind (verifyCurrentPinOrThrow A user_id current_transaction_pin) (\<lambda>_.
     bind (consumeTransactionPinOtp A user_id otp_transaction_pin_change email_otp) (\<lambda>_.
     bind (gets (\<lambda>w. ae_argon2_hash A w new_transaction_pin)) (\<lambda>hash.
     bind now (\<lambda>t. store_pin user_id (Some hash) (Some t)))))"

definition disablePin :: "auth_env \<Rightarrow> id \<Rightarrow> string option \<Rightarrow> string option \<Rightarrow> string \<Rightarrow> unit service" where
  "disablePin A user_id current_transaction_pin totp_code email_otp =
     bind (case present current_transaction_pin of
             Some pin \<Rightarrow> verifyCurrentPinOrThrow A user_id pin
           | None \<Rightarrow>
               (case present totp_code of
                  None \<Rightarrow> throw (PinE TransactionPinInvalidException)
                | Some code \<Rightarrow> verifyTotpForUser A user_id code)) (\<lambda>_.
     bind (consumeTransactionPinOtp A user_id otp_transaction_pin_disable email_otp) (\<lambda>_.
     store_pin user_id None None))"

section \<open>Step-up\<close>

definition assertHasAnyFactorConfigured :: "id \<Rightarrow> unit service" where
  "assertHasAnyFactorConfigured user_id =
     bind (find_or_throw user_table user_id) (\<lambda>user.
     require (u_totp_enabled user \<or> has_pin user) (PinE TransactionFactorNotSetException))"

definition verifyTransactionFactor :: "auth_env \<Rightarrow> id \<Rightarrow> string option \<Rightarrow> string option \<Rightarrow> unit service" where
  "verifyTransactionFactor A user_id transaction_pin totp_code =
     bind (assertHasAnyFactorConfigured user_id) (\<lambda>_.
     case present transaction_pin of
       Some pin \<Rightarrow> verifyPinOrThrow A user_id pin
     | None \<Rightarrow>
         (case present totp_code of
            Some code \<Rightarrow> verifyTotpForUser A user_id code
          | None \<Rightarrow> throw (PinE TransactionFactorRequiredException)))"

section \<open>The lockout\<close>

text \<open>The state of a PIN: the digest, the failures counted and the end of the lockout.\<close>

definition pin_state :: "id \<Rightarrow> string \<Rightarrow> nat \<Rightarrow> time option \<Rightarrow> world \<Rightarrow> bool" where
  "pin_state i h n lock w \<longleftrightarrow> wf_table user_table w \<and>
     (\<exists>u. find_row u_id i (users (w_db w)) = Some u \<and> u_transaction_pin_hash u = Some h \<and>
          u_transaction_pin_failed_attempts u = n \<and> u_transaction_pin_locked_until u = lock)"

lemma user_update_ok:
  assumes "wf_table user_table w" "find_row u_id i (users (w_db w)) = Some u" "u_id (f u) = u_id u"
    and "u_email (f u) = u_email u"
  shows "violated user_table (f u) (users (w_db w)) = None"
  using user_tbl.not_violated[of w i u "f u"] assms by (auto simp: table_defs)

lemma wf_user_update:
  assumes "wf_table user_table w" "find_row u_id i (users (w_db w)) = Some u"
    and "\<And>v. u_id (f v) = u_id v" "\<And>v. u_email (f v) = u_email v"
  shows "wf_table user_table (t_put user_table (update_row u_id i f) w)"
  using user_tbl.wf_update[of w f i "f u"] user_update_ok[of w i u f] assms
  by (simp add: update_by_id_def) (simp add: table_defs)

lemma pin_verified:
  assumes "pin_state i h n lock w" "h \<noteq> []" "\<forall>until. lock = Some until \<longrightarrow> until \<le> w_clock w"
    and "ae_argon2_verify A h pin"
  shows "wp (verifyCurrentPinOrThrow A i pin) (\<lambda>_. pin_state i h 0 None) (\<lambda>_ _. False) w"
proof -
  obtain u where u: "find_row u_id i (users (w_db w)) = Some u" "u_transaction_pin_hash u = Some h"
    "u_transaction_pin_failed_attempts u = n" "u_transaction_pin_locked_until u = lock"
    and wf: "wf_table user_table w"
    using assms(1) by (auto simp: pin_state_def)
  let ?f = "\<lambda>u. u\<lparr>u_transaction_pin_failed_attempts := 0, u_transaction_pin_locked_until := None\<rparr>"
  have v: "violated user_table (?f u) (users (w_db w)) = None" by (rule user_update_ok[OF wf u(1)]) simp_all
  have wf': "wf_table user_table (t_put user_table (update_row u_id i ?f) w)"
    by (rule wf_user_update[OF wf u(1)]) simp_all
  have t: "t_rows user_table w = users (w_db w)" "t_key user_table = u_id" by (simp_all add: table_defs)
  have "users (w_db (t_put user_table (update_row u_id i ?f) w)) = update_row u_id i ?f (users (w_db w))"
    by (simp add: table_defs)
  then have st: "pin_state i h 0 None (t_put user_table (update_row u_id i ?f) w)"
    using wf' u by (simp add: pin_state_def find_row_update_row)
  have same: "pin_state i h 0 None w" if "n = 0" "lock = None" using assms(1) that by simp
  have unlocked: "(case lock of None \<Rightarrow> True | Some until \<Rightarrow> until \<le> w_clock w)"
    using assms(3) by (simp split: option.split)
  then show ?thesis
    unfolding verifyCurrentPinOrThrow_def
    using assms(2,4) v st same
    by (cases lock) (simp_all add: wp_simps t u present_def not_less)
qed

lemma pin_rejected:
  assumes "pin_state i h n lock w" "h \<noteq> []" "\<forall>until. lock = Some until \<longrightarrow> until \<le> w_clock w"
    and "\<not> ae_argon2_verify A h pin" "n < 5"
  shows "wp (verifyCurrentPinOrThrow A i pin) (\<lambda>_ _. False)
    (\<lambda>_ w'. w_clock w' = w_clock w \<and>
       pin_state i h (if n = 4 then 0 else Suc n) (if n = 4 then Some (w_clock w + 900000) else None) w') w"
proof -
  obtain u where u: "find_row u_id i (users (w_db w)) = Some u" "u_transaction_pin_hash u = Some h"
    "u_transaction_pin_failed_attempts u = n" "u_transaction_pin_locked_until u = lock"
    and wf: "wf_table user_table w"
    using assms(1) by (auto simp: pin_state_def)
  define a where "a = (if n = 4 then 0 else Suc n)"
  define l where "l = (if n = 4 then Some (w_clock w + 900000) else None)"
  define f where "f = (\<lambda>u :: user_row. u\<lparr>u_transaction_pin_failed_attempts := a, u_transaction_pin_locked_until := l\<rparr>)"
  have f: "u_id (f v) = u_id v" "u_email (f v) = u_email v" "u_transaction_pin_hash (f v) = u_transaction_pin_hash v"
    "u_transaction_pin_failed_attempts (f v) = a" "u_transaction_pin_locked_until (f v) = l" for v
    by (simp_all add: f_def)
  have v: "violated user_table (f u) (users (w_db w)) = None" by (rule user_update_ok[OF wf u(1)]) (simp_all add: f)
  have wf': "wf_table user_table (t_put user_table (update_row u_id i f) w)"
    by (rule wf_user_update[OF wf u(1)]) (simp_all add: f)
  have t: "t_rows user_table w = users (w_db w)" "t_key user_table = u_id" by (simp_all add: table_defs)
  have "users (w_db (t_put user_table (update_row u_id i f) w)) = update_row u_id i f (users (w_db w))"
    and clock: "w_clock (t_put user_table (update_row u_id i f) w) = w_clock w"
    by (simp_all add: table_defs)
  then have st: "pin_state i h a l (t_put user_table (update_row u_id i f) w)"
    using wf' u by (simp add: pin_state_def find_row_update_row f)
  have unlocked: "(case lock of None \<Rightarrow> True | Some until \<Rightarrow> until \<le> w_clock w)"
    using assms(3) by (simp split: option.split)
  have pin: "(TRANSACTION_PIN_MAX_ATTEMPTS \<le> n + 1) = (n = 4)" "TRANSACTION_PIN_LOCKOUT_SEC * 1000 = 900000"
    using assms(5) by (auto simp: window_constants)
  have upd: "(\<lambda>u :: user_row. u\<lparr>u_transaction_pin_failed_attempts := (if n = 4 then 0 else n + 1),
      u_transaction_pin_locked_until := (if n = 4 then Some (w_clock w + 900000) else None)\<rparr>) = f"
    by (simp add: f_def a_def l_def)
  have fail: "wp (bind (update_by_id user_table i f) (\<lambda>_. (if b then throw e else throw e') :: unit service)) (\<lambda>_ _. False)
      (\<lambda>_ w'. w_clock w' = w_clock w \<and> pin_state i h a l w') w" for b and e e' :: exn
    by (cases b) (simp_all add: wp_simps t u v st clock)
  have pr: "present (u_transaction_pin_hash u) = Some h" using assms(2) u by (simp add: present_def)
  have free: "wp (case lock of None \<Rightarrow> return () | Some until \<Rightarrow>
      if until > w_clock w then throw (PinE (TransactionPinLockedException until)) else return ()) Q E w = Q () w"
    for Q E using unlocked by (cases lock) (auto simp: wp_simps)
  show ?thesis
    unfolding verifyCurrentPinOrThrow_def a_def[symmetric] l_def[symmetric]
    apply (simp only: wp_bind_fun wp_find_or_throw t u(1) option.case wp_now pr)
    apply (simp only: u free Let_def pin upd if_not_P[OF assms(4)])
    using fail[of True] fail[of False] by simp
qed

lemma pin_locked:
  assumes "pin_state i h n (Some until) w" "h \<noteq> []" "w_clock w < until"
  shows "verifyCurrentPinOrThrow A i pin w = (Inl (PinE (TransactionPinLockedException until)), w)"
proof -
  obtain u where u: "find_row u_id i (users (w_db w)) = Some u" "u_transaction_pin_hash u = Some h"
    "u_transaction_pin_locked_until u = Some until"
    using assms(1) by (auto simp: pin_state_def)
  have t: "t_rows user_table w = users (w_db w)" "t_key user_table = u_id" by (simp_all add: table_defs)
  show ?thesis
    unfolding verifyCurrentPinOrThrow_def
    using assms(2,3) by (simp add: run_defs store_defs t u present_def)
qed

lemma pin_state_wait: "pin_state i h n lock w \<Longrightarrow> pin_state i h n lock (wait_world d w)"
  by (simp add: pin_state_def wf_table_def wait_world_def table_defs)

lemma wrong_pins:
  assumes "pin_state i h n None w" "h \<noteq> []" "n + length gs \<le> 5" "n < 5"
    and "\<forall>(d, g)\<in>set gs. 0 \<le> d \<and> \<not> ae_argon2_verify A h g"
  shows "pin_state i h (if n + length gs = 5 then 0 else n + length gs)
    (if n + length gs = 5 then Some (w_clock (submissions (verifyPinOrThrow A i) gs w) + 900000) else None)
    (submissions (verifyPinOrThrow A i) gs w)"
  using assms
proof (induction gs arbitrary: n w)
  case (Cons g gs)
  obtain d p where g: "g = (d, p)" by (cases g)
  define v where "v = wait_world d w"
  define w' where "w' = final (verifyPinOrThrow A i p) v"
  have "wp (verifyCurrentPinOrThrow A i p) (\<lambda>_ _. False)
    (\<lambda>_ w'. w_clock w' = w_clock v \<and>
       pin_state i h (if n = 4 then 0 else Suc n) (if n = 4 then Some (w_clock v + 900000) else None) w') v"
    unfolding v_def using Cons.prems g by (intro pin_rejected pin_state_wait) auto
  then have w': "w_clock w' = w_clock v"
    "pin_state i h (if n = 4 then 0 else Suc n) (if n = 4 then Some (w_clock v + 900000) else None) w'"
    by (auto simp: wp_def verifyPinOrThrow_def w'_def split: prod.splits sum.splits)
  have run: "submissions (verifyPinOrThrow A i) (g # gs) w = submissions (verifyPinOrThrow A i) gs w'"
    by (simp add: g v_def w'_def)
  show ?case
  proof (cases "n = 4")
    case True
    then have "gs = []" using Cons.prems(3) by simp
    then show ?thesis unfolding run using w' True by simp
  next
    case False
    have len: "n + length (g # gs) = Suc n + length gs" by simp
    show ?thesis
      unfolding run len using Cons.prems False w'(2) by (intro Cons.IH) auto
  qed
qed auto

text \<open>C31. The PIN lockout: after fewer than five consecutive wrong PINs the right one is accepted;
  the fifth wrong one locks the PIN, and from then on even the right one is refused for exactly
  fifteen minutes, with the time of unlocking in the error, and accepted after.\<close>

theorem pin_lockout:
  assumes "pin_state i h 0 None w" and "h \<noteq> []" and "length wrong \<le> 5"
    and "\<forall>(d, g)\<in>set wrong. 0 \<le> d \<and> \<not> ae_argon2_verify A h g" and "ae_argon2_verify A h pin" and "0 \<le> d"
  shows "result (verifyPinOrThrow A i pin) (wait_world d (submissions (verifyPinOrThrow A i) wrong w)) =
    (if length wrong < 5 \<or> 900000 \<le> d then Inr ()
     else Inl (PinE (TransactionPinLockedException
       (w_clock (submissions (verifyPinOrThrow A i) wrong w) + 900000))))"
proof -
  let ?w = "submissions (verifyPinOrThrow A i) wrong w"
  have clock: "w_clock (wait_world d ?w) = w_clock ?w + d" by (simp add: wait_world_def)
  note s = wrong_pins[OF assms(1,2) _ _ assms(4), simplified]
  show ?thesis
  proof (cases "length wrong < 5")
    case True
    then have "pin_state i h (length wrong) None (wait_world d ?w)" using s by (auto intro: pin_state_wait)
    from pin_verified[OF this assms(2) _ assms(5)] True show ?thesis
      by (auto simp: verifyPinOrThrow_def wp_def split: prod.splits sum.splits)
  next
    case False
    then have st: "pin_state i h 0 (Some (w_clock ?w + 900000)) (wait_world d ?w)"
      using s assms(3) by (auto intro: pin_state_wait)
    show ?thesis
    proof (cases "900000 \<le> d")
      case True
      then have "wp (verifyCurrentPinOrThrow A i pin) (\<lambda>_. pin_state i h 0 None) (\<lambda>_ _. False) (wait_world d ?w)"
        using clock by (intro pin_verified[OF st assms(2) _ assms(5)]) simp
      then show ?thesis using True by (auto simp: verifyPinOrThrow_def wp_def split: prod.splits sum.splits)
    next
      case nd: False
      then show ?thesis
        using pin_locked[OF st assms(2)] clock False by (simp add: verifyPinOrThrow_def)
    qed
  qed
qed

definition pin_world :: world where
  "pin_world = empty_world\<lparr>w_db := empty_db\<lparr>users := [(new_user ''a@b'' 0 1)\<lparr>u_transaction_pin_hash := Some (rev ''135790'')\<rparr>],
     next_id := 2\<rparr>\<rparr>"

theorem pin_lockout_witness:
  "result (verifyPinOrThrow toy_auth 1 ''135790'')
     (wait_world 899999 (submissions (verifyPinOrThrow toy_auth 1) (replicate 5 (1, ''000000'')) pin_world)) \<noteq> Inr ()"
proof -
  have arg: "ae_argon2_verify toy_auth = (\<lambda>h p. h = rev p)" by (simp add: toy_auth_def)
  have st: "pin_state 1 (rev ''135790'') 0 None pin_world"
    by (simp add: pin_state_def pin_world_def new_user_def empty_db_def wf_table_def unique_keys_def table_defs)
  have "result (verifyPinOrThrow toy_auth 1 ''135790'')
     (wait_world 899999 (submissions (verifyPinOrThrow toy_auth 1) (replicate 5 (1, ''000000'')) pin_world)) =
    (if length (replicate 5 (1 :: int, ''000000'')) < 5 \<or> 900000 \<le> (899999 :: int) then Inr ()
     else Inl (PinE (TransactionPinLockedException
       (w_clock (submissions (verifyPinOrThrow toy_auth 1) (replicate 5 (1, ''000000'')) pin_world) + 900000))))"
    by (rule pin_lockout[OF st]) (simp_all add: arg)
  then show ?thesis by simp
qed

end
