(* ===== verification/Env.thy ===== *)
theory Env
  imports Auth
begin

text \<open>
  The code outside the repository that the services call, as parameters: the payment
  providers (Lightning collateral, bank transfers, virtual accounts, identity checks, rates,
  swaps), the cryptography, the decimal and the floating-point arithmetic, and the infrastructure failures that the code catches. A provider is a
  function of the state and the request to a failure message or an answer, so that it may
  answer differently each time it is called.
\<close>

record invoice =
  inv_provider_reference :: string
  inv_payment_request :: string
  inv_receiving_address :: string
  inv_expires_at :: time

datatype transfer_state = transfer_processing | transfer_successful | transfer_failed

record transfer_status =
  ts_state :: transfer_state
  ts_failure_reason :: "string option"
  ts_failure_code :: "string option"

datatype collection_state =
    collection_successful | collection_failed | collection_not_found | collection_unknown

record collection_status =
  cs_state :: collection_state
  cs_amount_kobo :: "rat option"
  cs_virtual_account_no :: "string option"
  cs_failure_reason :: "string option"

record issued_va =
  iv_virtual_account_no :: string
  iv_virtual_account_name :: string
  iv_bank_name :: string

record va_request =
  vr_virtual_account_name :: string
  vr_identity_type :: KycIdType
  vr_license_number :: string
  vr_customer_name :: string
  vr_account_reference :: string

record kyc_params =
  kp_id_number :: string
  kp_first_name :: string
  kp_last_name :: string
  kp_middle_name :: "string option"
  kp_date_of_birth :: string

record kyc_result =
  kr_legal_name :: string
  kr_provider_reference :: string
  kr_date_of_birth :: "string option"
  kr_raw_response :: string

datatype fault =
    ReleaseStampFault id
  | AlertKeyFault id
  | MarginFlagFault id
  | OutflowUpdateFault id
  | InflowWriteFault string
  | LogRecordFault
  | LogUpdateFault id
  | ReadFault string

record env =
  e_dec :: decimals
  e_auth :: auth_env
  e_create_payment_request :: "world \<Rightarrow> sats \<Rightarrow> int \<Rightarrow> string + invoice"
  e_create_no_amount_invoice :: "world \<Rightarrow> int \<Rightarrow> string + invoice"
  e_send_lightning :: "world \<Rightarrow> string \<Rightarrow> sats \<Rightarrow> string + string"
  e_btc_usd_rate :: "world \<Rightarrow> string + rat"
  e_initiate_transfer :: "world \<Rightarrow> string \<Rightarrow> money \<Rightarrow> string \<Rightarrow> string \<Rightarrow> string + string"
  e_transfer_status :: "world \<Rightarrow> string \<Rightarrow> string + transfer_status"
  e_collection_status :: "world \<Rightarrow> string \<Rightarrow> string + collection_status"
  e_swap :: "world \<Rightarrow> sats \<Rightarrow> string + rat"
  e_lookup_account_name :: "world \<Rightarrow> string \<Rightarrow> string \<Rightarrow> string \<Rightarrow> string + string option"
  e_kyc_verify :: "world \<Rightarrow> nat \<Rightarrow> KycIdType \<Rightarrow> kyc_params \<Rightarrow> string + kyc_result"
  e_create_va :: "world \<Rightarrow> va_request \<Rightarrow> string + issued_va"
  e_active_collection :: string
  e_hash_kyc_id :: "string \<Rightarrow> string"
  e_float :: "rat \<Rightarrow> rat"
  e_fault :: "fault \<Rightarrow> world \<Rightarrow> bool"
  e_message :: "exn \<Rightarrow> string"

text \<open>\<open>err instanceof Error ? err.message : String(err)\<close>: the text of a provider's failure is
  its message, the texts of the other exceptions are a parameter.\<close>

definition err_message :: "env \<Rightarrow> exn \<Rightarrow> string" where
  "err_message V e = (case e of OtherError m \<Rightarrow> m | _ \<Rightarrow> e_message V e)"

text \<open>A call of a provider: a failure is a rejected promise.\<close>

definition call :: "(world \<Rightarrow> string + 'a) \<Rightarrow> 'a service" where
  "call f w = (case f w of Inl m \<Rightarrow> (Inl (OtherError m), w) | Inr x \<Rightarrow> (Inr x, w))"

definition may_fail :: "env \<Rightarrow> fault \<Rightarrow> unit service" where
  "may_fail V f w = (if e_fault V f w then (Inl (OtherError ''infrastructure failure''), w) else (Inr (), w))"

lemma wp_call [wp_simps]:
  "wp (call f) Q E w = (case f w of Inl m \<Rightarrow> E (OtherError m) w | Inr x \<Rightarrow> Q x w)"
  by (simp add: wp_def call_def split: sum.split)

lemma wp_may_fail [wp_simps]:
  "wp (may_fail V f) Q E w = (if e_fault V f w then E (OtherError ''infrastructure failure'') w else Q () w)"
  by (simp add: wp_def may_fail_def)

definition ceil_seconds :: "int \<Rightarrow> int" where
  "ceil_seconds ms = \<lceil>(of_int ms / 1000 :: rat)\<rceil>"

text \<open>A concrete environment, in which every provider answers and nothing fails.\<close>

definition toy_env :: env where
  "toy_env = \<lparr>e_dec = js_decimals, e_auth = toy_auth,
     e_create_payment_request = (\<lambda>w n ttl. Inr \<lparr>inv_provider_reference = ''h'', inv_payment_request = ''lnbc'',
       inv_receiving_address = ''h'', inv_expires_at = w_clock w + ttl * 1000\<rparr>),
     e_create_no_amount_invoice = (\<lambda>w ttl. Inr \<lparr>inv_provider_reference = ''t'', inv_payment_request = ''lnbc'',
       inv_receiving_address = ''t'', inv_expires_at = w_clock w + ttl * 1000\<rparr>),
     e_send_lightning = (\<lambda>_ _ _. Inr ''paid''), e_btc_usd_rate = (\<lambda>_. Inr 100000),
     e_initiate_transfer = (\<lambda>_ _ _ _ _. Inr ''tx''),
     e_transfer_status = (\<lambda>_ _. Inr \<lparr>ts_state = transfer_successful, ts_failure_reason = None, ts_failure_code = None\<rparr>),
     e_collection_status = (\<lambda>_ _. Inr \<lparr>cs_state = collection_successful, cs_amount_kobo = Some 2000000,
       cs_virtual_account_no = None, cs_failure_reason = None\<rparr>),
     e_swap = (\<lambda>_ n. Inr (of_int n)),
     e_lookup_account_name = (\<lambda>_ _ _ _. Inr (Some ''OBI ADA'')),
     e_kyc_verify = (\<lambda>_ _ _ p. Inr \<lparr>kr_legal_name = ''ADA OBI'', kr_provider_reference = ''k'',
       kr_date_of_birth = Some (kp_date_of_birth p), kr_raw_response = []\<rparr>),
     e_create_va = (\<lambda>_ r. Inr \<lparr>iv_virtual_account_no = vr_account_reference r,
       iv_virtual_account_name = vr_virtual_account_name r, iv_bank_name = ''B''\<rparr>),
     e_active_collection = ''palmpay'', e_hash_kyc_id = rev, e_float = sig_round half_even 2 53,
     e_fault = (\<lambda>_ _. False), e_message = (\<lambda>_. ''error'')\<rparr>"

lemma toy_env_fields [simp]:
  "e_dec toy_env = js_decimals" "e_auth toy_env = toy_auth" "e_send_lightning toy_env v a n = Inr ''paid''"
  "e_btc_usd_rate toy_env v = Inr 100000" "e_initiate_transfer toy_env v r m c a = Inr ''tx''" "\<not> e_fault toy_env f v"
  "e_create_payment_request toy_env v n ttl = Inr \<lparr>inv_provider_reference = ''h'',
     inv_payment_request = ''lnbc'', inv_receiving_address = ''h'', inv_expires_at = w_clock v + ttl * 1000\<rparr>"
  by (simp_all add: toy_env_def)

end
