(* ===== verification/PaymentRequests.thy ===== *)
theory PaymentRequests
  imports Env
begin

text \<open>
  \<open>modules/payment-requests/payment-requests.service.ts\<close> and
  \<open>modules/inflows/inflows.service.ts\<close>: the invoice a customer is given, and the payment
  that is matched to it.
\<close>

definition CACHE_GRACE_SEC :: int where "CACHE_GRACE_SEC = 300"

definition new_payment_request ::
    "decimals \<Rightarrow> id \<Rightarrow> id \<Rightarrow> sats \<Rightarrow> invoice \<Rightarrow> time \<Rightarrow> id \<Rightarrow> payment_request_row" where
  "new_payment_request D user_id source_id collateral_sat bill t i =
     \<lparr>pr_id = i, pr_user_id = user_id, pr_request_type = COLLATERAL, pr_source_type = SOURCE_LOAN,
      pr_source_id = source_id, pr_network = PaymentNetwork.LIGHTNING,
      pr_expected_amount = d_col D 8 (of_int collateral_sat), pr_currency = CUR_SAT,
      pr_receiving_address = inv_receiving_address bill,
      pr_payment_request = Some (inv_payment_request bill),
      pr_provider_reference = Some (inv_provider_reference bill),
      pr_status = PaymentRequestStatus.PENDING, pr_expires_at = inv_expires_at bill, pr_paid_at = None,
      pr_inflow_id = None, pr_created_at = t\<rparr>"

definition payment_request_create :: "env \<Rightarrow> id \<Rightarrow> id \<Rightarrow> sats \<Rightarrow> payment_request_row service" where
  "payment_request_create V user_id source_id collateral_sat =
     bind (call (\<lambda>w. e_create_payment_request V w collateral_sat COLLATERAL_INVOICE_EXPIRY_SEC)) (\<lambda>bill.
     bind now (\<lambda>t.
     bind (create_row payment_request_table
             (new_payment_request (e_dec V) user_id source_id collateral_sat bill t)) (\<lambda>pr.
     bind (redis_setex (PAYMENT_REQUEST_PENDING (inv_receiving_address bill)) (VInt (int (pr_id pr)))
             (max (ceil_seconds (inv_expires_at bill - t) + CACHE_GRACE_SEC) 1)) (\<lambda>_.
     return pr))))"

definition findPendingByReceivingAddress :: "string \<Rightarrow> payment_request_row option service" where
  "findPendingByReceivingAddress receiving_address =
     bind (redis_get (PAYMENT_REQUEST_PENDING receiving_address)) (\<lambda>cached_id.
     case cached_id of
       Some (VInt i) \<Rightarrow>
         find_first payment_request_table (\<lambda>p. pr_id p = nat i \<and> pr_status p = PaymentRequestStatus.PENDING)
     | _ \<Rightarrow>
         find_first payment_request_table
           (\<lambda>p. pr_receiving_address p = receiving_address \<and> pr_status p = PaymentRequestStatus.PENDING))"

definition matchInflow :: "payment_request_row \<Rightarrow> inflow_row \<Rightarrow> payment_request_row service" where
  "matchInflow pr inflow =
     bind now (\<lambda>t.
     bind (transaction
       (bind (update_by_id payment_request_table (pr_id pr) (\<lambda>p. p\<lparr>pr_status := PaymentRequestStatus.PAID,
                pr_inflow_id := Some (in_id inflow), pr_paid_at := Some t\<rparr>)) (\<lambda>updated.
        bind (update_by_id inflow_table (in_id inflow) (\<lambda>i. i\<lparr>in_is_matched := True,
                in_matched_at := Some t, in_source_type := Some (pr_source_type pr),
                in_source_id := Some (pr_source_id pr), in_user_id := Some (pr_user_id pr)\<rparr>)) (\<lambda>_.
        return updated)))) (\<lambda>updated.
     bind (redis_del (PAYMENT_REQUEST_PENDING (pr_receiving_address pr))) (\<lambda>_.
     return updated)))"

definition markExpired :: "id \<Rightarrow> string \<Rightarrow> unit service" where
  "markExpired i receiving_address =
     bind (update_by_id payment_request_table i (\<lambda>p. p\<lparr>pr_status := PaymentRequestStatus.EXPIRED\<rparr>)) (\<lambda>_.
     redis_del (PAYMENT_REQUEST_PENDING receiving_address))"

section \<open>Inflows\<close>

record ingest_params =
  ig_amount :: money
  ig_currency :: Currency
  ig_network :: PaymentNetwork
  ig_receiving_address :: string
  ig_provider_reference :: string

definition is_unique_violation :: "exn \<Rightarrow> bool" where
  "is_unique_violation e = (case e of PrismaUniqueViolation _ \<Rightarrow> True | _ \<Rightarrow> False)"

definition new_inflow :: "decimals \<Rightarrow> ingest_params \<Rightarrow> time \<Rightarrow> id \<Rightarrow> inflow_row" where
  "new_inflow D p t i =
     \<lparr>in_id = i, in_user_id = None, in_amount = d_col D 8 (ig_amount p), in_currency = ig_currency p,
      in_network = ig_network p, in_receiving_address = ig_receiving_address p,
      in_provider_reference = ig_provider_reference p, in_is_matched = False, in_matched_at = None,
      in_source_type = None, in_source_id = None, in_provider_response = None, in_created_at = t\<rparr>"

definition createInflow :: "decimals \<Rightarrow> ingest_params \<Rightarrow> inflow_row service" where
  "createInflow D p =
     bind now (\<lambda>t.
     attempt (create_row inflow_table (new_inflow D p t)) (\<lambda>e.
       if is_unique_violation e
       then bind (find_first inflow_table (\<lambda>i. in_provider_reference i = ig_provider_reference p))
              (the_or_throw PrismaRecordNotFound)
       else throw e))"

definition ingest :: "decimals \<Rightarrow> ingest_params \<Rightarrow> (inflow_row \<times> payment_request_row option) service" where
  "ingest D p =
     bind (createInflow D p) (\<lambda>inflow.
     bind (findPendingByReceivingAddress (ig_receiving_address p)) (\<lambda>pending_pr.
     case pending_pr of
       None \<Rightarrow> return (inflow, None)
     | Some pr \<Rightarrow> bind (matchInflow pr inflow) (\<lambda>matched_pr. return (inflow, Some matched_pr))))"

declare table_ops [simp]

lemma inflow_index:
  "(''inflows_provider_reference_key'', \<lambda>a b. in_provider_reference a = in_provider_reference b)
     \<in> set (t_unique inflow_table)"
  by (simp add: table_defs)

lemma inflow_index_only:
  "(k, clash) \<in> set (t_unique inflow_table) \<longleftrightarrow> k = ''inflows_provider_reference_key'' \<and>
     clash = (\<lambda>a b. in_provider_reference a = in_provider_reference b)"
  by (auto simp: table_defs)

lemma wf_inflow_ref:
  assumes "wf_table inflow_table w" "a \<in> set (inflows (w_db w))" "b \<in> set (inflows (w_db w))"
    and "in_provider_reference a = in_provider_reference b"
  shows "in_id a = in_id b"
proof -
  have "\<forall>a\<in>set (inflows (w_db w)). \<forall>b\<in>set (inflows (w_db w)). in_id a \<noteq> in_id b \<longrightarrow>
      in_provider_reference a \<noteq> in_provider_reference b"
    using assms(1) inflow_index unfolding wf_table_def table_rows by fast
  then show ?thesis using assms(2-4) by blast
qed

text \<open>A payment that is already stored is found, and nothing is written.\<close>

lemma createInflow_again:
  assumes "wf_table inflow_table w" "i \<in> set (inflows (w_db w))"
    and "in_provider_reference i = ig_provider_reference p"
  shows "createInflow D p w = (Inr i, w)"
proof -
  let ?r = "new_inflow D p (w_clock w) (next_id (w_db w))"
  have lt: "in_id i < next_id (w_db w)" using assms(1,2) by (auto simp: wf_table_def)
  have "violated inflow_table ?r (inflows (w_db w)) \<noteq> None"
  proof
    assume none: "violated inflow_table ?r (inflows (w_db w)) = None"
    show False
      using violated_NoneD[OF none inflow_index assms(2)] assms(3) lt by (simp add: new_inflow_def)
  qed
  then obtain k where v: "violated inflow_table ?r (inflows (w_db w)) = Some k" by auto
  have "List.find (\<lambda>i. in_provider_reference i = ig_provider_reference p) (inflows (w_db w)) = Some i"
  proof -
    have "List.find (\<lambda>i. in_provider_reference i = ig_provider_reference p) (inflows (w_db w)) \<noteq> None"
      using assms(2,3) by (auto simp: find_None_iff)
    then obtain j where j: "List.find (\<lambda>i. in_provider_reference i = ig_provider_reference p) (inflows (w_db w)) = Some j"
      by auto
    then have j': "j \<in> set (inflows (w_db w))" "in_provider_reference j = ig_provider_reference p"
      using find_SomeD[OF j] by auto
    have u: "unique_keys in_id (inflows (w_db w))" using assms(1) by (simp add: wf_table_def)
    have "in_id j = in_id i" by (rule wf_inflow_ref[OF assms(1) j'(1) assms(2)]) (simp add: j' assms(3))
    then have "j = i" using find_row_unique[OF u j'(1)] find_row_unique[OF u assms(2)] by (metis option.inject)
    with j show ?thesis by simp
  qed
  then show ?thesis
    using v unfolding createInflow_def
    by (simp add: run_defs now_def create_row_def find_first_def Let_def is_unique_violation_def)
qed

lemma createInflow_stores:
  assumes "wf_table inflow_table w" "createInflow D p w = (Inr i, w1)"
  shows "wf_table inflow_table w1" "i \<in> set (inflows (w_db w1))"
    "in_provider_reference i = ig_provider_reference p" "w_redis w1 = w_redis w" "w_clock w1 = w_clock w"
    "payment_requests (w_db w1) = payment_requests (w_db w)"
proof -
  let ?mk = "new_inflow D p (w_clock w)"
  have "wf_table inflow_table w1 \<and> i \<in> set (inflows (w_db w1)) \<and>
    in_provider_reference i = ig_provider_reference p \<and> w_redis w1 = w_redis w \<and> w_clock w1 = w_clock w \<and>
    payment_requests (w_db w1) = payment_requests (w_db w)"
  proof (cases "violated inflow_table (?mk (next_id (w_db w))) (inflows (w_db w))")
    case None
    then have cr: "create_row inflow_table ?mk w = (Inr i, w1)"
      using assms(2) by (auto simp: createInflow_def run_defs now_def create_row_def Let_def)
    moreover have "wf_table inflow_table w1"
      by (rule inflow_tbl.wf_create[OF assms(1) _ cr]) (simp add: new_inflow_def)
    ultimately show ?thesis
      using inflow_tbl.created[OF cr] None
      by (auto simp: create_row_def Let_def) (auto simp: new_inflow_def)
  next
    case (Some k)
    then show ?thesis
      using assms
      by (auto simp: createInflow_def run_defs store_defs Let_def is_unique_violation_def
          split: option.splits dest!: find_SomeD)
  qed
  then show "wf_table inflow_table w1" "i \<in> set (inflows (w_db w1))"
    "in_provider_reference i = ig_provider_reference p" "w_redis w1 = w_redis w" "w_clock w1 = w_clock w"
    "payment_requests (w_db w1) = payment_requests (w_db w)" by auto
qed

text \<open>The cache points at the request with the address, and an address is used by one pending
  request.\<close>

definition pending_addresses_ok :: "world \<Rightarrow> bool" where
  "pending_addresses_ok w \<longleftrightarrow>
     (\<forall>addr v. live w (PAYMENT_REQUEST_PENDING addr) = Some v \<longrightarrow>
        (\<exists>p\<in>set (payment_requests (w_db w)). v = VInt (int (pr_id p)) \<and> pr_receiving_address p = addr)) \<and>
     (\<forall>p\<in>set (payment_requests (w_db w)). \<forall>q\<in>set (payment_requests (w_db w)).
        pr_status p = PaymentRequestStatus.PENDING \<longrightarrow> pr_status q = PaymentRequestStatus.PENDING \<longrightarrow>
        pr_receiving_address p = pr_receiving_address q \<longrightarrow> pr_id p = pr_id q)"

lemma pending_unique:
  "pending_addresses_ok w \<Longrightarrow> p \<in> set (payment_requests (w_db w)) \<Longrightarrow> q \<in> set (payment_requests (w_db w)) \<Longrightarrow>
   pr_status p = PaymentRequestStatus.PENDING \<Longrightarrow> pr_status q = PaymentRequestStatus.PENDING \<Longrightarrow>
   pr_receiving_address p = pr_receiving_address q \<Longrightarrow> pr_id p = pr_id q"
  unfolding pending_addresses_ok_def by blast

lemma findPending_some:
  assumes "unique_keys pr_id (payment_requests (w_db w))" "pending_addresses_ok w"
    and "findPendingByReceivingAddress addr w = (Inr (Some pr), w1)"
  shows "w1 = w" "pr \<in> set (payment_requests (w_db w))" "pr_status pr = PaymentRequestStatus.PENDING"
    "pr_receiving_address pr = addr"
proof -
  have "wp (findPendingByReceivingAddress addr) (\<lambda>out w1. \<forall>pr. out = Some pr \<longrightarrow> w1 = w \<and>
      pr \<in> set (payment_requests (w_db w)) \<and> pr_status pr = PaymentRequestStatus.PENDING \<and>
      pr_receiving_address pr = addr) (\<lambda>_ _. True) w"
  proof (cases "live w (PAYMENT_REQUEST_PENDING addr)")
    case None
    then show ?thesis by (auto simp: findPendingByReceivingAddress_def wp_simps dest!: find_SomeD)
  next
    case (Some v)
    then obtain p where p: "p \<in> set (payment_requests (w_db w))" "v = VInt (int (pr_id p))"
      "pr_receiving_address p = addr" using assms(2) by (auto simp: pending_addresses_ok_def)
    have "q = p" if "q \<in> set (payment_requests (w_db w))" "pr_id q = pr_id p" for q
      using find_row_unique[OF assms(1)] p(1) that by (metis option.inject)
    then show ?thesis
      using Some p by (auto simp: findPendingByReceivingAddress_def wp_simps dest!: find_SomeD)
  qed
  then show "w1 = w" "pr \<in> set (payment_requests (w_db w))" "pr_status pr = PaymentRequestStatus.PENDING"
    "pr_receiving_address pr = addr" using assms(3) by (auto simp: wp_def)
qed

lemma matchInflow_effect:
  assumes "matchInflow pr i w = (Inr pr', w')"
  shows "w_clock w' = w_clock w"
    "payment_requests (w_db w') = update_row pr_id (pr_id pr) (\<lambda>p. p\<lparr>pr_status := PaymentRequestStatus.PAID,
        pr_inflow_id := Some (in_id i), pr_paid_at := Some (w_clock w)\<rparr>) (payment_requests (w_db w))"
    "inflows (w_db w') = update_row in_id (in_id i) (\<lambda>i. i\<lparr>in_is_matched := True,
        in_matched_at := Some (w_clock w), in_source_type := Some (pr_source_type pr),
        in_source_id := Some (pr_source_id pr), in_user_id := Some (pr_user_id pr)\<rparr>) (inflows (w_db w))"
    "w_redis w' = (w_redis w)(PAYMENT_REQUEST_PENDING (pr_receiving_address pr) := None)"
    "next_id (w_db w') = next_id (w_db w)"
  using assms
  by (auto simp: matchInflow_def run_defs store_defs split: option.splits prod.splits sum.splits if_splits)

text \<open>A payment is matched once: when the provider delivers the same payment again after it
  was matched, at any later time, the delivery finds the stored inflow, matches nothing and
  changes nothing.\<close>

theorem redelivered_payment_is_noop:
  assumes "wf_table inflow_table w" and "wf_table payment_request_table w" and "pending_addresses_ok w"
    and "ingest D p w = (Inr (inflow, Some pr), w')" and "0 \<le> d"
  shows "\<exists>stored. ingest D p (wait_world d w') = (Inr (stored, None), wait_world d w') \<and>
    in_id stored = in_id inflow \<and> in_is_matched stored \<and> in_source_id stored = Some (pr_source_id pr)"
proof -
  obtain w1 pr0 w2 where c: "createInflow D p w = (Inr inflow, w1)"
    and f: "findPendingByReceivingAddress (ig_receiving_address p) w1 = (Inr (Some pr0), w2)"
    and m: "matchInflow pr0 inflow w2 = (Inr pr, w')"
    using assms(4) by (auto simp: ingest_def bind_def return_def split: prod.splits sum.splits option.splits)
  note c' = createInflow_stores[OF assms(1) c]
  have u: "unique_keys pr_id (payment_requests (w_db w1))" using assms(2) c'(6) by (simp add: wf_table_def)
  have lv: "live w1 k = live w k" for k using c'(4,5) by (simp add: live_def split: option.split)
  have ok: "pending_addresses_ok w1" using assms(3) unfolding pending_addresses_ok_def lv c'(6) .
  note f' = findPending_some[OF u ok f]
  note m' = matchInflow_effect[OF m]
  let ?mark = "\<lambda>i. i\<lparr>in_is_matched := True, in_matched_at := Some (w_clock w2),
    in_source_type := Some (pr_source_type pr0), in_source_id := Some (pr_source_id pr0),
    in_user_id := Some (pr_user_id pr0)\<rparr>"
  let ?paid = "\<lambda>q. q\<lparr>pr_status := PaymentRequestStatus.PAID, pr_inflow_id := Some (in_id inflow),
    pr_paid_at := Some (w_clock w2)\<rparr>"
  let ?v = "wait_world d w'"
  have src: "pr_source_id pr = pr_source_id pr0"
  proof -
    have "find_row pr_id (pr_id pr0) (payment_requests (w_db w2)) = Some pr0"
      using find_row_unique[OF u f'(2)] f'(1) by simp
    then have "wp (matchInflow pr0 inflow) (\<lambda>pr' _. pr_source_id pr' = pr_source_id pr0) (\<lambda>_ _. True) w2"
      by (simp add: matchInflow_def wp_simps split: option.split)
    then show ?thesis using m by (simp add: wp_def)
  qed
  have vi: "inflows (w_db ?v) = update_row in_id (in_id inflow) ?mark (inflows (w_db w1))"
    using m'(3) f'(1) by (simp add: wait_world_def)
  have mem: "?mark inflow \<in> set (inflows (w_db ?v))" using c'(2) by (auto simp: vi set_update_row)
  have wf: "wf_table inflow_table ?v"
    by (rule inflow_tbl.wf_touch[OF c'(1), where f = ?mark and p = "\<lambda>i. in_id i = in_id inflow"])
       (auto simp: m'(3,5) update_row_def f'(1) wait_world_def inflow_index_only)
  have again: "createInflow D p ?v = (Inr (?mark inflow), ?v)"
    by (rule createInflow_again[OF wf mem]) (simp add: c')
  have none: "findPendingByReceivingAddress (ig_receiving_address p) ?v = (Inr None, ?v)"
  proof -
    have "live ?v (PAYMENT_REQUEST_PENDING (ig_receiving_address p)) = None"
      using m'(4) f'(4) by (simp add: live_def wait_world_def)
    moreover have "\<not> (pr_receiving_address q = ig_receiving_address p \<and> pr_status q = PaymentRequestStatus.PENDING)"
      if q: "q \<in> set (payment_requests (w_db ?v))" for q
    proof -
      obtain q0 where q0: "q0 \<in> set (payment_requests (w_db w1))"
        "q = (if pr_id q0 = pr_id pr0 then ?paid q0 else q0)"
        using q m'(2) f'(1) by (auto simp: wait_world_def set_update_row)
      show ?thesis
      proof (cases "pr_id q0 = pr_id pr0")
        case True
        then show ?thesis using q0(2) by simp
      next
        case False
        then show ?thesis using q0 pending_unique[OF ok q0(1) f'(2) _ f'(3)] f'(4) by auto
      qed
    qed
    ultimately show ?thesis
      by (auto simp: findPendingByReceivingAddress_def run_defs redis_get_def find_first_def find_None_iff)
  qed
  have "ingest D p ?v = (Inr (?mark inflow, None), ?v)"
    using again none by (simp add: ingest_def bind_def return_def)
  then show ?thesis using src by auto
qed

definition sample_request :: payment_request_row where
  "sample_request = new_payment_request js_decimals 7 3 208334
     \<lparr>inv_provider_reference = ''h'', inv_payment_request = ''lnbc'', inv_receiving_address = ''h'',
      inv_expires_at = 1800000\<rparr> 0 5"

definition sample_payment :: ingest_params where
  "sample_payment = \<lparr>ig_amount = 208334, ig_currency = CUR_SAT, ig_network = PaymentNetwork.LIGHTNING,
     ig_receiving_address = ''h'', ig_provider_reference = ''h''\<rparr>"

definition invoice_world :: world where
  "invoice_world = empty_world\<lparr>w_db := empty_db\<lparr>payment_requests := [sample_request], next_id := 6\<rparr>\<rparr>"

theorem redelivered_payment_is_noop_witness:
  "\<exists>inflow pr w' stored. ingest js_decimals sample_payment invoice_world = (Inr (inflow, Some pr), w') \<and>
     ingest js_decimals sample_payment (wait_world 60000 w') = (Inr (stored, None), wait_world 60000 w') \<and>
     in_source_id stored = Some 3"
proof -
  have wf: "wf_table inflow_table invoice_world" "wf_table payment_request_table invoice_world"
    "pending_addresses_ok invoice_world"
    by (simp_all add: wf_table_def unique_keys_def pending_addresses_ok_def invoice_world_def empty_world_def
        empty_db_def live_def sample_request_def new_payment_request_def payment_request_table_def)
  have "\<exists>inflow pr w'. ingest js_decimals sample_payment invoice_world = (Inr (inflow, Some pr), w') \<and>
      pr_source_id pr = 3"
    by (simp add: ingest_def createInflow_def findPendingByReceivingAddress_def matchInflow_def run_defs
        store_defs live_def invoice_world_def empty_world_def empty_db_def sample_payment_def sample_request_def
        new_payment_request_def new_inflow_def violated_def Let_def payment_request_table_def inflow_table_def)
  then obtain inflow pr w' where r: "ingest js_decimals sample_payment invoice_world = (Inr (inflow, Some pr), w')"
    "pr_source_id pr = 3" by blast
  from redelivered_payment_is_noop[OF wf r(1), of 60000] r show ?thesis by auto
qed

end
