(* ===== verification/Disbursements.thy ===== *)
theory Disbursements
  imports PaymentRequests LoanStatus
begin

text \<open>
  The bank payouts: \<open>modules/disbursements\<close> (a disbursement, its outflow attempts and the
  route to a provider), the operators' actions on them (\<open>modules/ops/disbursements\<close>) and the
  outflow reconciler. A disbursement is paid by attempts; a failed attempt parks it on hold
  until an operator retries or cancels. The stored answer of the provider, the narration and
  the details of audit rows are left out; the dash of one failure message is a hyphen.
\<close>

section \<open>Routes\<close>

definition DISBURSEMENT_ROUTES :: "Currency \<Rightarrow> DisbursementRail \<Rightarrow> string option" where
  "DISBURSEMENT_ROUTES currency rail =
     (if currency = CUR_NGN \<and> rail = DisbursementRail.BANK_TRANSFER then Some ''palmpay''
      else if currency = CUR_NGN \<and> rail = DisbursementRail.MOBILE_MONEY then Some ''stub''
      else None)"

definition Currency_name :: "Currency \<Rightarrow> string" where
  "Currency_name c = (case c of CUR_NGN \<Rightarrow> ''NGN'' | CUR_SAT \<Rightarrow> ''SAT'')"

definition DisbursementRail_name :: "DisbursementRail \<Rightarrow> string" where
  "DisbursementRail_name r = (case r of DisbursementRail.BANK_TRANSFER \<Rightarrow> ''BANK_TRANSFER''
     | DisbursementRail.MOBILE_MONEY \<Rightarrow> ''MOBILE_MONEY'' | DisbursementRail.LIGHTNING \<Rightarrow> ''LIGHTNING''
     | DisbursementRail.ONCHAIN \<Rightarrow> ''ONCHAIN'')"

definition forRoute :: "Currency \<Rightarrow> DisbursementRail \<Rightarrow> string service" where
  "forRoute currency rail =
     the_or_throw (OtherError (''No disbursement route configured for '' @ Currency_name currency @ '':'' @
       DisbursementRail_name rail)) (DISBURSEMENT_ROUTES currency rail)"

definition resolveProviderName :: "DisbursementRail \<Rightarrow> string" where
  "resolveProviderName rail = (case DISBURSEMENT_ROUTES CUR_NGN rail of None \<Rightarrow> ''unknown'' | Some p \<Rightarrow> p)"

section \<open>Disbursements\<close>

record disbursement_params =
  dp_user_id :: id
  dp_source_id :: id
  dp_amount :: money
  dp_currency :: Currency
  dp_rail :: DisbursementRail
  dp_provider_name :: string
  dp_provider_code :: string
  dp_account_unique :: string
  dp_account_name :: "string option"

definition new_disbursement :: "decimals \<Rightarrow> disbursement_params \<Rightarrow> time \<Rightarrow> id \<Rightarrow> disbursement_row" where
  "new_disbursement D p t i =
     \<lparr>dis_id = i, dis_user_id = dp_user_id p, dis_type = DisbursementType.LOAN, dis_rail = dp_rail p,
      dis_source_type = DisbursementType.LOAN, dis_source_id = dp_source_id p,
      dis_amount = d_col D 8 (dp_amount p), dis_currency = dp_currency p,
      dis_provider_name = dp_provider_name p, dis_provider_code = Some (dp_provider_code p),
      dis_account_unique = dp_account_unique p, dis_account_name = dp_account_name p,
      dis_status = DisbursementStatus.PENDING, dis_failure_reason = None, dis_on_hold_at = None,
      dis_on_hold_alerted_at = None, dis_cancelled_at = None, dis_cancelled_by_ops_user_id = None,
      dis_cancellation_reason = None, dis_created_at = t\<rparr>"

definition createForLoan :: "decimals \<Rightarrow> disbursement_params \<Rightarrow> disbursement_row service" where
  "createForLoan D p = bind now (\<lambda>t. create_row disbursement_table (new_disbursement D p t))"

definition outflows_of :: "id \<Rightarrow> world \<Rightarrow> outflow_row list" where
  "outflows_of i w = filter (\<lambda>a. out_disbursement_id a = i) (outflows (w_db w))"

definition disbursement_findById :: "id \<Rightarrow> (disbursement_row \<times> outflow_row list) option service" where
  "disbursement_findById i =
     bind (find_by_id disbursement_table i) (\<lambda>found.
     bind (gets (outflows_of i)) (\<lambda>attempts.
     return (map_option (\<lambda>d. (d, attempts)) found)))"

definition existsForLoan :: "id \<Rightarrow> bool service" where
  "existsForLoan loan_id =
     bind (find_many disbursement_table (\<lambda>d. dis_source_type d = DisbursementType.LOAN \<and> dis_source_id d = loan_id)) (\<lambda>rows.
     return (length rows > 0))"

definition set_disbursement :: "id \<Rightarrow> (disbursement_row \<Rightarrow> disbursement_row) \<Rightarrow> unit service" where
  "set_disbursement i f = bind (update_by_id disbursement_table i f) (\<lambda>_. return ())"

definition markProcessing :: "id \<Rightarrow> unit service" where
  "markProcessing i = set_disbursement i (\<lambda>d. d\<lparr>dis_status := DisbursementStatus.PROCESSING,
     dis_on_hold_at := None, dis_on_hold_alerted_at := None\<rparr>)"

definition markSuccessful :: "id \<Rightarrow> unit service" where
  "markSuccessful i = set_disbursement i (\<lambda>d. d\<lparr>dis_status := DisbursementStatus.SUCCESSFUL\<rparr>)"

definition markOnHold :: "id \<Rightarrow> string \<Rightarrow> (bool \<times> time) service" where
  "markOnHold i failure_reason =
     bind now (\<lambda>t.
     bind (update_many disbursement_table (\<lambda>d. dis_id d = i \<and> dis_status d \<noteq> DisbursementStatus.ON_HOLD)
             (\<lambda>d. d\<lparr>dis_status := DisbursementStatus.ON_HOLD, dis_on_hold_at := Some t,
                   dis_failure_reason := Some failure_reason\<rparr>)) (\<lambda>count.
     if count = 1 then return (True, t)
     else bind (find_or_throw disbursement_table i) (\<lambda>existing.
          return (False, case dis_on_hold_at existing of None \<Rightarrow> t | Some h \<Rightarrow> h))))"

definition markOnHoldAlerted :: "id \<Rightarrow> unit service" where
  "markOnHoldAlerted i = bind now (\<lambda>t. set_disbursement i (\<lambda>d. d\<lparr>dis_on_hold_alerted_at := Some t\<rparr>))"

definition markCancelled :: "id \<Rightarrow> id \<Rightarrow> string \<Rightarrow> unit service" where
  "markCancelled i ops_user_id reason = bind now (\<lambda>t. set_disbursement i (\<lambda>d. d\<lparr>
     dis_status := DisbursementStatus.CANCELLED, dis_cancelled_at := Some t,
     dis_cancelled_by_ops_user_id := Some ops_user_id, dis_cancellation_reason := Some reason\<rparr>))"

section \<open>Outflows\<close>

definition new_outflow :: "disbursement_row \<Rightarrow> nat \<Rightarrow> string \<Rightarrow> time \<Rightarrow> id \<Rightarrow> outflow_row" where
  "new_outflow d attempt_number provider_reference t i =
     \<lparr>out_id = i, out_disbursement_id = dis_id d, out_user_id = dis_user_id d,
      out_attempt_number = attempt_number, out_provider = resolveProviderName (dis_rail d),
      out_provider_reference = provider_reference, out_provider_tx_id = None,
      out_status = OutflowStatus.PENDING, out_failure_reason = None, out_failure_code = None,
      out_initiated_at = None, out_confirmed_at = None, out_created_at = t\<rparr>"

definition set_outflow :: "id \<Rightarrow> (outflow_row \<Rightarrow> outflow_row) \<Rightarrow> unit service" where
  "set_outflow i f = bind (update_by_id outflow_table i f) (\<lambda>_. return ())"

text \<open>A transfer at the provider of the route: the stub moves no money.\<close>

definition initiateTransfer :: "env \<Rightarrow> string \<Rightarrow> string \<Rightarrow> money \<Rightarrow> string \<Rightarrow> string \<Rightarrow> string service" where
  "initiateTransfer V provider reference amount code account w =
     (if provider = ''stub'' then return (''stub_txn_'' @ reference) w
      else let answer = e_initiate_transfer V w reference amount code account
           in bind (emit (TransferInitiated reference amount code account answer)) (\<lambda>_.
              case answer of Inl m \<Rightarrow> throw (OtherError m) | Inr txn \<Rightarrow> return txn) w)"

definition markOnHoldAndMaybeAlert :: "id \<Rightarrow> id \<Rightarrow> string \<Rightarrow> unit service" where
  "markOnHoldAndMaybeAlert disbursement_id outflow_id failure_reason =
     bind (markOnHold disbursement_id failure_reason) (\<lambda>(is_first_transition, _).
     if \<not> is_first_transition then return ()
     else bind (disbursement_findById disbursement_id) (\<lambda>fresh.
          case fresh of
            None \<Rightarrow> return ()
          | Some (_, attempts) \<Rightarrow>
              bind (page_ops (DisbursementOnHoldAlert disbursement_id
                     (case List.find (\<lambda>a. out_id a = outflow_id) attempts of
                        Some a \<Rightarrow> out_attempt_number a | None \<Rightarrow> length attempts))) (\<lambda>_.
              markOnHoldAlerted disbursement_id)))"

definition attempt_transfer :: "env \<Rightarrow> disbursement_row \<Rightarrow> outflow_row \<Rightarrow> string \<Rightarrow> unit service" where
  "attempt_transfer V d outflow provider =
     bind (the_or_throw (OtherError ''Disbursement is missing provider_code (legacy row pre-dating provider_code migration) - cancel and re-create'')
             (present (dis_provider_code d))) (\<lambda>code.
     bind (initiateTransfer V provider (out_provider_reference outflow) (dis_amount d) code (dis_account_unique d)) (\<lambda>txn.
     bind (may_fail V (OutflowUpdateFault (out_id outflow))) (\<lambda>_.
     bind now (\<lambda>t.
     set_outflow (out_id outflow) (\<lambda>a. a\<lparr>out_provider_tx_id := Some txn, out_status := OutflowStatus.PROCESSING,
       out_initiated_at := Some t\<rparr>)))))"

definition attempt_reference :: "nat \<Rightarrow> id \<Rightarrow> string" where
  "attempt_reference n i = ''outflow-'' @ show_nat n @ ''-'' @ show_nat i"

definition executeDispatch :: "env \<Rightarrow> disbursement_row \<Rightarrow> nat \<Rightarrow> unit service" where
  "executeDispatch V d attempt_number =
     bind now (\<lambda>t.
     bind (create_row outflow_table (new_outflow d attempt_number (attempt_reference attempt_number (dis_id d)) t)) (\<lambda>outflow.
     bind (markProcessing (dis_id d)) (\<lambda>_.
     bind (forRoute (dis_currency d) (dis_rail d)) (\<lambda>provider.
     attempt (attempt_transfer V d outflow provider)
       (\<lambda>e. bind (set_outflow (out_id outflow) (\<lambda>a. a\<lparr>out_status := OutflowStatus.FAILED,
                     out_failure_reason := Some (err_message V e)\<rparr>)) (\<lambda>_.
             markOnHoldAndMaybeAlert (dis_id d) (out_id outflow) (err_message V e)))))))"

definition in_flight :: "outflow_row \<Rightarrow> bool" where
  "in_flight a \<longleftrightarrow> out_status a = OutflowStatus.PROCESSING \<or> out_status a = OutflowStatus.PENDING"

definition dispatch :: "env \<Rightarrow> id \<Rightarrow> unit service" where
  "dispatch V disbursement_id =
     bind (disbursement_findById disbursement_id) (\<lambda>found.
     bind (the_or_throw (DisbursementE DisbursementNotFoundException) found) (\<lambda>(d, attempts).
     if dis_status d = DisbursementStatus.SUCCESSFUL \<or> dis_status d = DisbursementStatus.CANCELLED then return ()
     else if list_ex in_flight attempts then return ()
     else executeDispatch V d (length attempts + 1)))"

definition retryDispatch :: "env \<Rightarrow> id \<Rightarrow> unit service" where
  "retryDispatch V disbursement_id =
     bind (disbursement_findById disbursement_id) (\<lambda>found.
     bind (the_or_throw (DisbursementE DisbursementNotFoundException) found) (\<lambda>(d, attempts).
     bind (require (dis_status d = DisbursementStatus.ON_HOLD)
             (DisbursementE (DisbursementNotOnHoldException (dis_status d)))) (\<lambda>_.
     executeDispatch V d (length attempts + 1))))"

definition handleSuccess :: "id \<Rightarrow> id \<Rightarrow> string \<Rightarrow> unit service" where
  "handleSuccess outflow_id disbursement_id provider_tx_id =
     bind now (\<lambda>t.
     bind (set_outflow outflow_id (\<lambda>a. a\<lparr>out_status := OutflowStatus.SUCCESSFUL,
             out_provider_tx_id := Some provider_tx_id, out_confirmed_at := Some t\<rparr>)) (\<lambda>_.
     bind (markSuccessful disbursement_id) (\<lambda>_.
     bind (disbursement_findById disbursement_id) (\<lambda>fresh.
     case fresh of
       None \<Rightarrow> return ()
     | Some (d, _) \<Rightarrow>
         if dis_source_type d = DisbursementType.LOAN
         then notify (dis_user_id d) (LoanDisbursedMail (dis_source_id d) (dis_amount d)) else return ()))))"

definition handleFailure :: "id \<Rightarrow> id \<Rightarrow> string \<Rightarrow> string option \<Rightarrow> unit service" where
  "handleFailure outflow_id disbursement_id failure_reason failure_code =
     bind (set_outflow outflow_id (\<lambda>a. a\<lparr>out_status := OutflowStatus.FAILED,
             out_failure_reason := Some failure_reason, out_failure_code := failure_code\<rparr>)) (\<lambda>_.
     markOnHoldAndMaybeAlert disbursement_id outflow_id failure_reason)"

section \<open>What the attempts of a disbursement look like\<close>

text \<open>
  At most one attempt of a disbursement has not failed; a disbursement on hold has none, and
  one with a confirmed attempt is successful.
\<close>

definition unfailed :: "outflow_row \<Rightarrow> bool" where
  "unfailed a \<longleftrightarrow> out_status a \<noteq> OutflowStatus.FAILED"

definition attempts_ok :: "disbursement_row list \<Rightarrow> outflow_row list \<Rightarrow> bool" where
  "attempts_ok ds os \<longleftrightarrow>
     (\<forall>a\<in>set os. \<forall>b\<in>set os. out_disbursement_id a = out_disbursement_id b \<and> unfailed a \<and> unfailed b \<longrightarrow>
        out_id a = out_id b) \<and>
     (\<forall>d\<in>set ds. \<forall>a\<in>set os. out_disbursement_id a = dis_id d \<and> unfailed a \<longrightarrow>
        dis_status d \<noteq> DisbursementStatus.ON_HOLD \<and>
        (out_status a = OutflowStatus.SUCCESSFUL \<longrightarrow> dis_status d = DisbursementStatus.SUCCESSFUL))"

definition ids_ok :: "disbursement_row list \<Rightarrow> outflow_row list \<Rightarrow> nat \<Rightarrow> bool" where
  "ids_ok ds os n \<longleftrightarrow> distinct (map dis_id ds) \<and> distinct (map out_id os) \<and>
     (\<forall>d\<in>set ds. dis_id d < n) \<and> (\<forall>a\<in>set os. out_id a < n \<and> out_disbursement_id a < n)"

definition payouts_ok :: "world \<Rightarrow> bool" where
  "payouts_ok w \<longleftrightarrow> ids_ok (disbursements (w_db w)) (outflows (w_db w)) (next_id (w_db w)) \<and>
     attempts_ok (disbursements (w_db w)) (outflows (w_db w))"

lemma attempts_okI:
  assumes "\<And>a b. a \<in> set os \<Longrightarrow> b \<in> set os \<Longrightarrow> out_disbursement_id a = out_disbursement_id b \<Longrightarrow> unfailed a \<Longrightarrow>
      unfailed b \<Longrightarrow> out_id a = out_id b"
    and "\<And>d a. d \<in> set ds \<Longrightarrow> a \<in> set os \<Longrightarrow> out_disbursement_id a = dis_id d \<Longrightarrow> unfailed a \<Longrightarrow>
      dis_status d \<noteq> DisbursementStatus.ON_HOLD \<and>
      (out_status a = OutflowStatus.SUCCESSFUL \<longrightarrow> dis_status d = DisbursementStatus.SUCCESSFUL)"
  shows "attempts_ok ds os"
  unfolding attempts_ok_def
proof (intro conjI ballI impI; elim conjE)
  show "out_id a = out_id b" if "a \<in> set os" "b \<in> set os" "out_disbursement_id a = out_disbursement_id b"
    "unfailed a" "unfailed b" for a b using assms(1)[OF that] .
  show "dis_status d \<noteq> DisbursementStatus.ON_HOLD" if "d \<in> set ds" "a \<in> set os"
    "out_disbursement_id a = dis_id d" "unfailed a" for d a using assms(2)[OF that] by (rule conjunct1)
  show "dis_status d = DisbursementStatus.SUCCESSFUL" if "d \<in> set ds" "a \<in> set os"
    "out_status a = OutflowStatus.SUCCESSFUL" "out_disbursement_id a = dis_id d" "unfailed a" for d a
    using assms(2)[OF that(1,2,4,5)] that(3) by simp
qed

lemma attempts_okD:
  assumes "attempts_ok ds os" "a \<in> set os" "unfailed a"
  shows "b \<in> set os \<Longrightarrow> unfailed b \<Longrightarrow> out_disbursement_id a = out_disbursement_id b \<Longrightarrow> out_id a = out_id b"
    and "d \<in> set ds \<Longrightarrow> out_disbursement_id a = dis_id d \<Longrightarrow> dis_status d \<noteq> DisbursementStatus.ON_HOLD"
    and "d \<in> set ds \<Longrightarrow> out_disbursement_id a = dis_id d \<Longrightarrow> out_status a = OutflowStatus.SUCCESSFUL \<Longrightarrow>
      dis_status d = DisbursementStatus.SUCCESSFUL"
  using assms unfolding attempts_ok_def by blast+

text \<open>The changes the operations make, one lemma each.\<close>

lemma attempts_new:
  assumes "attempts_ok ds os" "out_disbursement_id a = i" "out_status a = OutflowStatus.PENDING"
    and "\<And>b. b \<in> set os \<Longrightarrow> out_disbursement_id b = i \<Longrightarrow> \<not> unfailed b"
    and "\<And>d. d \<in> set ds \<Longrightarrow> dis_id d = i \<Longrightarrow> dis_status d \<noteq> DisbursementStatus.ON_HOLD"
  shows "attempts_ok ds (os @ [a])"
proof (rule attempts_okI)
  fix x y assume "x \<in> set (os @ [a])" "y \<in> set (os @ [a])"
    and e: "out_disbursement_id x = out_disbursement_id y" "unfailed x" "unfailed y"
  then consider "x \<in> set os" "y \<in> set os" | "x = a" "y = a" | "x = a" "y \<in> set os" | "x \<in> set os" "y = a"
    by auto
  then show "out_id x = out_id y"
    using attempts_okD(1)[OF assms(1) _ e(2) _ e(3,1)] assms(2) assms(4)[of x] assms(4)[of y] e by cases simp_all
next
  fix d x assume d: "d \<in> set ds" and x: "x \<in> set (os @ [a])" "out_disbursement_id x = dis_id d" "unfailed x"
  show "dis_status d \<noteq> DisbursementStatus.ON_HOLD \<and>
      (out_status x = OutflowStatus.SUCCESSFUL \<longrightarrow> dis_status d = DisbursementStatus.SUCCESSFUL)"
  proof (cases "x \<in> set os")
    case True
    then show ?thesis using attempts_okD(2,3)[OF assms(1) True x(3) d x(2)] by blast
  next
    case False
    then have "x = a" using x(1) by simp
    then show ?thesis using assms(2,3) assms(5)[OF d] x(2) by simp
  qed
qed

lemma attempts_outflow:
  assumes "attempts_ok ds os"
    and "\<And>a. out_id (f a) = out_id a \<and> out_disbursement_id (f a) = out_disbursement_id a"
    and "\<And>a. a \<in> set os \<Longrightarrow> out_id a = i \<Longrightarrow> unfailed (f a) \<Longrightarrow> unfailed a \<and> (out_status (f a) = OutflowStatus.SUCCESSFUL \<longrightarrow>
      (\<forall>d\<in>set ds. dis_id d = out_disbursement_id a \<longrightarrow> dis_status d = DisbursementStatus.SUCCESSFUL))"
  shows "attempts_ok ds (update_row out_id i f os)"
proof (rule attempts_okI)
  fix a b assume "a \<in> set (update_row out_id i f os)" "b \<in> set (update_row out_id i f os)"
    and d: "out_disbursement_id a = out_disbursement_id b" and u: "unfailed a" "unfailed b"
  then obtain a' b' where a': "a' \<in> set os" "a = (if out_id a' = i then f a' else a')"
    and b': "b' \<in> set os" "b = (if out_id b' = i then f b' else b')" by (auto simp: set_update_row)
  have "out_disbursement_id a' = out_disbursement_id b'" "unfailed a'" "unfailed b'" "out_id a = out_id a'" "out_id b = out_id b'"
    using a' b' d u assms(2,3) by (auto split: if_splits)
  then show "out_id a = out_id b" using attempts_okD(1)[OF assms(1) a'(1) _ b'(1)] by simp
next
  fix d a assume d: "d \<in> set ds" and "a \<in> set (update_row out_id i f os)"
    and x: "out_disbursement_id a = dis_id d" "unfailed a"
  then obtain a' where a': "a' \<in> set os" "a = (if out_id a' = i then f a' else a')" by (auto simp: set_update_row)
  have "unfailed a'" "out_disbursement_id a' = dis_id d" using a' x assms(2,3) by (auto split: if_splits)
  then have "dis_status d \<noteq> DisbursementStatus.ON_HOLD \<and>
      (out_status a' = OutflowStatus.SUCCESSFUL \<longrightarrow> dis_status d = DisbursementStatus.SUCCESSFUL)"
    using attempts_okD(2,3)[OF assms(1) a'(1) _ d] by blast
  then show "dis_status d \<noteq> DisbursementStatus.ON_HOLD \<and>
      (out_status a = OutflowStatus.SUCCESSFUL \<longrightarrow> dis_status d = DisbursementStatus.SUCCESSFUL)"
    using a' x assms(3)[OF a'(1)] d \<open>out_disbursement_id a' = dis_id d\<close> by (auto split: if_splits)
qed

lemma attempts_disbursement:
  assumes "attempts_ok ds os" and "\<And>d. dis_id (f d) = dis_id d"
    and "\<And>d a. d \<in> set ds \<Longrightarrow> p d \<Longrightarrow> a \<in> set os \<Longrightarrow> out_disbursement_id a = dis_id d \<Longrightarrow> unfailed a \<Longrightarrow>
      dis_status (f d) \<noteq> DisbursementStatus.ON_HOLD \<and>
      (out_status a = OutflowStatus.SUCCESSFUL \<longrightarrow> dis_status (f d) = DisbursementStatus.SUCCESSFUL)"
  shows "attempts_ok (update_where p f ds) os"
proof (rule attempts_okI)
  fix d a assume "d \<in> set (update_where p f ds)" and a: "a \<in> set os" "out_disbursement_id a = dis_id d" "unfailed a"
  then obtain d' where d': "d' \<in> set ds" "d = (if p d' then f d' else d')" by (auto simp: set_update_where)
  have "out_disbursement_id a = dis_id d'" using a d' assms(2) by (auto split: if_splits)
  then show "dis_status d \<noteq> DisbursementStatus.ON_HOLD \<and>
      (out_status a = OutflowStatus.SUCCESSFUL \<longrightarrow> dis_status d = DisbursementStatus.SUCCESSFUL)"
    using attempts_okD(2,3)[OF assms(1) a(1,3) d'(1)] assms(3)[OF d'(1) _ a(1) _ a(3)] d'(2) by (cases "p d'") auto
next
  fix a b assume "a \<in> set os" "b \<in> set os" "out_disbursement_id a = out_disbursement_id b" "unfailed a" "unfailed b"
  then show "out_id a = out_id b" using attempts_okD(1)[OF assms(1)] by blast
qed

lemma attempts_new_disbursement:
  assumes "attempts_ok ds os" "\<And>a. a \<in> set os \<Longrightarrow> out_disbursement_id a \<noteq> dis_id d"
  shows "attempts_ok (ds @ [d]) os"
proof (rule attempts_okI)
  fix x a assume "x \<in> set (ds @ [d])" "a \<in> set os" "out_disbursement_id a = dis_id x" "unfailed a"
  moreover from this have "x \<in> set ds" using assms(2) by auto
  ultimately show "dis_status x \<noteq> DisbursementStatus.ON_HOLD \<and>
      (out_status a = OutflowStatus.SUCCESSFUL \<longrightarrow> dis_status x = DisbursementStatus.SUCCESSFUL)"
    using attempts_okD(2,3)[OF assms(1)] by blast
next
  fix a b assume "a \<in> set os" "b \<in> set os" "out_disbursement_id a = out_disbursement_id b" "unfailed a" "unfailed b"
  then show "out_id a = out_id b" using attempts_okD(1)[OF assms(1)] by blast
qed


lemma ids_outflow:
  assumes "ids_ok ds os n" "\<And>a. out_id (f a) = out_id a \<and> out_disbursement_id (f a) = out_disbursement_id a"
  shows "ids_ok ds (update_row out_id i f os) n"
  using assms by (auto simp: ids_ok_def map_key_update_row set_update_row split: if_splits)

lemma ids_disbursement:
  assumes "ids_ok ds os n" "\<And>d. dis_id (f d) = dis_id d"
  shows "ids_ok (update_where p f ds) os n"
proof -
  have "map dis_id (update_where p f ds) = map dis_id ds" using assms(2) by (auto simp: update_where_def)
  then show ?thesis using assms by (auto simp: ids_ok_def set_update_where split: if_splits)
qed

lemma attempts_touch:
  assumes "attempts_ok ds os" and "\<And>d. dis_id (f d) = dis_id d \<and> dis_status (f d) = dis_status d"
  shows "attempts_ok (update_where p f ds) os"
proof (rule attempts_disbursement[OF assms(1)])
  fix d a assume "d \<in> set ds" "a \<in> set os" "out_disbursement_id a = dis_id d" "unfailed a"
  then have "dis_status d \<noteq> DisbursementStatus.ON_HOLD" "out_status a = OutflowStatus.SUCCESSFUL \<longrightarrow>
      dis_status d = DisbursementStatus.SUCCESSFUL" using attempts_okD(2,3)[OF assms(1)] by blast+
  then show "dis_status (f d) \<noteq> DisbursementStatus.ON_HOLD \<and> (out_status a = OutflowStatus.SUCCESSFUL \<longrightarrow>
      dis_status (f d) = DisbursementStatus.SUCCESSFUL)" using assms(2) by simp
qed (use assms(2) in simp)

text \<open>The attempts of a disbursement that has none left to wait for.\<close>

definition all_failed :: "id \<Rightarrow> outflow_row list \<Rightarrow> bool" where
  "all_failed i os \<longleftrightarrow> (\<forall>a\<in>set os. out_disbursement_id a = i \<longrightarrow> \<not> unfailed a)"

lemma wp_set_outflow:
  "wp (set_outflow i f) Q E w =
     (case find_row out_id i (outflows (w_db w)) of
        None \<Rightarrow> E PrismaRecordNotFound w
      | Some a \<Rightarrow> (case violated outflow_table (f a) (outflows (w_db w)) of
          Some n \<Rightarrow> E (PrismaUniqueViolation n) w
        | None \<Rightarrow> Q () (w\<lparr>w_db := (w_db w)\<lparr>outflows := update_row out_id i f (outflows (w_db w))\<rparr>\<rparr>)))"
  by (simp add: set_outflow_def wp_simps split: option.split)

lemma wp_set_disbursement:
  "wp (set_disbursement i f) Q E w =
     (case find_row dis_id i (disbursements (w_db w)) of
        None \<Rightarrow> E PrismaRecordNotFound w
      | Some d \<Rightarrow> Q () (w\<lparr>w_db := (w_db w)\<lparr>disbursements := update_row dis_id i f (disbursements (w_db w))\<rparr>\<rparr>))"
  by (simp add: set_disbursement_def wp_simps disbursement_table_def violated_def split: option.split)

lemma wp_initiateTransfer:
  "wp (initiateTransfer V provider reference amount code account) Q E w =
     (if provider = ''stub'' then Q (''stub_txn_'' @ reference) w
      else let w' = w\<lparr>w_outbox := w_outbox w @ [TransferInitiated reference amount code account
                       (e_initiate_transfer V w reference amount code account)]\<rparr>
           in case e_initiate_transfer V w reference amount code account of
                Inl m \<Rightarrow> E (OtherError m) w' | Inr txn \<Rightarrow> Q txn w')"
  by (auto simp: wp_def initiateTransfer_def run_defs emit_def Let_def split: sum.split)

lemma hold_keeps:
  assumes "payouts_ok w" "all_failed i (outflows (w_db w))"
  shows "wp (markOnHoldAndMaybeAlert i a r) (\<lambda>_. payouts_ok) (\<lambda>_. payouts_ok) w"
proof -
  let ?hold = "update_where (\<lambda>d. dis_id d = i \<and> dis_status d \<noteq> DisbursementStatus.ON_HOLD)
      (\<lambda>d. d\<lparr>dis_status := DisbursementStatus.ON_HOLD, dis_on_hold_at := Some (w_clock w), dis_failure_reason := Some r\<rparr>)"
  let ?alert = "update_row dis_id i (\<lambda>d. d\<lparr>dis_on_hold_alerted_at := Some (w_clock w)\<rparr>)"
  have w: "ids_ok (disbursements (w_db w)) (outflows (w_db w)) (next_id (w_db w))"
    "attempts_ok (disbursements (w_db w)) (outflows (w_db w))" using assms(1) by (simp_all add: payouts_ok_def)
  have ids: "ids_ok (?hold (disbursements (w_db w))) (outflows (w_db w)) (next_id (w_db w))"
    by (rule ids_disbursement[OF w(1)]) simp
  have att: "attempts_ok (?hold (disbursements (w_db w))) (outflows (w_db w))"
    by (rule attempts_disbursement[OF w(2)]) (use assms(2) in \<open>simp_all add: all_failed_def\<close>)
  have "ids_ok (?alert (?hold (disbursements (w_db w)))) (outflows (w_db w)) (next_id (w_db w))"
    unfolding update_row_def by (rule ids_disbursement[OF ids]) simp
  moreover have "attempts_ok (?alert (?hold (disbursements (w_db w)))) (outflows (w_db w))"
    unfolding update_row_def by (rule attempts_touch[OF att]) simp
  ultimately
  show ?thesis
    using ids att
    by (simp add: markOnHoldAndMaybeAlert_def markOnHold_def markOnHoldAlerted_def disbursement_findById_def wp_simps
        wp_set_disbursement payouts_ok_def split: option.split)
qed

text \<open>One more attempt for a disbursement whose attempts have all failed.\<close>

lemma attempt_transfer_keeps:
  assumes "payouts_ok w"
    and "\<forall>a\<in>set (outflows (w_db w)). out_disbursement_id a = dis_id d \<and> unfailed a \<longrightarrow> out_id a = out_id outflow"
    and "\<forall>a\<in>set (outflows (w_db w)). out_id a = out_id outflow \<longrightarrow> out_status a = OutflowStatus.PENDING"
  shows "wp (attempt_transfer V d outflow provider) (\<lambda>_. payouts_ok)
    (\<lambda>_ w'. outflows (w_db w') = outflows (w_db w) \<and> disbursements (w_db w') = disbursements (w_db w) \<and>
       next_id (w_db w') = next_id (w_db w)) w"
proof -
  let ?f = "\<lambda>t txn. update_row out_id (out_id outflow) (\<lambda>a. a\<lparr>out_provider_tx_id := Some txn, out_status := OutflowStatus.PROCESSING,
       out_initiated_at := Some t\<rparr>) (outflows (w_db w))"
  have "ids_ok (disbursements (w_db w)) (?f t txn) (next_id (w_db w))" for t txn
    using assms(1) by (intro ids_outflow) (simp_all add: payouts_ok_def)
  moreover have "attempts_ok (disbursements (w_db w)) (?f t txn)" for t txn
    using assms(1,3) by (intro attempts_outflow) (auto simp: payouts_ok_def unfailed_def)
  ultimately show ?thesis
    by (simp add: attempt_transfer_def wp_initiateTransfer wp_simps wp_set_outflow payouts_ok_def Let_def
        split: option.split sum.split)
qed

lemma fail_keeps:
  assumes "payouts_ok w" "out_disbursement_id a = i" "unfailed a" "find_row out_id (out_id a) (outflows (w_db w)) = Some a"
    and "\<And>b. out_id (f b) = out_id b \<and> out_disbursement_id (f b) = out_disbursement_id b \<and> out_status (f b) = OutflowStatus.FAILED"
  shows "wp (bind (set_outflow (out_id a) f) (\<lambda>_. markOnHoldAndMaybeAlert i (out_id a) r)) (\<lambda>_. payouts_ok) (\<lambda>_. payouts_ok) w"
proof -
  let ?w = "w\<lparr>w_db := (w_db w)\<lparr>outflows := update_row out_id (out_id a) f (outflows (w_db w))\<rparr>\<rparr>"
  have w: "ids_ok (disbursements (w_db w)) (outflows (w_db w)) (next_id (w_db w))"
    "attempts_ok (disbursements (w_db w)) (outflows (w_db w))" using assms(1) by (simp_all add: payouts_ok_def)
  have "ids_ok (disbursements (w_db w)) (outflows (w_db ?w)) (next_id (w_db w))"
    using ids_outflow[OF w(1), of f "out_id a"] assms(5) by simp
  moreover have "attempts_ok (disbursements (w_db w)) (outflows (w_db ?w))"
    using attempts_outflow[OF w(2), of f "out_id a"] assms(5) by (simp add: unfailed_def)
  ultimately have ok: "payouts_ok ?w" by (simp add: payouts_ok_def)
  have "\<not> unfailed b" if b: "b \<in> set (outflows (w_db ?w))" "out_disbursement_id b = i" for b
  proof
    assume u: "unfailed b"
    obtain b' where b': "b' \<in> set (outflows (w_db w))" "b = (if out_id b' = out_id a then f b' else b')"
      using b(1) by (auto simp: set_update_row)
    then have "b' = b" "out_id b \<noteq> out_id a" using u assms(5) by (auto simp: unfailed_def split: if_splits)
    moreover have "out_id a = out_id b"
      using attempts_okD(1)[OF w(2) find_row_in_set[OF assms(4)] assms(3), of b] b'(1) u b(2) assms(2) \<open>b' = b\<close> by simp
    ultimately show False by simp
  qed
  then have "wp (markOnHoldAndMaybeAlert i (out_id a) r) (\<lambda>_. payouts_ok) (\<lambda>_. payouts_ok) ?w"
    by (intro hold_keeps ok) (simp add: all_failed_def)
  then show ?thesis using assms(1) by (simp add: wp_bind wp_set_outflow assms(4) split: option.split)
qed

lemma executeDispatch_keeps:
  assumes "payouts_ok w" "find_row dis_id (dis_id d) (disbursements (w_db w)) = Some d"
    and "all_failed (dis_id d) (outflows (w_db w))"
  shows "wp (executeDispatch V d n) (\<lambda>_. payouts_ok) (\<lambda>_. payouts_ok) w"
proof -
  define a where "a = new_outflow d n (attempt_reference n (dis_id d)) (w_clock w) (next_id (w_db w))"
  let ?proc = "update_row dis_id (dis_id d) (\<lambda>d. d\<lparr>dis_status := DisbursementStatus.PROCESSING,
     dis_on_hold_at := None, dis_on_hold_alerted_at := None\<rparr>)"
  let ?w2 = "w\<lparr>w_db := (w_db w)\<lparr>next_id := Suc (next_id (w_db w)), outflows := outflows (w_db w) @ [a],
    disbursements := ?proc (disbursements (w_db w))\<rparr>\<rparr>"
  have w: "ids_ok (disbursements (w_db w)) (outflows (w_db w)) (next_id (w_db w))"
    "attempts_ok (disbursements (w_db w)) (outflows (w_db w))" using assms(1) by (simp_all add: payouts_ok_def)
  have d: "d \<in> set (disbursements (w_db w))" using find_row_in_set[OF assms(2)] .
  have o: "out_id a = next_id (w_db w)" "out_disbursement_id a = dis_id d" "out_status a = OutflowStatus.PENDING"
    by (simp_all add: a_def new_outflow_def)
  have idx: "ids_ok (?proc (disbursements (w_db w))) (outflows (w_db w)) (next_id (w_db w))"
    unfolding update_row_def by (rule ids_disbursement[OF w(1)]) simp
  have ids2: "ids_ok (?proc (disbursements (w_db w))) (outflows (w_db w) @ [a]) (Suc (next_id (w_db w)))"
    using idx w(1) d o unfolding ids_ok_def by (auto simp: less_SucI)
  have att1: "attempts_ok (?proc (disbursements (w_db w))) (outflows (w_db w))"
    unfolding update_row_def
    by (rule attempts_disbursement[OF w(2)]) (use assms(3) in \<open>simp_all add: all_failed_def\<close>)
  have att2: "attempts_ok (?proc (disbursements (w_db w))) (outflows (w_db w) @ [a])"
  proof (rule attempts_new[OF att1 o(2,3)])
    show "\<not> unfailed b" if "b \<in> set (outflows (w_db w))" "out_disbursement_id b = dis_id d" for b
      using that assms(3) by (simp add: all_failed_def)
    fix x assume "x \<in> set (?proc (disbursements (w_db w)))" "dis_id x = dis_id d"
    then obtain r where "x = (if dis_id r = dis_id d then r\<lparr>dis_status := DisbursementStatus.PROCESSING,
        dis_on_hold_at := None, dis_on_hold_alerted_at := None\<rparr> else r)" "dis_id x = dis_id d"
      by (auto simp: set_update_row)
    then show "dis_status x \<noteq> DisbursementStatus.ON_HOLD" by (cases "dis_id r = dis_id d") simp_all
  qed
  have ok2: "payouts_ok ?w2" using ids2 att2 by (simp add: payouts_ok_def)
  have "find_row out_id (next_id (w_db w)) (outflows (w_db w)) = None"
    using w(1) by (auto simp: find_row_None_iff ids_ok_def)
  then have found: "find_row out_id (next_id (w_db w)) (outflows (w_db w) @ [a]) = Some a"
    using o(1) by (simp add: find_row_append)
  have fresh: "b \<in> set (outflows (w_db w)) \<Longrightarrow> out_id b \<noteq> next_id (w_db w)" for b
    using w(1) by (auto simp: ids_ok_def)
  have handle: "wp (bind (set_outflow (out_id a) (\<lambda>a. a\<lparr>out_status := OutflowStatus.FAILED, out_failure_reason := Some m\<rparr>))
      (\<lambda>_. markOnHoldAndMaybeAlert (dis_id d) (out_id a) m)) (\<lambda>_. payouts_ok) (\<lambda>_. payouts_ok) v"
    if "outflows (w_db v) = outflows (w_db ?w2)" "disbursements (w_db v) = disbursements (w_db ?w2)"
      "next_id (w_db v) = next_id (w_db ?w2)" for v m
    by (rule fail_keeps) (use that ok2 found in \<open>simp_all add: payouts_ok_def o unfailed_def\<close>)
  have "wp (attempt_transfer V d a provider) (\<lambda>_. payouts_ok)
    (\<lambda>_ w'. outflows (w_db w') = outflows (w_db ?w2) \<and> disbursements (w_db w') = disbursements (w_db ?w2) \<and>
       next_id (w_db w') = next_id (w_db ?w2)) ?w2" for provider
    by (rule attempt_transfer_keeps[OF ok2]) (use o assms(3) fresh in \<open>auto simp: all_failed_def\<close>)
  then have tried: "wp (attempt (attempt_transfer V d a provider) (\<lambda>e. bind (set_outflow (out_id a)
        (\<lambda>a. a\<lparr>out_status := OutflowStatus.FAILED, out_failure_reason := Some (err_message V e)\<rparr>))
      (\<lambda>_. markOnHoldAndMaybeAlert (dis_id d) (out_id a) (err_message V e)))) (\<lambda>_. payouts_ok) (\<lambda>_. payouts_ok) ?w2"
    for provider
    unfolding wp_attempt by (rule wp_mono) (use handle in blast)+
  show ?thesis
    using tried[unfolded a_def] ok2[unfolded a_def] assms(1)
    by (simp add: executeDispatch_def wp_bind wp_now wp_create_row markProcessing_def wp_set_disbursement assms(2) forRoute_def wp_the_or_throw
        table_ops split: option.split)
qed

lemma attempts_all_failed:
  assumes "attempts_ok ds os" "d \<in> set ds"
    and "dis_status d = DisbursementStatus.ON_HOLD \<or>
      dis_status d \<noteq> DisbursementStatus.SUCCESSFUL \<and> (\<forall>a\<in>set os. out_disbursement_id a = dis_id d \<longrightarrow> \<not> in_flight a)"
  shows "all_failed (dis_id d) os"
  unfolding all_failed_def
proof (intro ballI impI notI)
  fix a assume a: "a \<in> set os" "out_disbursement_id a = dis_id d" "unfailed a"
  then have "dis_status d \<noteq> DisbursementStatus.ON_HOLD" "out_status a \<noteq> OutflowStatus.SUCCESSFUL \<or>
      dis_status d = DisbursementStatus.SUCCESSFUL" using attempts_okD(2,3)[OF assms(1) a(1,3) assms(2) a(2)] by blast+
  with assms(3) a show False by (cases "out_status a") (auto simp: in_flight_def unfailed_def)
qed

lemma dispatch_keeps:
  assumes "payouts_ok w"
  shows "wp (dispatch V i) (\<lambda>_. payouts_ok) (\<lambda>_. payouts_ok) w"
proof (cases "find_row dis_id i (disbursements (w_db w))")
  case (Some d)
  have i: "dis_id d = i" using find_row_key[OF Some] .
  have "wp (executeDispatch V d n) (\<lambda>_. payouts_ok) (\<lambda>_. payouts_ok) w"
    if "dis_status d \<noteq> DisbursementStatus.SUCCESSFUL" "\<not> list_ex in_flight (outflows_of i w)" for n
  proof (rule executeDispatch_keeps[OF assms])
    show "all_failed (dis_id d) (outflows (w_db w))"
      by (rule attempts_all_failed[OF _ find_row_in_set[OF Some]])
         (use that assms in \<open>auto simp: payouts_ok_def outflows_of_def list_ex_iff i\<close>)
  qed (simp add: i Some)
  then show ?thesis
    using assms by (simp add: dispatch_def disbursement_findById_def wp_simps Some table_rows)
qed (use assms in \<open>simp add: dispatch_def disbursement_findById_def wp_simps table_rows\<close>)

lemma retryDispatch_keeps:
  assumes "payouts_ok w"
  shows "wp (retryDispatch V i) (\<lambda>_. payouts_ok) (\<lambda>_. payouts_ok) w"
proof (cases "find_row dis_id i (disbursements (w_db w))")
  case (Some d)
  have i: "dis_id d = i" using find_row_key[OF Some] .
  have "wp (executeDispatch V d n) (\<lambda>_. payouts_ok) (\<lambda>_. payouts_ok) w"
    if "dis_status d = DisbursementStatus.ON_HOLD" for n
  proof (rule executeDispatch_keeps[OF assms])
    show "all_failed (dis_id d) (outflows (w_db w))"
      by (rule attempts_all_failed[OF _ find_row_in_set[OF Some]]) (use that assms in \<open>auto simp: payouts_ok_def\<close>)
  qed (simp add: i Some)
  then show ?thesis
    using assms by (simp add: retryDispatch_def disbursement_findById_def wp_simps Some table_rows)
qed (use assms in \<open>simp add: retryDispatch_def disbursement_findById_def wp_simps table_rows\<close>)

lemma handleSuccess_keeps:
  assumes "payouts_ok w" "find_row out_id o1 (outflows (w_db w)) = Some a" "unfailed a"
  shows "wp (handleSuccess o1 (out_disbursement_id a) txn) (\<lambda>_. payouts_ok) (\<lambda>_. payouts_ok) w"
proof -
  let ?f = "\<lambda>x. x\<lparr>out_status := OutflowStatus.SUCCESSFUL, out_provider_tx_id := Some txn, out_confirmed_at := Some (w_clock w)\<rparr>"
  let ?g = "\<lambda>d. d\<lparr>dis_status := DisbursementStatus.SUCCESSFUL\<rparr>" and ?i = "out_disbursement_id a"
  have w: "ids_ok (disbursements (w_db w)) (outflows (w_db w)) (next_id (w_db w))"
    "attempts_ok (disbursements (w_db w)) (outflows (w_db w))" using assms(1) by (simp_all add: payouts_ok_def)
  have only: "b = a" if "b \<in> set (outflows (w_db w))" "out_id b = o1" for b
    using that find_row_unique[of out_id "outflows (w_db w)" b] assms(2) w(1) by (simp add: ids_ok_def unique_keys_def)
  have ids: "ids_ok (update_where p ?g (disbursements (w_db w))) (update_row out_id o1 ?f (outflows (w_db w))) (next_id (w_db w))" for p
    by (intro ids_outflow ids_disbursement w(1)) simp_all
  have paid: "attempts_ok (update_row dis_id ?i ?g (disbursements (w_db w))) (outflows (w_db w))"
    unfolding update_row_def by (rule attempts_disbursement[OF w(2)]) simp_all
  have both: "attempts_ok (update_row dis_id ?i ?g (disbursements (w_db w))) (update_row out_id o1 ?f (outflows (w_db w)))"
    by (rule attempts_outflow[OF paid]) (use only assms(3) in \<open>auto simp: set_update_row\<close>)
  have none: "attempts_ok (disbursements (w_db w)) (update_row out_id o1 ?f (outflows (w_db w)))"
    if "find_row dis_id ?i (disbursements (w_db w)) = None"
  proof (rule attempts_outflow[OF w(2)])
    fix b assume "b \<in> set (outflows (w_db w))" "out_id b = o1"
    then have "b = a" by (rule only)
    then show "unfailed b \<and> (out_status (?f b) = OutflowStatus.SUCCESSFUL \<longrightarrow> (\<forall>d\<in>set (disbursements (w_db w)).
        dis_id d = out_disbursement_id b \<longrightarrow> dis_status d = DisbursementStatus.SUCCESSFUL))"
      using assms(3) that[unfolded find_row_None_iff image_iff] by auto
  qed simp
  show ?thesis
    using assms(1) both none ids ids[of "\<lambda>_. False"]
    by (auto simp: handleSuccess_def markSuccessful_def disbursement_findById_def wp_simps wp_set_outflow wp_set_disbursement
        assms(2) payouts_ok_def update_row_def update_where_def split: option.split)
qed

lemma handleFailure_keeps:
  assumes "payouts_ok w" "find_row out_id (out_id a) (outflows (w_db w)) = Some a" "unfailed a"
  shows "wp (handleFailure (out_id a) (out_disbursement_id a) r c) (\<lambda>_. payouts_ok) (\<lambda>_. payouts_ok) w"
  unfolding handleFailure_def by (rule fail_keeps[OF assms(1) HOL.refl assms(3,2)]) simp

end
