(* ===== verification/WebhooksLog.thy ===== *)
theory WebhooksLog
  imports Env
begin

text \<open>
  \<open>modules/webhooks-log/webhooks-log.service.ts\<close>: the audit log of inbound deliveries. A
  delivery is recorded before its signature is checked, with the personal data in its body
  masked, and updated with the outcome of its handling; both writes are best effort. A body
  comes with what \<open>JSON.parse\<close> makes of it; a JSON number is its text, and the mark of a
  truncated body is written with three dots.
\<close>

section \<open>Redaction\<close>

datatype json =
    JNull
  | JBool bool
  | JNumber string
  | JString string
  | JArray "json list"
  | JObject "(string \<times> json) list"

definition PII_FIELDS :: "string list" where
  "PII_FIELDS = [''payerAccountNo'', ''payeeBankAccNo'', ''bankAccNo'', ''licenseNumber'', ''bvn'', ''nin'',
     ''identityNumber'']"

definition mask :: "string \<Rightarrow> string" where
  "mask s = (if length s \<le> 4 then ''****'' else ''****'' @ drop (length s - 4) s)"

definition maskValue :: "json \<Rightarrow> json" where
  "maskValue v = (case v of JString s \<Rightarrow> JString (mask s) | _ \<Rightarrow> v)"

fun redactPii :: "json \<Rightarrow> json" where
  "redactPii (JArray vs) = JArray (map redactPii vs)"
| "redactPii (JObject kvs) =
     JObject (map (\<lambda>(k, v). (k, if k \<in> set PII_FIELDS then maskValue v else redactPii v)) kvs)"
| "redactPii v = v"

text \<open>\<open>JSON.stringify\<close>.\<close>

definition escape_char :: "char \<Rightarrow> string" where
  "escape_char c = (let n = of_char c :: nat in
     if n = 34 then [char_of (92 :: nat), c] else if n = 92 then [c, c]
     else if n = 8 then [char_of (92 :: nat), CHR ''b''] else if n = 9 then [char_of (92 :: nat), CHR ''t'']
     else if n = 10 then [char_of (92 :: nat), CHR ''n''] else if n = 12 then [char_of (92 :: nat), CHR ''f'']
     else if n = 13 then [char_of (92 :: nat), CHR ''r'']
     else if n < 32 then char_of (92 :: nat) # ''u00'' @ [''0123456789abcdef'' ! (n div 16), ''0123456789abcdef'' ! (n mod 16)]
     else [c])"

definition quote :: "string \<Rightarrow> string" where
  "quote s = CHR 0x22 # concat (map escape_char s) @ [CHR 0x22]"

fun joined_with :: "string \<Rightarrow> string list \<Rightarrow> string" where
  "joined_with sep [] = []"
| "joined_with sep [x] = x"
| "joined_with sep (x # y # ys) = x @ sep @ joined_with sep (y # ys)"

fun stringify :: "json \<Rightarrow> string" where
  "stringify JNull = ''null''"
| "stringify (JBool b) = (if b then ''true'' else ''false'')"
| "stringify (JNumber n) = n"
| "stringify (JString s) = quote s"
| "stringify (JArray vs) = ''['' @ joined_with '','' (map stringify vs) @ '']''"
| "stringify (JObject kvs) = ''{'' @ joined_with '','' (map (\<lambda>(k, v). quote k @ '':'' @ stringify v) kvs) @ ''}''"

definition MAX_BODY_LENGTH :: nat where "MAX_BODY_LENGTH = 32768"

definition redactRawBody :: "string \<Rightarrow> json option \<Rightarrow> string" where
  "redactRawBody raw_body parsed =
     (let body = (case parsed of None \<Rightarrow> raw_body | Some j \<Rightarrow> stringify (redactPii j))
      in if length body > MAX_BODY_LENGTH then take MAX_BODY_LENGTH body @ ''...[truncated]'' else body)"

datatype header_value = Single string | Many "string list" | Undefined

definition HEADER_ALLOWLIST :: "string list" where
  "HEADER_ALLOWLIST = [''content-type'', ''content-length'', ''user-agent'', ''x-request-id'', ''x-forwarded-for'',
     ''svix-id'', ''svix-timestamp'', ''svix-signature'']"

definition selectHeaders :: "(string \<times> header_value) list \<Rightarrow> (string \<times> string) list" where
  "selectHeaders raw = concat (map (\<lambda>(name, value).
     if to_lower name \<notin> set HEADER_ALLOWLIST then []
     else (case value of Many vs \<Rightarrow> [(to_lower name, joined_with '', '' vs)]
           | Single v \<Rightarrow> [(to_lower name, v)] | Undefined \<Rightarrow> [])) raw)"

section \<open>The log\<close>

record delivery =
  dl_provider :: string
  dl_http_path :: string
  dl_headers :: "(string \<times> header_value) list"
  dl_raw_body :: string
  dl_json :: "json option"

definition RECEIVED :: string where "RECEIVED = ''RECEIVED''"
definition SIGNATURE_INVALID :: string where "SIGNATURE_INVALID = ''SIGNATURE_INVALID''"
definition MALFORMED :: string where "MALFORMED = ''MALFORMED''"
definition IGNORED :: string where "IGNORED = ''IGNORED''"
definition PROCESSED :: string where "PROCESSED = ''PROCESSED''"
definition DEFERRED :: string where "DEFERRED = ''DEFERRED''"
definition ERROR :: string where "ERROR = ''ERROR''"

record handler_outcome =
  ho_outcome :: string
  ho_detail :: "string option"
  ho_reference :: "string option"

definition log_record :: "env \<Rightarrow> delivery \<Rightarrow> id option service" where
  "log_record V d =
     attempt
       (bind (may_fail V LogRecordFault) (\<lambda>_.
        bind now (\<lambda>t.
        bind (create_row webhook_log_table (\<lambda>i. \<lparr>wh_id = i, wh_provider = dl_provider d, wh_received_at = t,
           wh_http_method = ''POST'',
           wh_http_path = dl_http_path d, wh_headers = selectHeaders (dl_headers d),
           wh_raw_body = redactRawBody (dl_raw_body d) (dl_json d), wh_body_length = length (dl_raw_body d),
           wh_signature_valid = None, wh_outcome = RECEIVED, wh_outcome_detail = None, wh_processed_at = None,
           wh_external_reference = None\<rparr>)) (\<lambda>row.
        return (Some (wh_id row))))))
       (\<lambda>_. return None)"

definition updateOutcome :: "env \<Rightarrow> id option \<Rightarrow> handler_outcome \<Rightarrow> bool \<Rightarrow> unit service" where
  "updateOutcome V log_id out signature_valid =
     (case log_id of
        None \<Rightarrow> return ()
      | Some i \<Rightarrow>
          attempt
            (bind (may_fail V (LogUpdateFault i)) (\<lambda>_.
             bind now (\<lambda>t.
             bind (update_by_id webhook_log_table i (\<lambda>r. r\<lparr>wh_outcome := ho_outcome out,
               wh_outcome_detail := ho_detail out, wh_signature_valid := Some signature_valid,
               wh_external_reference := ho_reference out, wh_processed_at := Some t\<rparr>)) (\<lambda>_. return ()))))
            (\<lambda>_. return ()))"

text \<open>The frame of the three webhook controllers: record, check the signature, handle, note the
  outcome. A failing handler is logged as \<open>ERROR\<close> and its failure reaches the provider, which
  delivers again.\<close>

definition outcome :: "string \<Rightarrow> string \<Rightarrow> string option \<Rightarrow> handler_outcome" where
  "outcome code detail reference = \<lparr>ho_outcome = code, ho_detail = Some detail, ho_reference = reference\<rparr>"

definition logged_handler :: "env \<Rightarrow> delivery \<Rightarrow> bool \<Rightarrow> handler_outcome service \<Rightarrow> unit service" where
  "logged_handler V d signature_ok handler =
     bind (log_record V d) (\<lambda>log_id.
     if \<not> signature_ok
     then bind (updateOutcome V log_id \<lparr>ho_outcome = SIGNATURE_INVALID, ho_detail = None, ho_reference = None\<rparr> False) (\<lambda>_.
          throw (UnauthorizedException ''Invalid webhook signature''))
     else bind (attempt handler
                 (\<lambda>e. bind (updateOutcome V log_id (outcome ERROR (take 1000 (err_message V e)) None) True) (\<lambda>_.
                      throw e))) (\<lambda>out.
          updateOutcome V log_id out True))"

section \<open>What the stored body shows\<close>

text \<open>The strings under a personal-data key, and what is left of one.\<close>

fun pii_strings :: "json \<Rightarrow> string list" where
  "pii_strings (JArray vs) = concat (map pii_strings vs)"
| "pii_strings (JObject kvs) = concat (map (\<lambda>(k, v).
     if k \<in> set PII_FIELDS then (case v of JString s \<Rightarrow> [s] | _ \<Rightarrow> []) else pii_strings v) kvs)"
| "pii_strings v = []"

definition masked :: "string \<Rightarrow> bool" where
  "masked s \<longleftrightarrow> take 4 s = ''****'' \<and> length s \<le> 8"

lemma mask_masked [simp]: "masked (mask s)" "mask (mask s) = mask s"
  by (auto simp: masked_def mask_def)

lemma maskValue_idem [simp]: "maskValue (maskValue v) = maskValue v"
  by (cases v) (simp_all add: maskValue_def)

lemma redactPii_idem: "redactPii (redactPii j) = redactPii j"
  by (induction j rule: redactPii.induct) (auto simp: map_eq_conv split: prod.split)

lemma redactPii_masks: "list_all masked (pii_strings (redactPii j))"
proof (induction j rule: redactPii.induct)
  case (2 kvs)
  have "list_all masked (if k \<in> set PII_FIELDS then (case maskValue v of JString s \<Rightarrow> [s] | _ \<Rightarrow> [])
      else pii_strings (redactPii v))" if "(k, v) \<in> set kvs" for k v
    using 2[OF that HOL.refl] by (cases v) (auto simp: maskValue_def)
  then show ?case by (fastforce simp: list_all_iff split: if_splits)
qed (auto simp: list_all_iff)

text \<open>Of every string stored under a personal-data field of a JSON delivery, at any depth, only
  the last four characters are shown, and redacting twice is redacting once. A field that holds
  anything but a string, a number for instance, is stored as it came.\<close>

theorem logged_bodies_are_masked:
  "list_all masked (pii_strings (redactPii j)) \<and> redactPii (redactPii j) = redactPii j \<and>
   redactPii (JObject [(''bvn'', JNumber n)]) = JObject [(''bvn'', JNumber n)]"
  using redactPii_masks[of j] redactPii_idem[of j] by (simp add: PII_FIELDS_def maskValue_def)

end
