(* ===== verification/CollateralRelease.thy ===== *)
theory CollateralRelease
  imports PaymentRequests LoanStatus "HOL-Library.Option_ord"
begin

text \<open>
  \<open>modules/loans/collateral-release.service.ts\<close> and \<open>workers/collateral-release.worker.ts\<close>:
  the return of the collateral of a repaid loan, by the credit that repaid it, by an operator
  or by the worker. A lock per loan is held while the SAT are sent and the release is
  stamped on the loan. Of the failures after the payment the one that undoes the stamp is modelled; a failure
  of Redis between the stamp and the mail, which the code reports as a failed send of a stamped loan, is not.
\<close>

definition RELEASE_LOCK_TTL_SEC :: int where "RELEASE_LOCK_TTL_SEC = 60"
definition RELEASE_ALERT_DEDUPE_TTL_SEC :: int where "RELEASE_ALERT_DEDUPE_TTL_SEC = 24 * 60 * 60"

datatype release_result =
    Released string
  | AlreadyReleased "string option"
  | NotEligible string
  | InFlight
  | SendFailed string

definition LoanStatus_name :: "LoanStatus \<Rightarrow> string" where
  "LoanStatus_name s = (case s of
     LoanStatus.PENDING_COLLATERAL \<Rightarrow> ''PENDING_COLLATERAL'' | LoanStatus.ACTIVE \<Rightarrow> ''ACTIVE''
   | LoanStatus.REPAID \<Rightarrow> ''REPAID'' | LoanStatus.LIQUIDATED \<Rightarrow> ''LIQUIDATED''
   | LoanStatus.EXPIRED \<Rightarrow> ''EXPIRED'' | LoanStatus.CANCELLED \<Rightarrow> ''CANCELLED'')"

definition sendToLightningAddress :: "env \<Rightarrow> id \<Rightarrow> string \<Rightarrow> sats \<Rightarrow> string service" where
  "sendToLightningAddress V loan_id address amount_sat w =
     (let answer = e_send_lightning V w address amount_sat
      in bind (emit (LightningSend loan_id address amount_sat answer)) (\<lambda>_.
         case answer of Inl m \<Rightarrow> throw (OtherError m) | Inr reference \<Rightarrow> return reference) w)"

definition maybeAlertOps :: "id \<Rightarrow> unit service" where
  "maybeAlertOps loan_id =
     bind (redis_setnx (COLLATERAL_RELEASE_ALERTED loan_id) (VInt 1) RELEASE_ALERT_DEDUPE_TTL_SEC) (\<lambda>set.
     if set then page_ops (ReleaseFailedAlert loan_id False) else return ())"

definition stamp_release :: "env \<Rightarrow> loan_row \<Rightarrow> string \<Rightarrow> string \<Rightarrow> unit service" where
  "stamp_release V loan address provider_reference =
     bind now (\<lambda>t.
     bind (transaction
       (bind (may_fail V (ReleaseStampFault (l_id loan))) (\<lambda>_.
        bind (update_many loan_table (\<lambda>l. l_id l = l_id loan \<and> l_collateral_released_at l = None)
                (\<lambda>l. l\<lparr>l_collateral_released_at := Some t,
                      l_collateral_release_reference := Some provider_reference\<rparr>)) (\<lambda>count.
        if count = 0
        then throw (OtherError (''release already stamped between read-check and update (loan_id='' @
               show_nat (l_id loan) @ '')''))
        else transition \<lparr>tp_loan_id = l_id loan, tp_user_id = l_user_id loan,
               tp_from_status = Some LoanStatus.REPAID, tp_to_status = LoanStatus.REPAID,
               tp_triggered_by = SYSTEM, tp_triggered_by_id = None,
               tp_reason_code = COLLATERAL_RELEASED, tp_reason_detail = None,
               tp_metadata = [(''amount_sat'', JInt (l_collateral_amount_sat loan)),
                 (''provider_reference'', JStr provider_reference), (''release_address'', JStr address)]\<rparr>)))) (\<lambda>_.
     bind (redis_del (COLLATERAL_RELEASE_ALERTED (l_id loan))) (\<lambda>_.
     notify (l_user_id loan) (CollateralReleasedMail (l_id loan) provider_reference))))"

definition release_locked :: "env \<Rightarrow> id \<Rightarrow> release_result service" where
  "release_locked V loan_id =
     bind (find_by_id loan_table loan_id) (\<lambda>found.
     case found of
       None \<Rightarrow> return (NotEligible ''loan_not_found'')
     | Some loan \<Rightarrow>
         if l_status loan \<noteq> LoanStatus.REPAID
         then return (NotEligible (''status='' @ LoanStatus_name (l_status loan)))
         else if l_collateral_released_at loan \<noteq> None
         then return (AlreadyReleased (l_collateral_release_reference loan))
         else (case present (l_collateral_release_address loan) of
                 None \<Rightarrow> return (NotEligible ''no_release_address'')
               | Some address \<Rightarrow>
                   bind (attempt
                     (bind (sendToLightningAddress V (l_id loan) address (l_collateral_amount_sat loan))
                        (\<lambda>reference. return (Inr reference)))
                     (\<lambda>e. bind (maybeAlertOps (l_id loan)) (\<lambda>_. return (Inl (err_message V e))))) (\<lambda>sent.
                   case sent of
                     Inl error \<Rightarrow> return (SendFailed error)
                   | Inr provider_reference \<Rightarrow>
                       attempt
                         (bind (stamp_release V loan address provider_reference)
                            (\<lambda>_. return (Released provider_reference)))
                         (\<lambda>e. bind (page_ops (ReleaseFailedAlert (l_id loan) True)) (\<lambda>_.
                              return (SendFailed (err_message V e)))))))"

definition releaseForLoan :: "env \<Rightarrow> id \<Rightarrow> release_result service" where
  "releaseForLoan V loan_id =
     bind (redis_setnx (COLLATERAL_RELEASE_LOCK loan_id) (VInt 1) RELEASE_LOCK_TTL_SEC) (\<lambda>acquired.
     if acquired then ensure (release_locked V loan_id) (redis_del (COLLATERAL_RELEASE_LOCK loan_id))
     else return InFlight)"

section \<open>The worker\<close>

definition MAX_LOANS_PER_CYCLE :: nat where "MAX_LOANS_PER_CYCLE = 50"

record release_tally =
  rt_released :: nat
  rt_already_released :: nat
  rt_in_flight :: nat
  rt_send_failed :: nat
  rt_not_eligible :: nat
  rt_errors :: nat

definition count_result :: "release_result \<Rightarrow> release_tally \<Rightarrow> release_tally" where
  "count_result r n = (case r of
     Released _ \<Rightarrow> n\<lparr>rt_released := Suc (rt_released n)\<rparr>
   | AlreadyReleased _ \<Rightarrow> n\<lparr>rt_already_released := Suc (rt_already_released n)\<rparr>
   | InFlight \<Rightarrow> n\<lparr>rt_in_flight := Suc (rt_in_flight n)\<rparr>
   | NotEligible _ \<Rightarrow> n\<lparr>rt_not_eligible := Suc (rt_not_eligible n)\<rparr>
   | SendFailed _ \<Rightarrow> n\<lparr>rt_send_failed := Suc (rt_send_failed n)\<rparr>)"

fun release_all :: "env \<Rightarrow> loan_row list \<Rightarrow> release_tally \<Rightarrow> release_tally service" where
  "release_all V [] n = return n"
| "release_all V (row # rows) n =
     bind (attempt (bind (releaseForLoan V (l_id row)) (\<lambda>r. return (count_result r n)))
             (\<lambda>_. return (n\<lparr>rt_errors := Suc (rt_errors n)\<rparr>))) (\<lambda>n'.
     release_all V rows n')"

definition awaits_release :: "loan_row \<Rightarrow> bool" where
  "awaits_release l \<longleftrightarrow> l_status l = LoanStatus.REPAID \<and> l_collateral_released_at l = None \<and>
     l_collateral_release_address l \<noteq> None"

definition runCollateralReleaseCycle :: "env \<Rightarrow> release_tally service" where
  "runCollateralReleaseCycle V =
     bind (find_many loan_table awaits_release) (\<lambda>rows.
     bind now (\<lambda>t.
     bind (redis_set (WORKER_HEARTBEAT ''collateral_release'') (VInt t)) (\<lambda>_.
     release_all V (take MAX_LOANS_PER_CYCLE (sort_key l_repaid_at rows)) \<lparr>rt_released = 0,
       rt_already_released = 0, rt_in_flight = 0, rt_send_failed = 0, rt_not_eligible = 0, rt_errors = 0\<rparr>)))"

section \<open>What a release sends\<close>

definition lightning_sends :: "world \<Rightarrow> effect list" where
  "lightning_sends w = filter (\<lambda>e. case e of LightningSend _ _ _ _ \<Rightarrow> True | _ \<Rightarrow> False) (w_outbox w)"

text \<open>The loans that a release may pay, and where to.\<close>

definition release_due :: "world \<Rightarrow> id \<Rightarrow> loan_row \<Rightarrow> string \<Rightarrow> bool" where
  "release_due w i l address \<longleftrightarrow>
     find_row l_id i (loans (w_db w)) = Some l \<and> l_status l = LoanStatus.REPAID \<and>
     l_collateral_released_at l = None \<and> l_collateral_release_address l = Some address \<and> address \<noteq> []"

lemma present_Some: "present x = Some y \<longleftrightarrow> x = Some y \<and> y \<noteq> []"
  by (auto simp: present_def split: option.splits)

lemma wp_send [wp_simps]:
  "wp (sendToLightningAddress V i address n) Q E w =
     (case e_send_lightning V w address n of
        Inl m \<Rightarrow> E (OtherError m) (w\<lparr>w_outbox := w_outbox w @ [LightningSend i address n (Inl m)]\<rparr>)
      | Inr r \<Rightarrow> Q r (w\<lparr>w_outbox := w_outbox w @ [LightningSend i address n (Inr r)]\<rparr>))"
  by (simp add: wp_def sendToLightningAddress_def Let_def run_defs emit_def split: sum.split)

lemma self_release_valid [simp]:
  "valid_transition LoanStatus.REPAID LoanStatus.REPAID COLLATERAL_RELEASED"
  by (simp add: valid_transition_def SELF_TRANSITION_REASONS_def)

text \<open>The stamp: it either writes the release on the loan, or leaves the database as it was.\<close>

definition mark_released :: "id \<Rightarrow> time \<Rightarrow> string \<Rightarrow> loan_row list \<Rightarrow> loan_row list" where
  "mark_released i t ref = update_where (\<lambda>l. l_id l = i \<and> l_collateral_released_at l = None)
     (\<lambda>l. l\<lparr>l_collateral_released_at := Some t, l_collateral_release_reference := Some ref\<rparr>)"

lemma stamp_release_run:
  assumes "find_row l_id (l_id loan) (loans (w_db w)) = Some loan" "l_collateral_released_at loan = None"
  shows "wp (stamp_release V loan address ref)
    (\<lambda>_ w'. w_clock w' = w_clock w \<and>
        w_redis w' = (w_redis w)(COLLATERAL_RELEASE_ALERTED (l_id loan) := None) \<and>
        w_outbox w' = w_outbox w @ [MailSent (l_user_id loan) (CollateralReleasedMail (l_id loan) ref)] \<and>
        loans (w_db w') = mark_released (l_id loan) (w_clock w) ref (loans (w_db w)) \<and>
        \<not> e_fault V (ReleaseStampFault (l_id loan)) w)
    (\<lambda>_ w'. w' = w \<and> e_fault V (ReleaseStampFault (l_id loan)) w) w"
proof -
  have "filter (\<lambda>l. l_id l = l_id loan \<and> l_collateral_released_at l = None) (loans (w_db w)) \<noteq> []"
    using assms(1,2) find_row_in_set[OF assms(1)] by (auto simp: filter_empty_conv)
  then show ?thesis
    by (simp add: stamp_release_def wp_simps wp_transition mark_released_def)
qed

text \<open>The three ways an attempt on a loan that is due can end.\<close>

inductive release_ends :: "env \<Rightarrow> loan_row \<Rightarrow> string \<Rightarrow> world \<Rightarrow> release_result \<Rightarrow> world \<Rightarrow> bool" for V l a w where
  refused: "\<lbrakk>w_outbox w' = w_outbox w @ LightningSend (l_id l) a (l_collateral_amount_sat l) (Inl m) # alerts;
     alerts = (if live w (COLLATERAL_RELEASE_ALERTED (l_id l)) = None
               then [OpsAlerted (ReleaseFailedAlert (l_id l) False)] else []);
     w_db w' = w_db w; w_clock w' = w_clock w;
     e_send_lightning V w a (l_collateral_amount_sat l) = Inl m\<rbrakk> \<Longrightarrow> release_ends V l a w (SendFailed m) w'"
| not_stamped: "\<lbrakk>w_outbox w' = w_outbox w @ [LightningSend (l_id l) a (l_collateral_amount_sat l) (Inr ref),
       OpsAlerted (ReleaseFailedAlert (l_id l) True)];
     w_db w' = w_db w; w_clock w' = w_clock w; e_send_lightning V w a (l_collateral_amount_sat l) = Inr ref;
     e_fault V (ReleaseStampFault (l_id l)) (w\<lparr>w_outbox := w_outbox w @
       [LightningSend (l_id l) a (l_collateral_amount_sat l) (Inr ref)]\<rparr>)\<rbrakk> \<Longrightarrow>
     release_ends V l a w (SendFailed m) w'"
| stamped: "\<lbrakk>w_outbox w' = w_outbox w @ [LightningSend (l_id l) a (l_collateral_amount_sat l) (Inr ref),
       MailSent (l_user_id l) (CollateralReleasedMail (l_id l) ref)];
     loans (w_db w') = mark_released (l_id l) (w_clock w) ref (loans (w_db w)); w_clock w' = w_clock w;
     e_send_lightning V w a (l_collateral_amount_sat l) = Inr ref;
     \<not> e_fault V (ReleaseStampFault (l_id l)) (w\<lparr>w_outbox := w_outbox w @
       [LightningSend (l_id l) a (l_collateral_amount_sat l) (Inr ref)]\<rparr>)\<rbrakk> \<Longrightarrow>
     release_ends V l a w (Released ref) w'"

inductive_cases release_endsE: "release_ends V l a w r w'"

lemma release_locked_due:
  assumes "release_due w i l a"
  shows "wp (release_locked V i) (release_ends V l a w) (\<lambda>_ _. False) w"
proof -
  have l: "find_row l_id i (loans (w_db w)) = Some l" "l_status l = LoanStatus.REPAID"
    "l_collateral_released_at l = None" "present (l_collateral_release_address l) = Some a"
    using assms by (simp_all add: release_due_def present_Some)
  have id: "l_id l = i" using find_row_key[OF l(1)] .
  show ?thesis
  proof (cases "e_send_lightning V w a (l_collateral_amount_sat l)")
    case (Inl m)
    then show ?thesis
      using l by (auto simp: release_locked_def wp_simps maybeAlertOps_def id err_message_def
          intro!: refused)
  next
    case (Inr ref)
    let ?v = "w\<lparr>w_outbox := w_outbox w @ [LightningSend i a (l_collateral_amount_sat l) (Inr ref)]\<rparr>"
    have s: "find_row l_id (l_id l) (loans (w_db ?v)) = Some l" using l id by simp
    have "wp (stamp_release V l a ref) (\<lambda>_. release_ends V l a w (Released ref))
        (\<lambda>e. wp (page_ops (ReleaseFailedAlert i True)) (\<lambda>_. release_ends V l a w (SendFailed (err_message V e)))
               (\<lambda>_ _. False)) ?v"
      by (rule wp_mono[OF stamp_release_run[OF s l(3)]])
         (use Inr in \<open>auto simp: wp_simps id intro!: not_stamped stamped\<close>)
    then show ?thesis
      using l Inr by (simp add: release_locked_def wp_simps id) (erule wp_mono, simp_all add: wp_simps)
  qed
qed

lemma release_locked_not_due:
  assumes "\<nexists>l a. release_due w i l a"
  shows "\<exists>r. release_locked V i w = (Inr r, w) \<and> (\<forall>ref. r \<noteq> Released ref) \<and> (\<forall>m. r \<noteq> SendFailed m) \<and> r \<noteq> InFlight"
  using assms
  by (cases "find_row l_id i (loans (w_db w))")
     (auto simp: release_locked_def run_defs find_by_id_def release_due_def present_def split: option.split)

lemma wp_releaseForLoan:
  "wp (releaseForLoan V i) Q E w =
     (if live w (COLLATERAL_RELEASE_LOCK i) = None
      then wp (release_locked V i)
             (\<lambda>r w'. Q r (w'\<lparr>w_redis := (w_redis w')(COLLATERAL_RELEASE_LOCK i := None)\<rparr>))
             (\<lambda>e w'. E e (w'\<lparr>w_redis := (w_redis w')(COLLATERAL_RELEASE_LOCK i := None)\<rparr>))
             (set_key (COLLATERAL_RELEASE_LOCK i) (VInt 1) (Some (w_clock w + RELEASE_LOCK_TTL_SEC * 1000)) w)
      else Q InFlight w)"
  by (simp add: releaseForLoan_def wp_simps wp_redis_del_fun)

lemma release_due_locked [simp]: "release_due (set_key k v t w) i l a = release_due w i l a"
  by (simp add: release_due_def)

text \<open>Every run is one of three: the lock is taken, the loan is not due, or it is due and one of
  the three endings happens under the lock, which is free afterwards.\<close>

definition under_lock :: "id \<Rightarrow> world \<Rightarrow> world" where
  "under_lock i w =
     set_key (COLLATERAL_RELEASE_LOCK i) (VInt 1) (Some (w_clock w + RELEASE_LOCK_TTL_SEC * 1000)) w"

definition unlocked :: "id \<Rightarrow> world \<Rightarrow> world" where
  "unlocked i w = w\<lparr>w_redis := (w_redis w)(COLLATERAL_RELEASE_LOCK i := None)\<rparr>"

lemma lock_fields [simp]:
  "w_db (under_lock i w) = w_db w" "w_outbox (under_lock i w) = w_outbox w" "w_clock (under_lock i w) = w_clock w"
  "w_db (unlocked i w) = w_db w" "w_outbox (unlocked i w) = w_outbox w" "w_clock (unlocked i w) = w_clock w"
  "w_redis (unlocked i w) (COLLATERAL_RELEASE_LOCK i) = None" "release_due (under_lock i w) j l a = release_due w j l a"
  by (simp_all add: under_lock_def unlocked_def)

lemma release_cases:
  obtains (busy) "releaseForLoan V i w = (Inr InFlight, w)" "live w (COLLATERAL_RELEASE_LOCK i) \<noteq> None"
  | (not_due) r where "releaseForLoan V i w = (Inr r, unlocked i (under_lock i w))" "\<And>ref. r \<noteq> Released ref"
      "\<And>m. r \<noteq> SendFailed m" "\<And>l a. \<not> release_due w i l a"
  | (due) l a r v where "releaseForLoan V i w = (Inr r, unlocked i v)" "release_due w i l a" "l_id l = i"
      "release_ends V l a (under_lock i w) r v" "live w (COLLATERAL_RELEASE_LOCK i) = None"
proof (cases "live w (COLLATERAL_RELEASE_LOCK i)")
  case (Some x)
  then show ?thesis by (intro busy) (simp_all add: releaseForLoan_def run_defs redis_setnx_def)
next
  case None
  then have run: "releaseForLoan V i w =
      (case release_locked V i (under_lock i w) of (r, v) \<Rightarrow> (r, unlocked i v))"
    by (simp add: releaseForLoan_def run_defs redis_setnx_def redis_del_def under_lock_def unlocked_def
        split: prod.split)
  show ?thesis
  proof (cases "\<exists>l a. release_due w i l a")
    case True
    then obtain l a where d: "release_due w i l a" by blast
    then have "wp (release_locked V i) (release_ends V l a (under_lock i w)) (\<lambda>_ _. False) (under_lock i w)"
      by (intro release_locked_due) simp
    from wp_runD[OF this] show ?thesis
      using d None by (auto simp: run release_due_def intro!: due[OF _ d] dest: find_row_key)
  next
    case False
    then obtain r where "release_locked V i (under_lock i w) = (Inr r, under_lock i w)"
      "\<forall>ref. r \<noteq> Released ref" "\<forall>m. r \<noteq> SendFailed m"
      using release_locked_not_due[of "under_lock i w" i V] by auto
    then show ?thesis using False by (intro not_due) (auto simp: run)
  qed
qed

text \<open>C8. A release attempt sends SAT at most once, only while it holds the loan's lock, and only
  for a loan that is repaid, not yet released and has an address: then the amount is exactly
  the loan's collateral and the address the loan's own. It never raises, and it reports a
  release only when the provider accepted the payment.\<close>

theorem release_pays_what_is_due:
  "\<exists>r w'. releaseForLoan V i w = (Inr r, w') \<and>
     ((lightning_sends w' = lightning_sends w \<and> (\<forall>ref. r \<noteq> Released ref)) \<or>
      (\<exists>l a answer. release_due w i l a \<and> live w (COLLATERAL_RELEASE_LOCK i) = None \<and>
         lightning_sends w' = lightning_sends w @ [LightningSend i a (l_collateral_amount_sat l) answer] \<and>
         (\<forall>ref. r = Released ref \<longrightarrow> answer = Inr ref)))"
proof (cases rule: release_cases[of V i w])
  case busy
  then show ?thesis by simp
next
  case (not_due r)
  then show ?thesis by (simp add: lightning_sends_def)
next
  case (due l a r v)
  have "\<exists>answer. lightning_sends v = lightning_sends w @ [LightningSend i a (l_collateral_amount_sat l) answer] \<and>
      (\<forall>ref. r = Released ref \<longrightarrow> answer = Inr ref)"
    using due(4) by (cases rule: release_endsE) (auto simp: lightning_sends_def due(3))
  then show ?thesis using due by (auto simp: lightning_sends_def)
qed

lemma mark_released_found:
  assumes "unique_keys l_id ls" "find_row l_id i ls = Some l" "l_collateral_released_at l = None"
  shows "find_row l_id i (mark_released i t ref ls) =
    Some (l\<lparr>l_collateral_released_at := Some t, l_collateral_release_reference := Some ref\<rparr>)"
  using assms by (induction ls) (auto simp: mark_released_def update_where_def unique_keys_def)

lemma release_stamped_again:
  assumes "find_row l_id i (loans (w_db v)) = Some l" "l_status l = LoanStatus.REPAID"
    and "l_collateral_released_at l \<noteq> None" "live v (COLLATERAL_RELEASE_LOCK i) = None"
  shows "wp (releaseForLoan V i) (\<lambda>r v'. r = AlreadyReleased (l_collateral_release_reference l) \<and>
      w_outbox v' = w_outbox v \<and> w_db v' = w_db v) (\<lambda>_ _. False) v"
  using assms by (simp add: wp_releaseForLoan release_locked_def wp_simps)

lemma released_state:
  assumes "wf_table loan_table w" "releaseForLoan V i w = (Inr (Released ref), w')"
  shows "\<exists>l. find_row l_id i (loans (w_db w')) = Some l \<and> l_status l = LoanStatus.REPAID \<and>
    l_collateral_released_at l \<noteq> None \<and> l_collateral_release_reference l = Some ref \<and>
    w_redis w' (COLLATERAL_RELEASE_LOCK i) = None"
proof (cases rule: release_cases[of V i w])
  case (due l a r v)
  have u: "unique_keys l_id (loans (w_db w))" using assms(1) by (simp add: wf_table_def)
  have "release_ends V l a (under_lock i w) (Released ref) v" "w' = unlocked i v" using due assms(2) by auto
  then have "loans (w_db w') = mark_released i (w_clock w) ref (loans (w_db w))"
    by (cases rule: release_endsE) (auto simp: due(3))
  then show ?thesis
    using mark_released_found[OF u, of i l "w_clock w" ref] due(2) \<open>w' = unlocked i v\<close>
    by (auto simp: release_due_def)
qed (use assms(2) in auto)

definition repaid_loan :: loan_row where
  "repaid_loan = \<lparr>l_id = 3, l_user_id = 7, l_disbursement_account_id = 1, l_collateral_amount_sat = 208334,
     l_ltv_percent = 6 / 10, l_principal_ngn = 100000, l_origination_fee_ngn = 0,
     l_daily_interest_rate_bps = 30, l_daily_custody_fee_ngn = 0, l_initial_collateral_usd = 100,
     l_sat_ngn_rate_at_creation = 8 / 10, l_status = LoanStatus.REPAID,
     l_collateral_received_at = Some 0, l_disbursement_id = None, l_repayment_method = Some NGN,
     l_repayment_reference = Some 4, l_repaid_at = Some 86400000,
     l_collateral_release_address = Some ''me'', l_collateral_released_at = None,
     l_collateral_release_reference = None, l_liquidated_at = None, l_liquidation_reference = None,
     l_liquidation_rate_actual = None, l_surplus_released_sat = None, l_terms_accepted_at = 0,
     l_created_at = 0\<rparr>"

definition repaid_world :: world where
  "repaid_world = empty_world\<lparr>w_db := empty_db\<lparr>loans := [repaid_loan], next_id := 8\<rparr>\<rparr>"

lemma repaid_world_due: "release_due repaid_world 3 repaid_loan ''me''" "wf_table loan_table repaid_world"
    "live repaid_world k = None"
  by (simp_all add: release_due_def repaid_world_def repaid_loan_def empty_world_def empty_db_def live_def
      wf_table_def unique_keys_def loan_table_def)

theorem release_pays_what_is_due_witness:
  "\<exists>r w'. releaseForLoan toy_env 3 repaid_world = (Inr r, w') \<and> length (lightning_sends w') \<le> 1"
proof -
  have "lightning_sends repaid_world = []" by (simp add: lightning_sends_def repaid_world_def empty_world_def)
  then show ?thesis using release_pays_what_is_due[of toy_env 3 repaid_world] by auto
qed

lemma failed_stamp:
  assumes "release_due w i l a" "live w (COLLATERAL_RELEASE_LOCK i) = None"
    and "\<forall>v. e_send_lightning V v a (l_collateral_amount_sat l) = Inr ref"
    and "\<forall>v. e_fault V (ReleaseStampFault i) v"
  shows "\<exists>m w'. releaseForLoan V i w = (Inr (SendFailed m), w') \<and> release_due w' i l a \<and>
    live w' (COLLATERAL_RELEASE_LOCK i) = None \<and>
    w_outbox w' = w_outbox w @ [LightningSend i a (l_collateral_amount_sat l) (Inr ref),
       OpsAlerted (ReleaseFailedAlert i True)]"
proof (cases rule: release_cases[of V i w])
  case (due l' a' r v)
  have same: "l' = l" "a' = a" using due(2) assms(1) by (auto simp: release_due_def)
  have "w_db v = w_db w \<and> (\<exists>m. r = SendFailed m) \<and> w_outbox v = w_outbox w @
      [LightningSend i a (l_collateral_amount_sat l) (Inr ref), OpsAlerted (ReleaseFailedAlert i True)]"
    using due(4) by (cases rule: release_endsE) (use assms(3,4) due(3) same in auto)
  then show ?thesis using due(1) assms(1) by (auto simp: release_due_def live_def)
qed (use assms in auto)

text \<open>When the provider accepts the payment but the release cannot be stamped, the attempt
  reports a failed send, frees the lock and leaves the loan due, so that the next attempt pays
  the same collateral a second time. Operators are paged each time; nothing stops the second
  payment.\<close>

theorem failed_stamp_pays_again:
  assumes "release_due w i l a" and "live w (COLLATERAL_RELEASE_LOCK i) = None"
    and "\<forall>v. e_send_lightning V v a (l_collateral_amount_sat l) = Inr ref"
    and "\<forall>v. e_fault V (ReleaseStampFault i) v"
  shows "\<exists>m m' w1 w2. releaseForLoan V i w = (Inr (SendFailed m), w1) \<and>
    releaseForLoan V i w1 = (Inr (SendFailed m'), w2) \<and>
    lightning_sends w2 = lightning_sends w @
      replicate 2 (LightningSend i a (l_collateral_amount_sat l) (Inr ref))"
proof -
  obtain m w1 where 1: "releaseForLoan V i w = (Inr (SendFailed m), w1)" "release_due w1 i l a"
    "live w1 (COLLATERAL_RELEASE_LOCK i) = None"
    "w_outbox w1 = w_outbox w @ [LightningSend i a (l_collateral_amount_sat l) (Inr ref),
       OpsAlerted (ReleaseFailedAlert i True)]"
    using failed_stamp[OF assms] by blast
  obtain m' w2 where 2: "releaseForLoan V i w1 = (Inr (SendFailed m'), w2)"
    "w_outbox w2 = w_outbox w1 @ [LightningSend i a (l_collateral_amount_sat l) (Inr ref),
       OpsAlerted (ReleaseFailedAlert i True)]"
    using failed_stamp[OF 1(2,3) assms(3,4)] by blast
  show ?thesis using 1 2 by (auto simp: lightning_sends_def numeral_2_eq_2)
qed

theorem failed_stamp_pays_again_witness:
  "\<exists>w1 w2. w1 = final (releaseForLoan (toy_env\<lparr>e_fault := \<lambda>_ _. True\<rparr>) 3) repaid_world \<and>
     w2 = final (releaseForLoan (toy_env\<lparr>e_fault := \<lambda>_ _. True\<rparr>) 3) w1 \<and>
     lightning_sends w2 = replicate 2 (LightningSend 3 ''me'' 208334 (Inr ''paid''))"
proof -
  let ?V = "toy_env\<lparr>e_fault := \<lambda>_ _. True\<rparr>"
  have "\<exists>m m' w1 w2. releaseForLoan ?V 3 repaid_world = (Inr (SendFailed m), w1) \<and>
    releaseForLoan ?V 3 w1 = (Inr (SendFailed m'), w2) \<and>
    lightning_sends w2 = lightning_sends repaid_world @
      replicate 2 (LightningSend 3 ''me'' (l_collateral_amount_sat repaid_loan) (Inr ''paid''))"
    by (rule failed_stamp_pays_again[OF repaid_world_due(1,3)]) (simp_all add: toy_env_def)
  then show ?thesis
    by (auto simp: lightning_sends_def repaid_world_def repaid_loan_def empty_world_def)
qed

section \<open>The worker's sweep\<close>

definition tally_total :: "release_tally \<Rightarrow> nat" where
  "tally_total n = rt_released n + rt_already_released n + rt_in_flight n + rt_send_failed n +
     rt_not_eligible n + rt_errors n"

lemma count_result_total [simp]:
  "tally_total (count_result r n) = Suc (tally_total n)" "rt_errors (count_result r n) = rt_errors n"
  by (cases r; simp add: count_result_def tally_total_def)+

lemma releaseForLoan_returns: "\<exists>r w'. releaseForLoan V i w = (Inr r, w')"
  by (cases rule: release_cases[of V i w]) auto

lemma release_all_total:
  "\<exists>n' w'. release_all V rows n w = (Inr n', w') \<and> tally_total n' = tally_total n + length rows \<and>
     rt_errors n' = rt_errors n"
proof (induction rows arbitrary: n w)
  case Nil
  then show ?case by (simp add: return_def)
next
  case (Cons row rows)
  obtain r v where r: "releaseForLoan V (l_id row) w = (Inr r, v)" using releaseForLoan_returns by blast
  from Cons.IH[of "count_result r n" v] r show ?case
    by (auto simp: bind_def attempt_def return_def)
qed

text \<open>One tick of the safety-net worker never fails, records its heartbeat, and accounts for
  every loan it took up: the outcomes it counts add up to the number of loans awaiting their
  release, up to fifty a tick.\<close>

theorem release_cycle_accounts:
  "\<exists>n w'. runCollateralReleaseCycle V w = (Inr n, w') \<and> rt_errors n = 0 \<and>
     tally_total n = min 50 (length (filter awaits_release (loans (w_db w))))"
proof -
  let ?rows = "take MAX_LOANS_PER_CYCLE (sort_key l_repaid_at (filter awaits_release (loans (w_db w))))"
  let ?zero = "\<lparr>rt_released = 0, rt_already_released = 0, rt_in_flight = 0, rt_send_failed = 0,
    rt_not_eligible = 0, rt_errors = 0\<rparr>"
  have "\<exists>n w'. release_all V ?rows ?zero (set_key (WORKER_HEARTBEAT ''collateral_release'') (VInt (w_clock w)) None w)
      = (Inr n, w') \<and> tally_total n = tally_total ?zero + length ?rows \<and> rt_errors n = rt_errors ?zero"
    by (rule release_all_total)
  then show ?thesis
    by (auto simp: runCollateralReleaseCycle_def run_defs store_defs tally_total_def MAX_LOANS_PER_CYCLE_def
        min.commute)
qed

end
