(* ===== verification/LoanRepayments.thy ===== *)
theory LoanRepayments
  imports Accrual Display CollateralRelease
begin

text \<open>
  The repayment half of \<open>modules/loans/loans.service.ts\<close>: crediting an inflow to a loan
  through the waterfall, the customer's claims, and the matching rules the collection webhook
  asks for.
\<close>

definition CLAIM_INFLOW_WINDOW_MS :: int where "CLAIM_INFLOW_WINDOW_MS = 24 * 60 * 60 * 1000"

section \<open>What a loan owes\<close>

definition accrual_loan_of :: "loan_row \<Rightarrow> accrual_loan" where
  "accrual_loan_of l = \<lparr>al_principal_ngn = l_principal_ngn l,
     al_daily_interest_rate_bps = l_daily_interest_rate_bps l,
     al_daily_custody_fee_ngn = l_daily_custody_fee_ngn l,
     al_collateral_received_at = l_collateral_received_at l\<rparr>"

definition toAccrualRepayment :: "repayment_row \<Rightarrow> accrual_repayment" where
  "toAccrualRepayment r = \<lparr>ar_applied_to_principal = rep_applied_to_principal r,
     ar_applied_to_interest = rep_applied_to_interest r,
     ar_applied_to_custody = rep_applied_to_custody r, ar_created_at = rep_created_at r\<rparr>"

definition ledger_of :: "id \<Rightarrow> world \<Rightarrow> repayment_row list" where
  "ledger_of loan_id w = sort_key rep_created_at (filter (\<lambda>r. rep_loan_id r = loan_id) (repayments (w_db w)))"

definition outstanding_at :: "decimals \<Rightarrow> loan_row \<Rightarrow> world \<Rightarrow> outstanding" where
  "outstanding_at D l w =
     compute D (accrual_loan_of l) (map toAccrualRepayment (ledger_of (l_id l) w)) (w_clock w)"

section \<open>The waterfall\<close>

record split =
  sp_custody :: money
  sp_interest :: money
  sp_principal :: money
  sp_overpay :: money

definition waterfall :: "decimals \<Rightarrow> money \<Rightarrow> outstanding \<Rightarrow> split" where
  "waterfall D amount owed =
     (let custody = min amount (o_accrued_custody_ngn owed);
          remaining1 = dminus D amount custody;
          interest = min remaining1 (o_accrued_interest_ngn owed);
          remaining2 = dminus D remaining1 interest;
          principal = min remaining2 (o_principal_ngn owed);
          remaining3 = dminus D remaining2 principal
      in \<lparr>sp_custody = custody, sp_interest = interest, sp_principal = principal, sp_overpay = remaining3\<rparr>)"

section \<open>Crediting an inflow\<close>

record credit_params =
  cp_inflow_id :: id
  cp_loan_id :: id
  cp_amount_ngn :: money
  cp_match_method :: MatchMethod
  cp_skip_floor :: bool

record credit_result =
  crr_loan_id :: id
  crr_new_status :: LoanStatus
  crr_applied_to_custody :: string
  crr_applied_to_interest :: string
  crr_applied_to_principal :: string
  crr_overpay_ngn :: string
  crr_outstanding_ngn :: string

text \<open>The text of \<open>toFixed(2)\<close> of a value.\<close>

definition show_fixed2 :: "decimals \<Rightarrow> rat \<Rightarrow> string" where
  "show_fixed2 D x =
     (let cents = \<lfloor>\<bar>d_fixed D 2 x\<bar> * 100\<rfloor>
      in (if d_fixed D 2 x < 0 then ''-'' else []) @ show_int (cents div 100) @ ''.'' @
         pad_zeros 2 (show_int (cents mod 100)))"

definition MatchMethod_name :: "MatchMethod \<Rightarrow> string" where
  "MatchMethod_name m = (case m of AUTO_AMOUNT \<Rightarrow> ''AUTO_AMOUNT'' | CUSTOMER_CLAIM \<Rightarrow> ''CUSTOMER_CLAIM''
     | OPS_MANUAL \<Rightarrow> ''OPS_MANUAL'')"

definition split_metadata :: "decimals \<Rightarrow> credit_params \<Rightarrow> split \<Rightarrow> string \<times> money \<Rightarrow> (string \<times> json_value) list" where
  "split_metadata D p sp entry =
     [(''match_method'', JStr (MatchMethod_name (cp_match_method p))),
      (''applied_to_principal'', JStr (show_fixed2 D (sp_principal sp))),
      (''applied_to_interest'', JStr (show_fixed2 D (sp_interest sp))),
      (''applied_to_custody'', JStr (show_fixed2 D (sp_custody sp))),
      (fst entry, JStr (show_fixed2 D (snd entry)))]"

definition new_repayment :: "decimals \<Rightarrow> credit_params \<Rightarrow> split \<Rightarrow> time \<Rightarrow> id \<Rightarrow> repayment_row" where
  "new_repayment D p sp t i =
     \<lparr>rep_id = i, rep_loan_id = cp_loan_id p, rep_inflow_id = cp_inflow_id p,
      rep_amount_ngn = d_col D 2 (cp_amount_ngn p),
      rep_applied_to_principal = d_col D 2 (sp_principal sp),
      rep_applied_to_interest = d_col D 2 (sp_interest sp),
      rep_applied_to_custody = d_col D 2 (sp_custody sp), rep_overpay_ngn = d_col D 2 (sp_overpay sp),
      rep_match_method = cp_match_method p, rep_created_at = t\<rparr>"

definition mark_credited :: "credit_params \<Rightarrow> time \<Rightarrow> inflow_row \<Rightarrow> inflow_row" where
  "mark_credited p t i = i\<lparr>in_is_matched := True, in_matched_at := Some t,
     in_source_type := Some SOURCE_LOAN_REPAYMENT, in_source_id := Some (cp_loan_id p)\<rparr>"

definition mark_repaid :: "credit_params \<Rightarrow> time \<Rightarrow> loan_row \<Rightarrow> loan_row" where
  "mark_repaid p t l = l\<lparr>l_repaid_at := Some t, l_repayment_method := Some NGN,
     l_repayment_reference := Some (cp_inflow_id p)\<rparr>"

definition close_loan :: "decimals \<Rightarrow> credit_params \<Rightarrow> loan_row \<Rightarrow> split \<Rightarrow> time \<Rightarrow> unit service" where
  "close_loan D p loan sp t =
     bind (update_by_id loan_table (cp_loan_id p) (mark_repaid p t)) (\<lambda>_.
     transition_from loan LoanStatus.REPAID CUSTOMER REPAYMENT_COMPLETED
       (if sp_overpay sp > 0
        then Some (''Repayment closed loan with overpay '' @ show_fixed2 D (sp_overpay sp)) else None)
       (split_metadata D p sp (''overpay_ngn'', sp_overpay sp)))"

definition credit_active :: "decimals \<Rightarrow> credit_params \<Rightarrow> loan_row \<Rightarrow> (credit_result \<times> (id \<times> bool) option) service" where
  "credit_active D p loan =
     bind now (\<lambda>t.
     bind (gets (outstanding_at D loan)) (\<lambda>owed.
     let sp = waterfall D (cp_amount_ngn p) owed in
     bind (create_row repayment_table (new_repayment D p sp t)) (\<lambda>_.
     bind (update_by_id inflow_table (cp_inflow_id p) (mark_credited p t)) (\<lambda>_.
     let remaining = dminus D (dminus D (dminus D (o_total_outstanding_ngn owed) (sp_custody sp))
                       (sp_interest sp)) (sp_principal sp);
         is_fully_repaid = remaining \<le> 0
     in bind (if is_fully_repaid then close_loan D p loan sp t
              else transition_from loan LoanStatus.ACTIVE CUSTOMER REPAYMENT_PARTIAL_NGN None
                     (split_metadata D p sp (''remaining_ngn'', remaining))) (\<lambda>_.
     return (\<lparr>crr_loan_id = cp_loan_id p,
              crr_new_status = (if is_fully_repaid then LoanStatus.REPAID else LoanStatus.ACTIVE),
              crr_applied_to_custody = displayNgn (sp_custody sp) ceil_mode,
              crr_applied_to_interest = displayNgn (sp_interest sp) ceil_mode,
              crr_applied_to_principal = displayNgn (sp_principal sp) ceil_mode,
              crr_overpay_ngn = displayNgn (sp_overpay sp) floor_mode,
              crr_outstanding_ngn = displayNgn (max remaining 0) ceil_mode\<rparr>,
             Some (l_user_id loan, is_fully_repaid)))))))"

definition credit_tx :: "decimals \<Rightarrow> credit_params \<Rightarrow> (credit_result \<times> (id \<times> bool) option) service" where
  "credit_tx D p =
     bind (find_by_id loan_table (cp_loan_id p)) (\<lambda>locked.
     case locked of
       None \<Rightarrow> throw (LoanE LoanNotFoundException)
     | Some loan \<Rightarrow>
         if l_status loan = LoanStatus.REPAID
         then return (\<lparr>crr_loan_id = l_id loan, crr_new_status = l_status loan,
                crr_applied_to_custody = ''0'', crr_applied_to_interest = ''0'',
                crr_applied_to_principal = ''0'', crr_overpay_ngn = ''0'', crr_outstanding_ngn = ''0''\<rparr>, None)
         else if l_status loan \<noteq> LoanStatus.ACTIVE
         then throw (LoanE (LoanNotActiveException (l_status loan)))
         else credit_active D p loan)"

definition send_receipt :: "credit_params \<Rightarrow> credit_result \<times> (id \<times> bool) option \<Rightarrow> credit_result service" where
  "send_receipt p outcome =
     (case snd outcome of
        None \<Rightarrow> return (fst outcome)
      | Some (user_id, is_fully_repaid) \<Rightarrow>
          bind (notify user_id (RepaymentMail (crr_loan_id (fst outcome)) (cp_amount_ngn p) is_fully_repaid)) (\<lambda>_.
          bind (if is_fully_repaid then spawn (ReleaseForLoan (crr_loan_id (fst outcome))) else return ()) (\<lambda>_.
          return (fst outcome))))"

definition creditInflow :: "decimals \<Rightarrow> credit_params \<Rightarrow> credit_result service" where
  "creditInflow D p =
     bind (require (cp_skip_floor p \<or> \<not> cp_amount_ngn p < MIN_PARTIAL_REPAYMENT_NGN)
             (InflowE (InflowBelowFloorException (displayNgn (cp_amount_ngn p) ceil_mode)
                         (displayNgn MIN_PARTIAL_REPAYMENT_NGN ceil_mode)))) (\<lambda>_.
     bind (transaction (credit_tx D p)) (send_receipt p))"

section \<open>Claims\<close>

definition untrusted :: "inflow_row \<Rightarrow> bool" where
  "untrusted i =
     (case in_provider_response i of
        None \<Rightarrow> False
      | Some r \<Rightarrow> resp_unmatched_reason r \<in> {Some requery_mismatch, Some requery_unconfirmed, Some credit_failed})"

definition own_active_loan :: "id \<Rightarrow> id \<Rightarrow> loan_row service" where
  "own_active_loan user_id loan_id =
     bind (find_first loan_table (\<lambda>l. l_id l = loan_id \<and> l_user_id l = user_id)) (\<lambda>found.
     bind (the_or_throw (LoanE LoanNotFoundException) found) (\<lambda>loan.
     bind (require (l_status loan = LoanStatus.ACTIVE) (LoanE (LoanNotActiveException (l_status loan)))) (\<lambda>_.
     return loan)))"

definition applyInflowToLoan :: "decimals \<Rightarrow> id \<Rightarrow> id \<Rightarrow> id \<Rightarrow> credit_result service" where
  "applyInflowToLoan D user_id inflow_id loan_id =
     bind (own_active_loan user_id loan_id) (\<lambda>_.
     bind (find_first inflow_table (\<lambda>i. in_id i = inflow_id \<and> in_user_id i = Some user_id \<and>
             in_currency i = CUR_NGN)) (\<lambda>found.
     bind (the_or_throw (InflowE InflowNotFoundException) found) (\<lambda>inflow.
     bind (require (\<not> in_is_matched inflow)
             (InflowE (InflowAlreadyMatchedException (in_matched_at inflow) (in_source_id inflow)))) (\<lambda>_.
     bind (require (\<not> untrusted inflow) (InflowE InflowNotFoundException)) (\<lambda>_.
     creditInflow D \<lparr>cp_inflow_id = inflow_id, cp_loan_id = loan_id, cp_amount_ngn = in_amount inflow,
       cp_match_method = CUSTOMER_CLAIM, cp_skip_floor = True\<rparr>)))))"

definition claimInflow :: "decimals \<Rightarrow> id \<Rightarrow> id \<Rightarrow> credit_result service" where
  "claimInflow D user_id loan_id =
     bind (own_active_loan user_id loan_id) (\<lambda>_.
     bind now (\<lambda>t.
     bind (find_many inflow_table (\<lambda>i. in_user_id i = Some user_id \<and> \<not> in_is_matched i \<and>
             in_source_type i = None \<and> in_currency i = CUR_NGN \<and>
             t - CLAIM_INFLOW_WINDOW_MS \<le> in_created_at i \<and>
             MIN_PARTIAL_REPAYMENT_NGN \<le> in_amount i)) (\<lambda>rows.
     bind (the_or_throw (InflowE NoUnmatchedInflowException) (latest_by in_created_at rows)) (\<lambda>candidate.
     applyInflowToLoan D user_id (in_id candidate) loan_id))))"

section \<open>Matching by amount\<close>

datatype tiebreaker = unique_match | oldest_match

definition active_loans_of :: "id \<Rightarrow> world \<Rightarrow> loan_row list" where
  "active_loans_of user_id w =
     filter (\<lambda>l. l_user_id l = user_id \<and> l_status l = LoanStatus.ACTIVE) (loans (w_db w))"

definition findActiveLoanMatchingOutstanding :: "decimals \<Rightarrow> id \<Rightarrow> money \<Rightarrow> (id \<times> tiebreaker) option service" where
  "findActiveLoanMatchingOutstanding D user_id amount_ngn = gets (\<lambda>w.
     case sort_key l_created_at (filter (\<lambda>l.
            \<bar>dminus D (o_total_outstanding_ngn (outstanding_at D l w)) amount_ngn\<bar>
              \<le> INFLOW_OUTSTANDING_MATCH_TOLERANCE_NGN)
            (sort_key l_created_at (active_loans_of user_id w))) of
       [] \<Rightarrow> None
     | [m] \<Rightarrow> Some (l_id m, unique_match)
     | m # _ \<Rightarrow> Some (l_id m, oldest_match))"

definition amountClosesAnyActiveLoan :: "decimals \<Rightarrow> id \<Rightarrow> money \<Rightarrow> bool service" where
  "amountClosesAnyActiveLoan D user_id amount_ngn = gets (\<lambda>w.
     list_ex (\<lambda>l. dminus D (o_total_outstanding_ngn (outstanding_at D l w))
                    INFLOW_OUTSTANDING_MATCH_TOLERANCE_NGN \<le> amount_ngn) (active_loans_of user_id w))"

datatype claim_status = CLAIMABLE | BELOW_MINIMUM

record unmatched_item =
  ui_id :: id
  ui_amount_ngn :: string
  ui_received_at :: time
  ui_payer_name :: "string option"
  ui_payer_bank_name :: "string option"
  ui_received_via :: string
  ui_status :: claim_status

definition unmatched_item_of :: "inflow_row \<Rightarrow> unmatched_item" where
  "unmatched_item_of i =
     \<lparr>ui_id = in_id i, ui_amount_ngn = displayNgn (in_amount i) ceil_mode, ui_received_at = in_created_at i,
      ui_payer_name = Option.bind (in_provider_response i) resp_payer_name,
      ui_payer_bank_name = Option.bind (in_provider_response i) resp_payer_bank_name,
      ui_received_via = in_receiving_address i,
      ui_status = (if in_amount i < MIN_PARTIAL_REPAYMENT_NGN then BELOW_MINIMUM else CLAIMABLE)\<rparr>"

definition listUnmatchedInflowsForUser :: "id \<Rightarrow> unmatched_item list service" where
  "listUnmatchedInflowsForUser user_id =
     bind (find_many inflow_table (\<lambda>i. in_user_id i = Some user_id \<and> in_currency i = CUR_NGN \<and>
             \<not> in_is_matched i \<and> in_source_type i = None)) (\<lambda>rows.
     return (map unmatched_item_of (filter (\<lambda>i. \<not> untrusted i) (sort_key (\<lambda>i. - in_created_at i) rows))))"

section \<open>The waterfall splits the payment\<close>

definition owed_ok :: "outstanding \<Rightarrow> bool" where
  "owed_ok owed \<longleftrightarrow>
     on_scale 6 (o_accrued_custody_ngn owed) \<and> 0 \<le> o_accrued_custody_ngn owed \<and>
     on_scale 6 (o_accrued_interest_ngn owed) \<and> 0 \<le> o_accrued_interest_ngn owed \<and>
     on_scale 6 (o_principal_ngn owed) \<and> 0 \<le> o_principal_ngn owed"

definition payment_ok :: "money \<Rightarrow> bool" where
  "payment_ok a \<longleftrightarrow> on_scale 8 a \<and> 0 \<le> a \<and> a < 10 ^ 12"

context decimal_env begin

lemma payment_minus:
  assumes "payment_ok a" "on_scale 6 b" "0 \<le> b"
  shows "dminus D a (min a b) = a - min a b" "payment_ok (a - min a b)"
proof -
  have s: "on_scale 8 (a - min a b)"
    using assms by (auto simp: payment_ok_def intro!: on_scale_diff on_scale_min on_scale_mono[of 6 b 8])
  then show "payment_ok (a - min a b)" using assms by (auto simp: payment_ok_def min_def)
  then have "\<bar>a - min a b\<bar> * 10 ^ 8 < 10 ^ 20" by (auto simp: payment_ok_def)
  then show "dminus D a (min a b) = a - min a b" unfolding dminus_def by (rule round_exact[OF s])
qed

lemma waterfall_exact:
  assumes "payment_ok a" "owed_ok owed"
  shows "waterfall D a owed =
    (let c = min a (o_accrued_custody_ngn owed); i = min (a - c) (o_accrued_interest_ngn owed);
         p = min (a - c - i) (o_principal_ngn owed)
     in \<lparr>sp_custody = c, sp_interest = i, sp_principal = p, sp_overpay = a - c - i - p\<rparr>)"
proof -
  let ?c = "o_accrued_custody_ngn owed" and ?i = "o_accrued_interest_ngn owed" and ?p = "o_principal_ngn owed"
  have o: "on_scale 6 ?c" "0 \<le> ?c" "on_scale 6 ?i" "0 \<le> ?i" "on_scale 6 ?p" "0 \<le> ?p"
    using assms(2) by (simp_all add: owed_ok_def)
  note s1 = payment_minus[OF assms(1) o(1,2)]
  note s2 = payment_minus[OF s1(2) o(3,4)]
  note s3 = payment_minus[OF s2(2) o(5,6)]
  show ?thesis by (simp add: waterfall_def Let_def s1(1) s2(1) s3(1))
qed

lemma waterfall_sum:
  assumes "payment_ok a" "owed_ok owed"
  shows "sp_custody (waterfall D a owed) + sp_interest (waterfall D a owed) + sp_principal (waterfall D a owed)
      + sp_overpay (waterfall D a owed) = a"
  by (simp add: waterfall_exact[OF assms] Let_def)

end

text \<open>C4. The waterfall loses no money: the parts of a payment add up to it exactly, none is
  negative, none exceeds what is owed in its kind, interest is touched only once the custody
  owed is covered, principal only once the interest is, and there is an overpayment only when
  everything owed is covered.\<close>

theorem waterfall_conserves:
  assumes "decimal_env D" and "payment_ok amount" and "owed_ok owed"
  shows "let s = waterfall D amount owed in
    sp_custody s + sp_interest s + sp_principal s + sp_overpay s = amount \<and>
    0 \<le> sp_custody s \<and> 0 \<le> sp_interest s \<and> 0 \<le> sp_principal s \<and> 0 \<le> sp_overpay s \<and>
    sp_custody s \<le> o_accrued_custody_ngn owed \<and> sp_interest s \<le> o_accrued_interest_ngn owed \<and>
    sp_principal s \<le> o_principal_ngn owed \<and>
    (0 < sp_interest s \<longrightarrow> sp_custody s = o_accrued_custody_ngn owed) \<and>
    (0 < sp_principal s \<longrightarrow> sp_interest s = o_accrued_interest_ngn owed) \<and>
    (0 < sp_overpay s \<longrightarrow> sp_principal s = o_principal_ngn owed \<and>
       sp_interest s = o_accrued_interest_ngn owed \<and> sp_custody s = o_accrued_custody_ngn owed)"
  using assms(2,3)
  by (auto simp: decimal_env.waterfall_exact[OF assms] Let_def owed_ok_def payment_ok_def min_def split: if_splits)

definition sample_owed :: outstanding where
  "sample_owed = \<lparr>o_principal_ngn = 100000, o_accrued_interest_ngn = 300, o_accrued_custody_ngn = 0,
     o_total_outstanding_ngn = 100300, o_days_elapsed = 1, o_as_of = 86400000\<rparr>"

theorem waterfall_conserves_witness:
  "let s = waterfall js_decimals 60300 sample_owed in
     sp_custody s + sp_interest s + sp_principal s + sp_overpay s = 60300 \<and> sp_principal s \<le> 100000"
  using waterfall_conserves[OF js.decimal_env_axioms, of 60300 sample_owed]
  by (simp add: payment_ok_def owed_ok_def sample_owed_def Let_def)

section \<open>What a credit does\<close>

text \<open>The state after a credit of an active loan that returned.\<close>

definition left_after :: "decimals \<Rightarrow> outstanding \<Rightarrow> split \<Rightarrow> money" where
  "left_after D owed sp =
     dminus D (dminus D (dminus D (o_total_outstanding_ngn owed) (sp_custody sp)) (sp_interest sp)) (sp_principal sp)"

lemma mark_keys [simp]:
  "l_id (mark_repaid p t l) = l_id l" "l_status (mark_repaid p t l) = l_status l"
  "in_id (mark_credited p t i) = in_id i"
  by (simp_all add: mark_repaid_def mark_credited_def)

lemma repayment_transitions [simp]:
  "valid_transition LoanStatus.ACTIVE LoanStatus.REPAID REPAYMENT_COMPLETED"
  "valid_transition LoanStatus.ACTIVE LoanStatus.ACTIVE REPAYMENT_PARTIAL_NGN"
  by (simp_all add: valid_transition_def VALID_TRANSITIONS_def SELF_TRANSITION_REASONS_def)

lemma credit_effect:
  assumes l: "find_row l_id (cp_loan_id p) (loans (w_db w)) = Some l" and a: "l_status l = LoanStatus.ACTIVE"
    and run: "creditInflow D p w = (Inr res, w')"
  defines "sp \<equiv> waterfall D (cp_amount_ngn p) (outstanding_at D l w)"
  defines "full \<equiv> left_after D (outstanding_at D l w) sp \<le> 0"
  shows "repayments (w_db w') = repayments (w_db w) @ [new_repayment D p sp (w_clock w) (next_id (w_db w))]"
    and "inflows (w_db w') = update_row in_id (cp_inflow_id p) (mark_credited p (w_clock w)) (inflows (w_db w))"
    and "find_row l_id (cp_loan_id p) (loans (w_db w')) = Some (if full then (mark_repaid p (w_clock w) l)\<lparr>l_status := LoanStatus.REPAID\<rparr> else l)"
    and "crr_new_status res = (if full then LoanStatus.REPAID else LoanStatus.ACTIVE)"
    and "w_tasks w' = w_tasks w @ (if full then [ReleaseForLoan (cp_loan_id p)] else [])"
    and "w_outbox w' = w_outbox w @ [MailSent (l_user_id l) (RepaymentMail (cp_loan_id p) (cp_amount_ngn p) full)]"
    and "\<exists>i. find_row in_id (cp_inflow_id p) (inflows (w_db w)) = Some i"
    and "crr_overpay_ngn res = displayNgn (sp_overpay sp) floor_mode"
    and "w_clock w' = w_clock w"
proof -
  have id: "l_id l = cp_loan_id p" using l by (rule find_row_key)
  have "wp (creditInflow D p) (\<lambda>res w'.
      repayments (w_db w') = repayments (w_db w) @ [new_repayment D p sp (w_clock w) (next_id (w_db w))] \<and>
      inflows (w_db w') = update_row in_id (cp_inflow_id p) (mark_credited p (w_clock w)) (inflows (w_db w)) \<and>
      find_row l_id (cp_loan_id p) (loans (w_db w')) = Some (if full then (mark_repaid p (w_clock w) l)\<lparr>l_status := LoanStatus.REPAID\<rparr> else l) \<and>
      crr_new_status res = (if full then LoanStatus.REPAID else LoanStatus.ACTIVE) \<and>
      w_tasks w' = w_tasks w @ (if full then [ReleaseForLoan (cp_loan_id p)] else []) \<and>
      w_outbox w' = w_outbox w @ [MailSent (l_user_id l) (RepaymentMail (cp_loan_id p) (cp_amount_ngn p) full)] \<and>
      (\<exists>i. find_row in_id (cp_inflow_id p) (inflows (w_db w)) = Some i) \<and>
      crr_overpay_ngn res = displayNgn (sp_overpay sp) floor_mode \<and> w_clock w' = w_clock w) (\<lambda>_ _. True) w"
    using l a id
    by (simp add: creditInflow_def send_receipt_def credit_tx_def credit_active_def close_loan_def transition_from_def wp_simps
        wp_transition Let_def full_def left_after_def find_row_update_row flip: sp_def split: option.split)
  with run show "repayments (w_db w') = repayments (w_db w) @ [new_repayment D p sp (w_clock w) (next_id (w_db w))]"
    and "inflows (w_db w') = update_row in_id (cp_inflow_id p) (mark_credited p (w_clock w)) (inflows (w_db w))"
    and "find_row l_id (cp_loan_id p) (loans (w_db w')) = Some (if full then (mark_repaid p (w_clock w) l)\<lparr>l_status := LoanStatus.REPAID\<rparr> else l)"
    and "crr_new_status res = (if full then LoanStatus.REPAID else LoanStatus.ACTIVE)"
    and "w_tasks w' = w_tasks w @ (if full then [ReleaseForLoan (cp_loan_id p)] else [])"
    and "w_outbox w' = w_outbox w @ [MailSent (l_user_id l) (RepaymentMail (cp_loan_id p) (cp_amount_ngn p) full)]"
    and "\<exists>i. find_row in_id (cp_inflow_id p) (inflows (w_db w)) = Some i"
    and "crr_overpay_ngn res = displayNgn (sp_overpay sp) floor_mode"
    and "w_clock w' = w_clock w"
    by (simp_all add: wp_def)
qed

context decimal_env begin

lemma round_money: "on_scale 6 x \<Longrightarrow> \<bar>x\<bar> \<le> 2 * 10 ^ 13 \<Longrightarrow> d_round D x = x"
  by (rule round_exact[of 6]) auto

lemma left_after_exact:
  assumes a: "payment_ok a" "on_scale 6 a" and o: "owed_ok owed"
    and t: "o_total_outstanding_ngn owed =
      o_accrued_custody_ngn owed + o_accrued_interest_ngn owed + o_principal_ngn owed"
    and b: "o_total_outstanding_ngn owed \<le> 2 * 10 ^ 13"
  shows "left_after D owed (waterfall D a owed) = max (o_total_outstanding_ngn owed - a) 0"
proof -
  let ?c = "o_accrued_custody_ngn owed" and ?i = "o_accrued_interest_ngn owed" and ?p = "o_principal_ngn owed"
  let ?t = "o_total_outstanding_ngn owed"
  define c where "c = min a ?c"
  define i where "i = min (a - c) ?i"
  define p where "p = min (a - c - i) ?p"
  have sc: "on_scale 6 c" "on_scale 6 i" "on_scale 6 p" "on_scale 6 ?t"
    using a o unfolding t c_def i_def p_def owed_ok_def
    by (auto intro!: on_scale_min on_scale_diff on_scale_add)
  have bd: "0 \<le> c" "0 \<le> i" "0 \<le> p" "c + i + p \<le> ?t" "c \<le> ?c" "i \<le> ?i" "p \<le> ?p"
    using a o unfolding t c_def i_def p_def owed_ok_def payment_ok_def by (auto simp: min_def)
  have "waterfall D a owed = \<lparr>sp_custody = c, sp_interest = i, sp_principal = p, sp_overpay = a - c - i - p\<rparr>"
    by (simp add: waterfall_exact[OF a(1) o] Let_def c_def i_def p_def)
  moreover have "d_round D (?t - c) = ?t - c" "d_round D (?t - c - i) = ?t - c - i"
    "d_round D (?t - c - i - p) = ?t - c - i - p"
    using sc bd b by (auto intro!: round_money on_scale_diff)
  ultimately have "left_after D owed (waterfall D a owed) = ?t - c - i - p"
    by (simp add: left_after_def dminus_def)
  also have "\<dots> = max (?t - a) 0"
    using a o unfolding t c_def i_def p_def owed_ok_def payment_ok_def by (auto simp: min_def max_def)
  finally show ?thesis .
qed

lemma compute_owed_ok:
  assumes rec: "al_collateral_received_at loan = Some received"
    and ok: "accrual_ok loan reps received as_of"
  shows "owed_ok (compute D loan reps as_of)"
    and "o_total_outstanding_ngn (compute D loan reps as_of) = o_accrued_custody_ngn (compute D loan reps as_of)
      + o_accrued_interest_ngn (compute D loan reps as_of) + o_principal_ngn (compute D loan reps as_of)"
    and "o_total_outstanding_ngn (compute D loan reps as_of) \<le> 2 * 10 ^ 13"
proof -
  note rel = relevant_facts[OF ok] and g = daily_interest_bounds[OF ok]
  have p: "on_scale 2 (al_principal_ngn loan)" "al_principal_ngn loan \<le> 10 ^ 7" "0 \<le> al_principal_ngn loan"
    using ok by (simp_all add: accrual_ok_def)
  let ?f = "filter (\<lambda>r. ar_created_at r \<le> as_of) reps"
  have r: "\<forall>r\<in>set ?f. on_scale 2 (ar_applied_to_principal r) \<and> 0 \<le> ar_applied_to_principal r \<and>
      on_scale 2 (ar_applied_to_interest r) \<and> 0 \<le> ar_applied_to_interest r"
    using ok by (auto simp: accrual_ok_def)
  have s2: "on_scale 2 (sum_list (map ar_applied_to_principal ?f))" "on_scale 2 (sum_list (map ar_applied_to_interest ?f))"
    using r by (auto intro!: on_scale_sum_list)
  have nn: "0 \<le> sum_list (map ar_applied_to_principal ?f)" "0 \<le> sum_list (map ar_applied_to_interest ?f)"
    using r by (auto intro!: sum_list_nonneg)
  have "on_scale 6 (owed_principal loan reps as_of)" "owed_principal loan reps as_of \<le> 10 ^ 7"
    using p s2(1) nn(1) by (auto simp: owed_principal_def intro!: on_scale_max on_scale_diff on_scale_mono[of 2 _ 6])
  moreover have "on_scale 6 (owed_interest loan received reps as_of)" "owed_interest loan received reps as_of \<le> 10 ^ 13"
    using g on_scale_mono[OF s2(2), of 6] nn(2) by (auto simp: owed_interest_def intro!: on_scale_max on_scale_diff)
  moreover have "0 \<le> owed_principal loan reps as_of" "0 \<le> owed_interest loan received reps as_of"
    by (simp_all add: owed_principal_def owed_interest_def)
  ultimately show "owed_ok (compute D loan reps as_of)"
    "o_total_outstanding_ngn (compute D loan reps as_of) = o_accrued_custody_ngn (compute D loan reps as_of)
      + o_accrued_interest_ngn (compute D loan reps as_of) + o_principal_ngn (compute D loan reps as_of)"
    "o_total_outstanding_ngn (compute D loan reps as_of) \<le> 2 * 10 ^ 13"
    by (simp_all add: compute_facts[OF rec ok] owed_ok_def)
qed

end

text \<open>C5. A credit closes the loan exactly when it covers what is owed: when crediting an
  active loan returns, the loan is repaid and its collateral handed to release if the amount
  reaches the outstanding total of that moment, and stays active and unreleased otherwise. Either
  way exactly one repayment is booked, with the shares of the waterfall, the inflow is matched
  to the loan, and the customer gets one receipt.\<close>

theorem credit_closes_iff_covered:
  assumes "decimal_env D" and "find_row l_id (cp_loan_id p) (loans (w_db w)) = Some l"
    and "l_status l = LoanStatus.ACTIVE" and "l_collateral_received_at l = Some received"
    and "accrual_ok (accrual_loan_of l) (map toAccrualRepayment (ledger_of (l_id l) w)) received (w_clock w)"
    and "payment_ok (cp_amount_ngn p)" and "on_scale 2 (cp_amount_ngn p)"
    and "creditInflow D p w = (Inr res, w')"
  shows "let owed = outstanding_at D l w; full = (o_total_outstanding_ngn owed \<le> cp_amount_ngn p);
             booked = new_repayment D p (waterfall D (cp_amount_ngn p) owed) (w_clock w) (next_id (w_db w))
    in repayments (w_db w') = repayments (w_db w) @ [booked] \<and>
       find_row l_id (cp_loan_id p) (loans (w_db w')) =
         Some (if full then (mark_repaid p (w_clock w) l)\<lparr>l_status := LoanStatus.REPAID\<rparr> else l) \<and>
       inflows (w_db w') = update_row in_id (cp_inflow_id p) (mark_credited p (w_clock w)) (inflows (w_db w)) \<and>
       w_tasks w' = w_tasks w @ (if full then [ReleaseForLoan (cp_loan_id p)] else []) \<and>
       w_outbox w' = w_outbox w @ [MailSent (l_user_id l) (RepaymentMail (cp_loan_id p) (cp_amount_ngn p) full)]"
proof -
  let ?o = "outstanding_at D l w"
  have rec: "al_collateral_received_at (accrual_loan_of l) = Some received"
    using assms(4) by (simp add: accrual_loan_of_def)
  note ok = decimal_env.compute_owed_ok[OF assms(1) rec assms(5), folded outstanding_at_def]
  have "left_after D ?o (waterfall D (cp_amount_ngn p) ?o) = max (o_total_outstanding_ngn ?o - cp_amount_ngn p) 0"
    by (rule decimal_env.left_after_exact[OF assms(1,6) on_scale_mono[OF assms(7)] ok]) simp
  then have full: "left_after D ?o (waterfall D (cp_amount_ngn p) ?o) \<le> 0 \<longleftrightarrow>
      o_total_outstanding_ngn ?o \<le> cp_amount_ngn p" by simp
  show ?thesis using credit_effect[OF assms(2,3,8)] by (simp add: Let_def full)
qed

section \<open>A credit happens once, or not at all\<close>

lemma credit_tx_silent:
  "wp (credit_tx D p) (\<lambda>_ _. True) (\<lambda>_ w'. w_redis w' = w_redis w \<and> w_outbox w' = w_outbox w \<and>
     w_tasks w' = w_tasks w \<and> w_clock w' = w_clock w) w"
  by (simp add: credit_tx_def credit_active_def close_loan_def transition_from_def wp_simps wp_transition
      Let_def split: option.split)

lemma send_receipt_returns: "wp (send_receipt p x) (\<lambda>_ _. True) E w"
  by (simp add: send_receipt_def wp_simps split: option.split prod.split)

lemma refused_credit: "wp (creditInflow D p) (\<lambda>_ _. True) (\<lambda>_ w'. w' = w) w"
proof -
  have "wp (credit_tx D p) (\<lambda>x. wp (send_receipt p x) (\<lambda>_ _. True) (\<lambda>_ w'. w' = w))
      (\<lambda>_ w'. w'\<lparr>w_db := w_db w\<rparr> = w) w"
    by (rule wp_mono[OF credit_tx_silent]) (auto intro: send_receipt_returns)
  then show ?thesis by (simp add: creditInflow_def wp_simps)
qed

text \<open>A credit is all or nothing: when it is refused, for whatever reason, no row, key,
  message or release task has changed.\<close>

theorem refused_credit_changes_nothing:
  assumes "creditInflow D p w = (Inl e, w')"
  shows "w' = w"
  using refused_credit[of D p w] assms by (simp add: wp_def)

text \<open>An inflow is credited once: once a repayment is booked for it, no later credit of the
  same inflow, to this or any other loan, by whatever route, changes anything.\<close>

theorem inflow_credited_once:
  assumes "wf_table repayment_table w" and "r \<in> set (repayments (w_db w))"
    and "rep_inflow_id r = cp_inflow_id p"
  shows "final (creditInflow D p) w = w"
proof -
  have lt: "rep_id r < next_id (w_db w)" using assms(1,2) by (simp add: wf_table_def)
  have "violated repayment_table (new_repayment D p sp t (next_id (w_db w))) (repayments (w_db w)) \<noteq> None" for sp t
  proof
    assume n: "violated repayment_table (new_repayment D p sp t (next_id (w_db w))) (repayments (w_db w)) = None"
    have idx: "(''loan_repayments_inflow_id_key'', \<lambda>a b. rep_inflow_id a = rep_inflow_id b)
        \<in> set (t_unique repayment_table)" by (simp add: repayment_table_def)
    show False using violated_NoneD[OF n idx assms(2)] lt assms(3) by (simp add: new_repayment_def)
  qed
  then have "wp (creditInflow D p) (\<lambda>_ w'. w' = w) (\<lambda>_ _. True) w"
    by (simp add: creditInflow_def send_receipt_def credit_tx_def credit_active_def wp_simps Let_def
        del: not_None_eq split: option.split)
  then have "wp (creditInflow D p) (\<lambda>_ w'. w' = w) (\<lambda>_ w'. w' = w) w"
    by (rule wp_mono[OF wp_conj[OF _ refused_credit[of D p w]]]) auto
  then show ?thesis by (simp add: wp_final)
qed

section \<open>Claims are safe\<close>

lemma wp_own_active_loan [wp_simps]:
  "wp (own_active_loan u n) Q E w =
     (case List.find (\<lambda>l. l_id l = n \<and> l_user_id l = u) (loans (w_db w)) of
        None \<Rightarrow> E (LoanE LoanNotFoundException) w
      | Some l \<Rightarrow> if l_status l = LoanStatus.ACTIVE then Q l w else E (LoanE (LoanNotActiveException (l_status l))) w)"
  by (simp add: own_active_loan_def wp_simps split: option.split)

lemma applied_inflow:
  assumes "wf_table loan_table w" "wf_table inflow_table w" "applyInflowToLoan D u i n w = (Inr res, w')"
  obtains l inflow where "find_row l_id n (loans (w_db w)) = Some l" "l_user_id l = u" "l_status l = LoanStatus.ACTIVE"
    "find_row in_id i (inflows (w_db w)) = Some inflow" "in_user_id inflow = Some u" "in_currency inflow = CUR_NGN"
    "\<not> in_is_matched inflow" "\<not> untrusted inflow"
    "creditInflow D \<lparr>cp_inflow_id = i, cp_loan_id = n, cp_amount_ngn = in_amount inflow,
       cp_match_method = CUSTOMER_CLAIM, cp_skip_floor = True\<rparr> w = (Inr res, w')"
proof -
  have ul: "unique_keys l_id (loans (w_db w))" and ui: "unique_keys in_id (inflows (w_db w))"
    using assms(1,2) by (simp_all add: wf_table_def)
  obtain l where l: "List.find (\<lambda>l. l_id l = n \<and> l_user_id l = u) (loans (w_db w)) = Some l" "l_status l = LoanStatus.ACTIVE"
    using assms(3) by (auto simp: applyInflowToLoan_def own_active_loan_def run_defs find_first_def
        split: option.splits if_splits)
  obtain inflow where f: "List.find (\<lambda>x. in_id x = i \<and> in_user_id x = Some u \<and> in_currency x = CUR_NGN) (inflows (w_db w)) = Some inflow"
    "\<not> in_is_matched inflow" "\<not> untrusted inflow"
    "creditInflow D \<lparr>cp_inflow_id = i, cp_loan_id = n, cp_amount_ngn = in_amount inflow,
       cp_match_method = CUSTOMER_CLAIM, cp_skip_floor = True\<rparr> w = (Inr res, w')"
    using assms(3) l by (auto simp: applyInflowToLoan_def own_active_loan_def run_defs find_first_def
        split: option.splits if_splits)
  show ?thesis
    using that[of l inflow] find_SomeD[OF l(1)] find_SomeD[OF f(1)] l(2) f(2-4)
      find_row_unique[OF ul, of l] find_row_unique[OF ui, of inflow] by auto
qed

text \<open>A customer can only apply their own money to their own debt: a claim that returns took
  an unmatched naira inflow of this user that no re-query has put in doubt, and credited its
  whole amount to an active loan of this user; the inflow is matched to that loan afterwards
  and every other inflow is untouched.\<close>

theorem claim_applies_own_inflow:
  assumes "wf_table loan_table w" and "wf_table inflow_table w" and "applyInflowToLoan D u i n w = (Inr res, w')"
  shows "\<exists>l inflow booked. find_row l_id n (loans (w_db w)) = Some l \<and> l_user_id l = u \<and> l_status l = LoanStatus.ACTIVE \<and>
    find_row in_id i (inflows (w_db w)) = Some inflow \<and> in_user_id inflow = Some u \<and> in_currency inflow = CUR_NGN \<and>
    \<not> in_is_matched inflow \<and> \<not> untrusted inflow \<and>
    repayments (w_db w') = repayments (w_db w) @ [booked] \<and> rep_loan_id booked = n \<and> rep_inflow_id booked = i \<and>
    rep_amount_ngn booked = d_col D 2 (in_amount inflow) \<and>
    (\<forall>j. find_row in_id j (inflows (w_db w')) =
       (if j = i then Some (inflow\<lparr>in_is_matched := True, in_matched_at := Some (w_clock w),
          in_source_type := Some SOURCE_LOAN_REPAYMENT, in_source_id := Some n\<rparr>)
        else find_row in_id j (inflows (w_db w))))"
proof -
  obtain l inflow where f: "find_row l_id n (loans (w_db w)) = Some l" "l_user_id l = u" "l_status l = LoanStatus.ACTIVE"
    "find_row in_id i (inflows (w_db w)) = Some inflow" "in_user_id inflow = Some u" "in_currency inflow = CUR_NGN"
    "\<not> in_is_matched inflow" "\<not> untrusted inflow"
    and c: "creditInflow D \<lparr>cp_inflow_id = i, cp_loan_id = n, cp_amount_ngn = in_amount inflow,
       cp_match_method = CUSTOMER_CLAIM, cp_skip_floor = True\<rparr> w = (Inr res, w')"
    by (rule applied_inflow[OF assms])
  note e = credit_effect[OF _ f(3) c, simplified, OF f(1)]
  show ?thesis
    using f by (auto simp: e(1,2) find_row_update_row new_repayment_def mark_credited_def)
qed

lemma list_memberD:
  assumes "result (listUnmatchedInflowsForUser u) w = Inr items" "item \<in> set items"
  obtains i where "i \<in> set (inflows (w_db w))" "item = unmatched_item_of i" "in_user_id i = Some u"
    "in_currency i = CUR_NGN" "\<not> in_is_matched i" "\<not> untrusted i"
  using assms by (auto simp: listUnmatchedInflowsForUser_def run_defs find_many_def)

text \<open>The list and the apply action agree: every inflow the customer sees in the list of
  unmatched inflows can be applied to any active loan of theirs, the request then is the credit
  of its whole amount with the floor waived, and none of the refusals of the apply action stands
  in the way.\<close>

theorem listed_inflow_is_applicable:
  assumes "wf_table inflow_table w" and "result (listUnmatchedInflowsForUser u) w = Inr items"
    and "item \<in> set items" and "l \<in> set (loans (w_db w))" and "wf_table loan_table w"
    and "l_user_id l = u" and "l_status l = LoanStatus.ACTIVE"
  shows "\<exists>amount. applyInflowToLoan D u (ui_id item) (l_id l) w =
      creditInflow D \<lparr>cp_inflow_id = ui_id item, cp_loan_id = l_id l, cp_amount_ngn = amount,
        cp_match_method = CUSTOMER_CLAIM, cp_skip_floor = True\<rparr> w \<and>
    ui_amount_ngn item = displayNgn amount ceil_mode"
proof -
  obtain i where i: "i \<in> set (inflows (w_db w))" "item = unmatched_item_of i" "in_user_id i = Some u"
    "in_currency i = CUR_NGN" "\<not> in_is_matched i" "\<not> untrusted i"
    by (rule list_memberD[OF assms(2,3)])
  have u: "unique_keys in_id (inflows (w_db w))" "unique_keys l_id (loans (w_db w))"
    using assms(1,5) by (simp_all add: wf_table_def)
  have fi: "List.find (\<lambda>x. in_id x = in_id i \<and> in_user_id x = Some u \<and> in_currency x = CUR_NGN) (inflows (w_db w)) = Some i"
    by (rule find_unique[OF u(1)[unfolded unique_keys_def] i(1)]) (use i in auto)
  have fl: "List.find (\<lambda>x. l_id x = l_id l \<and> l_user_id x = u) (loans (w_db w)) = Some l"
    by (rule find_unique[OF u(2)[unfolded unique_keys_def] assms(4)]) (use assms in auto)
  have "applyInflowToLoan D u (in_id i) (l_id l) w = creditInflow D \<lparr>cp_inflow_id = in_id i, cp_loan_id = l_id l,
      cp_amount_ngn = in_amount i, cp_match_method = CUSTOMER_CLAIM, cp_skip_floor = True\<rparr> w"
    by (simp add: applyInflowToLoan_def own_active_loan_def run_defs find_first_def fi fl assms(7) i(5,6))
  then show ?thesis by (auto simp: i(2) unmatched_item_of_def)
qed

section \<open>Concrete runs\<close>

definition active_loan :: loan_row where
  "active_loan = repaid_loan\<lparr>l_status := LoanStatus.ACTIVE, l_repayment_method := None,
     l_repayment_reference := None, l_repaid_at := None\<rparr>"

definition naira_inflow :: inflow_row where
  "naira_inflow = \<lparr>in_id = 4, in_user_id = Some 7, in_amount = 100300, in_currency = CUR_NGN,
     in_network = PaymentNetwork.BANK_TRANSFER, in_receiving_address = ''va'', in_provider_reference = ''o1'',
     in_is_matched = False, in_matched_at = None, in_source_type = None, in_source_id = None,
     in_provider_response = None, in_created_at = 86000000\<rparr>"

definition credit_world :: world where
  "credit_world = empty_world\<lparr>w_db := empty_db\<lparr>loans := [active_loan], inflows := [naira_inflow], next_id := 8\<rparr>,
     w_clock := 86400000\<rparr>"

definition sample_credit :: credit_params where
  "sample_credit = \<lparr>cp_inflow_id = 4, cp_loan_id = 3, cp_amount_ngn = 100300,
     cp_match_method = AUTO_AMOUNT, cp_skip_floor = False\<rparr>"

lemma credit_world_fields [simp]:
  "loans (w_db credit_world) = [active_loan]" "inflows (w_db credit_world) = [naira_inflow]"
  "repayments (w_db credit_world) = []" "next_id (w_db credit_world) = 8" "w_clock credit_world = 86400000"
  "w_tasks credit_world = []" "w_outbox credit_world = []" "w_redis credit_world = (\<lambda>_. None)"
  "l_id active_loan = 3" "l_user_id active_loan = 7" "l_status active_loan = LoanStatus.ACTIVE"
  "l_collateral_received_at active_loan = Some 0" "in_id naira_inflow = 4" "in_amount naira_inflow = 100300"
  by (simp_all add: credit_world_def empty_world_def empty_db_def active_loan_def repaid_loan_def naira_inflow_def)

lemma violated_single [simp]:
  "t_key T r = t_key T r' \<Longrightarrow> violated T r [r'] = None" "violated T r [] = None"
  by (simp_all add: violated_def find_None_iff)

lemma credit_world_wf: "wf_table loan_table credit_world" "wf_table inflow_table credit_world"
  by (simp_all add: wf_table_def unique_keys_def)

lemma sample_credit_returns: "\<exists>res w'. creditInflow D sample_credit credit_world = (Inr res, w')"
proof -
  have "wp (creditInflow D sample_credit) (\<lambda>_ _. True) (\<lambda>_ _. False) credit_world"
    by (simp add: creditInflow_def send_receipt_def credit_tx_def credit_active_def close_loan_def
        transition_from_def wp_simps wp_transition Let_def sample_credit_def MIN_PARTIAL_REPAYMENT_NGN_def)
  from wp_runD[OF this] show ?thesis by blast
qed

theorem credit_closes_iff_covered_witness:
  "\<exists>res w'. creditInflow js_decimals sample_credit credit_world = (Inr res, w') \<and>
     w_tasks w' = [ReleaseForLoan 3] \<and> map l_status (loans (w_db w')) = [LoanStatus.REPAID]"
proof -
  obtain res w' where run: "creditInflow js_decimals sample_credit credit_world = (Inr res, w')"
    using sample_credit_returns by blast
  have ok: "accrual_ok (accrual_loan_of active_loan)
      (map toAccrualRepayment (ledger_of (l_id active_loan) credit_world)) 0 (w_clock credit_world)"
    by (simp add: accrual_ok_def accrual_loan_of_def ledger_of_def active_loan_def repaid_loan_def MS_PER_DAY_def)
  have total: "o_total_outstanding_ngn (outstanding_at js_decimals active_loan credit_world) = 100300"
  proof -
    have "owed_principal (accrual_loan_of active_loan) [] 86400000
        + owed_interest (accrual_loan_of active_loan) 0 [] 86400000 = 100300"
      by code_simp
    then show ?thesis
      using js.compute_facts[OF _ ok] by (simp add: outstanding_at_def ledger_of_def accrual_loan_of_def)
  qed
  have "find_row l_id 3 (loans (w_db w')) = Some ((mark_repaid sample_credit 86400000 active_loan)\<lparr>l_status := LoanStatus.REPAID\<rparr>) \<and>
      w_tasks w' = [ReleaseForLoan 3]"
    using credit_closes_iff_covered[OF js.decimal_env_axioms _ _ _ ok _ _ run]
    by (simp add: sample_credit_def payment_ok_def Let_def total)
  moreover have "length (loans (w_db w')) = 1"
  proof -
    have "wp (creditInflow js_decimals sample_credit) (\<lambda>_ w'. length (loans (w_db w')) = 1) (\<lambda>_ _. True) credit_world"
      by (simp add: creditInflow_def send_receipt_def credit_tx_def credit_active_def close_loan_def
        transition_from_def wp_simps wp_transition Let_def sample_credit_def MIN_PARTIAL_REPAYMENT_NGN_def)
    with run show ?thesis by (simp add: wp_def)
  qed
  ultimately show ?thesis using run by (auto simp: length_Suc_conv dest!: find_row_in_set)
qed

theorem refused_credit_changes_nothing_witness:
  "final (creditInflow js_decimals (sample_credit\<lparr>cp_amount_ngn := 50\<rparr>)) credit_world = credit_world \<and>
   result (creditInflow js_decimals (sample_credit\<lparr>cp_amount_ngn := 50\<rparr>)) credit_world =
     Inl (InflowE (InflowBelowFloorException (displayNgn 50 ceil_mode) (displayNgn 10000 ceil_mode)))"
proof -
  have "creditInflow js_decimals (sample_credit\<lparr>cp_amount_ngn := 50\<rparr>) credit_world =
    (Inl (InflowE (InflowBelowFloorException (displayNgn 50 ceil_mode) (displayNgn 10000 ceil_mode))), credit_world)"
    by (simp add: creditInflow_def run_defs sample_credit_def MIN_PARTIAL_REPAYMENT_NGN_def)
  with refused_credit_changes_nothing[OF this] show ?thesis by simp
qed

definition booked_repayment :: repayment_row where
  "booked_repayment = \<lparr>rep_id = 5, rep_loan_id = 3, rep_inflow_id = 4, rep_amount_ngn = 50000,
     rep_applied_to_principal = 49700, rep_applied_to_interest = 300, rep_applied_to_custody = 0,
     rep_overpay_ngn = 0, rep_match_method = AUTO_AMOUNT, rep_created_at = 86300000\<rparr>"

theorem inflow_credited_once_witness:
  "final (creditInflow js_decimals sample_credit)
     (credit_world\<lparr>w_db := (w_db credit_world)\<lparr>repayments := [booked_repayment]\<rparr>\<rparr>) =
   credit_world\<lparr>w_db := (w_db credit_world)\<lparr>repayments := [booked_repayment]\<rparr>\<rparr>"
  by (rule inflow_credited_once[of _ booked_repayment])
     (simp_all add: wf_table_def unique_keys_def booked_repayment_def sample_credit_def)

lemma sample_apply: "applyInflowToLoan D 7 4 3 credit_world =
   creditInflow D (sample_credit\<lparr>cp_match_method := CUSTOMER_CLAIM, cp_skip_floor := True\<rparr>) credit_world"
  by (simp add: applyInflowToLoan_def own_active_loan_def run_defs find_first_def naira_inflow_def
      untrusted_def sample_credit_def)

lemma sample_claim_returns: "\<exists>res w'. applyInflowToLoan js_decimals 7 4 3 credit_world = (Inr res, w')"
proof -
  have "wp (creditInflow js_decimals (sample_credit\<lparr>cp_match_method := CUSTOMER_CLAIM, cp_skip_floor := True\<rparr>))
      (\<lambda>_ _. True) (\<lambda>_ _. False) credit_world"
    by (simp add: creditInflow_def send_receipt_def credit_tx_def credit_active_def close_loan_def
        transition_from_def wp_simps wp_transition Let_def sample_credit_def)
  from wp_runD[OF this] show ?thesis by (simp add: sample_apply)
qed

theorem claim_applies_own_inflow_witness:
  "\<exists>res w' booked. applyInflowToLoan js_decimals 7 4 3 credit_world = (Inr res, w') \<and>
     repayments (w_db w') = [booked] \<and> rep_amount_ngn booked = d_col js_decimals 2 100300"
proof -
  obtain res w' where run: "applyInflowToLoan js_decimals 7 4 3 credit_world = (Inr res, w')"
    using sample_claim_returns by blast
  from claim_applies_own_inflow[OF credit_world_wf run] run show ?thesis by auto
qed

theorem listed_inflow_is_applicable_witness:
  "\<exists>amount. applyInflowToLoan js_decimals 7 4 3 credit_world =
      creditInflow js_decimals \<lparr>cp_inflow_id = 4, cp_loan_id = 3, cp_amount_ngn = amount,
        cp_match_method = CUSTOMER_CLAIM, cp_skip_floor = True\<rparr> credit_world"
proof -
  have "result (listUnmatchedInflowsForUser 7) credit_world = Inr [unmatched_item_of naira_inflow]"
    by (simp add: listUnmatchedInflowsForUser_def run_defs find_many_def naira_inflow_def untrusted_def)
  from listed_inflow_is_applicable[OF credit_world_wf(2) this _ _ credit_world_wf(1), of "unmatched_item_of naira_inflow" active_loan js_decimals]
  show ?thesis by (auto simp: unmatched_item_of_def)
qed

end
