(* ===== verification/RepaymentAccounts.thy ===== *)
theory RepaymentAccounts
  imports Env
begin

text \<open>
  \<open>modules/user-repayment-accounts\<close>: the permanent bank account number of a customer, into
  which repayments are paid. It is opened at the collection provider against the identity of
  the tier-1 verification; the provider, the name it is configured under and the decryption
  of the identity number are parameters. Log lines are left out.
\<close>

record va_summary =
  vs_virtual_account_no :: string
  vs_virtual_account_name :: string
  vs_bank_name :: string
  vs_provider :: string

definition mapToCollectionIdentityType :: "KycIdType \<Rightarrow> KycIdType option" where
  "mapToCollectionIdentityType id_type =
     (case id_type of BVN \<Rightarrow> Some BVN | NIN \<Rightarrow> Some NIN | _ \<Rightarrow> None)"

definition toSummary :: "repayment_account_row \<Rightarrow> va_summary" where
  "toSummary row = \<lparr>vs_virtual_account_no = va_virtual_account_no row,
     vs_virtual_account_name = va_virtual_account_name row, vs_bank_name = va_bank_name row,
     vs_provider = va_provider row\<rparr>"

definition findActive :: "id \<Rightarrow> repayment_account_row option service" where
  "findActive user_id = find_first repayment_account_table (\<lambda>a. va_user_id a = user_id \<and> va_is_active a)"

text \<open>The request that opens an account, or nothing when the verification cannot back one.\<close>

definition va_request_of :: "auth_env \<Rightarrow> kyc_row \<Rightarrow> user_row \<Rightarrow> string \<Rightarrow> va_request option" where
  "va_request_of A verification user account_reference =
     (case (present (k_encrypted_id_number verification), present (k_legal_name verification),
            k_id_type verification, present (u_first_name user), present (u_last_name user)) of
        (Some encrypted, Some legal_name, Some id_type, Some first_name, Some last_name) \<Rightarrow>
          map_option (\<lambda>identity_type.
            \<lparr>vr_virtual_account_name = first_name @ '' '' @ last_name, vr_identity_type = identity_type,
             vr_license_number = ae_decrypt A encrypted, vr_customer_name = legal_name,
             vr_account_reference = account_reference\<rparr>) (mapToCollectionIdentityType id_type)
      | _ \<Rightarrow> None)"

definition va_provision :: "env \<Rightarrow> id \<Rightarrow> string \<Rightarrow> issued_va option service" where
  "va_provision V user_id account_reference =
     bind (find_first kyc_table (\<lambda>k. k_user_id k = user_id \<and> k_tier k = 1)) (\<lambda>verification.
     bind (find_by_id user_table user_id) (\<lambda>user.
     case (verification, user) of
       (Some k, Some u) \<Rightarrow>
         (case va_request_of (e_auth V) k u account_reference of
            None \<Rightarrow> return None
          | Some req \<Rightarrow> bind (call (\<lambda>w. e_create_va V w req)) (\<lambda>issued. return (Some issued)))
     | _ \<Rightarrow> return None))"

definition new_repayment_account :: "env \<Rightarrow> id \<Rightarrow> issued_va \<Rightarrow> time \<Rightarrow> id \<Rightarrow> repayment_account_row" where
  "new_repayment_account V user_id issued t i =
     \<lparr>va_id = i, va_user_id = user_id, va_virtual_account_no = iv_virtual_account_no issued,
      va_virtual_account_name = iv_virtual_account_name issued, va_bank_name = iv_bank_name issued,
      va_provider = e_active_collection V, va_is_active = True, va_deactivated_at = None,
      va_created_at = t\<rparr>"

definition ensureForUser :: "env \<Rightarrow> id \<Rightarrow> unit service \<Rightarrow> (va_summary \<times> bool) option service" where
  "ensureForUser V user_id on_created_in_tx =
     bind (findActive user_id) (\<lambda>existing.
     case existing of
       Some row \<Rightarrow> return (Some (toSummary row, False))
     | None \<Rightarrow>
         bind (va_provision V user_id (show_nat user_id)) (\<lambda>provisioned.
         case provisioned of
           None \<Rightarrow> return None
         | Some issued \<Rightarrow>
             bind now (\<lambda>t.
             bind (transaction
               (bind (create_row repayment_account_table (new_repayment_account V user_id issued t)) (\<lambda>created.
                bind on_created_in_tx (\<lambda>_. return created)))) (\<lambda>account.
             return (Some (toSummary account, True))))))"

definition replaceForUser :: "env \<Rightarrow> id \<Rightarrow> (va_summary \<times> va_summary option) option service" where
  "replaceForUser V user_id =
     bind (findActive user_id) (\<lambda>current.
     bind now (\<lambda>t.
     bind (va_provision V user_id (show_nat user_id @ ''-'' @ show_int t)) (\<lambda>provisioned.
     case provisioned of
       None \<Rightarrow> return None
     | Some issued \<Rightarrow>
         bind (transaction
           (bind (update_many repayment_account_table (\<lambda>a. va_user_id a = user_id \<and> va_is_active a)
              (\<lambda>a. a\<lparr>va_is_active := False, va_deactivated_at := Some t\<rparr>)) (\<lambda>_.
            create_row repayment_account_table (new_repayment_account V user_id issued t)))) (\<lambda>account.
         return (Some (toSummary account, map_option toSummary current))))))"

section \<open>One account at a time\<close>

text \<open>Asking for a customer's repayment account is idempotent: once it answered with an account,
  asking again answers with the same account, however the provider would answer by then, does
  not run the audit step again and changes nothing.\<close>

theorem ensure_is_idempotent:
  assumes "ensureForUser V user_id (return ()) w = (Inr (Some (summary, created)), w')"
  shows "ensureForUser V' user_id on_created w' = (Inr (Some (summary, False)), w')"
proof -
  let ?p = "\<lambda>a. va_user_id a = user_id \<and> va_is_active a"
  show ?thesis
  proof (cases "List.find ?p (repayment_accounts (w_db w))")
    case None
    then obtain issued where
      "summary = toSummary (new_repayment_account V user_id issued (w_clock w) (next_id (w_db w)))"
      "repayment_accounts (w_db w') = repayment_accounts (w_db w) @
         [new_repayment_account V user_id issued (w_clock w) (next_id (w_db w))]"
      using assms by (auto simp: ensureForUser_def findActive_def va_provision_def call_def run_defs store_defs table_rows
          table_puts Let_def split: option.splits sum.splits)
    then show ?thesis
      using None by (simp add: ensureForUser_def findActive_def run_defs find_first_def table_rows find_append
          new_repayment_account_def)
  next
    case (Some row)
    then show ?thesis using assms by (simp add: ensureForUser_def findActive_def run_defs find_first_def table_rows)
  qed
qed

definition active_of :: "id \<Rightarrow> world \<Rightarrow> repayment_account_row list" where
  "active_of user_id w = filter (\<lambda>a. va_user_id a = user_id \<and> va_is_active a) (repayment_accounts (w_db w))"

definition routes :: "world \<Rightarrow> (string \<times> id) list" where
  "routes w = map (\<lambda>a. (va_virtual_account_no a, va_user_id a)) (repayment_accounts (w_db w))"

text \<open>Replacing a customer's account never leaves the customer with two active accounts or
  with none: afterwards the one it answers with is the only active one. No account number is
  lost, so a transfer into a retired account still finds its owner, and when the replacement
  does not happen, because the provider fails or the verification cannot back an account, the
  accounts are as they were.\<close>

theorem replacement_keeps_one_active:
  "case replaceForUser V user_id w of
     (Inr (Some (summary, retired)), w') \<Rightarrow>
       map toSummary (active_of user_id w') = [summary] \<and>
       routes w' = routes w @ [(vs_virtual_account_no summary, user_id)]
   | (_, w') \<Rightarrow> repayment_accounts (w_db w') = repayment_accounts (w_db w)"
proof -
  define off where "off = (\<lambda>a :: repayment_account_row. a\<lparr>va_is_active := False, va_deactivated_at := Some (w_clock w)\<rparr>)"
  let ?rows = "repayment_accounts (w_db w)"
  let ?gone = "update_where (\<lambda>a. va_user_id a = user_id \<and> va_is_active a) off ?rows"
  have none: "filter (\<lambda>a. va_user_id a = user_id \<and> va_is_active a) (update_where (\<lambda>a. va_user_id a = user_id \<and> va_is_active a) off xs) = []" for xs
    by (induction xs) (simp_all add: update_where_def off_def)
  have same: "map (\<lambda>a. (va_virtual_account_no a, va_user_id a)) ?gone = map (\<lambda>a. (va_virtual_account_no a, va_user_id a)) ?rows"
    by (simp add: update_where_def off_def)
  have "wp (replaceForUser V user_id)
      (\<lambda>r w'. case r of None \<Rightarrow> repayment_accounts (w_db w') = ?rows
         | Some (summary, retired) \<Rightarrow> map toSummary (active_of user_id w') = [summary] \<and>
             routes w' = routes w @ [(vs_virtual_account_no summary, user_id)])
      (\<lambda>_ w'. repayment_accounts (w_db w') = ?rows) w"
    unfolding replaceForUser_def findActive_def va_provision_def
    by (auto simp: wp_simps table_rows table_puts active_of_def routes_def none same new_repayment_account_def toSummary_def
        simp flip: off_def split: option.split sum.split)
  then show ?thesis by (auto simp: wp_def split: prod.splits sum.splits option.splits)
qed

section \<open>Concrete runs\<close>

definition va_user :: user_row where
  "va_user = (new_user ''a@b'' 0 1)\<lparr>u_kyc_tier := 1, u_first_name := Some ''Ada'', u_last_name := Some ''Obi''\<rparr>"

definition va_check :: kyc_row where
  "va_check = \<lparr>k_id = 2, k_user_id = 1, k_tier = 1, k_id_type = Some BVN, k_id_number_hash = Some ''h'',
     k_encrypted_id_number = Some ''22'', k_legal_name = Some ''ADA OBI'', k_date_of_birth = None,
     k_status = KycStatus.VERIFIED, k_failure_reason = None, k_provider_reference = None,
     k_provider_raw_response = None, k_verified_at = Some 0, k_created_at = 0\<rparr>"

definition va_world :: world where
  "va_world = empty_world\<lparr>w_db := empty_db\<lparr>users := [va_user], kyc_verifications := [va_check], next_id := 3\<rparr>\<rparr>"

theorem ensure_is_idempotent_witness:
  "\<exists>summary w'. ensureForUser toy_env 1 (return ()) va_world = (Inr (Some (summary, True)), w') \<and>
     ensureForUser toy_env 1 (throw (OtherError [])) w' = (Inr (Some (summary, False)), w')"
proof -
  have create: "e_create_va toy_env v req = Inr \<lparr>iv_virtual_account_no = vr_account_reference req,
      iv_virtual_account_name = vr_virtual_account_name req, iv_bank_name = ''B''\<rparr>" for v req
    by (simp add: toy_env_def)
  have world: "users (w_db va_world) = [va_user]" "kyc_verifications (w_db va_world) = [va_check]"
    "repayment_accounts (w_db va_world) = []"
    and keys: "k_user_id va_check = 1" "k_tier va_check = 1" "u_id va_user = 1"
    by (simp_all add: va_world_def empty_world_def empty_db_def va_check_def va_user_def new_user_def)
  have request: "\<exists>req. va_request_of A va_check va_user ref = Some req" for A ref
    by (simp add: va_request_of_def va_check_def va_user_def new_user_def present_def mapToCollectionIdentityType_def)
  have "wp (ensureForUser toy_env 1 (return ())) (\<lambda>r _. \<exists>s. r = Some (s, True)) (\<lambda>_ _. False) va_world"
    using request by (auto simp: ensureForUser_def findActive_def va_provision_def wp_simps table_rows table_puts world create
        keys split: option.split)
  then have "\<exists>summary w'. ensureForUser toy_env 1 (return ()) va_world = (Inr (Some (summary, True)), w')"
    by (auto dest!: wp_runD)
  then show ?thesis using ensure_is_idempotent by blast
qed

end
