(* ===== verification/Loans.thy ===== *)
theory Loans
  imports LoanRepayments Calculator PriceFeed TransactionPin RepaymentAccounts
begin

text \<open>
  The other half of \<open>modules/loans/loans.service.ts\<close>: checkout and its quote, the views of a
  loan, cancellation, the release address with its step-up, activation by the collateral
  payment, and top-up invoices.
\<close>

definition TOPUP_CACHE_GRACE_SEC :: int where "TOPUP_CACHE_GRACE_SEC = 5 * 60"

section \<open>Checkout\<close>

record checkout_dto =
  dto_principal_ngn :: money
  dto_disbursement_account_id :: "id option"
  dto_collateral_release_address :: "string option"

record fee_breakdown =
  fb_origination_fee_ngn :: string
  fb_daily_custody_fee_ngn :: string
  fb_daily_interest_rate_bps :: nat
  fb_daily_interest_ngn :: string
  fb_daily_total_ngn :: string
  fb_amount_to_receive_ngn :: string

record checkout_result =
  co_loan_id :: id
  co_collateral_amount_sat :: sats
  co_payment_request :: string
  co_payment_uri :: string
  co_receiving_address :: string
  co_expires_at :: time
  co_fee_breakdown :: fee_breakdown

definition resolveDefaultAccount :: "id \<Rightarrow> id option \<Rightarrow> account_row service" where
  "resolveDefaultAccount user_id account_id =
     bind (case account_id of
             Some i \<Rightarrow> find_first account_table (\<lambda>a. acct_id a = i \<and> acct_user_id a = user_id \<and>
                         acct_status a = DisbursementAccountStatus.VERIFIED)
           | None \<Rightarrow> find_first account_table (\<lambda>a. acct_user_id a = user_id \<and> acct_is_default a \<and>
                       acct_status a = DisbursementAccountStatus.VERIFIED \<and>
                       acct_kind a \<in> {DisbursementAccountKind.BANK, DisbursementAccountKind.MOBILE_MONEY}))
       (the_or_throw (LoanE LoanDisbursementAccountRequiredException))"

definition current_quote :: "env \<Rightarrow> money \<Rightarrow> calculator_result service" where
  "current_quote V principal_ngn =
     bind (getCurrentRate SAT_NGN) (\<lambda>sat_rates.
     bind (call (e_btc_usd_rate V)) (\<lambda>btc_usd_rate.
     case calculate (e_dec V) \<lparr>ci_principal_ngn = principal_ngn, ci_sat_ngn_rate = rp_sell sat_rates,
            ci_btc_usd_rate = btc_usd_rate\<rparr> of
       Inl e \<Rightarrow> throw e | Inr calc \<Rightarrow> return calc))"

definition new_loan :: "decimals \<Rightarrow> user_row \<Rightarrow> checkout_dto \<Rightarrow> account_row \<Rightarrow> calculator_result \<Rightarrow> time \<Rightarrow> id \<Rightarrow> loan_row" where
  "new_loan D user dto account calc t i =
     \<lparr>l_id = i, l_user_id = u_id user, l_disbursement_account_id = acct_id account,
      l_collateral_amount_sat = cr_collateral_amount_sat calc, l_ltv_percent = d_col D 2 (cr_ltv_percent calc),
      l_principal_ngn = d_col D 2 (dto_principal_ngn dto),
      l_origination_fee_ngn = d_col D 2 (cr_origination_fee_ngn calc),
      l_daily_interest_rate_bps = cr_daily_interest_rate_bps calc,
      l_daily_custody_fee_ngn = d_col D 2 (cr_daily_custody_fee_ngn calc),
      l_initial_collateral_usd = d_col D 2 (cr_initial_collateral_usd calc),
      l_sat_ngn_rate_at_creation = d_col D 6 (cr_sat_ngn_rate_at_creation calc),
      l_status = LoanStatus.PENDING_COLLATERAL, l_collateral_received_at = None, l_disbursement_id = None,
      l_repayment_method = None, l_repayment_reference = None, l_repaid_at = None,
      l_collateral_release_address = dto_collateral_release_address dto, l_collateral_released_at = None,
      l_collateral_release_reference = None, l_liquidated_at = None, l_liquidation_reference = None,
      l_liquidation_rate_actual = None, l_surplus_released_sat = None, l_terms_accepted_at = t,
      l_created_at = t\<rparr>"

definition create_pending_loan :: "decimals \<Rightarrow> user_row \<Rightarrow> checkout_dto \<Rightarrow> account_row \<Rightarrow> calculator_result \<Rightarrow> loan_row service" where
  "create_pending_loan D user dto account calc =
     bind now (\<lambda>t.
     attempt
       (transaction
         (bind (create_row loan_table (new_loan D user dto account calc t)) (\<lambda>loan.
          bind (transition \<lparr>tp_loan_id = l_id loan, tp_user_id = u_id user, tp_from_status = None,
                  tp_to_status = LoanStatus.PENDING_COLLATERAL, tp_triggered_by = CUSTOMER,
                  tp_triggered_by_id = None, tp_reason_code = LOAN_CREATED, tp_reason_detail = None,
                  tp_metadata = []\<rparr>) (\<lambda>_.
          return loan))))
       (\<lambda>e. if is_unique_violation e then throw (InflowE PendingLoanAlreadyExistsException) else throw e))"

definition lightning_uri :: "string \<Rightarrow> string" where
  "lightning_uri bolt11 = (if bolt11 = [] then [] else ''lightning:'' @ bolt11)"

definition checkout_admission :: "user_row \<Rightarrow> checkout_dto \<Rightarrow> account_row service" where
  "checkout_admission user dto =
     bind (require (u_loan_enabled user) (AuthE LoanDisabledException)) (\<lambda>_.
     bind (require (u_disbursement_enabled user) (AuthE DisbursementDisabledException)) (\<lambda>_.
     bind (require (\<not> (dto_principal_ngn dto > KYC_EXEMPTION_THRESHOLD_NGN \<and> u_kyc_tier user < 1))
             (KycE (KycUpgradeRequiredException 1))) (\<lambda>_.
     bind (find_many loan_table (\<lambda>l. l_user_id l = u_id user \<and> l_status l = LoanStatus.PENDING_COLLATERAL)) (\<lambda>pending.
     bind (require (length pending = 0) (InflowE PendingLoanAlreadyExistsException)) (\<lambda>_.
     bind (resolveDefaultAccount (u_id user) (dto_disbursement_account_id dto)) (\<lambda>account.
     bind (require (\<not> (1 \<le> u_kyc_tier user \<and> acct_holder_name account = None))
             (DisbursementAccountE DisbursementAccountUnverifiedException)) (\<lambda>_.
     return account)))))))"

definition checkout_result_of :: "decimals \<Rightarrow> calculator_result \<Rightarrow> loan_row \<Rightarrow> payment_request_row \<Rightarrow> checkout_result" where
  "checkout_result_of D calc loan record =
     (let bolt11 = (case pr_payment_request record of None \<Rightarrow> [] | Some s \<Rightarrow> s) in
      \<lparr>co_loan_id = l_id loan, co_collateral_amount_sat = cr_collateral_amount_sat calc,
       co_payment_request = bolt11, co_payment_uri = lightning_uri bolt11,
       co_receiving_address = pr_receiving_address record, co_expires_at = pr_expires_at record,
       co_fee_breakdown = \<lparr>fb_origination_fee_ngn = displayNgn (cr_origination_fee_ngn calc) ceil_mode,
         fb_daily_custody_fee_ngn = displayNgn (cr_daily_custody_fee_ngn calc) ceil_mode,
         fb_daily_interest_rate_bps = cr_daily_interest_rate_bps calc,
         fb_daily_interest_ngn = displayNgn (cr_daily_interest_ngn calc) ceil_mode,
         fb_daily_total_ngn = displayNgn (dplus D (cr_daily_interest_ngn calc)
           (cr_daily_custody_fee_ngn calc)) ceil_mode,
         fb_amount_to_receive_ngn = displayNgn (cr_amount_to_receive_ngn calc) floor_mode\<rparr>\<rparr>)"

definition checkoutLoan :: "env \<Rightarrow> user_row \<Rightarrow> checkout_dto \<Rightarrow> checkout_result service" where
  "checkoutLoan V user dto =
     bind (checkout_admission user dto) (\<lambda>account.
     bind (current_quote V (dto_principal_ngn dto)) (\<lambda>calc.
     bind (create_pending_loan (e_dec V) user dto account calc) (\<lambda>loan.
     bind (attempt (payment_request_create V (u_id user) (l_id loan) (cr_collateral_amount_sat calc))
             (\<lambda>_. throw (DisbursementE CollateralInvoiceFailedException))) (\<lambda>record.
     bind (notify (u_id user) (LoanCreatedMail (l_id loan))) (\<lambda>_.
     return (checkout_result_of (e_dec V) calc loan record))))))"

definition createOpsQuote :: "env \<Rightarrow> money \<Rightarrow> (calculator_result \<times> invoice) service" where
  "createOpsQuote V principal_ngn =
     bind (current_quote V principal_ngn) (\<lambda>calc.
     bind (attempt (call (\<lambda>w. e_create_payment_request V w (cr_collateral_amount_sat calc) COLLATERAL_INVOICE_EXPIRY_SEC))
             (\<lambda>_. throw (DisbursementE CollateralInvoiceFailedException))) (\<lambda>bill.
     return (calc, bill)))"

section \<open>Views\<close>

record outstanding_view =
  ov_principal_ngn :: string
  ov_accrued_interest_ngn :: string
  ov_accrued_custody_ngn :: string
  ov_total_outstanding_ngn :: string
  ov_days_elapsed :: int

record payment_request_view =
  pv_bolt11 :: "string option"
  pv_payment_uri :: string
  pv_receiving_address :: string
  pv_expires_at :: time
  pv_amount_sat :: sats

record loan_view =
  lv_loan :: loan_row
  lv_outstanding :: outstanding_view
  lv_coverage_ratio :: "rat option"
  lv_days_active :: int
  lv_margin_call_active :: bool
  lv_payment_request :: "payment_request_view option"

definition outstanding_view_of :: "outstanding \<Rightarrow> outstanding_view" where
  "outstanding_view_of owed =
     \<lparr>ov_principal_ngn = displayNgn (o_principal_ngn owed) ceil_mode,
      ov_accrued_interest_ngn = displayNgn (o_accrued_interest_ngn owed) ceil_mode,
      ov_accrued_custody_ngn = displayNgn (o_accrued_custody_ngn owed) ceil_mode,
      ov_total_outstanding_ngn = displayNgn (o_total_outstanding_ngn owed) ceil_mode,
      ov_days_elapsed = o_days_elapsed owed\<rparr>"

definition own_loan :: "id \<Rightarrow> id \<Rightarrow> loan_row service" where
  "own_loan user_id loan_id =
     bind (find_first loan_table (\<lambda>l. l_id l = loan_id \<and> l_user_id l = user_id))
       (the_or_throw (LoanE LoanNotFoundException))"

definition coverage_of :: "decimals \<Rightarrow> loan_row \<Rightarrow> outstanding \<Rightarrow> rat option service" where
  "coverage_of D loan owed =
     attempt
       (bind (getCurrentRate SAT_NGN) (\<lambda>sat_rates.
        let collateral_ngn = dmul D (of_int (l_collateral_amount_sat loan)) (rp_sell sat_rates) in
        return (if o_total_outstanding_ngn owed > 0
                then Some (d_fixed D 4 (ddiv D collateral_ngn (o_total_outstanding_ngn owed))) else None)))
       (\<lambda>_. return None)"

definition margin_call_flag :: "env \<Rightarrow> id \<Rightarrow> bool service" where
  "margin_call_flag V loan_id =
     attempt
       (bind (may_fail V (MarginFlagFault loan_id)) (\<lambda>_.
        bind (redis_get (COVERAGE_MARGIN_CALL_NOTIFIED loan_id)) (\<lambda>flag. return (flag \<noteq> None))))
       (\<lambda>_. return False)"

definition open_payment_request :: "loan_row \<Rightarrow> payment_request_view option service" where
  "open_payment_request loan =
     bind (find_first payment_request_table (\<lambda>p. pr_source_type p = SOURCE_LOAN \<and> pr_source_id p = l_id loan \<and>
             pr_status p = PaymentRequestStatus.PENDING)) (\<lambda>found.
     return (map_option (\<lambda>p. \<lparr>pv_bolt11 = pr_payment_request p,
        pv_payment_uri = lightning_uri (case pr_payment_request p of None \<Rightarrow> [] | Some s \<Rightarrow> s),
        pv_receiving_address = pr_receiving_address p, pv_expires_at = pr_expires_at p,
        pv_amount_sat = l_collateral_amount_sat loan\<rparr>) found))"

definition getLoan :: "env \<Rightarrow> id \<Rightarrow> id \<Rightarrow> loan_view service" where
  "getLoan V user_id loan_id =
     bind (own_loan user_id loan_id) (\<lambda>loan.
     bind now (\<lambda>as_of.
     bind (gets (outstanding_at (e_dec V) loan)) (\<lambda>owed.
     bind (if l_status loan = LoanStatus.ACTIVE \<and> l_collateral_received_at loan \<noteq> None
           then bind (coverage_of (e_dec V) loan owed) (\<lambda>ratio.
                bind (margin_call_flag V (l_id loan)) (\<lambda>flag. return (ratio, flag)))
           else return (None, False)) (\<lambda>(coverage_ratio, margin_call_active).
     bind (if l_status loan = LoanStatus.PENDING_COLLATERAL then open_payment_request loan else return None) (\<lambda>pr.
     return \<lparr>lv_loan = loan, lv_outstanding = outstanding_view_of owed, lv_coverage_ratio = coverage_ratio,
       lv_days_active = (case l_collateral_received_at loan of
         None \<Rightarrow> 0 | Some r \<Rightarrow> \<lfloor>of_int (as_of - r) / (86400000 :: rat)\<rfloor>),
       lv_margin_call_active = margin_call_active, lv_payment_request = pr\<rparr>)))))"

definition getLoans :: "id \<Rightarrow> loan_row list service" where
  "getLoans user_id =
     bind (find_many loan_table (\<lambda>l. l_user_id l = user_id)) (\<lambda>rows.
     return (sort_key (\<lambda>l. - l_created_at l) rows))"

record instructions =
  ri_loan_id :: id
  ri_outstanding :: outstanding_view
  ri_repayment_account :: va_summary
  ri_minimum_partial_repayment_ngn :: string

definition getRepaymentInstructions :: "env \<Rightarrow> id \<Rightarrow> id \<Rightarrow> instructions service" where
  "getRepaymentInstructions V user_id loan_id =
     bind (own_active_loan user_id loan_id) (\<lambda>loan.
     bind (ensureForUser V user_id (return ())) (\<lambda>va.
     bind (the_or_throw (InflowE RepaymentAccountNotReadyException) va) (\<lambda>(summary, _).
     bind (gets (outstanding_at (e_dec V) loan)) (\<lambda>owed.
     return \<lparr>ri_loan_id = l_id loan, ri_outstanding = outstanding_view_of owed, ri_repayment_account = summary,
       ri_minimum_partial_repayment_ngn = displayNgn MIN_PARTIAL_REPAYMENT_NGN ceil_mode\<rparr>))))"

section \<open>Cancellation and the release address\<close>

definition cancelLoan :: "id \<Rightarrow> id \<Rightarrow> unit service" where
  "cancelLoan user_id loan_id =
     bind (own_loan user_id loan_id) (\<lambda>loan.
     transaction (transition_from loan LoanStatus.CANCELLED CUSTOMER CUSTOMER_CANCELLED None []))"

definition refuse_released :: "loan_row \<Rightarrow> unit service" where
  "refuse_released loan =
     (case l_collateral_released_at loan of
        None \<Rightarrow> return ()
      | Some t \<Rightarrow> throw (InflowE (CollateralAlreadyReleasedException t (l_collateral_release_reference loan))))"

definition release_step_up :: "auth_env \<Rightarrow> id \<Rightarrow> id \<Rightarrow> string option \<Rightarrow> string option \<Rightarrow> string option \<Rightarrow> unit service" where
  "release_step_up A user_id loan_id email_otp transaction_pin totp_code =
     bind (assertHasAnyFactorConfigured user_id) (\<lambda>_.
     bind (the_or_throw (InflowE ReleaseAddressOtpRequiredException) (present email_otp)) (\<lambda>otp.
     bind (consumeReleaseAddressChangeOtp A user_id loan_id otp) (\<lambda>_.
     verifyTransactionFactor A user_id transaction_pin totp_code)))"

definition store_release_address :: "env \<Rightarrow> loan_row \<Rightarrow> id \<Rightarrow> string \<Rightarrow> unit service" where
  "store_release_address V loan loan_id address =
     bind (update_by_id loan_table loan_id (\<lambda>l. l\<lparr>l_collateral_release_address := Some address\<rparr>)) (\<lambda>_.
     if l_status loan = LoanStatus.REPAID
     then attempt (bind (may_fail V (AlertKeyFault loan_id)) (\<lambda>_. redis_del (COLLATERAL_RELEASE_ALERTED loan_id)))
            (\<lambda>_. return ())
     else return ())"

definition setReleaseAddress :: "env \<Rightarrow> id \<Rightarrow> id \<Rightarrow> string \<Rightarrow> string option \<Rightarrow> string option \<Rightarrow> string option \<Rightarrow> unit service" where
  "setReleaseAddress V user_id loan_id address email_otp transaction_pin totp_code =
     bind (own_loan user_id loan_id) (\<lambda>loan.
     bind (refuse_released loan) (\<lambda>_.
     bind (if l_collateral_release_address loan \<noteq> None
           then release_step_up (e_auth V) user_id loan_id email_otp transaction_pin totp_code
           else return ()) (\<lambda>_.
     store_release_address V loan loan_id address)))"

definition requestReleaseAddressChangeOtp :: "env \<Rightarrow> id \<Rightarrow> id \<Rightarrow> unit service" where
  "requestReleaseAddressChangeOtp V user_id loan_id =
     bind (own_loan user_id loan_id) (\<lambda>loan.
     bind (refuse_released loan) (\<lambda>_.
     bind (require (l_collateral_release_address loan \<noteq> None) (InflowE ReleaseAddressNotYetSetException)) (\<lambda>_.
     sendReleaseAddressChangeOtp (e_auth V) user_id loan_id)))"

section \<open>Activation and top-ups\<close>

definition activateLoan :: "id \<Rightarrow> time \<Rightarrow> unit service" where
  "activateLoan loan_id collateral_received_at =
     bind (find_or_throw loan_table loan_id) (\<lambda>loan.
     if l_status loan \<noteq> LoanStatus.PENDING_COLLATERAL then return ()
     else bind (transaction
            (bind (update_by_id loan_table loan_id
                     (\<lambda>l. l\<lparr>l_collateral_received_at := Some collateral_received_at\<rparr>)) (\<lambda>_.
             transition_from loan LoanStatus.ACTIVE COLLATERAL_WEBHOOK COLLATERAL_CONFIRMED None []))) (\<lambda>_.
          notify (l_user_id loan) (CollateralReceivedMail loan_id)))"

record topup_result =
  tr_topup_id :: id
  tr_loan_id :: id
  tr_payment_request :: string
  tr_payment_uri :: string
  tr_receiving_address :: string
  tr_expires_at :: time

definition new_topup :: "id \<Rightarrow> invoice \<Rightarrow> id \<Rightarrow> topup_row" where
  "new_topup loan_id bill i =
     \<lparr>tu_id = i, tu_loan_id = loan_id, tu_provider_ref = inv_provider_reference bill,
      tu_payment_request = inv_payment_request bill, tu_receiving_address = inv_receiving_address bill,
      tu_expected_amount_sat = 0, tu_expires_at = inv_expires_at bill,
      tu_status = TopUpStatus.PENDING_COLLATERAL\<rparr>"

definition createCollateralTopUp :: "env \<Rightarrow> id \<Rightarrow> id \<Rightarrow> topup_result service" where
  "createCollateralTopUp V user_id loan_id =
     bind (own_active_loan user_id loan_id) (\<lambda>_.
     bind (attempt (call (\<lambda>w. e_create_no_amount_invoice V w COLLATERAL_TOPUP_EXPIRY_SEC))
             (\<lambda>_. throw (DisbursementE CollateralInvoiceFailedException))) (\<lambda>bill.
     bind (attempt (create_row topup_table (new_topup loan_id bill))
             (\<lambda>e. if is_unique_violation e then throw (InflowE AddCollateralAlreadyPendingException) else throw e)) (\<lambda>topup.
     bind now (\<lambda>t.
     bind (redis_setex (COLLATERAL_TOPUP_PENDING (inv_receiving_address bill)) (VInt (int (tu_id topup)))
             (max (ceil_seconds (inv_expires_at bill - t) + TOPUP_CACHE_GRACE_SEC) 1)) (\<lambda>_.
     return \<lparr>tr_topup_id = tu_id topup, tr_loan_id = loan_id, tr_payment_request = inv_payment_request bill,
       tr_payment_uri = lightning_uri (inv_payment_request bill),
       tr_receiving_address = inv_receiving_address bill, tr_expires_at = inv_expires_at bill\<rparr>)))))"

section \<open>Checkout: what it admits and what it writes\<close>

lemma getCurrentRate_reads: "wp (getCurrentRate pair) (\<lambda>_ w'. w' = w) (\<lambda>_ w'. w' = w) w"
  by (auto simp: wp_getCurrentRate split: option.split rval.split)

lemma current_quote_reads:
  "wp (current_quote V principal_ngn)
     (\<lambda>calc w'. w' = w \<and> (\<exists>input. ci_principal_ngn input = principal_ngn \<and> calculate (e_dec V) input = Inr calc))
     (\<lambda>_ w'. w' = w) w"
  unfolding current_quote_def wp_bind
  by (rule wp_mono[OF getCurrentRate_reads])
     (auto simp: wp_simps split: sum.split intro!: exI[of _ "\<lparr>ci_principal_ngn = principal_ngn, ci_sat_ngn_rate = _,
        ci_btc_usd_rate = _\<rparr>"])

lemma admission_effect:
  assumes "checkout_admission user dto w = (Inr account, w')"
  shows "w' = w" "u_loan_enabled user" "u_disbursement_enabled user"
    "dto_principal_ngn dto \<le> KYC_EXEMPTION_THRESHOLD_NGN \<or> 1 \<le> u_kyc_tier user"
    "\<forall>l\<in>set (loans (w_db w)). l_user_id l = u_id user \<longrightarrow> l_status l \<noteq> LoanStatus.PENDING_COLLATERAL"
    "account \<in> set (accounts (w_db w))" "acct_user_id account = u_id user"
    "acct_status account = DisbursementAccountStatus.VERIFIED"
    "1 \<le> u_kyc_tier user \<longrightarrow> acct_holder_name account \<noteq> None"
proof -
  have "wp (checkout_admission user dto) (\<lambda>account w'. w' = w \<and> u_loan_enabled user \<and> u_disbursement_enabled user \<and>
    (dto_principal_ngn dto \<le> KYC_EXEMPTION_THRESHOLD_NGN \<or> 1 \<le> u_kyc_tier user) \<and>
    (\<forall>l\<in>set (loans (w_db w)). l_user_id l = u_id user \<longrightarrow> l_status l \<noteq> LoanStatus.PENDING_COLLATERAL) \<and>
    account \<in> set (accounts (w_db w)) \<and> acct_user_id account = u_id user \<and>
    acct_status account = DisbursementAccountStatus.VERIFIED \<and>
    (1 \<le> u_kyc_tier user \<longrightarrow> acct_holder_name account \<noteq> None)) (\<lambda>_ _. True) w"
    by (auto simp: checkout_admission_def resolveDefaultAccount_def wp_simps filter_empty_conv
        split: option.split dest!: find_SomeD)
  with assms show "w' = w" "u_loan_enabled user" "u_disbursement_enabled user"
    "dto_principal_ngn dto \<le> KYC_EXEMPTION_THRESHOLD_NGN \<or> 1 \<le> u_kyc_tier user"
    "\<forall>l\<in>set (loans (w_db w)). l_user_id l = u_id user \<longrightarrow> l_status l \<noteq> LoanStatus.PENDING_COLLATERAL"
    "account \<in> set (accounts (w_db w))" "acct_user_id account = u_id user"
    "acct_status account = DisbursementAccountStatus.VERIFIED"
    "1 \<le> u_kyc_tier user \<longrightarrow> acct_holder_name account \<noteq> None"
    by (simp_all add: wp_def)
qed

lemma create_pending_loan_effect:
  "wp (create_pending_loan D user dto account calc)
     (\<lambda>loan w'. loan = new_loan D user dto account calc (w_clock w) (next_id (w_db w)) \<and>
        violated loan_table loan (loans (w_db w)) = None \<and>
        loans (w_db w') = loans (w_db w) @ [loan] \<and> payment_requests (w_db w') = payment_requests (w_db w) \<and>
        w_clock w' = w_clock w \<and> next_id (w_db w') = next_id (w_db w) + 2 \<and> w_redis w' = w_redis w \<and>
        w_outbox w' = w_outbox w)
     (\<lambda>_ w'. w' = w) w"
  by (simp add: create_pending_loan_def wp_simps wp_transition split: option.split)

lemma payment_request_create_effect:
  "wp (payment_request_create V u i n)
     (\<lambda>pr w'. (\<exists>bill. e_create_payment_request V w n COLLATERAL_INVOICE_EXPIRY_SEC = Inr bill \<and>
          pr = new_payment_request (e_dec V) u i n bill (w_clock w) (next_id (w_db w)) \<and>
          live w' (PAYMENT_REQUEST_PENDING (inv_receiving_address bill)) = Some (VInt (int (pr_id pr)))) \<and>
        payment_requests (w_db w') = payment_requests (w_db w) @ [pr] \<and> loans (w_db w') = loans (w_db w) \<and>
        next_id (w_db w') = next_id (w_db w) + 1)
     (\<lambda>_ w'. w' = w) w"
  by (auto simp: payment_request_create_def wp_simps new_payment_request_def violated_def table_defs
      split: option.split sum.split)

lemma notify_InrD: "notify u m s = (Inr x, t) \<Longrightarrow> t = s\<lparr>w_outbox := w_outbox s @ [MailSent u m]\<rparr>"
  by (auto simp: notify_def emit_def modify_def)

lemma checkout_steps:
  assumes "checkoutLoan V user dto w = (Inr res, w')"
  obtains account calc input loan pr bill where
    "checkout_admission user dto w = (Inr account, w)"
    "ci_principal_ngn input = dto_principal_ngn dto" "calculate (e_dec V) input = Inr calc"
    "loan = new_loan (e_dec V) user dto account calc (w_clock w) (next_id (w_db w))"
    "violated loan_table loan (loans (w_db w)) = None"
    "pr = new_payment_request (e_dec V) (u_id user) (l_id loan) (cr_collateral_amount_sat calc) bill
       (w_clock w) (next_id (w_db w) + 2)"
    "loans (w_db w') = loans (w_db w) @ [loan]" "payment_requests (w_db w') = payment_requests (w_db w) @ [pr]"
    "next_id (w_db w') = next_id (w_db w) + 3"
    "live w' (PAYMENT_REQUEST_PENDING (inv_receiving_address bill)) = Some (VInt (int (pr_id pr)))"
    "res = checkout_result_of (e_dec V) calc loan pr"
proof -
  obtain account calc loan pr w1 w2 w3 w4 u5 w5 where
    1: "checkout_admission user dto w = (Inr account, w1)"
    and 2: "current_quote V (dto_principal_ngn dto) w1 = (Inr calc, w2)"
    and 3: "create_pending_loan (e_dec V) user dto account calc w2 = (Inr loan, w3)"
    and 4: "attempt (payment_request_create V (u_id user) (l_id loan) (cr_collateral_amount_sat calc))
      (\<lambda>_. throw (DisbursementE CollateralInvoiceFailedException)) w3 = (Inr pr, w4)"
    and 5: "notify (u_id user) (LoanCreatedMail (l_id loan)) w4 = (Inr u5, w5)"
    and 6: "(return (checkout_result_of (e_dec V) calc loan pr) :: checkout_result service) w5 = (Inr res, w')"
    using assms unfolding checkoutLoan_def by (elim bind_InrE) blast
  have e1: "w1 = w" using admission_effect(1)[OF 1] .
  have e2: "w2 = w" "\<exists>input. ci_principal_ngn input = dto_principal_ngn dto \<and> calculate (e_dec V) input = Inr calc"
    using current_quote_reads[of V "dto_principal_ngn dto" w1] 2 e1 by (auto simp: wp_def)
  have e3: "loan = new_loan (e_dec V) user dto account calc (w_clock w) (next_id (w_db w))"
    "violated loan_table loan (loans (w_db w)) = None"
    "loans (w_db w3) = loans (w_db w) @ [loan]" "payment_requests (w_db w3) = payment_requests (w_db w)"
    "w_clock w3 = w_clock w" "next_id (w_db w3) = next_id (w_db w) + 2"
    using create_pending_loan_effect[of "e_dec V" user dto account calc w2] 3 e2(1) by (auto simp: wp_def)
  obtain bill where e4: "pr = new_payment_request (e_dec V) (u_id user) (l_id loan) (cr_collateral_amount_sat calc)
       bill (w_clock w3) (next_id (w_db w3))"
    "live w4 (PAYMENT_REQUEST_PENDING (inv_receiving_address bill)) = Some (VInt (int (pr_id pr)))"
    "payment_requests (w_db w4) = payment_requests (w_db w3) @ [pr]" "loans (w_db w4) = loans (w_db w3)"
    "next_id (w_db w4) = next_id (w_db w3) + 1"
    using payment_request_create_effect[of V "u_id user" "l_id loan" "cr_collateral_amount_sat calc" w3]
      attempt_throw_InrE[OF 4]
    by (auto simp: wp_def)
  have e6: "res = checkout_result_of (e_dec V) calc loan pr" "w' = w4\<lparr>w_outbox := w_outbox w4 @ [MailSent (u_id user) (LoanCreatedMail (l_id loan))]\<rparr>"
    using return_InrD[OF 6] notify_InrD[OF 5] by auto
  show ?thesis using that[of account _ calc loan pr bill] 1 e1 e2(2) e3 e4 e6 by auto
qed

text \<open>C13. A checkout that returns was entitled to: the customer's lending and disbursements are
  enabled, a principal above the exemption has a verified identity, no other loan of theirs
  waits for collateral, the payout account is theirs, verified and, for a verified identity,
  name-matched, and the principal is within the self-serve limits. It created exactly one loan,
  waiting for collateral and locked to that account, and one pending invoice for exactly its
  collateral, which the collateral webhook will find under the address the customer was given.\<close>

theorem checkout_is_entitled:
  assumes "checkoutLoan V user dto w = (Inr res, w')"
  shows "u_loan_enabled user \<and> u_disbursement_enabled user \<and>
    (500000 < dto_principal_ngn dto \<longrightarrow> 1 \<le> u_kyc_tier user) \<and>
    10000 \<le> dto_principal_ngn dto \<and> dto_principal_ngn dto \<le> 10000000 \<and>
    (\<forall>l\<in>set (loans (w_db w)). l_user_id l = u_id user \<longrightarrow> l_status l \<noteq> LoanStatus.PENDING_COLLATERAL) \<and>
    (\<exists>account loan pr. account \<in> set (accounts (w_db w)) \<and> acct_user_id account = u_id user \<and>
       acct_status account = DisbursementAccountStatus.VERIFIED \<and>
       (1 \<le> u_kyc_tier user \<longrightarrow> acct_holder_name account \<noteq> None) \<and>
       loans (w_db w') = loans (w_db w) @ [loan] \<and> l_id loan = co_loan_id res \<and>
       l_status loan = LoanStatus.PENDING_COLLATERAL \<and> l_user_id loan = u_id user \<and>
       l_disbursement_account_id loan = acct_id account \<and>
       payment_requests (w_db w') = payment_requests (w_db w) @ [pr] \<and>
       pr_status pr = PaymentRequestStatus.PENDING \<and> pr_source_id pr = l_id loan \<and> pr_source_type pr = SOURCE_LOAN \<and>
       pr_expected_amount pr = d_col (e_dec V) 8 (of_int (l_collateral_amount_sat loan)) \<and>
       live w' (PAYMENT_REQUEST_PENDING (co_receiving_address res)) = Some (VInt (int (pr_id pr))))"
proof -
  obtain account calc input loan pr bill where s: "checkout_admission user dto w = (Inr account, w)"
    "ci_principal_ngn input = dto_principal_ngn dto" "calculate (e_dec V) input = Inr calc"
    "loan = new_loan (e_dec V) user dto account calc (w_clock w) (next_id (w_db w))"
    "violated loan_table loan (loans (w_db w)) = None"
    "pr = new_payment_request (e_dec V) (u_id user) (l_id loan) (cr_collateral_amount_sat calc) bill
       (w_clock w) (next_id (w_db w) + 2)"
    "loans (w_db w') = loans (w_db w) @ [loan]" "payment_requests (w_db w') = payment_requests (w_db w) @ [pr]"
    "live w' (PAYMENT_REQUEST_PENDING (inv_receiving_address bill)) = Some (VInt (int (pr_id pr)))"
    "res = checkout_result_of (e_dec V) calc loan pr"
    by (rule checkout_steps[OF assms])
  note a = admission_effect[OF s(1)] and c = calculate_fields[OF s(3)]
  show ?thesis
    using a(2-9) c(5,6) s(2,7-9)
    by (auto simp: s(4,6,10) new_loan_def new_payment_request_def checkout_result_of_def Let_def
        KYC_EXEMPTION_THRESHOLD_NGN_def intro!: exI[of _ account])
qed

lemma pending_clash:
  assumes "wf_table loan_table w" and "p \<in> set (loans (w_db w))" "l_user_id p = u_id user"
    and "l_status p = LoanStatus.PENDING_COLLATERAL"
  shows "violated loan_table (new_loan D user dto account calc t (next_id (w_db w))) (loans (w_db w)) \<noteq> None"
proof -
  let ?r = "new_loan D user dto account calc t (next_id (w_db w))"
  have "l_id p < next_id (w_db w)" using assms(1,2) by (simp add: wf_table_def table_rows)
  then have "l_id p \<noteq> l_id ?r" by (simp add: new_loan_def)
  moreover have "l_user_id p = l_user_id ?r" "l_status ?r = LoanStatus.PENDING_COLLATERAL"
    using assms(3) by (simp_all add: new_loan_def)
  ultimately have "\<exists>x\<in>set (t_unique loan_table). \<exists>r\<in>set (loans (w_db w)). t_key loan_table r \<noteq> t_key loan_table ?r \<and> snd x ?r r"
    using assms(2,4) by (auto simp: loan_table_def intro!: bexI[of _ p])
  then obtain x r where "x \<in> set (t_unique loan_table)" "r \<in> set (loans (w_db w))"
    "t_key loan_table r \<noteq> t_key loan_table ?r" "snd x ?r r"
    by blast
  then show ?thesis
    using violated_NoneD[of loan_table ?r "loans (w_db w)" "fst x" "snd x" r] by auto
qed

text \<open>C14. While a loan of a customer waits for collateral, no checkout of theirs gets further: whatever else is wrong with it, it raises
  and writes nothing, and one that is otherwise admissible is told that a loan is pending, before an account, a rate or an invoice is
  looked at. A checkout that was admitted and priced before the other one wrote its loan gets the same answer from the unique index, before
  an invoice is asked for.\<close>

theorem second_checkout_is_refused:
  assumes "wf_table loan_table w" and "p \<in> set (loans (w_db w))" and "l_user_id p = u_id user"
    and "l_status p = LoanStatus.PENDING_COLLATERAL"
  shows "(\<exists>e. checkoutLoan V user dto w = (Inl e, w) \<and>
      (u_loan_enabled user \<and> u_disbursement_enabled user \<and> (dto_principal_ngn dto \<le> 500000 \<or> 1 \<le> u_kyc_tier user) \<longrightarrow>
         e = InflowE PendingLoanAlreadyExistsException)) \<and>
    create_pending_loan (e_dec V) user dto account calc w = (Inl (InflowE PendingLoanAlreadyExistsException), w)"
proof -
  have rows: "filter (\<lambda>l. l_user_id l = u_id user \<and> l_status l = LoanStatus.PENDING_COLLATERAL) (loans (w_db w)) \<noteq> []"
    using assms(2-4) by (auto simp: filter_empty_conv)
  have "wp (checkoutLoan V user dto) (\<lambda>_ _. False) (\<lambda>e w'. w' = w \<and>
      (u_loan_enabled user \<and> u_disbursement_enabled user \<and> (dto_principal_ngn dto \<le> 500000 \<or> 1 \<le> u_kyc_tier user) \<longrightarrow>
         e = InflowE PendingLoanAlreadyExistsException)) w"
    using rows by (auto simp: checkoutLoan_def checkout_admission_def wp_simps table_rows KYC_EXEMPTION_THRESHOLD_NGN_def)
  moreover have "wp (create_pending_loan (e_dec V) user dto account calc) (\<lambda>_ _. False)
      (\<lambda>e w'. w' = w \<and> e = InflowE PendingLoanAlreadyExistsException) w"
    using pending_clash[OF assms, where D = "e_dec V" and dto = dto and account = account and calc = calc and t = "w_clock w"]
    by (auto simp: create_pending_loan_def wp_simps table_rows is_unique_violation_def)
  ultimately show ?thesis by (auto simp: wp_def split: prod.splits sum.splits)
qed

section \<open>The release address\<close>

text \<open>What a step-up proves: the PIN of an account that is not locked out, or the current code of
  its authenticator.\<close>

definition factor_proved :: "auth_env \<Rightarrow> id \<Rightarrow> string option \<Rightarrow> string option \<Rightarrow> world \<Rightarrow> bool" where
  "factor_proved A user_id pin totp w \<longleftrightarrow>
     (\<exists>user. find_row u_id user_id (users (w_db w)) = Some user \<and>
       (case present pin of
          Some p \<Rightarrow> (\<exists>h. present (u_transaction_pin_hash user) = Some h \<and> ae_argon2_verify A h p) \<and>
            (\<forall>until. u_transaction_pin_locked_until user = Some until \<longrightarrow> until \<le> w_clock w)
        | None \<Rightarrow> u_totp_enabled user \<and>
            (\<exists>code s. present totp = Some code \<and> present (u_totp_secret user) = Some s \<and>
               ae_totp_verify A (ae_decrypt A s) code (w_clock w))))"

lemma pin_factor_effect:
  assumes "present pin = Some p"
  shows "wp (verifyPinOrThrow A user_id p)
     (\<lambda>_ w'. factor_proved A user_id pin totp w \<and> loans (w_db w') = loans (w_db w) \<and> w_redis w' = w_redis w)
     (\<lambda>_ w'. loans (w_db w') = loans (w_db w)) w"
proof (cases "find_row u_id user_id (users (w_db w))")
  case (Some user)
  have p: "factor_proved A user_id pin totp w \<longleftrightarrow>
     (\<exists>h. present (u_transaction_pin_hash user) = Some h \<and> ae_argon2_verify A h p) \<and>
     (\<forall>until. u_transaction_pin_locked_until user = Some until \<longrightarrow> until \<le> w_clock w)"
    using Some assms by (simp add: factor_proved_def)
  show ?thesis
    unfolding p
    by (cases "present (u_transaction_pin_hash user)"; cases "u_transaction_pin_locked_until user")
       (simp_all add: verifyPinOrThrow_def verifyCurrentPinOrThrow_def wp_simps Some Let_def split: option.split)
qed (simp add: verifyPinOrThrow_def verifyCurrentPinOrThrow_def wp_simps)

lemma totp_factor_effect:
  assumes "present pin = None" "present totp = Some code"
  shows "wp (verifyTotpForUser A user_id code)
     (\<lambda>_ w'. factor_proved A user_id pin totp w \<and> w' = w) (\<lambda>_ w'. w' = w) w"
  using assms by (auto simp: verifyTotpForUser_def check_totp_def wp_simps factor_proved_def split: option.split)

lemma transaction_factor_effect:
  "wp (verifyTransactionFactor A user_id pin totp)
     (\<lambda>_ w'. factor_proved A user_id pin totp w \<and> loans (w_db w') = loans (w_db w) \<and> w_redis w' = w_redis w)
     (\<lambda>_ w'. loans (w_db w') = loans (w_db w)) w"
proof -
  have "wp (case present pin of Some p \<Rightarrow> verifyPinOrThrow A user_id p
     | None \<Rightarrow> (case present totp of Some code \<Rightarrow> verifyTotpForUser A user_id code
         | None \<Rightarrow> throw (PinE TransactionFactorRequiredException)))
     (\<lambda>_ w'. factor_proved A user_id pin totp w \<and> loans (w_db w') = loans (w_db w) \<and> w_redis w' = w_redis w)
     (\<lambda>_ w'. loans (w_db w') = loans (w_db w)) w"
  proof (cases "present pin")
    case None
    then show ?thesis
      by (cases "present totp") (auto simp: wp_simps intro!: wp_mono[OF totp_factor_effect])
  qed (simp add: pin_factor_effect)
  then show ?thesis
    by (simp add: verifyTransactionFactor_def assertHasAnyFactorConfigured_def wp_find_or_throw wp_require wp_bind_fun
        split: option.split)
qed

lemma wp_release_otp:
  "wp (consumeReleaseAddressChangeOtp A u i otp) Q E w =
     (if OTP_MAX_ATTEMPTS \<le> read_attempts (live w (SCOPED_OTP_ATTEMPTS otp_release_address_change u (Some i)))
      then E (AuthE AuthOtpMaxAttemptsException) w
      else case live w (SCOPED_OTP_CODE otp_release_address_change u (Some i)) of
        Some (VStr h) \<Rightarrow>
          if safeCompareOtp A otp h
          then Q () (del_world (SCOPED_OTP_ATTEMPTS otp_release_address_change u (Some i))
                 (del_world (SCOPED_OTP_CODE otp_release_address_change u (Some i))
                   (count_attempt (SCOPED_OTP_ATTEMPTS otp_release_address_change u (Some i)) w)))
          else E (AuthE AuthOtpExpiredException) (count_attempt (SCOPED_OTP_ATTEMPTS otp_release_address_change u (Some i)) w)
      | _ \<Rightarrow> E (AuthE AuthOtpExpiredException) w)"
  by (simp add: wp_def consumeReleaseAddressChangeOtp_def scoped_otp.consume_eq split: option.split rval.split)

definition release_otp_proved :: "auth_env \<Rightarrow> id \<Rightarrow> id \<Rightarrow> string option \<Rightarrow> world \<Rightarrow> bool" where
  "release_otp_proved A u i otp w \<longleftrightarrow> (\<exists>code h. present otp = Some code \<and> safeCompareOtp A code h \<and>
     live w (SCOPED_OTP_CODE otp_release_address_change u (Some i)) = Some (VStr h))"

lemma release_otp_provedI:
  "present otp = Some code \<Longrightarrow> safeCompareOtp A code h \<Longrightarrow>
   live w (SCOPED_OTP_CODE otp_release_address_change u (Some i)) = Some (VStr h) \<Longrightarrow> release_otp_proved A u i otp w"
  by (auto simp: release_otp_proved_def)

lemma release_step_up_effect:
  "wp (release_step_up A u i otp pin totp)
     (\<lambda>_ w'. loans (w_db w') = loans (w_db w) \<and> factor_proved A u pin totp w \<and> release_otp_proved A u i otp w \<and>
        w_redis w' (SCOPED_OTP_CODE otp_release_address_change u (Some i)) = None)
     (\<lambda>_ w'. loans (w_db w') = loans (w_db w)) w"
proof -
  have factor: "wp (verifyTransactionFactor A u pin totp)
     (\<lambda>_ w'. loans (w_db w') = loans (w_db w) \<and> factor_proved A u pin totp w \<and> release_otp_proved A u i otp w \<and>
        w_redis w' (SCOPED_OTP_CODE otp_release_address_change u (Some i)) = None)
     (\<lambda>_ w'. loans (w_db w') = loans (w_db w)) v"
    if "w_db v = w_db w" "w_clock v = w_clock w" "w_redis v (SCOPED_OTP_CODE otp_release_address_change u (Some i)) = None"
      "release_otp_proved A u i otp w" for v
  proof -
    have "factor_proved A u pin totp v = factor_proved A u pin totp w"
      unfolding factor_proved_def that(1,2) ..
    then show ?thesis by (intro wp_mono[OF transaction_factor_effect]) (use that in auto)
  qed
  show ?thesis
    unfolding release_step_up_def wp_bind_fun wp_release_otp assertHasAnyFactorConfigured_def
    by (auto simp: wp_simps count_attempt_def set_key_def del_world_def
        split: option.split rval.split intro!: factor release_otp_provedI)
qed

text \<open>C30. A release address, once set, is replaced only for the holder of a live code that was
  sent for this very loan, who also proves the PIN or the authenticator, and only before the
  collateral was released; the code is used up. A refused request changes no loan, a granted one
  no other column.\<close>

theorem release_address_step_up:
  assumes "find_row l_id i (loans (w_db w)) = Some loan" and "l_user_id loan = u"
    and "l_collateral_release_address loan \<noteq> None"
    and "setReleaseAddress V u i address otp pin totp w = (r, w')"
  shows "case r of
      Inl _ \<Rightarrow> loans (w_db w') = loans (w_db w)
    | Inr _ \<Rightarrow> loans (w_db w') = update_row l_id i (\<lambda>l. l\<lparr>l_collateral_release_address := Some address\<rparr>) (loans (w_db w)) \<and>
        l_collateral_released_at loan = None \<and> factor_proved (e_auth V) u pin totp w \<and>
        release_otp_proved (e_auth V) u i otp w \<and>
        w_redis w' (SCOPED_OTP_CODE otp_release_address_change u (Some i)) = None"
proof -
  have own: "List.find (\<lambda>l. l_id l = i \<and> l_user_id l = u) (loans (w_db w)) = Some loan"
    by (rule find_owned[where q = "\<lambda>l. l_user_id l = u"]) (use assms(1,2) in auto)
  have stored: "wp (store_release_address V loan i address)
     (\<lambda>_ t. loans (w_db t) = update_row l_id i (\<lambda>l. l\<lparr>l_collateral_release_address := Some address\<rparr>) (loans (w_db w)) \<and>
        w_redis t (SCOPED_OTP_CODE otp_release_address_change u (Some i)) = None)
     (\<lambda>_ t. loans (w_db t) = loans (w_db w)) v"
    if "loans (w_db v) = loans (w_db w)" "w_redis v (SCOPED_OTP_CODE otp_release_address_change u (Some i)) = None" for v
    using that by (simp add: store_release_address_def wp_simps split: option.split)
  have "wp (setReleaseAddress V u i address otp pin totp)
    (\<lambda>_ t. l_collateral_released_at loan = None \<and> factor_proved (e_auth V) u pin totp w \<and>
       release_otp_proved (e_auth V) u i otp w \<and>
       loans (w_db t) = update_row l_id i (\<lambda>l. l\<lparr>l_collateral_release_address := Some address\<rparr>) (loans (w_db w)) \<and>
       w_redis t (SCOPED_OTP_CODE otp_release_address_change u (Some i)) = None)
    (\<lambda>_ t. loans (w_db t) = loans (w_db w)) w"
  proof (cases "l_collateral_released_at loan")
    case None
    show ?thesis
      by (simp add: setReleaseAddress_def own_loan_def wp_bind wp_find_first own wp_the_or_throw refuse_released_def
          None wp_return assms(3) table_rows)
        (intro impI wp_mono[OF release_step_up_effect], auto intro!: wp_mono[OF stored])
  next
    case Some
    then show ?thesis
      by (simp add: setReleaseAddress_def own_loan_def wp_simps own refuse_released_def)
  qed
  from this assms(4) show ?thesis by (auto simp: wp_def split: sum.split)
qed

lemma loan_update_ok:
  assumes "wf_table loan_table w" "find_row l_id i (loans (w_db w)) = Some loan" "l_id r = l_id loan"
    and "l_user_id r = l_user_id loan" "l_disbursement_id r = l_disbursement_id loan"
    and "l_status r = l_status loan \<or> l_status r \<noteq> LoanStatus.PENDING_COLLATERAL"
  shows "violated loan_table r (loans (w_db w)) = None"
proof -
  have "clash r b \<Longrightarrow> clash loan b" if "(k, clash) \<in> set (t_unique loan_table)" for k clash b
    using that assms(4-6) by (cases "l_disbursement_id loan") (auto simp: loan_table_def)
  then show ?thesis
    using loan_tbl.not_violated[OF assms(1), of i loan r] assms(2,3) by (auto simp: table_rows)
qed

lemma activation_effect:
  assumes "find_row l_id i (loans (w_db w)) = Some loan" and "wf_table loan_table w"
    and "l_status loan = LoanStatus.PENDING_COLLATERAL"
  shows "wp (activateLoan i t) (\<lambda>_ w'. loans (w_db w') = update_row l_id i (\<lambda>l. l\<lparr>l_collateral_received_at := Some t,
            l_status := LoanStatus.ACTIVE\<rparr>) (loans (w_db w)) \<and>
          (\<exists>log. status_logs (w_db w') = status_logs (w_db w) @ [log] \<and> sl_loan_id log = i \<and>
             sl_from_status log = Some LoanStatus.PENDING_COLLATERAL \<and> sl_to_status log = LoanStatus.ACTIVE))
     (\<lambda>_ _. False) w"
proof -
  have id: "l_id loan = i" using find_row_key[OF assms(1)] .
  have v1: "violated loan_table (loan\<lparr>l_collateral_received_at := Some t\<rparr>) (loans (w_db w)) = None"
    by (rule loan_update_ok[OF assms(2,1)]) simp_all
  have wf1: "wf_table loan_table (t_put loan_table (update_row l_id i (\<lambda>l. l\<lparr>l_collateral_received_at := Some t\<rparr>)) w)"
    by (rule loan_tbl.wf_update[OF assms(2), of "\<lambda>l. l\<lparr>l_collateral_received_at := Some t\<rparr>" i "loan\<lparr>l_collateral_received_at := Some t\<rparr>"])
       (use v1 assms(1) in \<open>simp_all add: update_by_id_def table_rows\<close>)
  have v2: "violated loan_table (loan\<lparr>l_collateral_received_at := Some t, l_status := LoanStatus.ACTIVE\<rparr>)
      (update_row l_id i (\<lambda>l. l\<lparr>l_collateral_received_at := Some t\<rparr>) (loans (w_db w))) = None"
    using loan_update_ok[OF wf1, of i "loan\<lparr>l_collateral_received_at := Some t\<rparr>"
        "loan\<lparr>l_collateral_received_at := Some t, l_status := LoanStatus.ACTIVE\<rparr>"] assms(1)
    by (simp add: table_ops find_row_update_row)
  show ?thesis
    using v1 v2 id
    by (simp add: activateLoan_def transition_from_def wp_simps wp_transition assms(1,3) table_ops find_row_update_row
        valid_transition_def VALID_TRANSITIONS_def update_row_twice status_log_of_def)
qed

text \<open>The confirmation of a collateral payment activates a loan once: it moves a loan that
  waits for collateral to active, with the time of the payment and one entry in the audit log, and
  a second confirmation, or one for a loan in any other state, changes nothing.\<close>

theorem activation_is_idempotent:
  assumes "find_row l_id i (loans (w_db w)) = Some loan" and "wf_table loan_table w"
  shows "\<exists>w'. activateLoan i t w = (Inr (), w') \<and>
    (if l_status loan = LoanStatus.PENDING_COLLATERAL
     then loans (w_db w') = update_row l_id i (\<lambda>l. l\<lparr>l_collateral_received_at := Some t,
            l_status := LoanStatus.ACTIVE\<rparr>) (loans (w_db w)) \<and>
          (\<exists>log. status_logs (w_db w') = status_logs (w_db w) @ [log] \<and> sl_loan_id log = i \<and>
             sl_from_status log = Some LoanStatus.PENDING_COLLATERAL \<and> sl_to_status log = LoanStatus.ACTIVE)
     else w' = w) \<and>
    activateLoan i t' w' = (Inr (), w')"
proof (cases "l_status loan = LoanStatus.PENDING_COLLATERAL")
  case True
  obtain w' where w': "activateLoan i t w = (Inr (), w')" "loans (w_db w') = update_row l_id i
      (\<lambda>l. l\<lparr>l_collateral_received_at := Some t, l_status := LoanStatus.ACTIVE\<rparr>) (loans (w_db w))"
      "\<exists>log. status_logs (w_db w') = status_logs (w_db w) @ [log] \<and> sl_loan_id log = i \<and>
             sl_from_status log = Some LoanStatus.PENDING_COLLATERAL \<and> sl_to_status log = LoanStatus.ACTIVE"
    using wp_runD[OF activation_effect[OF assms True, of t]] by auto
  have "activateLoan i t' w' = (Inr (), w')"
    unfolding run_eq_wp by (simp add: activateLoan_def wp_simps w'(2) find_row_update_row assms(1))
  then show ?thesis using w' True by auto
next
  case False
  then have "activateLoan i t'' w = (Inr (), w)" for t''
    unfolding run_eq_wp by (simp add: activateLoan_def wp_simps assms(1))
  then show ?thesis using False by auto
qed

section \<open>Concrete runs\<close>

definition sample_customer :: user_row where
  "sample_customer = (new_user ''a@b'' 0 1)\<lparr>u_loan_enabled := True, u_disbursement_enabled := True,
     u_transaction_pin_hash := Some (rev ''135790'')\<rparr>"

definition sample_account :: account_row where
  "sample_account = \<lparr>acct_id = 2, acct_user_id = 1, acct_kind = DisbursementAccountKind.BANK,
     acct_provider_name = ''Bank'', acct_provider_code = ''100'', acct_account_unique = ''0123456789'',
     acct_holder_name = None, acct_is_default = True, acct_status = DisbursementAccountStatus.VERIFIED,
     acct_account_unique_tag = None, acct_label = None, acct_name_match_score = None, acct_verified_at = Some 0,
     acct_created_at = 0\<rparr>"

definition sample_dto :: checkout_dto where
  "sample_dto = \<lparr>dto_principal_ngn = 100000, dto_disbursement_account_id = None,
     dto_collateral_release_address = Some ''me@wallet''\<rparr>"

definition checkout_world :: world where
  "checkout_world = empty_world\<lparr>w_db := empty_db\<lparr>users := [sample_customer], accounts := [sample_account],
     next_id := 3\<rparr>, w_redis := [PRICE SAT_NGN \<mapsto> (VRates (82 / 100) (8 / 10), None)]\<rparr>"

lemma checkout_returns: "\<exists>res w'. checkoutLoan toy_env sample_customer sample_dto checkout_world = (Inr res, w')"
proof -
  have "\<exists>calc. calculate D \<lparr>ci_principal_ngn = 100000, ci_sat_ngn_rate = 4 / 5, ci_btc_usd_rate = 100000\<rparr> = Inr calc" for D
    by (simp add: calculate_def validate_def fee_constants Let_def)
  then obtain calc where calc: "calculate js_decimals
      \<lparr>ci_principal_ngn = 100000, ci_sat_ngn_rate = 4 / 5, ci_btc_usd_rate = 100000\<rparr> = Inr calc" by blast
  have price: "live checkout_world (PRICE SAT_NGN) = Some (VRates (82 / 100) (8 / 10))"
    "live checkout_world PRICE_STALE = None"
    by (simp_all add: checkout_world_def live_def empty_world_def)
  have rows: "loans (w_db checkout_world) = []" "accounts (w_db checkout_world) = [sample_account]"
    "payment_requests (w_db checkout_world) = []"
    by (simp_all add: checkout_world_def empty_db_def)
  have quote: "current_quote toy_env 100000 checkout_world = (Inr calc, checkout_world)"
    unfolding run_eq_wp by (simp add: current_quote_def wp_simps wp_getCurrentRate price parse_stale_def calc)
  have adm: "checkout_admission sample_customer sample_dto checkout_world = (Inr sample_account, checkout_world)"
    unfolding run_eq_wp
    by (simp add: checkout_admission_def resolveDefaultAccount_def wp_simps rows sample_customer_def sample_dto_def
        sample_account_def new_user_def KYC_EXEMPTION_THRESHOLD_NGN_def)
  have "wp (create_pending_loan js_decimals sample_customer sample_dto sample_account calc)
      (\<lambda>_ w'. payment_requests (w_db w') = []) (\<lambda>_ _. False) checkout_world"
    by (simp add: create_pending_loan_def wp_simps wp_transition rows)
  from wp_runD[OF this] obtain loan w1 where
    pend: "create_pending_loan js_decimals sample_customer sample_dto sample_account calc checkout_world = (Inr loan, w1)"
    and none: "payment_requests (w_db w1) = []" by blast
  have "wp (attempt (payment_request_create toy_env 1 (l_id loan) (cr_collateral_amount_sat calc))
      (\<lambda>_. throw (DisbursementE CollateralInvoiceFailedException))) (\<lambda>_ _. True) (\<lambda>_ _. False) w1"
    by (simp add: payment_request_create_def wp_simps new_payment_request_def none)
  from wp_runD[OF this] obtain pr w2 where
    inv: "attempt (payment_request_create toy_env 1 (l_id loan) (cr_collateral_amount_sat calc))
      (\<lambda>_. throw (DisbursementE CollateralInvoiceFailedException)) w1 = (Inr pr, w2)" by blast
  have "u_id sample_customer = 1" "dto_principal_ngn sample_dto = 100000"
    by (simp_all add: sample_customer_def sample_dto_def new_user_def)
  then show ?thesis
    by (simp add: checkoutLoan_def bind_def adm quote pend inv notify_def emit_def modify_def return_def
        del: One_nat_def)
qed

theorem checkout_is_entitled_witness:
  "\<exists>res w' loan. checkoutLoan toy_env sample_customer sample_dto checkout_world = (Inr res, w') \<and>
     loans (w_db w') = [loan] \<and> l_status loan = LoanStatus.PENDING_COLLATERAL \<and> l_disbursement_account_id loan = 2"
proof -
  obtain res w' where r: "checkoutLoan toy_env sample_customer sample_dto checkout_world = (Inr res, w')"
    using checkout_returns by blast
  have rows: "loans (w_db checkout_world) = []" "accounts (w_db checkout_world) = [sample_account]"
    by (simp_all add: checkout_world_def empty_db_def)
  show ?thesis
    using checkout_is_entitled[OF r] by (auto simp: r rows sample_account_def)
qed

definition address_world :: world where
  "address_world = repaid_world\<lparr>w_db := (w_db repaid_world)\<lparr>users := [sample_customer\<lparr>u_id := 7\<rparr>]\<rparr>,
     w_redis := [SCOPED_OTP_CODE otp_release_address_change 7 (Some 3) \<mapsto> (VStr (rev ''004711''), Some 900000)]\<rparr>"

lemma address_world_facts:
  "find_row l_id 3 (loans (w_db address_world)) = Some repaid_loan" "wf_table loan_table address_world"
  "loans (w_db address_world) = [repaid_loan]" "users (w_db address_world) = [sample_customer\<lparr>u_id := 7\<rparr>]"
  "live address_world (SCOPED_OTP_CODE otp_release_address_change 7 (Some 3)) = Some (VStr (rev ''004711''))"
  "live address_world (SCOPED_OTP_ATTEMPTS otp_release_address_change 7 (Some 3)) = None"
  by (simp_all add: address_world_def repaid_world_def repaid_loan_def empty_world_def empty_db_def live_def
      wf_table_def unique_keys_def table_rows loan_table_def)

theorem release_address_step_up_witness:
  "\<exists>w'. setReleaseAddress toy_env 7 3 ''new'' (Some ''004711'') (Some ''135790'') None address_world = (Inr (), w') \<and>
     map l_collateral_release_address (loans (w_db w')) = [Some ''new'']"
proof -
  have auth: "ae_argon2_verify toy_auth = (\<lambda>h p. h = rev p)" "ae_sha256 toy_auth = rev" by (simp_all add: toy_auth_def)
  have "wp (setReleaseAddress toy_env 7 3 ''new'' (Some ''004711'') (Some ''135790'') None) (\<lambda>_ _. True) (\<lambda>_ _. False) address_world"
    by (simp add: setReleaseAddress_def own_loan_def refuse_released_def release_step_up_def store_release_address_def
        assertHasAnyFactorConfigured_def verifyTransactionFactor_def verifyPinOrThrow_def verifyCurrentPinOrThrow_def
        wp_simps wp_release_otp OTP_MAX_ATTEMPTS_def read_attempts_def safeCompareOtp_def hashOtp_def present_def
        count_attempt_def set_key_def del_world_def address_world_facts auth has_pin_def sample_customer_def new_user_def
        repaid_loan_def)
  then obtain w' where r: "setReleaseAddress toy_env 7 3 ''new'' (Some ''004711'') (Some ''135790'') None address_world = (Inr (), w')"
    using wp_runD by force
  have "l_user_id repaid_loan = 7" "l_collateral_release_address repaid_loan \<noteq> None" "l_id repaid_loan = 3"
    by (simp_all add: repaid_loan_def)
  then show ?thesis
    using release_address_step_up[OF address_world_facts(1) _ _ r] r by (simp add: address_world_facts(3))
qed

definition pending_loan :: loan_row where
  "pending_loan = repaid_loan\<lparr>l_status := LoanStatus.PENDING_COLLATERAL, l_collateral_received_at := None,
     l_repaid_at := None, l_repayment_method := None, l_repayment_reference := None\<rparr>"

definition pending_world :: world where
  "pending_world = empty_world\<lparr>w_db := empty_db\<lparr>loans := [pending_loan], next_id := 8\<rparr>\<rparr>"

lemma pending_world_facts:
  "find_row l_id 3 (loans (w_db pending_world)) = Some pending_loan" "wf_table loan_table pending_world"
  "loans (w_db pending_world) = [pending_loan]"
  by (simp_all add: pending_world_def pending_loan_def repaid_loan_def empty_db_def wf_table_def unique_keys_def
      table_rows loan_table_def)

theorem second_checkout_is_refused_witness:
  "checkoutLoan toy_env (sample_customer\<lparr>u_id := 7\<rparr>) sample_dto pending_world = (Inl (InflowE PendingLoanAlreadyExistsException), pending_world) \<and>
   (\<forall>calc. create_pending_loan js_decimals (sample_customer\<lparr>u_id := 7\<rparr>) sample_dto sample_account calc pending_world =
     (Inl (InflowE PendingLoanAlreadyExistsException), pending_world))"
  using second_checkout_is_refused[OF pending_world_facts(2), of pending_loan "sample_customer\<lparr>u_id := 7\<rparr>" toy_env sample_dto sample_account]
  by (auto simp: pending_world_facts pending_loan_def repaid_loan_def sample_customer_def sample_dto_def toy_env_def new_user_def)

theorem activation_is_idempotent_witness:
  "\<exists>w'. activateLoan 3 60000 pending_world = (Inr (), w') \<and> map l_status (loans (w_db w')) = [LoanStatus.ACTIVE] \<and>
     activateLoan 3 90000 w' = (Inr (), w')"
proof -
  have "l_status pending_loan = LoanStatus.PENDING_COLLATERAL" "l_id pending_loan = 3"
    by (simp_all add: pending_loan_def repaid_loan_def)
  then show ?thesis
    using activation_is_idempotent[OF pending_world_facts(1,2), of 60000 90000]
    by (auto simp: pending_world_facts(3))
qed

end
