(* ===== verification/Payouts.thy ===== *)
theory Payouts
  imports Disbursements WebhooksLog Loans
begin

text \<open>
  What decides the fate of an attempt after it was dispatched: the payout webhook of the
  transfer provider (\<open>palmpay-payout.webhook.controller.ts\<close>), the outflow reconciler
  (\<open>outflow-reconciler.worker.ts\<close>) and the operators (\<open>ops-disbursements.service.ts\<close>), and the
  invariants that all of them keep. The arrows of log texts are written with ASCII characters.
\<close>

section \<open>The payout webhook\<close>

record payout_notification =
  pn_orderId :: string
  pn_orderNo :: "string option"
  pn_orderStatus :: int
  pn_message :: "string option"

definition OutflowStatus_name :: "OutflowStatus \<Rightarrow> string" where
  "OutflowStatus_name s = (case s of OutflowStatus.PENDING \<Rightarrow> ''PENDING'' | OutflowStatus.PROCESSING \<Rightarrow> ''PROCESSING''
     | OutflowStatus.SUCCESSFUL \<Rightarrow> ''SUCCESSFUL'' | OutflowStatus.FAILED \<Rightarrow> ''FAILED'')"

text \<open>What the status query of the provider decides.\<close>

definition settle_outflow :: "payout_notification \<Rightarrow> outflow_row \<Rightarrow> transfer_status \<Rightarrow> handler_outcome service" where
  "settle_outflow p outflow status =
     (case ts_state status of
        transfer_successful \<Rightarrow>
          bind (handleSuccess (out_id outflow) (out_disbursement_id outflow) (or_else (pn_orderNo p) (pn_orderId p))) (\<lambda>_.
          return (outcome PROCESSED ''outflow -> SUCCESSFUL'' (Some (pn_orderId p))))
      | transfer_failed \<Rightarrow>
          bind (handleFailure (out_id outflow) (out_disbursement_id outflow)
                  (or_else (ts_failure_reason status) (or_else (pn_message p) ''Provider reported failure''))
                  (Some (or_else (ts_failure_code status) (show_int (pn_orderStatus p))))) (\<lambda>_.
          return (outcome PROCESSED ''outflow -> FAILED'' (Some (pn_orderId p))))
      | transfer_processing \<Rightarrow>
          return (outcome DEFERRED ''status query says still processing'' (Some (pn_orderId p))))"

definition payout_handle :: "env \<Rightarrow> payout_notification option \<Rightarrow> handler_outcome service" where
  "payout_handle V parsed =
     (case parsed of
        None \<Rightarrow> return (outcome MALFORMED ''payout schema validation failed'' None)
      | Some p \<Rightarrow>
          bind (find_first outflow_table (\<lambda>a. out_provider_reference a = pn_orderId p)) (\<lambda>found.
          case found of
            None \<Rightarrow> return (outcome IGNORED ''outflow not found'' (Some (pn_orderId p)))
          | Some outflow \<Rightarrow>
              if out_status outflow = OutflowStatus.SUCCESSFUL \<or> out_status outflow = OutflowStatus.FAILED
              then return (outcome IGNORED (''outflow already terminal ('' @ OutflowStatus_name (out_status outflow) @ '')'')
                     (Some (pn_orderId p)))
              else bind (attempt
                     (bind (call (\<lambda>w. e_transfer_status V w (pn_orderId p))) (\<lambda>s. return (Some s)))
                     (\<lambda>_. return None)) (\<lambda>verified.
                   case verified of
                     None \<Rightarrow> return (outcome DEFERRED ''status query failed'' (Some (pn_orderId p)))
                   | Some status \<Rightarrow> settle_outflow p outflow status)))"

definition payout_webhook :: "env \<Rightarrow> delivery \<Rightarrow> bool \<Rightarrow> payout_notification option \<Rightarrow> unit service" where
  "payout_webhook V d signature_ok parsed =
     logged_handler V d signature_ok
       (if dl_json d = None then return (outcome MALFORMED ''Body is not valid JSON'' None)
        else payout_handle V parsed)"

section \<open>The reconciler\<close>

datatype reconcile_result = ReconciledSuccess | ReconciledFailed | StillProcessing | SkippedStub | ReconcileError

definition reconcile_row :: "env \<Rightarrow> outflow_row \<Rightarrow> reconcile_result service" where
  "reconcile_row V row =
     attempt
       (if out_provider row = ''stub'' then return SkippedStub
        else if out_provider row \<noteq> ''palmpay'' then return ReconcileError
        else bind (call (\<lambda>w. e_transfer_status V w (out_provider_reference row))) (\<lambda>status.
             case ts_state status of
               transfer_successful \<Rightarrow>
                 bind (handleSuccess (out_id row) (out_disbursement_id row) (out_provider_reference row)) (\<lambda>_.
                 return ReconciledSuccess)
             | transfer_failed \<Rightarrow>
                 bind (handleFailure (out_id row) (out_disbursement_id row)
                         (or_else (ts_failure_reason status) ''Provider reported failed via reconciler'')
                         (ts_failure_code status)) (\<lambda>_.
                 return ReconciledFailed)
             | transfer_processing \<Rightarrow> return StillProcessing))
       (\<lambda>_. return ReconcileError)"

fun reconcile_all :: "env \<Rightarrow> outflow_row list \<Rightarrow> reconcile_result list service" where
  "reconcile_all V [] = return []"
| "reconcile_all V (row # rows) =
     bind (reconcile_row V row) (\<lambda>r. bind (reconcile_all V rows) (\<lambda>rs. return (r # rs)))"

definition stale_outflow :: "time \<Rightarrow> outflow_row \<Rightarrow> bool" where
  "stale_outflow t a \<longleftrightarrow> out_status a = OutflowStatus.PROCESSING \<and>
     (case out_initiated_at a of None \<Rightarrow> False | Some i \<Rightarrow> i < t - OUTFLOW_PROCESSING_STALE_SEC * 1000)"

definition runReconcilerCycle :: "env \<Rightarrow> reconcile_result list service" where
  "runReconcilerCycle V =
     bind now (\<lambda>t.
     bind (find_many outflow_table (stale_outflow t)) (\<lambda>rows.
     bind (redis_set (WORKER_HEARTBEAT ''outflow_reconciler'') (VInt t)) (\<lambda>_.
     reconcile_all V (sort_key (\<lambda>a. or_else (out_initiated_at a) 0) rows))))"

section \<open>The operators\<close>

definition audit_write :: "id \<Rightarrow> string \<Rightarrow> string \<Rightarrow> string \<Rightarrow> unit service" where
  "audit_write ops_user_id action target_type target_id =
     bind now (\<lambda>t.
     bind (create_row audit_table (\<lambda>i. \<lparr>au_id = i, au_ops_user_id = ops_user_id, au_action = action,
        au_target_type = target_type, au_target_id = target_id, au_created_at = t\<rparr>)) (\<lambda>_.
     return ()))"

definition ops_disbursement :: "id \<Rightarrow> (disbursement_row \<times> outflow_row list) service" where
  "ops_disbursement i =
     bind (disbursement_findById i) (the_or_throw (DisbursementE DisbursementNotFoundException))"

definition refuse_terminal :: "disbursement_row \<Rightarrow> unit service" where
  "refuse_terminal d = require (\<not> (dis_status d = DisbursementStatus.SUCCESSFUL \<or> dis_status d = DisbursementStatus.CANCELLED))
     (DisbursementE (DisbursementTerminalException (dis_status d)))"

definition ops_retry :: "env \<Rightarrow> id \<Rightarrow> id \<Rightarrow> unit service" where
  "ops_retry V disbursement_id ops_user_id =
     bind (ops_disbursement disbursement_id) (\<lambda>_.
     bind (transaction (audit_write ops_user_id ''disbursement.retry'' ''disbursement'' (show_nat disbursement_id))) (\<lambda>_.
     retryDispatch V disbursement_id))"

definition ops_cancel :: "id \<Rightarrow> string \<Rightarrow> id \<Rightarrow> unit service" where
  "ops_cancel disbursement_id reason ops_user_id =
     bind (ops_disbursement disbursement_id) (\<lambda>(existing, _).
     bind (refuse_terminal existing) (\<lambda>_.
     transaction
       (bind (markCancelled disbursement_id ops_user_id reason) (\<lambda>_.
        audit_write ops_user_id ''disbursement.cancel'' ''disbursement'' (show_nat disbursement_id)))))"

definition loan_payout :: "decimals \<Rightarrow> loan_row \<Rightarrow> account_row \<Rightarrow> disbursement_params" where
  "loan_payout D loan account =
     \<lparr>dp_user_id = l_user_id loan, dp_source_id = l_id loan,
      dp_amount = dminus D (l_principal_ngn loan) (l_origination_fee_ngn loan), dp_currency = CUR_NGN,
      dp_rail = DisbursementRail.BANK_TRANSFER, dp_provider_name = acct_provider_name account,
      dp_provider_code = acct_provider_code account, dp_account_unique = acct_account_unique account,
      dp_account_name = acct_holder_name account\<rparr>"

definition recreate_target :: "id \<Rightarrow> (loan_row \<times> account_row) service" where
  "recreate_target loan_id =
     bind (find_by_id loan_table loan_id) (\<lambda>found.
     bind (the_or_throw (LoanE LoanNotFoundException) found) (\<lambda>loan.
     bind (require (l_status loan = LoanStatus.ACTIVE) (LoanE (LoanNotActiveForDisbursementException (l_status loan)))) (\<lambda>_.
     bind (find_first disbursement_table (\<lambda>d. dis_source_id d = l_id loan \<and> dis_status d \<in>
             {DisbursementStatus.PENDING, DisbursementStatus.PROCESSING, DisbursementStatus.ON_HOLD})) (\<lambda>blocking.
     bind (case blocking of None \<Rightarrow> return ()
           | Some b \<Rightarrow> throw (LoanE (LoanHasActiveDisbursementException (dis_id b) (dis_status b)))) (\<lambda>_.
     bind (find_by_id account_table (l_disbursement_account_id loan)) (\<lambda>account.
     bind (the_or_throw (LoanE LoanDisbursementAccountRequiredException)
             (Option.bind account (\<lambda>a. if acct_provider_code a = [] then None else Some a))) (\<lambda>acct.
     return (loan, acct))))))))"

definition recreateForActiveLoan :: "env \<Rightarrow> id \<Rightarrow> id \<Rightarrow> id service" where
  "recreateForActiveLoan V loan_id ops_user_id =
     bind (recreate_target loan_id) (\<lambda>(loan, account).
     bind (transaction (audit_write ops_user_id ''disbursement.recreate'' ''loan'' (show_nat (l_id loan)))) (\<lambda>_.
     bind (createForLoan (e_dec V) (loan_payout (e_dec V) loan account)) (\<lambda>fresh.
     bind (dispatch V (dis_id fresh)) (\<lambda>_.
     return (dis_id fresh)))))"

definition abandonAttempt :: "id \<Rightarrow> string \<Rightarrow> id \<Rightarrow> unit service" where
  "abandonAttempt disbursement_id reason ops_user_id =
     bind (ops_disbursement disbursement_id) (\<lambda>(existing, attempts).
     bind (refuse_terminal existing) (\<lambda>_.
     bind (require (filter in_flight attempts \<noteq> []) (DisbursementE DisbursementNoActiveOutflowException)) (\<lambda>_.
     bind (transaction (audit_write ops_user_id ''disbursement.abandon_attempt'' ''disbursement'' (show_nat disbursement_id))) (\<lambda>_.
     for_each (\<lambda>a. handleFailure (out_id a) disbursement_id reason (Some ''OPS_ABANDONED''))
       (filter in_flight attempts)))))"

section \<open>Every way of settling keeps the attempts in order\<close>

lemma payouts_ok_cong:
  assumes "payouts_ok w" "disbursements (w_db w') = disbursements (w_db w)" "outflows (w_db w') = outflows (w_db w)"
    and "next_id (w_db w) \<le> next_id (w_db w')"
  shows "payouts_ok w'"
proof -
  have "ids_ok (disbursements (w_db w)) (outflows (w_db w)) (next_id (w_db w'))"
    using assms(1,4) by (force simp: payouts_ok_def ids_ok_def)
  then show ?thesis using assms(1) by (simp add: payouts_ok_def assms(2,3))
qed

definition same_payouts :: "world \<Rightarrow> world \<Rightarrow> bool" where
  "same_payouts w w' \<longleftrightarrow> disbursements (w_db w') = disbursements (w_db w) \<and>
     outflows (w_db w') = outflows (w_db w) \<and> next_id (w_db w) \<le> next_id (w_db w')"

lemma payouts_same: "payouts_ok w \<Longrightarrow> same_payouts w w' \<Longrightarrow> payouts_ok w'"
  by (auto simp: same_payouts_def intro: payouts_ok_cong)

lemma log_record_same: "wp (log_record V d) (\<lambda>_. same_payouts w) (\<lambda>_. same_payouts w) w"
  by (simp add: log_record_def wp_simps violated_def webhook_log_table_def same_payouts_def)

lemma updateOutcome_keeps: "payouts_ok w \<Longrightarrow> wp (updateOutcome V i x b) (\<lambda>_. payouts_ok) (\<lambda>_. payouts_ok) w"
  by (cases i) (auto simp: updateOutcome_def wp_simps table_ops split: option.split elim: payouts_ok_cong)

lemma logged_handler_keeps:
  assumes "payouts_ok w" "\<And>v. payouts_ok v \<Longrightarrow> wp h (\<lambda>_. payouts_ok) (\<lambda>_. payouts_ok) v"
  shows "wp (logged_handler V d ok h) (\<lambda>_. payouts_ok) (\<lambda>_. payouts_ok) w"
  unfolding logged_handler_def
proof (rule wp_seq[OF log_record_same])
  fix i v assume "same_payouts w v"
  then have v: "payouts_ok v" using payouts_same assms(1) by blast
  have "wp (attempt h (\<lambda>e. bind (updateOutcome V i (f e) True) (\<lambda>_. throw e))) (\<lambda>_. payouts_ok) (\<lambda>_. payouts_ok) v" for f
    unfolding wp_attempt wp_bind
    by (rule wp_mono[OF assms(2)[OF v]], assumption, rule wp_mono[OF updateOutcome_keeps]) (auto simp: wp_throw)
  then have "wp (bind (attempt h (\<lambda>e. bind (updateOutcome V i (f e) True) (\<lambda>_. throw e))) (\<lambda>out. updateOutcome V i out True))
      (\<lambda>_. payouts_ok) (\<lambda>_. payouts_ok) v" for f
    by (rule wp_keeps_seq) (rule updateOutcome_keeps)
  moreover have "wp (bind (updateOutcome V i x False) (\<lambda>_. throw e :: unit service)) (\<lambda>_. payouts_ok) (\<lambda>_. payouts_ok) v" for x e
    by (rule wp_keeps_seq[OF updateOutcome_keeps[OF v]]) (simp add: wp_throw)
  ultimately show "wp (if \<not> ok
      then bind (updateOutcome V i \<lparr>ho_outcome = SIGNATURE_INVALID, ho_detail = None, ho_reference = None\<rparr> False)
             (\<lambda>_. throw (UnauthorizedException ''Invalid webhook signature''))
      else bind (attempt h (\<lambda>e. bind (updateOutcome V i (outcome ERROR (take 1000 (err_message V e)) None) True)
             (\<lambda>_. throw e))) (\<lambda>out. updateOutcome V i out True)) (\<lambda>_. payouts_ok) (\<lambda>_. payouts_ok) v"
    by simp
qed (use assms(1) payouts_same in blast)

lemma unique_outflow: "payouts_ok w \<Longrightarrow> a \<in> set (outflows (w_db w)) \<Longrightarrow> find_row out_id (out_id a) (outflows (w_db w)) = Some a"
  by (rule find_row_unique) (simp_all add: payouts_ok_def ids_ok_def unique_keys_def)

lemma payout_handle_keeps:
  assumes "payouts_ok w"
  shows "wp (payout_handle V p) (\<lambda>_. payouts_ok) (\<lambda>_. payouts_ok) w"
proof (cases p)
  case (Some n)
  show ?thesis
  proof (cases "List.find (\<lambda>a. out_provider_reference a = pn_orderId n) (outflows (w_db w))")
    case found: (Some a)
    then have a: "find_row out_id (out_id a) (outflows (w_db w)) = Some a"
      using find_SomeD[OF found] unique_outflow[OF assms] by blast
    have "wp (settle_outflow n a s) (\<lambda>_. payouts_ok) (\<lambda>_. payouts_ok) w" if "unfailed a" for s
      unfolding settle_outflow_def
      by (cases "ts_state s")
         (auto simp: wp_return assms intro!: wp_keeps_seq[OF handleSuccess_keeps[OF assms a that]]
            wp_keeps_seq[OF handleFailure_keeps[OF assms a that]])
    then show ?thesis
      using assms by (auto simp: payout_handle_def Some wp_simps found table_rows unfailed_def split: sum.split)
  qed (use assms in \<open>simp add: payout_handle_def Some wp_simps table_rows\<close>)
qed (use assms in \<open>simp add: payout_handle_def wp_simps\<close>)

text \<open>Settling an attempt touches no other attempt, so a sweep over the attempts that were in flight
  when it began meets each of them as it was.\<close>

definition only_outflow :: "id \<Rightarrow> world \<Rightarrow> world \<Rightarrow> bool" where
  "only_outflow i w w' \<longleftrightarrow> (\<forall>j. j \<noteq> i \<longrightarrow> find_row out_id j (outflows (w_db w')) = find_row out_id j (outflows (w_db w)))"

lemma hold_only: "wp (markOnHoldAndMaybeAlert i j r) (\<lambda>_. only_outflow a w) (\<lambda>_. only_outflow a w) v" if "only_outflow a w v"
  using that by (simp add: markOnHoldAndMaybeAlert_def markOnHold_def markOnHoldAlerted_def disbursement_findById_def
      wp_simps wp_set_disbursement only_outflow_def split: option.split)

lemma handleFailure_only: "wp (handleFailure i d r c) (\<lambda>_. only_outflow i w) (\<lambda>_. only_outflow i w) w"
  unfolding handleFailure_def wp_bind
  by (auto simp: wp_set_outflow only_outflow_def find_row_update_row split: option.split intro!: hold_only)

lemma handleSuccess_only: "wp (handleSuccess i d t) (\<lambda>_. only_outflow i w) (\<lambda>_. only_outflow i w) w"
  by (simp add: handleSuccess_def markSuccessful_def disbursement_findById_def wp_simps wp_set_outflow wp_set_disbursement
      only_outflow_def find_row_update_row split: option.split)

lemma reconcile_row_keeps:
  assumes "payouts_ok w" "find_row out_id (out_id r) (outflows (w_db w)) = Some r" "unfailed r"
  shows "wp (reconcile_row V r) (\<lambda>_ w'. payouts_ok w' \<and> only_outflow (out_id r) w w') (\<lambda>_ _. False) w"
proof -
  have "wp (handleSuccess (out_id r) (out_disbursement_id r) t)
      (\<lambda>_ w'. payouts_ok w' \<and> only_outflow (out_id r) w w') (\<lambda>_ w'. payouts_ok w' \<and> only_outflow (out_id r) w w') w" for t
    by (rule wp_conj[OF handleSuccess_keeps[OF assms] handleSuccess_only])
  moreover have "wp (handleFailure (out_id r) (out_disbursement_id r) m c)
      (\<lambda>_ w'. payouts_ok w' \<and> only_outflow (out_id r) w w') (\<lambda>_ w'. payouts_ok w' \<and> only_outflow (out_id r) w w') w" for m c
    by (rule wp_conj[OF handleFailure_keeps[OF assms] handleFailure_only])
  ultimately show ?thesis
    using assms(1)
    by (simp add: reconcile_row_def wp_simps wp_return_fun only_outflow_def split: sum.split transfer_state.split)
qed

lemma reconcile_all_keeps:
  assumes "payouts_ok w" "distinct (map out_id rows)"
    and "\<forall>r\<in>set rows. find_row out_id (out_id r) (outflows (w_db w)) = Some r \<and> unfailed r"
  shows "wp (reconcile_all V rows) (\<lambda>rs w'. payouts_ok w' \<and> length rs = length rows) (\<lambda>_ _. False) w"
  using assms
proof (induction rows arbitrary: w)
  case (Cons r rows)
  have row: "wp (reconcile_row V r) (\<lambda>_ w'. payouts_ok w' \<and> only_outflow (out_id r) w w') (\<lambda>_ _. False) w"
    using Cons.prems by (intro reconcile_row_keeps) auto
  have rest: "wp (reconcile_all V rows) (\<lambda>rs w'. payouts_ok w' \<and> length rs = length rows) (\<lambda>_ _. False) w'"
    if "payouts_ok w' \<and> only_outflow (out_id r) w w'" for w'
  proof (rule Cons.IH)
    show "\<forall>x\<in>set rows. find_row out_id (out_id x) (outflows (w_db w')) = Some x \<and> unfailed x"
    proof
      fix x assume x: "x \<in> set rows"
      then have "out_id x \<noteq> out_id r" using Cons.prems(2) by (metis imageI list.simps(9) distinct.simps(2) set_map)
      then show "find_row out_id (out_id x) (outflows (w_db w')) = Some x \<and> unfailed x"
        using that Cons.prems(3) x by (simp add: only_outflow_def)
    qed
  qed (use that Cons.prems(2) in simp_all)
  show ?case
    unfolding reconcile_all.simps
    by (rule wp_seq[OF row], rule wp_seq[OF rest]) (auto simp: wp_return)
qed (simp add: wp_return)

lemma runReconcilerCycle_keeps:
  assumes "payouts_ok w"
  shows "wp (runReconcilerCycle V) (\<lambda>rs w'. payouts_ok w' \<and> length rs = length (filter (stale_outflow (w_clock w)) (outflows (w_db w))))
    (\<lambda>_ _. False) w"
proof -
  let ?rows = "sort_key (\<lambda>a. or_else (out_initiated_at a) 0) (filter (stale_outflow (w_clock w)) (outflows (w_db w)))"
  let ?w = "set_key (WORKER_HEARTBEAT ''outflow_reconciler'') (VInt (w_clock w)) None w"
  have "distinct (map out_id (filter (stale_outflow (w_clock w)) (outflows (w_db w))))"
    using assms by (simp add: payouts_ok_def ids_ok_def distinct_map_filter)
  then have "inj_on out_id (set ?rows)" "distinct ?rows" by (simp_all add: distinct_map)
  then have "distinct (map out_id ?rows)" by (simp add: distinct_map)
  moreover have "payouts_ok ?w" using assms by (rule payouts_ok_cong) (simp_all add: set_key_def)
  moreover have "\<forall>r\<in>set ?rows. find_row out_id (out_id r) (outflows (w_db ?w)) = Some r \<and> unfailed r"
    using unique_outflow[OF assms] by (auto simp: set_key_def stale_outflow_def unfailed_def)
  ultimately have "wp (reconcile_all V ?rows) (\<lambda>rs w'. payouts_ok w' \<and> length rs = length ?rows) (\<lambda>_ _. False) ?w"
    by (intro reconcile_all_keeps)
  then show ?thesis by (simp add: runReconcilerCycle_def wp_simps table_rows)
qed

lemma audit_same: "wp (transaction (audit_write u a tt ti)) (\<lambda>_. same_payouts w) (\<lambda>_. same_payouts w) w"
  by (simp add: audit_write_def wp_simps audit_table_def violated_def same_payouts_def)

lemma ops_disbursement_reads:
  "wp (ops_disbursement i) (\<lambda>x w'. w' = w \<and> find_row dis_id i (disbursements (w_db w)) = Some (fst x) \<and> snd x = outflows_of i w)
     (\<lambda>_ w'. w' = w) w"
  by (simp add: ops_disbursement_def disbursement_findById_def wp_simps table_rows split: option.split)

lemma ops_retry_keeps: "payouts_ok w \<Longrightarrow> wp (ops_retry V i u) (\<lambda>_. payouts_ok) (\<lambda>_. payouts_ok) w"
  unfolding ops_retry_def
  by (rule wp_seq[OF ops_disbursement_reads], clarsimp, rule wp_seq[OF audit_same])
     (auto intro: retryDispatch_keeps payouts_same)

lemma ops_cancel_keeps:
  assumes "payouts_ok w"
  shows "wp (ops_cancel i r u) (\<lambda>_. payouts_ok) (\<lambda>_. payouts_ok) w"
proof (cases "find_row dis_id i (disbursements (w_db w))")
  case (Some d)
  let ?f = "\<lambda>d. d\<lparr>dis_status := DisbursementStatus.CANCELLED, dis_cancelled_at := Some (w_clock w),
     dis_cancelled_by_ops_user_id := Some u, dis_cancellation_reason := Some r\<rparr>"
  have w: "ids_ok (disbursements (w_db w)) (outflows (w_db w)) (next_id (w_db w))"
    "attempts_ok (disbursements (w_db w)) (outflows (w_db w))" using assms by (simp_all add: payouts_ok_def)
  have one: "x = d" if "x \<in> set (disbursements (w_db w))" "dis_id x = i" for x
    using that find_row_unique[of dis_id "disbursements (w_db w)" x] Some w(1) by (simp add: ids_ok_def unique_keys_def)
  have "attempts_ok (update_row dis_id i ?f (disbursements (w_db w))) (outflows (w_db w))"
    if "dis_status d \<noteq> DisbursementStatus.SUCCESSFUL"
    unfolding update_row_def
  proof (rule attempts_disbursement[OF w(2)])
    fix x a assume x: "x \<in> set (disbursements (w_db w))" "dis_id x = i" "a \<in> set (outflows (w_db w))"
      "out_disbursement_id a = dis_id x" "unfailed a"
    have "x = d" using one x(1,2) by blast
    then have "out_status a \<noteq> OutflowStatus.SUCCESSFUL" using attempts_okD(3)[OF w(2) x(3,5,1,4)] that by blast
    then show "dis_status (?f x) \<noteq> DisbursementStatus.ON_HOLD \<and>
        (out_status a = OutflowStatus.SUCCESSFUL \<longrightarrow> dis_status (?f x) = DisbursementStatus.SUCCESSFUL)" by simp
  qed simp
  moreover have "ids_ok (update_row dis_id i ?f (disbursements (w_db w))) (outflows (w_db w)) (Suc (next_id (w_db w)))"
    unfolding update_row_def using ids_disbursement[OF w(1), of ?f] by (force simp: ids_ok_def)
  ultimately show ?thesis
    using assms
    by (simp add: ops_cancel_def ops_disbursement_def disbursement_findById_def refuse_terminal_def markCancelled_def
        audit_write_def wp_simps wp_set_disbursement Some table_rows table_puts payouts_ok_def audit_table_def violated_def)
qed (use assms in \<open>simp add: ops_cancel_def ops_disbursement_def disbursement_findById_def wp_simps table_rows\<close>)

lemma at_most_one:
  assumes "distinct (map f xs)" "\<And>a b. a \<in> set xs \<Longrightarrow> b \<in> set xs \<Longrightarrow> f a = f b"
  shows "xs = [] \<or> (\<exists>a. xs = [a])"
proof (cases xs rule: remdups_adj.cases)
  case (3 x y ys)
  then show ?thesis using assms(1) assms(2)[of x y] by simp
qed simp_all

lemma abandonAttempt_keeps:
  assumes "payouts_ok w"
  shows "wp (abandonAttempt i r u) (\<lambda>_. payouts_ok) (\<lambda>_. payouts_ok) w"
proof -
  let ?active = "filter in_flight (outflows_of i w)"
  have act: "a \<in> set (outflows (w_db w)) \<and> unfailed a \<and> out_disbursement_id a = i" if "a \<in> set ?active" for a
    using that by (auto simp: outflows_of_def in_flight_def unfailed_def)
  have one: "out_id a = out_id b" if "a \<in> set ?active" "b \<in> set ?active" for a b
    using act[OF that(1)] act[OF that(2)] assms attempts_okD(1)[of "disbursements (w_db w)" "outflows (w_db w)" a b]
    by (simp add: payouts_ok_def)
  have "distinct (map out_id ?active)"
    using assms by (simp add: outflows_of_def payouts_ok_def ids_ok_def distinct_map_filter)
  from at_most_one[OF this one] consider "?active = []" | a where "?active = [a]" by blast
  then have "wp (for_each (\<lambda>a. handleFailure (out_id a) i r (Some ''OPS_ABANDONED'')) ?active) (\<lambda>_. payouts_ok) (\<lambda>_. payouts_ok) v"
    if v: "same_payouts w v" for v
  proof cases
    case (2 a)
    have ok: "payouts_ok v" using payouts_same[OF assms v] .
    have "find_row out_id (out_id a) (outflows (w_db v)) = Some a"
      using unique_outflow[OF ok, of a] act[of a] v by (simp add: 2 same_payouts_def)
    from handleFailure_keeps[OF ok this] show ?thesis
      using act[of a] by (simp add: 2 wp_bind wp_return_fun)
  qed (use payouts_same[OF assms v] in \<open>simp add: wp_return\<close>)
  then have loop: "wp (bind (transaction (audit_write u x y z)) (\<lambda>_. for_each (\<lambda>a. handleFailure (out_id a) i r (Some ''OPS_ABANDONED'')) ?active))
      (\<lambda>_. payouts_ok) (\<lambda>_. payouts_ok) w" for x y z
    by (intro wp_seq[OF audit_same]) (use payouts_same[OF assms] in auto)
  show ?thesis
    unfolding abandonAttempt_def
  proof (rule wp_seq[OF ops_disbursement_reads])
    fix x v assume "v = w \<and> find_row dis_id i (disbursements (w_db w)) = Some (fst x) \<and> snd x = outflows_of i w"
    then obtain d where x: "x = (d, outflows_of i w)" "v = w" by (cases x) auto
    show "wp (case x of (existing, attempts) \<Rightarrow> bind (refuse_terminal existing) (\<lambda>_.
       bind (require (filter in_flight attempts \<noteq> []) (DisbursementE DisbursementNoActiveOutflowException)) (\<lambda>_.
       bind (transaction (audit_write u ''disbursement.abandon_attempt'' ''disbursement'' (show_nat i))) (\<lambda>_.
       for_each (\<lambda>a. handleFailure (out_id a) i r (Some ''OPS_ABANDONED'')) (filter in_flight attempts)))))
       (\<lambda>_. payouts_ok) (\<lambda>_. payouts_ok) v"
      unfolding x prod.case wp_bind[of "refuse_terminal _"] refuse_terminal_def wp_require
      using assms by (simp only: wp_bind[of "require _ _"] wp_require loop if_True simp_thms split: if_split)
  qed (use assms in simp)
qed

lemma createForLoan_keeps:
  assumes "payouts_ok w"
  shows "wp (createForLoan D p) (\<lambda>_. payouts_ok) (\<lambda>_ _. False) w"
proof -
  let ?d = "new_disbursement D p (w_clock w) (next_id (w_db w))"
  have w: "ids_ok (disbursements (w_db w)) (outflows (w_db w)) (next_id (w_db w))"
    "attempts_ok (disbursements (w_db w)) (outflows (w_db w))" using assms by (simp_all add: payouts_ok_def)
  have d: "dis_id ?d = next_id (w_db w)" by (simp add: new_disbursement_def)
  have "attempts_ok (disbursements (w_db w) @ [?d]) (outflows (w_db w))"
    using w(1) by (intro attempts_new_disbursement[OF w(2)]) (force simp: d ids_ok_def)
  moreover have "ids_ok (disbursements (w_db w) @ [?d]) (outflows (w_db w)) (Suc (next_id (w_db w)))"
    using w(1) by (force simp: d ids_ok_def)
  ultimately show ?thesis
    by (simp add: createForLoan_def wp_simps table_rows table_puts payouts_ok_def disbursement_table_def violated_def)
qed

lemma recreate_target_reads: "wp (recreate_target i) (\<lambda>_ w'. w' = w) (\<lambda>_ w'. w' = w) w"
  by (simp add: recreate_target_def wp_simps table_rows split: option.split)

lemma recreate_keeps:
  assumes "payouts_ok w"
  shows "wp (recreateForActiveLoan V i u) (\<lambda>_. payouts_ok) (\<lambda>_. payouts_ok) w"
proof -
  have pay: "wp (bind (transaction (audit_write u x y z)) (\<lambda>_. bind (createForLoan D p) (\<lambda>fresh.
      bind (dispatch V (dis_id fresh)) (\<lambda>_. return (dis_id fresh))))) (\<lambda>_. payouts_ok) (\<lambda>_. payouts_ok) w" for x y z D p
    by (rule wp_seq[OF audit_same], rule wp_seq[OF createForLoan_keeps], rule payouts_same[OF assms], assumption,
        rule wp_keeps_seq[OF dispatch_keeps]) (auto simp: wp_return intro: payouts_same[OF assms])
  show ?thesis
    unfolding recreateForActiveLoan_def
    by (rule wp_seq[OF recreate_target_reads]) (auto simp: assms pay split: prod.split)
qed

section \<open>When money goes out twice\<close>

definition bank_transfers :: "world \<Rightarrow> effect list" where
  "bank_transfers w = filter (\<lambda>e. case e of TransferInitiated _ _ _ _ _ \<Rightarrow> True | _ \<Rightarrow> False) (w_outbox w)"

text \<open>A disbursement that the bank provider can pay.\<close>

definition payable :: "disbursement_row \<Rightarrow> string \<Rightarrow> bool" where
  "payable d code \<longleftrightarrow> dis_currency d = CUR_NGN \<and> dis_rail d = DisbursementRail.BANK_TRANSFER \<and>
     dis_provider_code d = Some code \<and> code \<noteq> []"

definition held :: "disbursement_row \<Rightarrow> disbursement_row \<Rightarrow> bool" where
  "held d d' \<longleftrightarrow> dis_status d' = DisbursementStatus.ON_HOLD \<and> dis_id d' = dis_id d \<and> dis_amount d' = dis_amount d \<and>
     dis_account_unique d' = dis_account_unique d \<and> dis_currency d' = dis_currency d \<and> dis_rail d' = dis_rail d \<and>
     dis_provider_code d' = dis_provider_code d"

lemma hold_status:
  assumes "find_row dis_id i (disbursements (w_db w)) = Some d" "bank_transfers w = ts" "outflows (w_db w) = os"
  shows "wp (markOnHoldAndMaybeAlert i j r) (\<lambda>_ w'. bank_transfers w' = ts \<and> outflows (w_db w') = os \<and>
      next_id (w_db w') = next_id (w_db w) \<and> (\<exists>d'. find_row dis_id i (disbursements (w_db w')) = Some d' \<and> held d d'))
    (\<lambda>_ _. False) w"
  using assms
  by (simp add: markOnHoldAndMaybeAlert_def markOnHold_def markOnHoldAlerted_def disbursement_findById_def wp_simps
      wp_set_disbursement find_row_update_where find_row_update_row find_row_key[OF assms(1)] held_def bank_transfers_def
      split: option.split)

lemma unstored_attempt:
  assumes d: "find_row dis_id (dis_id d) (disbursements (w_db w)) = Some d" "payable d code"
    and fresh: "\<forall>a\<in>set (outflows (w_db w)). out_provider_reference a \<noteq> attempt_reference n (dis_id d) \<and> out_id a < next_id (w_db w)"
    and env: "e_initiate_transfer V = (\<lambda>_ _ _ _ _. Inr txn)" "\<And>i v. e_fault V (OutflowUpdateFault i) v"
  shows "wp (executeDispatch V d n) (\<lambda>_ w'. bank_transfers w' = bank_transfers w @
        [TransferInitiated (attempt_reference n (dis_id d)) (dis_amount d) code (dis_account_unique d) (Inr txn)] \<and>
      (\<exists>a. outflows (w_db w') = outflows (w_db w) @ [a] \<and> out_disbursement_id a = dis_id d \<and>
         out_provider_reference a = attempt_reference n (dis_id d) \<and> out_id a < next_id (w_db w') \<and>
         out_status a = OutflowStatus.FAILED) \<and> next_id (w_db w') = Suc (next_id (w_db w)) \<and>
      (\<exists>d'. find_row dis_id (dis_id d) (disbursements (w_db w')) = Some d' \<and> held d d')) (\<lambda>_ _. False) w"
proof -
  define a where "a = new_outflow d n (attempt_reference n (dis_id d)) (w_clock w) (next_id (w_db w))"
  let ?f = "\<lambda>x. x\<lparr>out_status := OutflowStatus.FAILED, out_failure_reason := Some (''infrastructure failure'')\<rparr>"
  let ?proc = "\<lambda>d. d\<lparr>dis_status := DisbursementStatus.PROCESSING, dis_on_hold_at := None, dis_on_hold_alerted_at := None\<rparr>"
  let ?w2 = "w\<lparr>w_outbox := w_outbox w @
      [TransferInitiated (attempt_reference n (dis_id d)) (dis_amount d) code (dis_account_unique d) (Inr txn)],
    w_db := (w_db w)\<lparr>next_id := Suc (next_id (w_db w)),
      disbursements := update_row dis_id (dis_id d) ?proc (disbursements (w_db w)),
      outflows := outflows (w_db w) @ [?f a]\<rparr>\<rparr>"
  have a: "out_id a = next_id (w_db w)" "out_disbursement_id a = dis_id d" "out_provider_reference a = attempt_reference n (dis_id d)"
    by (simp_all add: a_def new_outflow_def)
  have new: "new_outflow d n (attempt_reference n (dis_id d)) (w_clock w) (next_id (w_db w)) = a"
    by (simp add: a_def)
  have viol: "violated outflow_table a (outflows (w_db w)) = None"
    "violated outflow_table (?f a) (outflows (w_db w) @ [a]) = None"
    using fresh a by (auto simp: violated_def outflow_table_def)
  have "find_row out_id (out_id a) (outflows (w_db w)) = None"
    using fresh a(1) by (auto simp: find_row_None_iff)
  then have found: "find_row out_id (out_id a) (outflows (w_db w) @ [a]) = Some a" by (simp add: find_row_append)
  have upd: "update_row out_id (out_id a) ?f (outflows (w_db w) @ [a]) = outflows (w_db w) @ [?f a]"
    using fresh a(1) by (auto simp: update_row_def update_where_def intro!: map_idI)
  have "wp (markOnHoldAndMaybeAlert (dis_id d) (out_id a) r) (\<lambda>_ w'. bank_transfers w' = bank_transfers ?w2 \<and>
      outflows (w_db w') = outflows (w_db ?w2) \<and> next_id (w_db w') = next_id (w_db ?w2) \<and>
      (\<exists>d'. find_row dis_id (dis_id d) (disbursements (w_db w')) = Some d' \<and> held (?proc d) d')) (\<lambda>_ _. False) ?w2" for r
    by (rule hold_status) (simp_all add: find_row_update_row d(1))
  then have hold: "wp (markOnHoldAndMaybeAlert (dis_id d) (out_id a) r) (\<lambda>_ w'. bank_transfers w' = bank_transfers w @
        [TransferInitiated (attempt_reference n (dis_id d)) (dis_amount d) code (dis_account_unique d) (Inr txn)] \<and>
      (\<exists>a. outflows (w_db w') = outflows (w_db w) @ [a] \<and> out_disbursement_id a = dis_id d \<and>
         out_provider_reference a = attempt_reference n (dis_id d) \<and> out_id a < next_id (w_db w') \<and>
         out_status a = OutflowStatus.FAILED) \<and> next_id (w_db w') = Suc (next_id (w_db w)) \<and>
      (\<exists>d'. find_row dis_id (dis_id d) (disbursements (w_db w')) = Some d' \<and> held d d')) (\<lambda>_ _. False) ?w2" for r
    by (rule wp_mono) (auto simp: a bank_transfers_def held_def)
  show ?thesis
    using hold[of "''infrastructure failure''"] d(2)
    by (simp add: executeDispatch_def wp_bind wp_now wp_create_row table_rows table_puts markProcessing_def wp_set_disbursement
        d(1) forRoute_def wp_the_or_throw payable_def DISBURSEMENT_ROUTES_def wp_attempt attempt_transfer_def
        wp_initiateTransfer present_def env wp_may_fail wp_set_outflow err_message_def Let_def
        new viol found upd a(3))
qed

lemma show_nat_inj [simp]: "show_nat m = show_nat n \<longleftrightarrow> m = n"
  by (metis read_show_nat)

text \<open>C38. A transfer that the bank accepted but whose acceptance could not be stored is sent again: the
  attempt is recorded as failed, the disbursement goes on hold, and the operator's retry transfers
  the full amount a second time under a new reference.\<close>

theorem unstored_transfer_is_sent_again:
  assumes "find_row dis_id (dis_id d) (disbursements (w_db w)) = Some d" "payable d code"
    and "dis_status d = DisbursementStatus.PENDING"
    and "\<forall>a\<in>set (outflows (w_db w)). out_disbursement_id a \<noteq> dis_id d \<and> out_id a < next_id (w_db w) \<and>
      out_provider_reference a \<notin> {attempt_reference 1 (dis_id d), attempt_reference 2 (dis_id d)}"
    and "e_initiate_transfer V = (\<lambda>_ _ _ _ _. Inr txn)" and "\<And>i v. e_fault V (OutflowUpdateFault i) v"
  shows "\<exists>w1 w2. dispatch V (dis_id d) w = (Inr (), w1) \<and> retryDispatch V (dis_id d) w1 = (Inr (), w2) \<and>
    bank_transfers w2 = bank_transfers w @
      [TransferInitiated (attempt_reference 1 (dis_id d)) (dis_amount d) code (dis_account_unique d) (Inr txn),
       TransferInitiated (attempt_reference 2 (dis_id d)) (dis_amount d) code (dis_account_unique d) (Inr txn)]"
proof -
  have none: "outflows_of (dis_id d) w = []" using assms(4) by (auto simp: outflows_of_def filter_empty_conv)
  have ref: "attempt_reference 1 i \<noteq> attempt_reference 2 i" for i
  proof
    assume "attempt_reference 1 i = attempt_reference 2 i"
    then have "read_digits (show_nat 1) = read_digits (show_nat 2)" by (simp add: attempt_reference_def)
    then show False by (simp only: read_show_nat)
  qed
  obtain u1 w1 a d1 where w1: "executeDispatch V d 1 w = (Inr u1, w1)"
    "bank_transfers w1 = bank_transfers w @
      [TransferInitiated (attempt_reference 1 (dis_id d)) (dis_amount d) code (dis_account_unique d) (Inr txn)]"
    "outflows (w_db w1) = outflows (w_db w) @ [a]" "out_disbursement_id a = dis_id d"
    "out_provider_reference a = attempt_reference 1 (dis_id d)" "out_id a < next_id (w_db w1)"
    "next_id (w_db w1) = Suc (next_id (w_db w))"
    "find_row dis_id (dis_id d) (disbursements (w_db w1)) = Some d1" "held d d1"
    using wp_runD[OF unstored_attempt[of d w code 1 V txn, OF assms(1,2) _ assms(5,6)]] assms(4) by blast
  have one: "outflows_of (dis_id d) w1 = [a]"
    using none w1(3,4) by (simp add: outflows_of_def)
  have d1: "dis_id d1 = dis_id d" "payable d1 code" "dis_amount d1 = dis_amount d" "dis_account_unique d1 = dis_account_unique d"
    "dis_status d1 = DisbursementStatus.ON_HOLD"
    using w1(9) assms(2) by (simp_all add: held_def payable_def)
  have fresh2: "\<forall>b\<in>set (outflows (w_db w1)). out_provider_reference b \<noteq> attempt_reference 2 (dis_id d1) \<and> out_id b < next_id (w_db w1)"
    using assms(4) w1(3,5,6,7) ref by (auto simp: d1(1) less_SucI)
  obtain u2 w2 where w2: "executeDispatch V d1 2 w1 = (Inr u2, w2)" "bank_transfers w2 = bank_transfers w1 @
      [TransferInitiated (attempt_reference 2 (dis_id d)) (dis_amount d) code (dis_account_unique d) (Inr txn)]"
    using wp_runD[OF unstored_attempt[of d1 w1 code 2 V txn, OF _ d1(2) fresh2 assms(5,6)]] w1(8) d1 by auto
  have "dispatch V (dis_id d) w = (Inr (), w1)"
    using w1(1) assms(3) by (simp add: dispatch_def disbursement_findById_def bind_def find_by_id_def gets_def assms(1)
        the_or_throw_def return_def none table_rows)
  moreover have "retryDispatch V (dis_id d) w1 = (Inr (), w2)"
    using w2(1) d1(5) by (simp add: retryDispatch_def disbursement_findById_def bind_def find_by_id_def gets_def w1(8)
        the_or_throw_def return_def one require_def table_rows numeral_2_eq_2)
  ultimately show ?thesis using w1(2) w2(2) by simp
qed

lemma stored_attempt:
  assumes d: "find_row dis_id (dis_id d) (disbursements (w_db w)) = Some d" "payable d code"
    and fresh: "\<forall>a\<in>set (outflows (w_db w)). out_provider_reference a \<noteq> attempt_reference n (dis_id d) \<and> out_id a < next_id (w_db w)"
    and env: "e_initiate_transfer V = (\<lambda>_ _ _ _ _. Inr txn)" "\<And>i v. \<not> e_fault V (OutflowUpdateFault i) v"
  shows "wp (executeDispatch V d n) (\<lambda>_ w'. bank_transfers w' = bank_transfers w @
        [TransferInitiated (attempt_reference n (dis_id d)) (dis_amount d) code (dis_account_unique d) (Inr txn)]) (\<lambda>_ _. False) w"
proof -
  define a where "a = new_outflow d n (attempt_reference n (dis_id d)) (w_clock w) (next_id (w_db w))"
  have new: "new_outflow d n (attempt_reference n (dis_id d)) (w_clock w) (next_id (w_db w)) = a" by (simp add: a_def)
  have a: "out_id a = next_id (w_db w)" "out_provider_reference a = attempt_reference n (dis_id d)"
    by (simp_all add: a_def new_outflow_def)
  let ?f = "\<lambda>x. x\<lparr>out_provider_tx_id := Some txn, out_status := OutflowStatus.PROCESSING, out_initiated_at := Some (w_clock w)\<rparr>"
  have viol: "violated outflow_table a (outflows (w_db w)) = None"
    "violated outflow_table (?f a) (outflows (w_db w) @ [a]) = None"
    using fresh a by (auto simp: violated_def outflow_table_def)
  have "find_row out_id (out_id a) (outflows (w_db w)) = None"
    using fresh a(1) by (auto simp: find_row_None_iff)
  then have found: "find_row out_id (out_id a) (outflows (w_db w) @ [a]) = Some a" by (simp add: find_row_append)
  show ?thesis
    using d(2)
    by (simp add: executeDispatch_def wp_bind wp_now wp_create_row table_rows table_puts markProcessing_def wp_set_disbursement
        d(1) forRoute_def wp_the_or_throw payable_def DISBURSEMENT_ROUTES_def wp_attempt attempt_transfer_def
        wp_initiateTransfer present_def env wp_may_fail wp_set_outflow Let_def new viol found a(2) bank_transfers_def)
qed

text \<open>A new disbursement is paid by one transfer.\<close>

lemma pay_fresh:
  assumes "payouts_ok w" "dp_currency p = CUR_NGN" "dp_rail p = DisbursementRail.BANK_TRANSFER" "dp_provider_code p \<noteq> []"
    and "\<forall>a\<in>set (outflows (w_db w)). out_provider_reference a \<noteq> attempt_reference 1 (next_id (w_db w))"
    and env: "e_initiate_transfer V = (\<lambda>_ _ _ _ _. Inr txn)" "\<And>j v. \<not> e_fault V (OutflowUpdateFault j) v"
  shows "\<exists>d w1 w2. createForLoan D p w = (Inr d, w1) \<and> dis_id d = next_id (w_db w) \<and> dispatch V (dis_id d) w1 = (Inr (), w2) \<and>
    bank_transfers w2 = bank_transfers w @ [TransferInitiated (attempt_reference 1 (next_id (w_db w)))
      (d_col D 8 (dp_amount p)) (dp_provider_code p) (dp_account_unique p) (Inr txn)]"
proof -
  let ?n = "next_id (w_db w)"
  define d where "d = new_disbursement D p (w_clock w) ?n"
  define w1 where "w1 = w\<lparr>w_db := (w_db w)\<lparr>next_id := Suc ?n, disbursements := disbursements (w_db w) @ [d]\<rparr>\<rparr>"
  have d: "dis_id d = ?n" "payable d (dp_provider_code p)" "dis_account_unique d = dp_account_unique p"
    "dis_amount d = d_col D 8 (dp_amount p)" "dis_status d = DisbursementStatus.PENDING"
    using assms(2-4) by (simp_all add: d_def new_disbursement_def payable_def)
  have ids: "\<forall>x\<in>set (disbursements (w_db w)). dis_id x < ?n" "\<forall>a\<in>set (outflows (w_db w)). out_disbursement_id a < ?n \<and> out_id a < ?n"
    using assms(1) by (simp_all add: payouts_ok_def ids_ok_def)
  have "find_row dis_id ?n (disbursements (w_db w)) = None" using ids(1) by (force simp: find_row_None_iff)
  then have found: "find_row dis_id ?n (disbursements (w_db w1)) = Some d" by (simp add: w1_def find_row_append d(1))
  have none: "outflows_of ?n w1 = []" using ids(2) by (force simp: outflows_of_def w1_def filter_empty_conv)
  have "find_row dis_id (dis_id d) (disbursements (w_db w1)) = Some d" using found by (simp add: d(1))
  moreover have "\<forall>a\<in>set (outflows (w_db w1)). out_provider_reference a \<noteq> attempt_reference 1 (dis_id d) \<and> out_id a < next_id (w_db w1)"
    using assms(5) ids(2) by (auto simp: w1_def d(1) less_SucI)
  ultimately obtain u2 w2 where w2: "executeDispatch V d 1 w1 = (Inr u2, w2)" "bank_transfers w2 = bank_transfers w1 @
      [TransferInitiated (attempt_reference 1 (dis_id d)) (dis_amount d) (dp_provider_code p) (dis_account_unique d) (Inr txn)]"
    using wp_runD[OF stored_attempt[OF _ d(2) _ env]] by blast
  have "dispatch V ?n w1 = (Inr (), w2)"
    using w2(1) d(5) by (simp add: dispatch_def disbursement_findById_def bind_def find_by_id_def gets_def found
        the_or_throw_def return_def none table_rows)
  moreover have "createForLoan D p w = (Inr d, w1)"
    unfolding run_eq_wp by (simp add: createForLoan_def wp_simps disbursement_table_def violated_def d_def w1_def)
  moreover have "bank_transfers w1 = bank_transfers w" by (simp add: bank_transfers_def w1_def)
  ultimately show ?thesis using w2(2) d by auto
qed

text \<open>An operator who recreates the disbursement of an active loan is stopped only by one that is still
  open: when the earlier one succeeded, the customer is paid the whole amount once more.\<close>

theorem recreate_pays_funded_loan_again:
  assumes "find_row l_id i (loans (w_db w)) = Some loan" and "l_status loan = LoanStatus.ACTIVE"
    and "\<forall>d\<in>set (disbursements (w_db w)). dis_source_id d = i \<longrightarrow> dis_status d = DisbursementStatus.SUCCESSFUL"
    and "find_row acct_id (l_disbursement_account_id loan) (accounts (w_db w)) = Some account"
    and "acct_provider_code account \<noteq> []" and "payouts_ok w"
    and "\<forall>a\<in>set (outflows (w_db w)). out_provider_reference a \<noteq> attempt_reference 1 (Suc (next_id (w_db w)))"
    and "e_initiate_transfer V = (\<lambda>_ _ _ _ _. Inr txn)" and "\<And>j v. \<not> e_fault V (OutflowUpdateFault j) v"
  shows "\<exists>w'. recreateForActiveLoan V i u w = (Inr (Suc (next_id (w_db w))), w') \<and>
    bank_transfers w' = bank_transfers w @ [TransferInitiated (attempt_reference 1 (Suc (next_id (w_db w))))
      (d_col (e_dec V) 8 (dminus (e_dec V) (l_principal_ngn loan) (l_origination_fee_ngn loan)))
      (acct_provider_code account) (acct_account_unique account) (Inr txn)]"
proof -
  let ?n = "next_id (w_db w)" and ?p = "loan_payout (e_dec V) loan account"
  define w1 where "w1 = w\<lparr>w_db := (w_db w)\<lparr>next_id := Suc ?n, audits := audits (w_db w) @ [\<lparr>au_id = ?n, au_ops_user_id = u,
      au_action = ''disbursement.recreate'', au_target_type = ''loan'', au_target_id = show_nat i, au_created_at = w_clock w\<rparr>]\<rparr>\<rparr>"
  have id: "l_id loan = i" using find_row_key[OF assms(1)] .
  have "List.find (\<lambda>d. dis_source_id d = l_id loan \<and> dis_status d \<in>
      {DisbursementStatus.PENDING, DisbursementStatus.PROCESSING, DisbursementStatus.ON_HOLD}) (disbursements (w_db w)) = None"
    using assms(3) by (auto simp: find_None_iff id)
  then have target: "recreate_target i w = (Inr (loan, account), w)"
    unfolding run_eq_wp using assms(1,2,4,5) by (simp add: recreate_target_def wp_simps table_rows)
  have audit: "transaction (audit_write u ''disbursement.recreate'' ''loan'' (show_nat (l_id loan))) w = (Inr (), w1)"
    unfolding run_eq_wp by (simp add: audit_write_def wp_simps audit_table_def violated_def w1_def id)
  have "payouts_ok w1" by (rule payouts_same[OF assms(6)]) (simp add: same_payouts_def w1_def)
  moreover have "outflows (w_db w1) = outflows (w_db w)" "next_id (w_db w1) = Suc ?n" "bank_transfers w1 = bank_transfers w"
    by (simp_all add: w1_def bank_transfers_def)
  ultimately obtain d w2 w3 where "createForLoan (e_dec V) ?p w1 = (Inr d, w2)" "dis_id d = Suc ?n"
    "dispatch V (dis_id d) w2 = (Inr (), w3)" "bank_transfers w3 = bank_transfers w @ [TransferInitiated
      (attempt_reference 1 (Suc ?n)) (d_col (e_dec V) 8 (dp_amount ?p)) (dp_provider_code ?p) (dp_account_unique ?p) (Inr txn)]"
    using pay_fresh[of w1 ?p V txn "e_dec V"] assms(5,7,8,9) by (auto simp: loan_payout_def)
  then show ?thesis
    by (simp add: recreateForActiveLoan_def bind_def target audit return_def loan_payout_def)
qed

section \<open>Concrete runs\<close>

definition sample_disbursement :: disbursement_row where
  "sample_disbursement = new_disbursement js_decimals \<lparr>dp_user_id = 7, dp_source_id = 3, dp_amount = 100000,
     dp_currency = CUR_NGN, dp_rail = DisbursementRail.BANK_TRANSFER, dp_provider_name = ''Bank'', dp_provider_code = ''100'',
     dp_account_unique = ''0123456789'', dp_account_name = None\<rparr> 0 5"

definition payout_world :: world where
  "payout_world = empty_world\<lparr>w_db := empty_db\<lparr>disbursements := [sample_disbursement], next_id := 10\<rparr>\<rparr>"

lemma payout_world_facts:
  "disbursements (w_db payout_world) = [sample_disbursement]" "outflows (w_db payout_world) = []"
  "dis_id sample_disbursement = 5" "payable sample_disbursement ''100''" "next_id (w_db payout_world) = 10"
  "dis_status sample_disbursement = DisbursementStatus.PENDING" "dis_account_unique sample_disbursement = ''0123456789''"
  by (simp_all add: payout_world_def empty_db_def sample_disbursement_def new_disbursement_def payable_def)

lemma payout_world_ok: "payouts_ok payout_world"
  by (simp add: payouts_ok_def ids_ok_def attempts_ok_def payout_world_facts)

theorem unstored_transfer_is_sent_again_witness:
  "\<exists>w2. length (bank_transfers w2) = 2 \<and> (\<exists>w1. dispatch (toy_env\<lparr>e_fault := \<lambda>_ _. True\<rparr>) 5 payout_world = (Inr (), w1) \<and>
     retryDispatch (toy_env\<lparr>e_fault := \<lambda>_ _. True\<rparr>) 5 w1 = (Inr (), w2))"
proof -
  let ?V = "toy_env\<lparr>e_fault := \<lambda>_ _. True\<rparr>"
  have "\<exists>w1 w2. dispatch ?V (dis_id sample_disbursement) payout_world = (Inr (), w1) \<and>
    retryDispatch ?V (dis_id sample_disbursement) w1 = (Inr (), w2) \<and> bank_transfers w2 = bank_transfers payout_world @
      [TransferInitiated (attempt_reference 1 (dis_id sample_disbursement)) (dis_amount sample_disbursement) ''100''
         (dis_account_unique sample_disbursement) (Inr ''tx''),
       TransferInitiated (attempt_reference 2 (dis_id sample_disbursement)) (dis_amount sample_disbursement) ''100''
         (dis_account_unique sample_disbursement) (Inr ''tx'')]"
    by (rule unstored_transfer_is_sent_again) (simp_all add: payout_world_facts toy_env_def)
  moreover have "bank_transfers payout_world = []" by (simp add: bank_transfers_def payout_world_def empty_world_def)
  ultimately show ?thesis by (fastforce simp: payout_world_facts)
qed

definition funded_world :: world where
  "funded_world = payout_world\<lparr>w_db := (w_db payout_world)\<lparr>
     disbursements := [sample_disbursement\<lparr>dis_status := DisbursementStatus.SUCCESSFUL\<rparr>], accounts := [sample_account],
     loans := [pending_loan\<lparr>l_status := LoanStatus.ACTIVE, l_disbursement_account_id := 2\<rparr>]\<rparr>\<rparr>"

theorem recreate_pays_funded_loan_again_witness:
  "\<exists>w'. recreateForActiveLoan toy_env 3 99 funded_world = (Inr 11, w') \<and> length (bank_transfers w') = 1"
proof -
  let ?loan = "pending_loan\<lparr>l_status := LoanStatus.ACTIVE, l_disbursement_account_id := 2\<rparr>"
  have f: "loans (w_db funded_world) = [?loan]" "accounts (w_db funded_world) = [sample_account]"
    "disbursements (w_db funded_world) = [sample_disbursement\<lparr>dis_status := DisbursementStatus.SUCCESSFUL\<rparr>]"
    "outflows (w_db funded_world) = []" "next_id (w_db funded_world) = 10" "bank_transfers funded_world = []"
    "l_id ?loan = 3"
    by (simp_all add: funded_world_def payout_world_facts bank_transfers_def payout_world_def empty_world_def pending_loan_def
        repaid_loan_def empty_db_def)
  have "\<exists>w'. recreateForActiveLoan toy_env 3 99 funded_world = (Inr (Suc (next_id (w_db funded_world))), w') \<and>
    bank_transfers w' = bank_transfers funded_world @ [TransferInitiated (attempt_reference 1 (Suc (next_id (w_db funded_world))))
      (d_col (e_dec toy_env) 8 (dminus (e_dec toy_env) (l_principal_ngn ?loan) (l_origination_fee_ngn ?loan)))
      (acct_provider_code sample_account) (acct_account_unique sample_account) (Inr ''tx'')]"
    by (rule recreate_pays_funded_loan_again)
       (simp_all add: f payouts_ok_def ids_ok_def attempts_ok_def payout_world_facts sample_account_def toy_env_def)
  then show ?thesis by (auto simp: f)
qed

end
