(* ===== verification/BlinkWebhook.thy ===== *)
theory BlinkWebhook
  imports Payouts
begin

text \<open>
  \<open>modules/webhooks/blink.webhook.controller.ts\<close>: a payment of collateral activates its loan and
  pays the customer. The schema validation and the signature of the delivery are parameters: the
  parsed body is a failure of \<open>JSON.parse\<close>, a body that the schema refuses, or a payload.
\<close>

record blink_payload =
  bp_accountId :: string
  bp_eventType :: string
  bp_settlementAmount :: rat
  bp_paymentHash :: "string option"
  bp_txHash :: "string option"

datatype parsed_body = NotJson string | SchemaMismatch | Payload blink_payload

definition EVENT_TYPE_TO_NETWORK :: "string \<Rightarrow> PaymentNetwork option" where
  "EVENT_TYPE_TO_NETWORK e =
     (if e = ''receive.lightning'' then Some PaymentNetwork.LIGHTNING
      else if e = ''receive.onchain'' then Some PaymentNetwork.BTC_ONCHAIN
      else if e = ''receive.intraledger'' then Some PaymentNetwork.LIGHTNING else None)"

definition handleLoanCollateral :: "env \<Rightarrow> payment_request_row \<Rightarrow> time option \<Rightarrow> unit service" where
  "handleLoanCollateral V payment_request matched_at =
     (let loan_id = pr_source_id payment_request in
      bind now (\<lambda>t.
      bind (activateLoan loan_id (or_else matched_at t)) (\<lambda>_.
      bind (existsForLoan loan_id) (\<lambda>already.
      if already then return ()
      else
        bind (getLoan V (pr_user_id payment_request) loan_id) (\<lambda>view.
        bind (find_or_throw account_table (l_disbursement_account_id (lv_loan view))) (\<lambda>account.
        bind (createForLoan (e_dec V) (loan_payout (e_dec V) (lv_loan view) account)) (\<lambda>d.
        dispatch V (dis_id d))))))))"

definition SourceType_name :: "SourceType \<Rightarrow> string" where
  "SourceType_name s = (case s of SOURCE_LOAN \<Rightarrow> ''LOAN'' | SOURCE_OFFRAMP \<Rightarrow> ''OFFRAMP''
     | SOURCE_LOAN_REPAYMENT \<Rightarrow> ''LOAN_REPAYMENT'')"

definition blink_ingest_params :: "blink_payload \<Rightarrow> string \<Rightarrow> ingest_params" where
  "blink_ingest_params p payment_hash =
     \<lparr>ig_amount = bp_settlementAmount p, ig_currency = CUR_SAT,
      ig_network = or_else (EVENT_TYPE_TO_NETWORK (bp_eventType p)) PaymentNetwork.LIGHTNING,
      ig_receiving_address = payment_hash, ig_provider_reference = payment_hash\<rparr>"

definition blink_payment :: "env \<Rightarrow> blink_payload \<Rightarrow> string \<Rightarrow> handler_outcome service" where
  "blink_payment V p payment_hash =
     bind (ingest (e_dec V) (blink_ingest_params p payment_hash)) (\<lambda>(inflow, payment_request).
     case payment_request of
       None \<Rightarrow> return (outcome IGNORED ''inflow unmatched (no payment_request)'' (Some payment_hash))
     | Some pr \<Rightarrow>
         if pr_source_type pr = SOURCE_LOAN
         then bind (handleLoanCollateral V pr (in_matched_at inflow)) (\<lambda>_.
              return (outcome PROCESSED (''loan '' @ show_nat (pr_source_id pr) @ '' activated'') (Some payment_hash)))
         else return (outcome IGNORED (''source_type '' @ SourceType_name (pr_source_type pr) @ '' not handled'')
                (Some payment_hash)))"

definition blink_process :: "env \<Rightarrow> string \<Rightarrow> parsed_body \<Rightarrow> handler_outcome service" where
  "blink_process V own_account body =
     (case body of
        NotJson m \<Rightarrow> throw (OtherError m)
      | SchemaMismatch \<Rightarrow> return (outcome MALFORMED ''payload schema validation failed'' None)
      | Payload p \<Rightarrow>
          if bp_accountId p \<noteq> own_account then return (outcome IGNORED ''accountId mismatch'' None)
          else if take 8 (bp_eventType p) \<noteq> ''receive.''
          then return (outcome IGNORED (''non-receive event ('' @ bp_eventType p @ '')'') None)
          else case present (case bp_paymentHash p of None \<Rightarrow> bp_txHash p | Some h \<Rightarrow> Some h) of
                 None \<Rightarrow> return (outcome MALFORMED ''missing payment hash'' None)
               | Some payment_hash \<Rightarrow> blink_payment V p payment_hash)"

definition blink_webhook :: "env \<Rightarrow> string \<Rightarrow> delivery \<Rightarrow> bool \<Rightarrow> parsed_body \<Rightarrow> unit service" where
  "blink_webhook V own_account d signature_ok body =
     logged_handler V d signature_ok (blink_process V own_account body)"

section \<open>What a dispatch leaves alone\<close>

definition paid_for :: "disbursement_row \<Rightarrow> DisbursementType \<times> id" where
  "paid_for d = (dis_source_type d, dis_source_id d)"

definition same_loans :: "world \<Rightarrow> world \<Rightarrow> bool" where
  "same_loans w w' \<longleftrightarrow> loans (w_db w') = loans (w_db w) \<and>
     map paid_for (disbursements (w_db w')) = map paid_for (disbursements (w_db w))"

lemma paid_for_update: "(\<And>d. paid_for (f d) = paid_for d) \<Longrightarrow> map paid_for (update_where p f ds) = map paid_for ds"
  by (simp add: update_where_def)

lemma paid_for_update_row: "(\<And>d. paid_for (f d) = paid_for d) \<Longrightarrow> map paid_for (update_row dis_id i f ds) = map paid_for ds"
  by (simp add: update_row_def paid_for_update)

lemma set_outflow_loans: "same_loans w v \<Longrightarrow> wp (set_outflow i f) (\<lambda>_. same_loans w) (\<lambda>_. same_loans w) v"
  by (simp add: wp_set_outflow same_loans_def split: option.split)

lemma set_disbursement_loans:
  "same_loans w v \<Longrightarrow> (\<And>d. paid_for (f d) = paid_for d) \<Longrightarrow>
   wp (set_disbursement i f) (\<lambda>_. same_loans w) (\<lambda>_. same_loans w) v"
  by (simp add: wp_set_disbursement same_loans_def paid_for_update_row split: option.split)

lemma hold_loans: "same_loans w v \<Longrightarrow> wp (markOnHoldAndMaybeAlert i j r) (\<lambda>_. same_loans w) (\<lambda>_. same_loans w) v"
  by (simp add: markOnHoldAndMaybeAlert_def markOnHold_def markOnHoldAlerted_def disbursement_findById_def wp_simps
      wp_set_disbursement same_loans_def paid_for_update_row paid_for_update paid_for_def
      table_ops split: option.split)

lemma attempt_transfer_loans: "same_loans w v \<Longrightarrow> wp (attempt_transfer V d a p) (\<lambda>_. same_loans w) (\<lambda>_. same_loans w) v"
  by (simp add: attempt_transfer_def wp_simps wp_initiateTransfer wp_set_outflow same_loans_def Let_def
      split: option.split sum.split)

lemma executeDispatch_loans: "same_loans w v \<Longrightarrow> wp (executeDispatch V d n) (\<lambda>_. same_loans w) (\<lambda>_. same_loans w) v"
  unfolding executeDispatch_def wp_bind[of now] wp_now
proof (rule wp_keeps_seq)
  assume "same_loans w v"
  then show "wp (create_row outflow_table mk) (\<lambda>_. same_loans w) (\<lambda>_. same_loans w) v" for mk
    by (simp add: wp_simps table_ops same_loans_def split: option.split)
  show "wp (bind (markProcessing i) (\<lambda>_. bind (forRoute c r) (\<lambda>provider. attempt (attempt_transfer V d outflow provider)
       (\<lambda>e. bind (set_outflow (out_id outflow) (\<lambda>a. a\<lparr>out_status := OutflowStatus.FAILED,
               out_failure_reason := Some (err_message V e)\<rparr>)) (\<lambda>_. markOnHoldAndMaybeAlert i (out_id outflow) (err_message V e))))))
     (\<lambda>_. same_loans w) (\<lambda>_. same_loans w) u" if "same_loans w u" for outflow u i c r
  proof (intro wp_keeps_seq)
    show "wp (markProcessing i) (\<lambda>_. same_loans w) (\<lambda>_. same_loans w) u"
      unfolding markProcessing_def by (rule set_disbursement_loans[OF that]) (simp add: paid_for_def)
    show "same_loans w u' \<Longrightarrow> wp (forRoute c r) (\<lambda>_. same_loans w) (\<lambda>_. same_loans w) u'" for u'
      by (simp add: forRoute_def wp_simps split: option.split)
    show "same_loans w u' \<Longrightarrow> wp (attempt (attempt_transfer V d outflow provider)
       (\<lambda>e. bind (set_outflow (out_id outflow) (\<lambda>a. a\<lparr>out_status := OutflowStatus.FAILED,
               out_failure_reason := Some (err_message V e)\<rparr>)) (\<lambda>_. markOnHoldAndMaybeAlert i (out_id outflow) (err_message V e))))
      (\<lambda>_. same_loans w) (\<lambda>_. same_loans w) u'" for u' provider
      unfolding wp_attempt
      by (rule wp_mono[OF attempt_transfer_loans])
         (auto intro!: wp_keeps_seq set_outflow_loans hold_loans)
  qed
qed

lemma dispatch_loans: "wp (dispatch V i) (\<lambda>_. same_loans w) (\<lambda>_. same_loans w) w"
  by (auto simp: dispatch_def disbursement_findById_def wp_simps executeDispatch_loans same_loans_def
      split: option.split)

section \<open>A payment funds its loan once\<close>

lemma gets_run: "gets f s = (Inr (f s), s)"
  by (simp add: gets_def)

lemma now_run: "now w = (Inr (w_clock w), w)"
  by (simp add: now_def gets_run)

lemma existsForLoan_run:
  "existsForLoan i w = (Inr ((DisbursementType.LOAN, i) \<in> paid_for ` set (disbursements (w_db w))), w)"
proof -
  have "filter (\<lambda>d. dis_source_type d = DisbursementType.LOAN \<and> dis_source_id d = i) (disbursements (w_db w)) \<noteq> [] \<longleftrightarrow>
      (DisbursementType.LOAN, i) \<in> paid_for ` set (disbursements (w_db w))"
    unfolding filter_empty_conv image_iff paid_for_def by (metis prod.inject)
  then show ?thesis by (simp add: existsForLoan_def find_many_def bind_def gets_def return_def table_rows)
qed

lemma same_loans_paid: "same_loans w w' \<Longrightarrow> paid_for ` set (disbursements (w_db w')) = paid_for ` set (disbursements (w_db w))"
  unfolding same_loans_def by (metis set_map)

text \<open>A loan that does not wait for collateral stays as it is.\<close>

definition settled_loan :: "id \<Rightarrow> world \<Rightarrow> bool" where
  "settled_loan i w \<longleftrightarrow> (\<exists>loan. find_row l_id i (loans (w_db w)) = Some loan \<and> l_status loan \<noteq> LoanStatus.PENDING_COLLATERAL)"

lemma activateLoan_settled: "settled_loan i w \<Longrightarrow> activateLoan i t w = (Inr (), w)"
  by (auto simp: settled_loan_def activateLoan_def find_or_throw_def find_by_id_def bind_def gets_def the_or_throw_def
      return_def table_rows)

lemma activateLoan_settles:
  assumes "wf_table loan_table w"
  shows "wp (activateLoan i t) (\<lambda>_. settled_loan i) (\<lambda>_ _. True) w"
proof (cases "find_row l_id i (loans (w_db w))")
  case None
  then show ?thesis by (simp add: activateLoan_def wp_simps table_rows)
next
  case (Some loan)
  show ?thesis
  proof (cases "l_status loan = LoanStatus.PENDING_COLLATERAL")
    case True
    show ?thesis
      by (rule wp_mono[OF activation_effect[OF Some assms True]])
         (auto simp: settled_loan_def find_row_update_row Some)
  next
    case False
    then have "settled_loan i w" using Some by (simp add: settled_loan_def)
    then show ?thesis by (simp add: wp_def activateLoan_settled)
  qed
qed

lemma getLoan_found:
  assumes "List.find (\<lambda>l. l_id l = i \<and> l_user_id l = u) (loans (w_db w)) = Some loan"
  shows "\<exists>v. getLoan V u i w = (Inr v, w) \<and> lv_loan v = loan"
proof -
  let ?D = "e_dec V" and ?owed = "outstanding_at (e_dec V) loan w"
  have "wp (coverage_of ?D loan ?owed) (\<lambda>_ w'. w' = w) (\<lambda>_ _. False) w"
    unfolding coverage_of_def wp_attempt wp_bind
    by (rule wp_mono[OF getCurrentRate_reads]) (simp_all add: wp_simps Let_def)
  then obtain r where r: "coverage_of ?D loan ?owed w = (Inr r, w)" using wp_runD by fastforce
  have "\<exists>b. margin_call_flag V (l_id loan) w = (Inr b, w)"
    by (cases "e_fault V (MarginFlagFault (l_id loan)) w")
       (auto simp: margin_call_flag_def run_defs may_fail_def redis_get_def intro: exI[of _ False])
  then obtain b where b: "margin_call_flag V (l_id loan) w = (Inr b, w)" by blast
  have "\<exists>y. (if l_status loan = LoanStatus.ACTIVE \<and> l_collateral_received_at loan \<noteq> None
      then bind (coverage_of ?D loan ?owed) (\<lambda>ratio. bind (margin_call_flag V (l_id loan)) (\<lambda>flag. return (ratio, flag)))
      else return (None, False)) w = (Inr y, w)"
    by (auto simp: bind_def r b return_def intro: exI[of _ False])
  then obtain cr mc where x: "(if l_status loan = LoanStatus.ACTIVE \<and> l_collateral_received_at loan \<noteq> None
      then bind (coverage_of ?D loan ?owed) (\<lambda>ratio. bind (margin_call_flag V (l_id loan)) (\<lambda>flag. return (ratio, flag)))
      else return (None, False)) w = (Inr (cr, mc), w)" by auto
  have "\<exists>p. (if l_status loan = LoanStatus.PENDING_COLLATERAL then open_payment_request loan else return None) w = (Inr p, w)"
    by (simp add: open_payment_request_def bind_def find_first_def gets_def return_def)
  then obtain p where p: "(if l_status loan = LoanStatus.PENDING_COLLATERAL then open_payment_request loan else return None) w = (Inr p, w)" ..
  have own: "own_loan u i w = (Inr loan, w)"
    using assms by (simp add: own_loan_def bind_def find_first_def gets_def table_rows the_or_throw_def return_def)
  show ?thesis
    by (simp only: getLoan_def bind_def[of "own_loan u i"] bind_def[of now] bind_def[of "gets _"] bind_def[of "If _ _ _"] own
        now_run gets_run x p prod.case sum.case return_def) simp
qed

lemma getLoan_reads: "wp (getLoan V u i) (\<lambda>v w'. w' = w \<and> l_id (lv_loan v) = i) (\<lambda>_ w'. w' = w) w"
proof (cases "List.find (\<lambda>l. l_id l = i \<and> l_user_id l = u) (loans (w_db w))")
  case None
  then show ?thesis by (simp add: getLoan_def own_loan_def wp_bind wp_find_first wp_the_or_throw table_rows)
next
  case (Some loan)
  then show ?thesis using getLoan_found[OF Some, of V] find_SomeD[OF Some] by (auto simp: wp_def)
qed

lemma activateLoan_same: "wp (activateLoan i t) (\<lambda>_. same_payouts w) (\<lambda>_. same_payouts w) w"
  by (simp add: activateLoan_def transition_from_def wp_simps wp_transition table_ops same_payouts_def split: option.split)

lemma createForLoan_pays:
  "dp_source_id p = i \<Longrightarrow> wp (createForLoan D p) (\<lambda>_ w'. loans (w_db w') = loans (w_db w) \<and>
     map paid_for (disbursements (w_db w')) = map paid_for (disbursements (w_db w)) @ [(DisbursementType.LOAN, i)]) (\<lambda>_ _. False) w"
  by (simp add: createForLoan_def wp_simps table_ops disbursement_table_def violated_def new_disbursement_def paid_for_def)

text \<open>How many disbursements a loan has, and what the collateral step makes of the loan: one that waits becomes active, any
  other stays, and so do all the other loans.\<close>

definition payouts_of :: "id \<Rightarrow> world \<Rightarrow> nat" where
  "payouts_of i w = length (filter (\<lambda>x. x = (DisbursementType.LOAN, i)) (map paid_for (disbursements (w_db w))))"

definition activated :: "id \<Rightarrow> world \<Rightarrow> world \<Rightarrow> bool" where
  "activated i w w' \<longleftrightarrow> (\<exists>loan loan'. find_row l_id i (loans (w_db w)) = Some loan \<and> find_row l_id i (loans (w_db w')) = Some loan' \<and>
     (if l_status loan = LoanStatus.PENDING_COLLATERAL then l_status loan' = LoanStatus.ACTIVE else loan' = loan)) \<and>
     (\<forall>j. j \<noteq> i \<longrightarrow> find_row l_id j (loans (w_db w')) = find_row l_id j (loans (w_db w)))"

lemma payouts_of_paid: "0 < payouts_of i w \<longleftrightarrow> (DisbursementType.LOAN, i) \<in> paid_for ` set (disbursements (w_db w))"
  by (auto simp: payouts_of_def filter_empty_conv simp flip: length_greater_0_conv) (metis image_eqI)

lemma activated_settles: "activated i w v \<Longrightarrow> settled_loan i v"
  by (auto simp: activated_def settled_loan_def split: if_splits)

lemma activateLoan_activates:
  assumes "wf_table loan_table w"
  shows "wp (activateLoan i t) (\<lambda>_ w'. activated i w w' \<and> payouts_of i w' = payouts_of i w) (\<lambda>_ _. True) w"
proof (cases "find_row l_id i (loans (w_db w))")
  case None
  then show ?thesis by (simp add: activateLoan_def wp_simps table_rows)
next
  case (Some loan)
  show ?thesis
  proof (cases "l_status loan = LoanStatus.PENDING_COLLATERAL")
    case True
    from wp_conj[OF activation_effect[OF Some assms True, of t] activateLoan_same] show ?thesis
      by (rule wp_mono) (auto simp: activated_def find_row_update_row Some True same_payouts_def payouts_of_def)
  next
    case False
    then show ?thesis using Some by (simp add: activateLoan_def wp_simps table_rows activated_def)
  qed
qed

text \<open>The loan is as activated, and has the given number of disbursements.\<close>

definition funded :: "id \<Rightarrow> nat \<Rightarrow> world \<Rightarrow> world \<Rightarrow> bool" where
  "funded i n w w' \<longleftrightarrow> activated i w w' \<and> payouts_of i w' = n"

lemma activated_cong: "activated i w v \<Longrightarrow> loans (w_db v') = loans (w_db v) \<Longrightarrow> activated i w v'"
  by (simp add: activated_def)

lemma dispatch_funded: "funded i n w v \<Longrightarrow> wp (dispatch V j) (\<lambda>_. funded i n w) (\<lambda>_ _. True) v"
  by (rule wp_mono[OF dispatch_loans]) (auto simp: same_loans_def payouts_of_def funded_def intro: activated_cong)

lemma createForLoan_funded:
  assumes "funded i n w v" and "dp_source_id p = i"
  shows "wp (createForLoan D p) (\<lambda>_. funded i (Suc n) w) (\<lambda>_ _. False) v"
proof (rule wp_mono[OF createForLoan_pays[OF assms(2)]])
  fix d :: disbursement_row and u :: world
  assume u: "loans (w_db u) = loans (w_db v) \<and>
    map paid_for (disbursements (w_db u)) = map paid_for (disbursements (w_db v)) @ [(DisbursementType.LOAN, i)]"
  then have "payouts_of i u = Suc (payouts_of i v)" unfolding payouts_of_def by (simp only: filter_append length_append) simp
  then show "funded i (Suc n) w u" using assms(1) u by (auto simp: funded_def intro: activated_cong)
qed simp

lemma fund_unpaid:
  assumes v: "funded i n w v"
  shows "wp (bind (existsForLoan i) (\<lambda>already. if already then return ()
      else bind (getLoan V u i) (\<lambda>view. bind (find_or_throw account_table (l_disbursement_account_id (lv_loan view)))
        (\<lambda>account. bind (createForLoan (e_dec V) (loan_payout (e_dec V) (lv_loan view) account))
          (\<lambda>d. dispatch V (dis_id d)))))) (\<lambda>_. funded i (max 1 n) w) (\<lambda>_ _. True) v"
proof (cases "n = 0")
  case True
  have "wp (bind (createForLoan (e_dec V) (loan_payout (e_dec V) loan account)) (\<lambda>d. dispatch V (dis_id d)))
      (\<lambda>_. funded i (Suc 0) w) (\<lambda>_ _. True) v" if "l_id loan = i" for loan account
    by (rule wp_seq[OF createForLoan_funded[OF v]]) (use that True in \<open>simp_all add: loan_payout_def dispatch_funded\<close>)
  then show ?thesis
    using v True payouts_of_paid[of i v] unfolding wp_bind[of "existsForLoan _"]
    by (auto simp: wp_def[of "existsForLoan _"] existsForLoan_run funded_def[of _ 0] wp_bind[of "find_or_throw _ _"] wp_find_or_throw
        split: option.split intro!: wp_seq[OF getLoan_reads])
next
  case False
  then show ?thesis
    using v payouts_of_paid[of i v] unfolding wp_bind[of "existsForLoan _"]
    by (auto simp: wp_def[of "existsForLoan _"] existsForLoan_run wp_return funded_def max_def)
qed


section \<open>Paying a loan that no longer waits\<close>

definition same_funding :: "world \<Rightarrow> world \<Rightarrow> bool" where
  "same_funding w w' \<longleftrightarrow> same_payouts w w' \<and> loans (w_db w') = loans (w_db w) \<and> accounts (w_db w') = accounts (w_db w) \<and>
     bank_transfers w' = bank_transfers w"

lemma same_funding_refl: "same_funding w w"
  by (simp add: same_funding_def same_payouts_def)

lemma createInflow_funding: "wp (createInflow D p) (\<lambda>_. same_funding w) (\<lambda>_. same_funding w) w"
  by (simp add: createInflow_def wp_simps table_ops same_funding_def same_payouts_def bank_transfers_def
      split: option.split)

lemma findPending_reads: "wp (findPendingByReceivingAddress a) (\<lambda>_ w'. w' = w) (\<lambda>_ w'. w' = w) w"
  by (simp add: findPendingByReceivingAddress_def wp_simps table_ops split: option.split rval.split)

lemma matchInflow_funding:
  "same_funding w v \<Longrightarrow> wp (matchInflow pr i) (\<lambda>_. same_funding w) (\<lambda>_. same_funding w) v"
  by (simp add: matchInflow_def wp_simps table_ops same_funding_def same_payouts_def bank_transfers_def
      split: option.split)

lemma ingest_funding: "wp (ingest D p) (\<lambda>_. same_funding w) (\<lambda>_. same_funding w) w"
  unfolding ingest_def
  by (rule wp_keeps_seq[OF createInflow_funding], rule wp_seq[OF findPending_reads])
     (auto simp: wp_return wp_bind wp_return_fun split: option.split intro: matchInflow_funding)

lemma handleLoanCollateral_pays:
  assumes "find_row l_id (pr_source_id pr) (loans (w_db w)) = Some loan"
    and "l_user_id loan = pr_user_id pr" "l_status loan \<noteq> LoanStatus.PENDING_COLLATERAL"
    and "\<forall>d\<in>set (disbursements (w_db w)). dis_source_id d \<noteq> pr_source_id pr" "payouts_ok w"
    and "find_row acct_id (l_disbursement_account_id loan) (accounts (w_db w)) = Some account" "acct_provider_code account \<noteq> []"
    and "\<forall>a\<in>set (outflows (w_db w)). out_provider_reference a \<noteq> attempt_reference 1 (next_id (w_db w))"
    and env: "e_initiate_transfer V = (\<lambda>_ _ _ _ _. Inr txn)" "\<And>j v. \<not> e_fault V (OutflowUpdateFault j) v"
  shows "\<exists>w'. handleLoanCollateral V pr t w = (Inr (), w') \<and> loans (w_db w') = loans (w_db w) \<and>
    bank_transfers w' = bank_transfers w @ [TransferInitiated (attempt_reference 1 (next_id (w_db w)))
      (d_col (e_dec V) 8 (dminus (e_dec V) (l_principal_ngn loan) (l_origination_fee_ngn loan)))
      (acct_provider_code account) (acct_account_unique account) (Inr txn)]"
proof -
  let ?i = "pr_source_id pr" and ?p = "loan_payout (e_dec V) loan account"
  have id: "l_id loan = ?i" using find_row_key[OF assms(1)] .
  have own: "List.find (\<lambda>l. l_id l = ?i \<and> l_user_id l = pr_user_id pr) (loans (w_db w)) = Some loan"
    by (rule find_owned[OF assms(1), of "\<lambda>l. l_user_id l = pr_user_id pr", OF assms(2)])
  have "settled_loan ?i w" using assms(1,3) by (simp add: settled_loan_def)
  then have act: "activateLoan ?i t w = (Inr (), w)" for t by (rule activateLoan_settled)
  have ex: "existsForLoan ?i w = (Inr False, w)"
    using assms(4) by (auto simp: existsForLoan_run paid_for_def)
  obtain view where view: "getLoan V (pr_user_id pr) ?i w = (Inr view, w)" "lv_loan view = loan"
    using getLoan_found[of ?i "pr_user_id pr" w loan V] own by auto
  have acct: "find_or_throw account_table (l_disbursement_account_id loan) w = (Inr account, w)"
    using assms(6) by (simp add: find_or_throw_def bind_def find_by_id_def gets_def the_or_throw_def return_def table_rows)
  obtain d w2 w3 where pay: "createForLoan (e_dec V) ?p w = (Inr d, w2)" "dispatch V (dis_id d) w2 = (Inr (), w3)"
    "bank_transfers w3 = bank_transfers w @ [TransferInitiated (attempt_reference 1 (next_id (w_db w)))
      (d_col (e_dec V) 8 (dp_amount ?p)) (dp_provider_code ?p) (dp_account_unique ?p) (Inr txn)]"
    using pay_fresh[of w ?p V txn "e_dec V"] assms(5,7,8) env by (auto simp: loan_payout_def)
  have "loans (w_db w2) = loans (w_db w)"
    using createForLoan_pays[of ?p ?i "e_dec V" w] pay(1) id by (simp add: wp_def loan_payout_def)
  moreover have "same_loans w2 w3" using dispatch_loans[of V "dis_id d" w2] pay(2) by (simp add: wp_def)
  moreover have "handleLoanCollateral V pr t w = (Inr (), w3)"
    by (simp add: handleLoanCollateral_def Let_def bind_def now_def gets_def act ex view acct pay)
  ultimately show ?thesis using pay(3) by (simp add: same_loans_def loan_payout_def)
qed

text \<open>C34. A payment of the invoice of a loan that no longer waits for collateral, a cancelled one for
  instance, still pays the customer: the loan is left as it is and the delivery is reported as
  processed, but a disbursement of the principal less the fee is created and transferred.\<close>

theorem cancelled_loan_is_paid:
  assumes "ingest (e_dec V) (blink_ingest_params p hash) w = (Inr (inflow, Some pr), w1)"
    and "bp_accountId p = own" "take 8 (bp_eventType p) = ''receive.''" "bp_paymentHash p = Some hash" "hash \<noteq> []"
    and "pr_source_type pr = SOURCE_LOAN" "find_row l_id (pr_source_id pr) (loans (w_db w)) = Some loan"
    and "l_user_id loan = pr_user_id pr" "l_status loan \<noteq> LoanStatus.PENDING_COLLATERAL"
    and "\<forall>d\<in>set (disbursements (w_db w)). dis_source_id d \<noteq> pr_source_id pr" "payouts_ok w"
    and "find_row acct_id (l_disbursement_account_id loan) (accounts (w_db w)) = Some account" "acct_provider_code account \<noteq> []"
    and "\<forall>a\<in>set (outflows (w_db w)). \<forall>j. next_id (w_db w) \<le> j \<longrightarrow> out_provider_reference a \<noteq> attempt_reference 1 j"
    and "e_initiate_transfer V = (\<lambda>_ _ _ _ _. Inr txn)" "\<And>j v. \<not> e_fault V (OutflowUpdateFault j) v"
  shows "\<exists>out w' ref. blink_process V own (Payload p) w = (Inr out, w') \<and> ho_outcome out = PROCESSED \<and>
    loans (w_db w') = loans (w_db w) \<and> bank_transfers w' = bank_transfers w @
      [TransferInitiated ref (d_col (e_dec V) 8 (dminus (e_dec V) (l_principal_ngn loan) (l_origination_fee_ngn loan)))
        (acct_provider_code account) (acct_account_unique account) (Inr txn)]"
proof -
  have w1: "same_funding w w1" using ingest_funding[of "e_dec V" "blink_ingest_params p hash" w] assms(1) by (simp add: wp_def)
  then have db: "loans (w_db w1) = loans (w_db w)" "accounts (w_db w1) = accounts (w_db w)"
    "disbursements (w_db w1) = disbursements (w_db w)" "outflows (w_db w1) = outflows (w_db w)"
    "next_id (w_db w) \<le> next_id (w_db w1)" "bank_transfers w1 = bank_transfers w" "payouts_ok w1"
    using payouts_same[OF assms(11)] by (simp_all add: same_funding_def same_payouts_def)
  obtain w' where "handleLoanCollateral V pr (in_matched_at inflow) w1 = (Inr (), w')" "loans (w_db w') = loans (w_db w)"
    "bank_transfers w' = bank_transfers w @ [TransferInitiated (attempt_reference 1 (next_id (w_db w1)))
      (d_col (e_dec V) 8 (dminus (e_dec V) (l_principal_ngn loan) (l_origination_fee_ngn loan)))
      (acct_provider_code account) (acct_account_unique account) (Inr txn)]"
    using handleLoanCollateral_pays[of pr w1 loan account V txn "in_matched_at inflow"] assms(7-10,12-16) by (auto simp: db)
  then show ?thesis
    using assms(2-6)
    by (auto simp: blink_process_def present_def blink_payment_def bind_def assms(1) return_def outcome_def)
qed

section \<open>Attempts in every reachable state\<close>

lemma handleLoanCollateral_keeps:
  assumes "payouts_ok w"
  shows "wp (handleLoanCollateral V pr t) (\<lambda>_. payouts_ok) (\<lambda>_. payouts_ok) w"
proof -
  have pay: "wp (bind (createForLoan D p) (\<lambda>d. dispatch V (dis_id d))) (\<lambda>_. payouts_ok) (\<lambda>_. payouts_ok) v" if "payouts_ok v" for D p v
    by (rule wp_seq[OF createForLoan_keeps[OF that]]) (auto intro: dispatch_keeps)
  have rest: "wp (bind (existsForLoan i) (\<lambda>already. if already then return () else bind (getLoan V u i) (\<lambda>view.
      bind (find_or_throw account_table (l_disbursement_account_id (lv_loan view))) (\<lambda>account.
      bind (createForLoan (e_dec V) (loan_payout (e_dec V) (lv_loan view) account)) (\<lambda>d. dispatch V (dis_id d))))))
      (\<lambda>_. payouts_ok) (\<lambda>_. payouts_ok) v" if v: "payouts_ok v" for i u v
    unfolding wp_bind[of "existsForLoan _"]
    by (auto simp: wp_def[of "existsForLoan _"] existsForLoan_run wp_return v wp_bind[of "find_or_throw _ _"] wp_find_or_throw
        intro!: wp_seq[OF getLoan_reads] pay split: option.split)
  show ?thesis
    unfolding handleLoanCollateral_def Let_def wp_bind[of now] wp_now
    by (rule wp_seq[OF activateLoan_same]) (auto intro: rest payouts_same[OF assms])
qed

lemma blink_webhook_keeps:
  assumes "payouts_ok w"
  shows "wp (blink_webhook V own d ok body) (\<lambda>_. payouts_ok) (\<lambda>_. payouts_ok) w"
proof -
  have paid: "wp (blink_payment V p h) (\<lambda>_. payouts_ok) (\<lambda>_. payouts_ok) v" if v: "payouts_ok v" for p h v
    unfolding blink_payment_def
  proof (rule wp_seq[OF ingest_funding], goal_cases)
    case (1 x u)
    then have "payouts_ok u" using payouts_same[OF v] by (simp add: same_funding_def)
    then show ?case
      by (auto simp: wp_return split: prod.split option.split intro!: wp_keeps_seq[OF handleLoanCollateral_keeps])
  next
    case (2 e u)
    then show ?case using payouts_same[OF v] by (simp add: same_funding_def)
  qed
  have "wp (blink_process V own body) (\<lambda>_. payouts_ok) (\<lambda>_. payouts_ok) v" if "payouts_ok v" for v
    using that paid by (auto simp: blink_process_def wp_return wp_throw split: parsed_body.split option.split)
  then show ?thesis unfolding blink_webhook_def by (rule logged_handler_keeps[OF assms])
qed

text \<open>The steps that may touch a disbursement or an attempt, one handler after the other, each under its own environment: a collateral
  delivery, a dispatch, a payout notice, a sweep, or an action of an operator. Everything else leaves both tables alone.\<close>

inductive payout_step :: "world \<Rightarrow> world \<Rightarrow> bool" where
  collateral: "payout_step w (final (blink_webhook V own d signature_ok body) w)"
| dispatched: "payout_step w (final (dispatch V i) w)"
| notified: "payout_step w (final (payout_webhook V d signature_ok p) w)"
| reconciled: "payout_step w (final (runReconcilerCycle V) w)"
| retried: "payout_step w (final (ops_retry V i u) w)"
| cancelled: "payout_step w (final (ops_cancel i r u) w)"
| recreated: "payout_step w (final (recreateForActiveLoan V i u) w)"
| abandoned: "payout_step w (final (abandonAttempt i r u) w)"
| elsewhere: "same_payouts w w' \<Longrightarrow> payout_step w w'"

inductive payout_run :: "world \<Rightarrow> world \<Rightarrow> bool" where
  payout_start: "payout_run w w"
| payout_next: "payout_run w w' \<Longrightarrow> payout_step w' w'' \<Longrightarrow> payout_run w w''"

lemma payout_step_keeps: "payout_step w w' \<Longrightarrow> payouts_ok w \<Longrightarrow> payouts_ok w'"
proof (induction rule: payout_step.induct)
  case (notified w V d signature_ok p)
  then show ?case
    using logged_handler_keeps[OF notified, of "if dl_json d = None then return (outcome MALFORMED ''Body is not valid JSON'' None)
        else payout_handle V p" V d signature_ok]
    by (auto simp: payout_webhook_def wp_return payout_handle_keeps simp flip: wp_final)
next
  case (reconciled w V)
  then show ?case using runReconcilerCycle_keeps[OF reconciled, of V]
    by (auto simp flip: wp_final elim: wp_mono)
qed (use payouts_same in \<open>auto simp: blink_webhook_keeps dispatch_keeps ops_retry_keeps ops_cancel_keeps recreate_keeps
       abandonAttempt_keeps simp flip: wp_final\<close>)

lemma payout_run_keeps: "payout_run w w' \<Longrightarrow> payouts_ok w \<Longrightarrow> payouts_ok w'"
  by (induction rule: payout_run.induct) (auto intro: payout_step_keeps)

text \<open>C15. In whatever order collateral deliveries, dispatches, payout notices, sweeps and operators' actions run, one after
  the other, at most one attempt of a disbursement has not failed: two are never in flight together, and none is started beside
  one that succeeded; a disbursement on hold has only failed attempts, and one with a confirmed attempt is successful.\<close>

theorem attempts_stay_exclusive:
  assumes "payout_run w w'" and "payouts_ok w"
  shows "(\<forall>a\<in>set (outflows (w_db w')). \<forall>b\<in>set (outflows (w_db w')).
      out_disbursement_id a = out_disbursement_id b \<and> out_status a \<noteq> OutflowStatus.FAILED \<and>
      out_status b \<noteq> OutflowStatus.FAILED \<longrightarrow> out_id a = out_id b) \<and>
    (\<forall>d\<in>set (disbursements (w_db w')). \<forall>a\<in>set (outflows (w_db w')). out_disbursement_id a = dis_id d \<longrightarrow>
      (dis_status d = DisbursementStatus.ON_HOLD \<longrightarrow> out_status a = OutflowStatus.FAILED) \<and>
      (out_status a = OutflowStatus.SUCCESSFUL \<longrightarrow> dis_status d = DisbursementStatus.SUCCESSFUL))"
proof -
  have ok: "attempts_ok (disbursements (w_db w')) (outflows (w_db w'))"
    using payout_run_keeps[OF assms] by (simp add: payouts_ok_def)
  show ?thesis
  proof (intro conjI ballI impI; (elim conjE)?)
    show "out_id a = out_id b" if "a \<in> set (outflows (w_db w'))" "b \<in> set (outflows (w_db w'))"
      "out_disbursement_id a = out_disbursement_id b" "out_status a \<noteq> OutflowStatus.FAILED"
      "out_status b \<noteq> OutflowStatus.FAILED" for a b
      using attempts_okD(1)[OF ok that(1) _ that(2)] that by (simp add: unfailed_def)
    show "out_status a = OutflowStatus.FAILED" if "d \<in> set (disbursements (w_db w'))" "a \<in> set (outflows (w_db w'))"
      "out_disbursement_id a = dis_id d" "dis_status d = DisbursementStatus.ON_HOLD" for d a
      using attempts_okD(2)[OF ok that(2) _ that(1,3)] that(4) by (auto simp: unfailed_def)
    show "dis_status d = DisbursementStatus.SUCCESSFUL" if "d \<in> set (disbursements (w_db w'))"
      "a \<in> set (outflows (w_db w'))" "out_disbursement_id a = dis_id d" "out_status a = OutflowStatus.SUCCESSFUL" for d a
      using attempts_okD(3)[OF ok that(2) _ that(1,3,4)] that(4) by (simp add: unfailed_def)
  qed
qed

section \<open>Concrete runs\<close>

definition cancelled_loan :: loan_row where
  "cancelled_loan = pending_loan\<lparr>l_status := LoanStatus.CANCELLED, l_disbursement_account_id := 2\<rparr>"

definition cancelled_world :: world where
  "cancelled_world = invoice_world\<lparr>w_db := (w_db invoice_world)\<lparr>loans := [cancelled_loan], accounts := [sample_account]\<rparr>\<rparr>"

definition sample_blink :: blink_payload where
  "sample_blink = \<lparr>bp_accountId = ''acct'', bp_eventType = ''receive.lightning'', bp_settlementAmount = 208334,
     bp_paymentHash = Some ''h'', bp_txHash = None\<rparr>"

lemma cancelled_world_facts:
  "loans (w_db cancelled_world) = [cancelled_loan]" "accounts (w_db cancelled_world) = [sample_account]"
  "disbursements (w_db cancelled_world) = []" "outflows (w_db cancelled_world) = []" "next_id (w_db cancelled_world) = 6"
  "payment_requests (w_db cancelled_world) = [sample_request]" "inflows (w_db cancelled_world) = []"
  "l_id cancelled_loan = 3" "l_user_id cancelled_loan = 7" "l_status cancelled_loan = LoanStatus.CANCELLED"
  "l_disbursement_account_id cancelled_loan = 2" "bank_transfers cancelled_world = []"
  "live cancelled_world k = None"
  by (simp_all add: cancelled_world_def invoice_world_def cancelled_loan_def pending_loan_def repaid_loan_def empty_world_def
      empty_db_def bank_transfers_def live_def)

lemma cancelled_world_ingest:
  "\<exists>inflow pr w1. ingest js_decimals (blink_ingest_params sample_blink ''h'') cancelled_world = (Inr (inflow, Some pr), w1) \<and>
     pr_source_type pr = SOURCE_LOAN \<and> pr_source_id pr = 3 \<and> pr_user_id pr = 7"
proof -
  have "wp (ingest js_decimals (blink_ingest_params sample_blink ''h'')) (\<lambda>(i, pr) _. \<exists>r. pr = Some r \<and> pr_source_type r = SOURCE_LOAN \<and>
      pr_source_id r = 3 \<and> pr_user_id r = 7) (\<lambda>_ _. False) cancelled_world"
    by (simp add: ingest_def createInflow_def findPendingByReceivingAddress_def matchInflow_def wp_simps table_ops
        cancelled_world_facts blink_ingest_params_def sample_blink_def new_inflow_def violated_def inflow_table_def
        payment_request_table_def sample_request_def new_payment_request_def)
  from wp_runD[OF this] show ?thesis by auto
qed

theorem cancelled_loan_is_paid_witness:
  "\<exists>out w'. blink_process toy_env ''acct'' (Payload sample_blink) cancelled_world = (Inr out, w') \<and>
     map l_status (loans (w_db w')) = [LoanStatus.CANCELLED] \<and> length (bank_transfers w') = 1"
proof -
  obtain inflow pr w1 where r: "ingest js_decimals (blink_ingest_params sample_blink ''h'') cancelled_world = (Inr (inflow, Some pr), w1)"
    "pr_source_type pr = SOURCE_LOAN" "pr_source_id pr = 3" "pr_user_id pr = 7" using cancelled_world_ingest by blast
  have "\<exists>out w' ref. blink_process toy_env ''acct'' (Payload sample_blink) cancelled_world = (Inr out, w') \<and>
    ho_outcome out = PROCESSED \<and> loans (w_db w') = loans (w_db cancelled_world) \<and> bank_transfers w' = bank_transfers cancelled_world @
      [TransferInitiated ref (d_col (e_dec toy_env) 8 (dminus (e_dec toy_env) (l_principal_ngn cancelled_loan)
        (l_origination_fee_ngn cancelled_loan))) (acct_provider_code sample_account) (acct_account_unique sample_account) (Inr ''tx'')]"
    by (rule cancelled_loan_is_paid[where hash = "''h''" and inflow = inflow and pr = pr and ?w1.0 = w1])
       (simp_all add: r cancelled_world_facts sample_blink_def sample_account_def payouts_ok_def ids_ok_def attempts_ok_def toy_env_def
         r(1)[unfolded sample_blink_def])
  then show ?thesis by (auto simp: cancelled_world_facts)
qed

theorem attempts_stay_exclusive_witness:
  "\<exists>w1 w2 a b. payout_step payout_world w1 \<and> payout_step w1 w2 \<and> outflows (w_db w2) = [a, b] \<and>
     out_status a = OutflowStatus.FAILED \<and> out_status b = OutflowStatus.PROCESSING"
proof -
  let ?V = "toy_env\<lparr>e_initiate_transfer := \<lambda>_ _ _ _ _. Inl ''down''\<rparr>"
  let ?w1 = "final (dispatch ?V 5) payout_world"
  let ?w2 = "final (ops_retry toy_env 5 9) ?w1"
  have "wp (dispatch ?V 5) (\<lambda>_ w1. wp (ops_retry toy_env 5 9) (\<lambda>_ w2. \<exists>a b. outflows (w_db w2) = [a, b] \<and>
      out_id a \<noteq> out_id b \<and> out_disbursement_id a = 5 \<and> out_disbursement_id b = 5 \<and> out_status b = OutflowStatus.PROCESSING)
      (\<lambda>_ _. False) w1) (\<lambda>_ _. False) payout_world"
    using payout_world_facts(4)
    by (simp add: dispatch_def disbursement_findById_def executeDispatch_def wp_simps table_rows table_puts markProcessing_def
        wp_set_disbursement payout_world_facts outflows_of_def forRoute_def payable_def DISBURSEMENT_ROUTES_def
        attempt_transfer_def wp_initiateTransfer present_def wp_set_outflow Let_def new_outflow_def violated_def outflow_table_def
        markOnHoldAndMaybeAlert_def markOnHold_def markOnHoldAlerted_def find_row_update_where find_row_update_row
        ops_retry_def ops_disbursement_def audit_write_def audit_table_def retryDispatch_def attempt_reference_def)
  then obtain a b where w: "outflows (w_db ?w2) = [a, b]" "out_id a \<noteq> out_id b" "out_disbursement_id a = 5"
    "out_disbursement_id b = 5" "out_status b = OutflowStatus.PROCESSING" by (auto simp: wp_def split: prod.splits sum.splits)
  have step: "payout_step payout_world ?w1" "payout_step ?w1 ?w2" by (rule dispatched, rule retried)
  then have "payout_run payout_world ?w2" by (blast intro: payout_start payout_next)
  from attempts_stay_exclusive[OF this payout_world_ok] have "out_status a = OutflowStatus.FAILED" by (auto simp: w)
  with w step show ?thesis by blast
qed


end
