(* ===== verification/PalmpayCollection.thy ===== *)
theory PalmpayCollection
  imports BlinkWebhook
begin

text \<open>
  \<open>modules/webhooks/palmpay-collection-va.webhook.controller.ts\<close>: a transfer into a customer's
  virtual account is confirmed with the provider and credited to a loan, or parked for the
  operators. The schema validation and the signature of the delivery are parameters; of the stored
  provider response the reason marker and the payer's names are kept.
\<close>

record collection_notification =
  cn_orderNo :: string
  cn_orderStatus :: int
  cn_orderAmount :: rat
  cn_payerAccountName :: string
  cn_payerBankName :: string
  cn_virtualAccountNo :: "string option"
  cn_sign :: "string option"

definition COLLECTION_STATUS_SUCCESS :: int where "COLLECTION_STATUS_SUCCESS = 1"
definition REQUERY_AMOUNT_TOLERANCE_KOBO :: rat where "REQUERY_AMOUNT_TOLERANCE_KOBO = 0"
definition CREDIT_FAILED_DETAIL :: string where "CREDIT_FAILED_DETAIL = ''creditInflow failed''"

definition refusal :: "collection_notification \<Rightarrow> string \<Rightarrow> string \<Rightarrow> handler_outcome" where
  "refusal p code detail = outcome code detail (Some (cn_orderNo p))"

section \<open>What the provider's answer allows\<close>

datatype verdict = Credit bool | Refuse UnmatchedReason string | Defer string

definition requery_verdict :: "collection_notification \<Rightarrow> string \<Rightarrow> collection_status \<Rightarrow> verdict" where
  "requery_verdict p va verified =
     (case cs_state verified of
        collection_not_found \<Rightarrow>
          if present (cn_sign p) = None then Refuse requery_unconfirmed ''requery_not_found_unsigned'' else Credit True
      | collection_failed \<Rightarrow>
          Refuse requery_mismatch (''requery returned failed: '' @ or_else (cs_failure_reason verified) ''unknown'')
      | collection_unknown \<Rightarrow> Defer ''requery_unknown''
      | collection_successful \<Rightarrow>
          if (case cs_amount_kobo verified of None \<Rightarrow> True
              | Some kobo \<Rightarrow> \<bar>kobo - cn_orderAmount p\<bar> > REQUERY_AMOUNT_TOLERANCE_KOBO)
          then Refuse requery_mismatch ''requery_amount_mismatch''
          else if present (cs_virtual_account_no verified) \<notin> {None, Some va}
          then Refuse requery_mismatch ''requery_va_mismatch''
          else Credit False)"

section \<open>The handler\<close>

definition collected_inflow ::
    "decimals \<Rightarrow> collection_notification \<Rightarrow> string \<Rightarrow> money \<Rightarrow> id \<Rightarrow> UnmatchedReason option \<Rightarrow> time \<Rightarrow> id \<Rightarrow> inflow_row" where
  "collected_inflow D p va amount_ngn user_id reason t i =
     \<lparr>in_id = i, in_user_id = Some user_id, in_amount = d_col D 8 amount_ngn, in_currency = CUR_NGN,
      in_network = PaymentNetwork.BANK_TRANSFER, in_receiving_address = va, in_provider_reference = cn_orderNo p,
      in_is_matched = False, in_matched_at = None, in_source_type = None, in_source_id = None,
      in_provider_response = Some \<lparr>resp_unmatched_reason = reason, resp_payer_name = Some (cn_payerAccountName p),
        resp_payer_bank_name = Some (cn_payerBankName p)\<rparr>, in_created_at = t\<rparr>"

definition storeUnmatchedInflow ::
    "env \<Rightarrow> collection_notification \<Rightarrow> string \<Rightarrow> money \<Rightarrow> id \<Rightarrow> UnmatchedReason \<Rightarrow> unit service" where
  "storeUnmatchedInflow V p va amount_ngn user_id reason =
     bind now (\<lambda>t.
     bind (attempt
            (bind (may_fail V (InflowWriteFault (cn_orderNo p))) (\<lambda>_.
             bind (create_row inflow_table (collected_inflow (e_dec V) p va amount_ngn user_id (Some reason) t)) (\<lambda>_.
             return True)))
            (\<lambda>e. return (\<not> is_unique_violation e))) (\<lambda>page.
     if page then page_ops (UnmatchedInflowAlert reason (cn_orderNo p)) else return ()))"

definition park ::
    "env \<Rightarrow> collection_notification \<Rightarrow> string \<Rightarrow> money \<Rightarrow> id \<Rightarrow> UnmatchedReason \<Rightarrow> string \<Rightarrow> handler_outcome service" where
  "park V p va amount_ngn user_id reason detail =
     bind (storeUnmatchedInflow V p va amount_ngn user_id reason) (\<lambda>_. return (refusal p IGNORED detail))"

definition upsert_inflow :: "env \<Rightarrow> collection_notification \<Rightarrow> string \<Rightarrow> money \<Rightarrow> id \<Rightarrow> inflow_row service" where
  "upsert_inflow V p va amount_ngn user_id =
     bind (may_fail V (InflowWriteFault (cn_orderNo p))) (\<lambda>_.
     bind (find_first inflow_table (\<lambda>i. in_provider_reference i = cn_orderNo p)) (\<lambda>found.
     case found of
       Some i \<Rightarrow> return i
     | None \<Rightarrow> bind now (\<lambda>t. create_row inflow_table (collected_inflow (e_dec V) p va amount_ngn user_id None t))))"

definition inflowIsMatched :: "env \<Rightarrow> id \<Rightarrow> bool service" where
  "inflowIsMatched V i =
     attempt
       (bind (may_fail V (ReadFault ''inflows'')) (\<lambda>_.
        bind (find_by_id inflow_table i) (\<lambda>row. return (case row of None \<Rightarrow> False | Some r \<Rightarrow> in_is_matched r))))
       (\<lambda>_. return False)"

definition creditFailedBefore :: "env \<Rightarrow> string \<Rightarrow> bool service" where
  "creditFailedBefore V order_no =
     attempt
       (bind (may_fail V (ReadFault ''webhook_logs'')) (\<lambda>_.
        bind (find_first webhook_log_table (\<lambda>r. wh_provider r = ''palmpay'' \<and> wh_external_reference r = Some order_no \<and>
                wh_outcome r = ERROR \<and> wh_outcome_detail r = Some CREDIT_FAILED_DETAIL)) (\<lambda>earlier.
        return (earlier \<noteq> None))))
       (\<lambda>_. return False)"

definition credit_failed_outcome :: "env \<Rightarrow> collection_notification \<Rightarrow> id \<Rightarrow> handler_outcome service" where
  "credit_failed_outcome V p inflow_id =
     bind (inflowIsMatched V inflow_id) (\<lambda>matched.
     if matched then return (refusal p IGNORED ''inflow already matched (duplicate webhook)'')
     else bind (creditFailedBefore V (cn_orderNo p)) (\<lambda>again.
          bind (if again then return () else page_ops (UnmatchedInflowAlert credit_failed (cn_orderNo p))) (\<lambda>_.
          return (refusal p ERROR CREDIT_FAILED_DETAIL))))"

definition collection_credit ::
    "env \<Rightarrow> collection_notification \<Rightarrow> string \<Rightarrow> money \<Rightarrow> id \<Rightarrow> id \<Rightarrow> bool \<Rightarrow> handler_outcome service" where
  "collection_credit V p va amount_ngn user_id loan_id signature_only =
     bind (attempt (bind (upsert_inflow V p va amount_ngn user_id) (\<lambda>i. return (Some i))) (\<lambda>_. return None)) (\<lambda>stored.
     case stored of
       None \<Rightarrow> return (refusal p ERROR ''inflow upsert failed'')
     | Some inflow \<Rightarrow>
         if in_is_matched inflow then return (refusal p IGNORED ''inflow already matched (duplicate webhook)'')
         else attempt
           (bind (creditInflow (e_dec V) \<lparr>cp_inflow_id = in_id inflow, cp_loan_id = loan_id, cp_amount_ngn = amount_ngn,
                    cp_match_method = AUTO_AMOUNT, cp_skip_floor = False\<rparr>) (\<lambda>credit.
            bind (if signature_only then page_ops (SignatureOnlyCreditAlert (cn_orderNo p) loan_id) else return ()) (\<lambda>_.
            return (refusal p PROCESSED (''loan '' @ show_nat loan_id @ '' -> '' @ LoanStatus_name (crr_new_status credit) @
              (if signature_only then '' (signature only - PalmPay lookup: not found)'' else []))))))
           (\<lambda>_. credit_failed_outcome V p (in_id inflow)))"

definition collection_verify ::
    "env \<Rightarrow> collection_notification \<Rightarrow> string \<Rightarrow> money \<Rightarrow> id \<Rightarrow> id \<Rightarrow> handler_outcome service" where
  "collection_verify V p va amount_ngn user_id loan_id =
     bind (attempt (bind (call (\<lambda>w. e_collection_status V w (cn_orderNo p))) (\<lambda>s. return (Some s))) (\<lambda>_. return None)) (\<lambda>answer.
     case answer of
       None \<Rightarrow> return (refusal p DEFERRED ''requery threw'')
     | Some verified \<Rightarrow>
         (case requery_verdict p va verified of
            Refuse reason detail \<Rightarrow> park V p va amount_ngn user_id reason detail
          | Defer detail \<Rightarrow> return (refusal p DEFERRED detail)
          | Credit signature_only \<Rightarrow> collection_credit V p va amount_ngn user_id loan_id signature_only))"

definition collection_for_user :: "env \<Rightarrow> collection_notification \<Rightarrow> string \<Rightarrow> money \<Rightarrow> id \<Rightarrow> handler_outcome service" where
  "collection_for_user V p va amount_ngn user_id =
     bind (if amount_ngn < MIN_PARTIAL_REPAYMENT_NGN then amountClosesAnyActiveLoan (e_dec V) user_id amount_ngn
           else return True) (\<lambda>admitted.
     if \<not> admitted then park V p va amount_ngn user_id below_floor ''below_floor''
     else bind (find_many loan_table (\<lambda>l. l_user_id l = user_id \<and> l_status l = LoanStatus.ACTIVE)) (\<lambda>active_loans.
       case active_loans of
         [] \<Rightarrow> park V p va amount_ngn user_id no_active_loans ''no_active_loans''
       | [loan] \<Rightarrow> collection_verify V p va amount_ngn user_id (l_id loan)
       | _ \<Rightarrow>
           bind (findActiveLoanMatchingOutstanding (e_dec V) user_id amount_ngn) (\<lambda>smart_match.
           case smart_match of
             None \<Rightarrow> park V p va amount_ngn user_id multiple_active_loans ''multiple_active_loans''
           | Some (loan_id, _) \<Rightarrow> collection_verify V p va amount_ngn user_id loan_id)))"

definition collection_handle :: "env \<Rightarrow> collection_notification option \<Rightarrow> handler_outcome service" where
  "collection_handle V parsed =
     (case parsed of
        None \<Rightarrow> return (outcome MALFORMED ''collection schema validation failed'' None)
      | Some p \<Rightarrow>
          if cn_orderStatus p \<noteq> COLLECTION_STATUS_SUCCESS
          then return (refusal p IGNORED (''collection orderStatus='' @ show_int (cn_orderStatus p)))
          else case present (cn_virtualAccountNo p) of
            None \<Rightarrow> return (refusal p MALFORMED ''missing virtualAccountNo'')
          | Some va \<Rightarrow>
              bind (find_first repayment_account_table (\<lambda>a. va_virtual_account_no a = va)) (\<lambda>found.
              case found of
                None \<Rightarrow> return (refusal p IGNORED ''no_user_for_va'')
              | Some a \<Rightarrow> collection_for_user V p va (ddiv (e_dec V) (cn_orderAmount p) 100) (va_user_id a)))"

definition collection_webhook :: "env \<Rightarrow> delivery \<Rightarrow> bool \<Rightarrow> collection_notification option \<Rightarrow> unit service" where
  "collection_webhook V d signature_ok parsed =
     logged_handler V d signature_ok
       (if dl_json d = None then return (outcome MALFORMED ''Body is not valid JSON'' None)
        else collection_handle V parsed)"

section \<open>What reaches the ledger\<close>

definition same_books :: "world \<Rightarrow> world \<Rightarrow> bool" where
  "same_books w w' \<longleftrightarrow> loans (w_db w') = loans (w_db w) \<and> repayments (w_db w') = repayments (w_db w)"

definition booked :: "decimals \<Rightarrow> money \<Rightarrow> id \<Rightarrow> world \<Rightarrow> world \<Rightarrow> bool" where
  "booked D amount_ngn loan_id w w' \<longleftrightarrow> (\<exists>loan r. find_row l_id loan_id (loans (w_db w)) = Some loan \<and> l_status loan = LoanStatus.ACTIVE \<and>
     repayments (w_db w') = repayments (w_db w) @ [r] \<and> rep_loan_id r = loan_id \<and> rep_amount_ngn r = d_col D 2 amount_ngn)"

lemma same_books_refl [simp]: "same_books w w"
  by (simp add: same_books_def)

lemma same_books_trans: "same_books u v \<Longrightarrow> same_books v w \<Longrightarrow> same_books u w"
  by (simp add: same_books_def)

lemma booked_later: "same_books w v \<Longrightarrow> booked D n i v w' \<Longrightarrow> booked D n i w w'"
  by (simp add: booked_def same_books_def)

lemma park_books: "wp (park V p va n u r d) (\<lambda>_. same_books w) (\<lambda>_ _. False) w"
  by (simp add: park_def storeUnmatchedInflow_def wp_simps table_ops same_books_def split: option.split)

lemma upsert_books: "wp (upsert_inflow V p va n u) (\<lambda>_. same_books w) (\<lambda>_. same_books w) w"
  by (simp add: upsert_inflow_def wp_simps table_ops same_books_def split: option.split)

lemma credit_failed_books:
  "same_books w v \<Longrightarrow> wp (credit_failed_outcome V p i) (\<lambda>_. same_books w) (\<lambda>_ _. False) v"
  by (simp add: credit_failed_outcome_def inflowIsMatched_def creditFailedBefore_def wp_simps wp_return_fun wp_page_ops
      table_ops same_books_def split: option.split)

lemma creditInflow_books:
  "wp (creditInflow D p) (\<lambda>_ w'. same_books w w' \<or> (MIN_PARTIAL_REPAYMENT_NGN \<le> cp_amount_ngn p \<or> cp_skip_floor p) \<and> booked D (cp_amount_ngn p) (cp_loan_id p) w w')
     (\<lambda>_ w'. w' = w) w"
proof (cases "creditInflow D p w")
  case (Pair x w')
  show ?thesis
  proof (cases x)
    case (Inl e)
    then show ?thesis using Pair refused_credit[of D p w] by (simp add: wp_def)
  next
    case (Inr res)
    have run: "creditInflow D p w = (Inr res, w')" using Pair Inr by simp
    show ?thesis
    proof (cases "find_row l_id (cp_loan_id p) (loans (w_db w))")
      case None
      then show ?thesis using run by (auto simp: wp_def creditInflow_def credit_tx_def run_defs store_defs table_ops split: if_splits)
    next
      case (Some loan)
      show ?thesis
      proof (cases "l_status loan = LoanStatus.ACTIVE")
        case True
        have "cp_skip_floor p \<or> MIN_PARTIAL_REPAYMENT_NGN \<le> cp_amount_ngn p"
          using run by (auto simp: creditInflow_def run_defs split: if_splits)
        moreover have "booked D (cp_amount_ngn p) (cp_loan_id p) w w'"
          using credit_effect(1)[OF Some True run] Some True by (simp add: booked_def new_repayment_def)
        ultimately show ?thesis using run by (auto simp: wp_def)
      next
        case False
        then have "wp (creditInflow D p) (\<lambda>_ w'. w' = w) (\<lambda>_ w'. w' = w) w"
          using Some refused_credit[of D p w]
          by (simp add: creditInflow_def credit_tx_def send_receipt_def wp_simps table_ops)
        then show ?thesis using run by (simp add: wp_def)
      qed
    qed
  qed
qed

lemma collection_credit_books:
  "wp (collection_credit V p va n u i so) (\<lambda>_ w'. same_books w w' \<or> MIN_PARTIAL_REPAYMENT_NGN \<le> n \<and> booked (e_dec V) n i w w') (\<lambda>_ _. False) w"
proof -
  let ?Q = "\<lambda>_ w'. same_books w w' \<or> MIN_PARTIAL_REPAYMENT_NGN \<le> n \<and> booked (e_dec V) n i w w'"
  have page: "wp (bind (if so then page_ops a else return ()) (\<lambda>_. return x)) ?Q E v'" if "?Q x v'" for a x v' E
    using that by (cases so) (simp_all add: wp_simps same_books_def booked_def)
  have credit: "wp (attempt (bind (creditInflow (e_dec V) \<lparr>cp_inflow_id = j, cp_loan_id = i, cp_amount_ngn = n, cp_match_method = m,
        cp_skip_floor = False\<rparr>) (\<lambda>credit. bind (if so then page_ops a else return ()) (\<lambda>_. return (f credit))))
      (\<lambda>_. credit_failed_outcome V p j)) ?Q (\<lambda>_ _. False) v" if v: "same_books w v" for j m a f v
    unfolding wp_attempt
  proof (rule wp_seq[OF creditInflow_books], goal_cases)
    case (1 c t)
    then have "?Q c t" using v same_books_trans booked_later by auto
    then show ?case by (intro page) simp
  next
    case (2 e t)
    then have "wp (credit_failed_outcome V p j) (\<lambda>_. same_books w) (\<lambda>_ _. False) t" using credit_failed_books[OF v] by simp
    then show ?case by (rule wp_mono) auto
  qed
  show ?thesis
    unfolding collection_credit_def
  proof (rule wp_seq[where P = "\<lambda>_. same_books w" and F = "\<lambda>_ _. False"], goal_cases)
    case 1
    show ?case unfolding wp_attempt
      by (rule wp_seq[OF upsert_books]) (auto simp: wp_return)
  next
    case (2 stored t)
    then show ?case by (cases stored) (auto simp: wp_return credit)
  qed simp
qed

lemma verdict_credits:
  "requery_verdict p va st = Credit so \<Longrightarrow>
     cs_state st = collection_successful \<and> cs_amount_kobo st = Some (cn_orderAmount p) \<or>
     cs_state st = collection_not_found \<and> present (cn_sign p) \<noteq> None"
  by (auto simp: requery_verdict_def REQUERY_AMOUNT_TOLERANCE_KOBO_def split: collection_state.splits if_splits option.splits)

text \<open>What the handler asks of the lookup; that the signature of the notice verified is the business of the controller
  around it, and part of the statement about the delivery below.\<close>

definition lookup_allows :: "env \<Rightarrow> collection_notification \<Rightarrow> world \<Rightarrow> bool" where
  "lookup_allows V p w \<longleftrightarrow> (\<exists>st. e_collection_status V w (cn_orderNo p) = Inr st \<and>
     (cs_state st = collection_successful \<and> cs_amount_kobo st = Some (cn_orderAmount p) \<or>
      cs_state st = collection_not_found \<and> present (cn_sign p) \<noteq> None))"

lemma collection_verify_books:
  "wp (collection_verify V p va n u i) (\<lambda>_ w'. same_books w w' \<or> lookup_allows V p w \<and> MIN_PARTIAL_REPAYMENT_NGN \<le> n \<and> booked (e_dec V) n i w w')
     (\<lambda>_ _. False) w"
proof (cases "e_collection_status V w (cn_orderNo p)")
  case (Inl m)
  then show ?thesis by (simp add: collection_verify_def wp_simps)
next
  case (Inr st)
  have run: "attempt (bind (call (\<lambda>w. e_collection_status V w (cn_orderNo p))) (\<lambda>s. return (Some s))) (\<lambda>_. return None) w =
      (Inr (Some st), w)"
    by (simp add: run_defs call_def Inr)
  show ?thesis
  proof (cases "requery_verdict p va st")
    case (Credit so)
    have "lookup_allows V p w" using Inr verdict_credits[OF Credit] by (simp add: lookup_allows_def)
    then show ?thesis
      unfolding collection_verify_def wp_bind[of "attempt _ _"]
      by (simp add: wp_def[of "attempt _ _"] run Credit collection_credit_books)
  next
    case (Refuse r d)
    have "wp (park V p va n u r d) (\<lambda>_ w'. same_books w w' \<or> lookup_allows V p w \<and> MIN_PARTIAL_REPAYMENT_NGN \<le> n \<and> booked (e_dec V) n i w w')
        (\<lambda>_ _. False) w" by (rule wp_mono[OF park_books]) auto
    then show ?thesis
      unfolding collection_verify_def wp_bind[of "attempt _ _"] by (simp add: wp_def[of "attempt _ _"] run Refuse)
  next
    case (Defer d)
    then show ?thesis
      unfolding collection_verify_def wp_bind[of "attempt _ _"] by (simp add: wp_def[of "attempt _ _"] run wp_return)
  qed
qed

definition own_active :: "id \<Rightarrow> id \<Rightarrow> world \<Rightarrow> bool" where
  "own_active u i w \<longleftrightarrow> (\<exists>l\<in>set (loans (w_db w)). l_id l = i \<and> l_user_id l = u \<and> l_status l = LoanStatus.ACTIVE)"

lemma smart_match_own:
  "findActiveLoanMatchingOutstanding D u n w = (Inr (Some (i, t)), w') \<Longrightarrow> own_active u i w \<and> w' = w"
  by (auto simp: findActiveLoanMatchingOutstanding_def gets_def own_active_def active_loans_of_def
      dest!: arg_cong[of _ _ set] split: list.splits) blast+

lemma collection_for_user_books:
  "wp (collection_for_user V p va n u) (\<lambda>_ w'. same_books w w' \<or> lookup_allows V p w \<and> MIN_PARTIAL_REPAYMENT_NGN \<le> n \<and>
     (\<exists>i. own_active u i w \<and> booked (e_dec V) n i w w')) (\<lambda>_ _. False) w"
proof -
  let ?Q = "\<lambda>_ w'. same_books w w' \<or> lookup_allows V p w \<and> MIN_PARTIAL_REPAYMENT_NGN \<le> n \<and> (\<exists>i. own_active u i w \<and> booked (e_dec V) n i w w')"
  have park: "wp (park V p va n u r d) ?Q (\<lambda>_ _. False) w" for r d by (rule wp_mono[OF park_books]) auto
  have verify: "wp (collection_verify V p va n u i) ?Q (\<lambda>_ _. False) w" if "own_active u i w" for i
    by (rule wp_mono[OF collection_verify_books]) (use that in auto)
  have smart: "wp (bind (findActiveLoanMatchingOutstanding (e_dec V) u n) (\<lambda>smart_match. case smart_match of
      None \<Rightarrow> park V p va n u multiple_active_loans ''multiple_active_loans'' | Some (loan_id, _) \<Rightarrow>
      collection_verify V p va n u loan_id)) ?Q (\<lambda>_ _. False) w"
  proof -
    obtain m where m: "findActiveLoanMatchingOutstanding (e_dec V) u n w = (Inr m, w)"
      by (simp add: findActiveLoanMatchingOutstanding_def gets_def)
    show ?thesis
    proof (cases m)
      case None
      then show ?thesis using m park by (simp add: wp_bind wp_def[of "findActiveLoanMatchingOutstanding _ _ _"])
    next
      case (Some x)
      then have "own_active u (fst x) w" using m smart_match_own by (cases x) auto
      then show ?thesis using m Some verify
        by (cases x) (simp add: wp_bind wp_def[of "findActiveLoanMatchingOutstanding _ _ _"])
    qed
  qed
  have rest: "wp (bind (find_many loan_table (\<lambda>l. l_user_id l = u \<and> l_status l = LoanStatus.ACTIVE)) (\<lambda>active_loans.
      case active_loans of [] \<Rightarrow> park V p va n u no_active_loans ''no_active_loans''
      | [loan] \<Rightarrow> collection_verify V p va n u (l_id loan)
      | _ \<Rightarrow> bind (findActiveLoanMatchingOutstanding (e_dec V) u n) (\<lambda>smart_match. case smart_match of
      None \<Rightarrow> park V p va n u multiple_active_loans ''multiple_active_loans'' | Some (loan_id, _) \<Rightarrow>
      collection_verify V p va n u loan_id))) ?Q (\<lambda>_ _. False) w"
    unfolding wp_bind[of "find_many _ _"] wp_find_many table_rows
  proof (cases "filter (\<lambda>l. l_user_id l = u \<and> l_status l = LoanStatus.ACTIVE) (loans (w_db w))" rule: remdups_adj.cases)
    case (2 l)
    then have "l \<in> set (filter (\<lambda>l. l_user_id l = u \<and> l_status l = LoanStatus.ACTIVE) (loans (w_db w)))" by simp
    then have "own_active u (l_id l) w" by (auto simp: own_active_def)
    then show "wp (case filter (\<lambda>l. l_user_id l = u \<and> l_status l = LoanStatus.ACTIVE) (loans (w_db w)) of
        [] \<Rightarrow> park V p va n u no_active_loans ''no_active_loans'' | [loan] \<Rightarrow> collection_verify V p va n u (l_id loan)
      | _ \<Rightarrow> bind (findActiveLoanMatchingOutstanding (e_dec V) u n) (\<lambda>smart_match. case smart_match of
      None \<Rightarrow> park V p va n u multiple_active_loans ''multiple_active_loans'' | Some (loan_id, _) \<Rightarrow>
      collection_verify V p va n u loan_id)) ?Q (\<lambda>_ _. False) w" using 2 verify by simp
  qed (simp_all only: list.case park smart)
  show ?thesis
    unfolding collection_for_user_def
  proof (rule wp_seq[where P = "\<lambda>_ v. v = w" and F = "\<lambda>_ _. False"], goal_cases)
    case 1
    show ?case by (simp add: amountClosesAnyActiveLoan_def wp_gets wp_return)
  next
    case (2 admitted v)
    then show ?case using rest park by (cases admitted) simp_all
  qed simp
qed

lemma collection_moves_books:
  assumes "collection_handle V (Some p) w = (out, w')" and "repayments (w_db w') \<noteq> repayments (w_db w)"
  shows "cn_orderStatus p = COLLECTION_STATUS_SUCCESS \<and> lookup_allows V p w \<and>
    MIN_PARTIAL_REPAYMENT_NGN \<le> ddiv (e_dec V) (cn_orderAmount p) 100 \<and>
    (\<exists>a i r. a \<in> set (repayment_accounts (w_db w)) \<and> cn_virtualAccountNo p = Some (va_virtual_account_no a) \<and>
       own_active (va_user_id a) i w \<and> rep_loan_id r = i \<and> rep_amount_ngn r = d_col (e_dec V) 2 (ddiv (e_dec V) (cn_orderAmount p) 100) \<and>
       repayments (w_db w') = repayments (w_db w) @ [r])"
proof -
  let ?R = "cn_orderStatus p = COLLECTION_STATUS_SUCCESS \<and> lookup_allows V p w \<and>
    MIN_PARTIAL_REPAYMENT_NGN \<le> ddiv (e_dec V) (cn_orderAmount p) 100 \<and>
    (\<exists>a i r. a \<in> set (repayment_accounts (w_db w)) \<and> cn_virtualAccountNo p = Some (va_virtual_account_no a) \<and>
       own_active (va_user_id a) i w \<and> rep_loan_id r = i \<and> rep_amount_ngn r = d_col (e_dec V) 2 (ddiv (e_dec V) (cn_orderAmount p) 100) \<and>
       repayments (w_db w') = repayments (w_db w) @ [r])"
  have "wp (collection_handle V (Some p)) (\<lambda>_ v. v = w' \<longrightarrow> repayments (w_db v) = repayments (w_db w) \<or> ?R)
      (\<lambda>_ v. False) w"
  proof (cases "cn_orderStatus p = COLLECTION_STATUS_SUCCESS")
    case status: True
    show ?thesis
    proof (cases "present (cn_virtualAccountNo p)")
      case (Some va)
      then have va: "cn_virtualAccountNo p = Some va" by (auto simp: present_def split: option.splits if_splits)
      show ?thesis
      proof (cases "List.find (\<lambda>a. va_virtual_account_no a = va) (repayment_accounts (w_db w))")
        case None
        then show ?thesis using status Some by (simp add: collection_handle_def wp_simps table_rows)
      next
        case acct: (Some a)
        have "a \<in> set (repayment_accounts (w_db w))" "va_virtual_account_no a = va" using find_SomeD[OF acct] by auto
        then have "wp (collection_for_user V p va (ddiv (e_dec V) (cn_orderAmount p) 100) (va_user_id a))
            (\<lambda>_ v. v = w' \<longrightarrow> repayments (w_db v) = repayments (w_db w) \<or> ?R) (\<lambda>_ v. False) w"
          using status va
          by (intro wp_mono[OF collection_for_user_books]) (auto simp: same_books_def booked_def)
        then show ?thesis using status Some acct by (simp add: collection_handle_def wp_simps table_rows)
      qed
    qed (use status in \<open>simp add: collection_handle_def wp_simps\<close>)
  qed (simp add: collection_handle_def wp_simps)
  then show ?thesis using assms by (auto simp: wp_def split: sum.splits)
qed

text \<open>C35. A payment below the floor is let through when it closes an active loan, and then fails all the
  same, because the credit applies the floor again: with the provider's confirmation in hand the
  loan stays open, the inflow stays unmatched, and the operators are paged.\<close>

theorem closing_payment_below_floor_fails:
  assumes "ddiv (e_dec V) (cn_orderAmount p) 100 < MIN_PARTIAL_REPAYMENT_NGN" "cn_orderStatus p = COLLECTION_STATUS_SUCCESS"
    and "cn_virtualAccountNo p = Some va" "va \<noteq> []"
    and "List.find (\<lambda>a. va_virtual_account_no a = va) (repayment_accounts (w_db w)) = Some a"
    and "active_loans_of (va_user_id a) w = [loan]"
    and "dminus (e_dec V) (o_total_outstanding_ngn (outstanding_at (e_dec V) loan w)) INFLOW_OUTSTANDING_MATCH_TOLERANCE_NGN
      \<le> ddiv (e_dec V) (cn_orderAmount p) 100"
    and "e_collection_status V w (cn_orderNo p) = Inr st" "requery_verdict p va st = Credit so"
    and "\<forall>i\<in>set (inflows (w_db w)). in_provider_reference i \<noteq> cn_orderNo p \<and> in_id i < next_id (w_db w)"
    and "\<forall>r\<in>set (webhook_logs (w_db w)). wh_external_reference r \<noteq> Some (cn_orderNo p)"
    and "\<And>f v. \<not> e_fault V f v"
  shows "\<exists>w' i. collection_handle V (Some p) w = (Inr (refusal p ERROR CREDIT_FAILED_DETAIL), w') \<and> same_books w w' \<and>
    inflows (w_db w') = inflows (w_db w) @ [i] \<and> \<not> in_is_matched i \<and>
    w_outbox w' = w_outbox w @ [OpsAlerted (UnmatchedInflowAlert credit_failed (cn_orderNo p))]"
proof -
  let ?n = "ddiv (e_dec V) (cn_orderAmount p) 100" and ?u = "va_user_id a"
  define i where "i = collected_inflow (e_dec V) p va ?n ?u None (w_clock w) (next_id (w_db w))"
  have i: "in_id i = next_id (w_db w)" "\<not> in_is_matched i" by (simp_all add: i_def collected_inflow_def)
  have "List.find (\<lambda>i. in_provider_reference i = cn_orderNo p) (inflows (w_db w)) = None"
    "violated inflow_table i (inflows (w_db w)) = None" "find_row in_id (next_id (w_db w)) (inflows (w_db w)) = None"
    using assms(10) by (auto simp: find_None_iff violated_def inflow_table_def i_def collected_inflow_def find_row_None_iff)
  moreover have "List.find (\<lambda>r. wh_provider r = ''palmpay'' \<and> wh_external_reference r = Some (cn_orderNo p) \<and>
      wh_outcome r = ERROR \<and> wh_outcome_detail r = Some CREDIT_FAILED_DETAIL) (webhook_logs (w_db w)) = None"
    using assms(11) by (auto simp: find_None_iff)
  moreover have "filter (\<lambda>l. l_user_id l = ?u \<and> l_status l = LoanStatus.ACTIVE) (loans (w_db w)) = [loan]"
    using assms(6) by (simp add: active_loans_of_def)
  ultimately have "wp (collection_handle V (Some p)) (\<lambda>out w'. out = refusal p ERROR CREDIT_FAILED_DETAIL \<and> same_books w w' \<and>
    inflows (w_db w') = inflows (w_db w) @ [i] \<and>
    w_outbox w' = w_outbox w @ [OpsAlerted (UnmatchedInflowAlert credit_failed (cn_orderNo p))]) (\<lambda>_ _. False) w"
    using assms(1-9,12) i
    by (simp add: collection_handle_def collection_for_user_def collection_verify_def collection_credit_def upsert_inflow_def
        credit_failed_outcome_def inflowIsMatched_def creditFailedBefore_def creditInflow_def amountClosesAnyActiveLoan_def
        present_def wp_simps table_ops find_row_append same_books_def flip: i_def)
  from wp_runD[OF this] show ?thesis using i(2) by blast
qed

section \<open>Deliveries without a signature\<close>

definition only_logged :: "world \<Rightarrow> world \<Rightarrow> bool" where
  "only_logged w w' \<longleftrightarrow> (\<exists>logs n. w' = w\<lparr>w_db := (w_db w)\<lparr>next_id := n, webhook_logs := logs\<rparr>\<rparr>)"

lemma only_logged_refl: "only_logged w w"
proof -
  have "w = w\<lparr>w_db := (w_db w)\<lparr>next_id := next_id (w_db w), webhook_logs := webhook_logs (w_db w)\<rparr>\<rparr>" by simp
  then show ?thesis unfolding only_logged_def by blast
qed

lemma only_logged_step:
  assumes "only_logged w v"
  shows "only_logged w (v\<lparr>w_db := (w_db v)\<lparr>webhook_logs := logs\<rparr>\<rparr>)"
proof -
  obtain old n where "v = w\<lparr>w_db := (w_db w)\<lparr>next_id := n, webhook_logs := old\<rparr>\<rparr>"
    using assms by (auto simp: only_logged_def)
  then have "v\<lparr>w_db := (w_db v)\<lparr>webhook_logs := logs\<rparr>\<rparr> = w\<lparr>w_db := (w_db w)\<lparr>next_id := n, webhook_logs := logs\<rparr>\<rparr>" by simp
  then show ?thesis unfolding only_logged_def by blast
qed

lemma log_record_only: "wp (log_record V d) (\<lambda>_. only_logged w) (\<lambda>_ _. False) w"
proof -
  have "only_logged w (w\<lparr>w_db := (w_db w)\<lparr>next_id := n, webhook_logs := logs\<rparr>\<rparr>)" for n logs
    unfolding only_logged_def by blast
  then show ?thesis
    by (simp add: log_record_def wp_simps table_ops violated_def webhook_log_table_def only_logged_refl)
qed

lemma updateOutcome_only: "only_logged w v \<Longrightarrow> wp (updateOutcome V i x b) (\<lambda>_. only_logged w) (\<lambda>_ _. False) v"
  by (cases i) (simp_all add: updateOutcome_def wp_simps table_ops only_logged_step split: option.split)

lemma unsigned_only_logged:
  "wp (logged_handler V d False h) (\<lambda>_ _. False) (\<lambda>e w'. e = UnauthorizedException ''Invalid webhook signature'' \<and> only_logged w w') w"
  unfolding logged_handler_def
  by (rule wp_seq[OF log_record_only]) (auto simp: wp_throw intro!: wp_seq[OF updateOutcome_only])

text \<open>A delivery whose signature does not verify is refused by all three webhooks, and nothing but the
  log of deliveries has changed: no row of another table, no key, no message, no task.\<close>

theorem unsigned_deliveries_are_refused:
  "\<exists>w1 w2 w3. blink_webhook V own d False body w = (Inl (UnauthorizedException ''Invalid webhook signature''), w1) \<and> only_logged w w1 \<and>
    payout_webhook V d False note w = (Inl (UnauthorizedException ''Invalid webhook signature''), w2) \<and> only_logged w w2 \<and>
    collection_webhook V d False notice w = (Inl (UnauthorizedException ''Invalid webhook signature''), w3) \<and> only_logged w w3"
proof -
  have "\<exists>w'. logged_handler V d False h w = (Inl (UnauthorizedException ''Invalid webhook signature''), w') \<and> only_logged w w'" for h
    using unsigned_only_logged[of V d h w] by (auto simp: wp_def split: prod.splits sum.splits)
  then show ?thesis unfolding blink_webhook_def payout_webhook_def collection_webhook_def by blast
qed

section \<open>What a delivery books\<close>

lemma logged_run_books:
  assumes "logged_handler V d signature_ok h w = (out, w')" and "repayments (w_db w') \<noteq> repayments (w_db w)"
  obtains log_id v x v' where "signature_ok" "log_record V d w = (Inr log_id, v)" "only_logged w v" "h v = (x, v')"
    "repayments (w_db v') = repayments (w_db w')"
proof -
  obtain y v where l: "log_record V d w = (y, v)" by fastforce
  then obtain log_id where y: "y = Inr log_id" and o: "only_logged w v"
    using log_record_only[of V d w] by (cases y) (auto simp: wp_def)
  obtain x v' where h: "h v = (x, v')" by fastforce
  have upd: "repayments (w_db (snd (updateOutcome V i z b u))) = repayments (w_db u)" for i z b u
    using updateOutcome_only[OF only_logged_refl[of u], of V i z b] by (auto simp: wp_def only_logged_def split: prod.splits sum.splits)
  have start: "repayments (w_db v) = repayments (w_db w)" using o by (auto simp: only_logged_def)
  have same: "signature_ok \<and> repayments (w_db v') = repayments (w_db w')"
    using assms start upd[of log_id "\<lparr>ho_outcome = SIGNATURE_INVALID, ho_detail = None, ho_reference = None\<rparr>" False v]
      upd[of log_id _ True v'] h
    by (cases x) (auto simp: logged_handler_def run_defs l y split: prod.splits sum.splits if_splits, (metis snd_conv)+)
  show ?thesis using that[of log_id v x v'] same l y o h by simp
qed

text \<open>C7. The ledger moves on a delivered collection notice only for money that the provider vouches for: the
  signature of the delivery verifies, the notice reports success, its account belongs to a customer, and the lookup
  of the order, asked right after the delivery was logged, confirms the exact amount, or cannot find the order and
  the notice carries the signature that verified. The payment is then not below the floor, and the delivery books
  exactly one repayment, of the amount of the notice in naira, on an active loan of that customer.\<close>

theorem repayment_is_confirmed:
  assumes "collection_webhook V d signature_ok parsed w = (out, w')" and "repayments (w_db w') \<noteq> repayments (w_db w)"
  shows "signature_ok \<and> dl_json d \<noteq> None \<and>
    (\<exists>p log_id v st a i r. parsed = Some p \<and> cn_orderStatus p = COLLECTION_STATUS_SUCCESS \<and>
       log_record V d w = (Inr log_id, v) \<and> only_logged w v \<and> e_collection_status V v (cn_orderNo p) = Inr st \<and>
       (cs_state st = collection_successful \<and> cs_amount_kobo st = Some (cn_orderAmount p) \<or>
        cs_state st = collection_not_found \<and> present (cn_sign p) \<noteq> None) \<and>
       MIN_PARTIAL_REPAYMENT_NGN \<le> ddiv (e_dec V) (cn_orderAmount p) 100 \<and>
       a \<in> set (repayment_accounts (w_db w)) \<and> cn_virtualAccountNo p = Some (va_virtual_account_no a) \<and>
       own_active (va_user_id a) i w \<and> repayments (w_db w') = repayments (w_db w) @ [r] \<and>
       rep_loan_id r = i \<and> rep_amount_ngn r = d_col (e_dec V) 2 (ddiv (e_dec V) (cn_orderAmount p) 100))"
proof -
  obtain log_id v x v' where l: "signature_ok" "log_record V d w = (Inr log_id, v)" "only_logged w v"
    and h: "(if dl_json d = None then return (outcome MALFORMED ''Body is not valid JSON'' None) else collection_handle V parsed) v = (x, v')"
    and r': "repayments (w_db v') = repayments (w_db w')"
    using logged_run_books[OF assms(1)[unfolded collection_webhook_def] assms(2)] by metis
  have same: "repayments (w_db v) = repayments (w_db w)" "repayment_accounts (w_db v) = repayment_accounts (w_db w)"
    "own_active u i v = own_active u i w" for u i
    using l(3) by (auto simp: only_logged_def own_active_def)
  then have moved: "repayments (w_db v') \<noteq> repayments (w_db v)" using r' assms(2) by simp
  then have j: "dl_json d \<noteq> None" and run: "collection_handle V parsed v = (x, v')"
    using h by (auto simp: run_defs split: if_splits)
  obtain p where p: "parsed = Some p"
    using run moved by (cases parsed) (auto simp: collection_handle_def run_defs)
  show ?thesis
    using collection_moves_books[OF run[unfolded p] moved] l j p same r' by (auto simp: lookup_allows_def)
qed

section \<open>Concrete runs\<close>

definition sample_va :: repayment_account_row where
  "sample_va = \<lparr>va_id = 6, va_user_id = 7, va_virtual_account_no = ''va'', va_virtual_account_name = ''A'',
     va_bank_name = ''B'', va_provider = ''palmpay'', va_is_active = True,
     va_deactivated_at = None, va_created_at = 0\<rparr>"

definition sample_notice :: "rat \<Rightarrow> collection_notification" where
  "sample_notice kobo = \<lparr>cn_orderNo = ''o9'', cn_orderStatus = 1, cn_orderAmount = kobo, cn_payerAccountName = ''P'',
     cn_payerBankName = ''B'', cn_virtualAccountNo = Some ''va'', cn_sign = None\<rparr>"

definition confirming_env :: "rat \<Rightarrow> env" where
  "confirming_env kobo = toy_env\<lparr>e_collection_status := \<lambda>_ _. Inr \<lparr>cs_state = collection_successful, cs_amount_kobo = Some kobo,
     cs_virtual_account_no = None, cs_failure_reason = None\<rparr>\<rparr>"

definition small_loan :: loan_row where
  "small_loan = active_loan\<lparr>l_principal_ngn := 5000\<rparr>"

definition collection_world :: "loan_row \<Rightarrow> world" where
  "collection_world loan = empty_world\<lparr>w_db := empty_db\<lparr>loans := [loan], repayment_accounts := [sample_va], next_id := 8\<rparr>,
     w_clock := 86400000\<rparr>"

lemma collection_world_fields [simp]:
  "loans (w_db (collection_world loan)) = [loan]" "repayment_accounts (w_db (collection_world loan)) = [sample_va]"
  "inflows (w_db (collection_world loan)) = []" "repayments (w_db (collection_world loan)) = []"
  "webhook_logs (w_db (collection_world loan)) = []" "next_id (w_db (collection_world loan)) = 8"
  "w_clock (collection_world loan) = 86400000" "w_outbox (collection_world loan) = []"
  by (simp_all add: collection_world_def empty_world_def empty_db_def)

lemma sample_fields [simp]:
  "cn_orderNo (sample_notice k) = ''o9''" "cn_orderStatus (sample_notice k) = COLLECTION_STATUS_SUCCESS"
  "cn_orderAmount (sample_notice k) = k" "cn_virtualAccountNo (sample_notice k) = Some ''va''"
  "va_virtual_account_no sample_va = ''va''" "va_user_id sample_va = 7" "e_dec (confirming_env k) = js_decimals"
  "e_collection_status (confirming_env k) w r = Inr \<lparr>cs_state = collection_successful, cs_amount_kobo = Some k,
     cs_virtual_account_no = None, cs_failure_reason = None\<rparr>" "\<not> e_fault (confirming_env k) f w"
  "requery_verdict (sample_notice k) ''va'' \<lparr>cs_state = collection_successful, cs_amount_kobo = Some k,
     cs_virtual_account_no = None, cs_failure_reason = None\<rparr> = Credit False"
  by (simp_all add: sample_notice_def sample_va_def confirming_env_def COLLECTION_STATUS_SUCCESS_def requery_verdict_def
      REQUERY_AMOUNT_TOLERANCE_KOBO_def present_def)

lemma kobo_exact: "ddiv js_decimals 2000000 100 = 20000" "ddiv js_decimals 501500 100 = 5015"
  unfolding ddiv_def by (subst js.round_exact[of 0]; simp add: on_scale_def)+

definition collection_delivery :: delivery where
  "collection_delivery = \<lparr>dl_provider = ''palmpay'', dl_http_path = ''/'', dl_headers = [], dl_raw_body = ''x'', dl_json = Some JNull\<rparr>"

theorem repayment_is_confirmed_witness:
  "\<exists>out w'. collection_webhook (confirming_env 2000000) collection_delivery True (Some (sample_notice 2000000))
       (collection_world active_loan) = (out, w') \<and>
     map (\<lambda>r. (rep_loan_id r, rep_amount_ngn r)) (repayments (w_db w')) = [(3, 20000)]"
proof -
  let ?w = "collection_world active_loan"
  have unindexed: "t_unique webhook_log_table = []" by (simp add: webhook_log_table_def)
  have "wp (collection_webhook (confirming_env 2000000) collection_delivery True (Some (sample_notice 2000000)))
      (\<lambda>_ w'. repayments (w_db w') \<noteq> []) (\<lambda>_ _. False) ?w"
    by (simp add: collection_webhook_def collection_delivery_def logged_handler_def log_record_def updateOutcome_def unindexed wp_return_fun
        collection_handle_def collection_for_user_def collection_verify_def collection_credit_def upsert_inflow_def
        creditInflow_def send_receipt_def credit_tx_def credit_active_def close_loan_def transition_from_def wp_transition Let_def
        present_def wp_simps table_ops kobo_exact MIN_PARTIAL_REPAYMENT_NGN_def collected_inflow_def)
  then obtain out w' where r: "collection_webhook (confirming_env 2000000) collection_delivery True (Some (sample_notice 2000000)) ?w = (Inr out, w')"
    "repayments (w_db w') \<noteq> repayments (w_db ?w)" using wp_runD by fastforce
  have "d_col js_decimals 2 20000 = 20000" by (rule js.col_exact) (simp add: on_scale_def)
  with repayment_is_confirmed[OF r] r(1) show ?thesis by (auto simp: own_active_def kobo_exact)
qed

theorem closing_payment_below_floor_fails_witness:
  "\<exists>w'. collection_handle (confirming_env 501500) (Some (sample_notice 501500)) (collection_world small_loan) =
     (Inr (refusal (sample_notice 501500) ERROR CREDIT_FAILED_DETAIL), w') \<and> map l_status (loans (w_db w')) = [LoanStatus.ACTIVE]"
proof -
  let ?w = "collection_world small_loan"
  have small: "l_id small_loan = 3" "l_user_id small_loan = 7" "l_status small_loan = LoanStatus.ACTIVE"
    "l_collateral_received_at small_loan = Some 0" by (simp_all add: small_loan_def)
  have ok: "accrual_ok (accrual_loan_of small_loan) (map toAccrualRepayment (ledger_of (l_id small_loan) ?w)) 0 (w_clock ?w)"
    by (simp add: accrual_ok_def accrual_loan_of_def ledger_of_def small_loan_def active_loan_def repaid_loan_def MS_PER_DAY_def)
  have "owed_principal (accrual_loan_of small_loan) [] 86400000 + owed_interest (accrual_loan_of small_loan) 0 [] 86400000 = 5015"
    by code_simp
  then have total: "o_total_outstanding_ngn (outstanding_at js_decimals small_loan ?w) = 5015"
    using js.compute_facts[OF _ ok] small by (simp add: outstanding_at_def ledger_of_def accrual_loan_of_def)
  have near: "dminus js_decimals 5015 INFLOW_OUTSTANDING_MATCH_TOLERANCE_NGN \<le> 5015"
    unfolding dminus_def by (subst js.round_exact[of 2]) (simp_all add: INFLOW_OUTSTANDING_MATCH_TOLERANCE_NGN_def on_scale_def)
  have "\<exists>w' i. collection_handle (confirming_env 501500) (Some (sample_notice 501500)) ?w =
      (Inr (refusal (sample_notice 501500) ERROR CREDIT_FAILED_DETAIL), w') \<and> same_books ?w w' \<and>
      inflows (w_db w') = inflows (w_db ?w) @ [i] \<and> \<not> in_is_matched i \<and>
      w_outbox w' = w_outbox ?w @ [OpsAlerted (UnmatchedInflowAlert credit_failed (cn_orderNo (sample_notice 501500)))]"
    by (rule closing_payment_below_floor_fails[where va = "''va''" and a = sample_va and loan = small_loan and so = False and st = "\<lparr>cs_state = collection_successful,
       cs_amount_kobo = Some 501500, cs_virtual_account_no = None, cs_failure_reason = None\<rparr>"])
       (simp_all add: kobo_exact MIN_PARTIAL_REPAYMENT_NGN_def active_loans_of_def small total near)
  then show ?thesis by (auto simp: same_books_def small)
qed

end
