(* ===== verification/NameMatch.thy ===== *)
theory NameMatch
  imports Rounding
begin

text \<open>
  \<open>common/name-match/name-match.service.ts\<close>: how alike two names are, a number between
  nought and one. A JavaScript number is a rational and every operation on two of them is the
  exact one followed by \<open>F\<close>, the rounding of the floating-point unit; the locale
  \<open>js_number\<close> states what the code relies on, and rounding to fifty-three binary digits
  with halves to even has these properties. The constant \<open>0.1\<close> is the number it denotes.
\<close>

section \<open>Jaro similarity\<close>

text \<open>
  The first loop: the free positions of the second word, in order, that each character of the
  first may take. The two arrays of flags become the lists of the positions taken.
\<close>

definition match_dist :: "string \<Rightarrow> string \<Rightarrow> nat" where
  "match_dist s1 s2 = max (length s1) (length s2) div 2 - 1"

definition candidate :: "string \<Rightarrow> string \<Rightarrow> nat list \<Rightarrow> nat \<Rightarrow> nat option" where
  "candidate s1 s2 taken i =
     List.find (\<lambda>j. j \<notin> set taken \<and> s1 ! i = s2 ! j)
       [i - match_dist s1 s2 ..< min (i + match_dist s1 s2 + 1) (length s2)]"

fun match_loop :: "string \<Rightarrow> string \<Rightarrow> nat list \<Rightarrow> (nat \<times> nat) list \<Rightarrow> (nat \<times> nat) list" where
  "match_loop s1 s2 [] found = found"
| "match_loop s1 s2 (i # is) found =
     (case candidate s1 s2 (map snd found) i of
        None \<Rightarrow> match_loop s1 s2 is found
      | Some j \<Rightarrow> match_loop s1 s2 is (found @ [(i, j)]))"

definition jaro_matches :: "string \<Rightarrow> string \<Rightarrow> (nat \<times> nat) list" where
  "jaro_matches s1 s2 = match_loop s1 s2 [0 ..< length s1] []"

text \<open>The second loop walks the matched positions of both words in ascending order.\<close>

definition transpositions :: "string \<Rightarrow> string \<Rightarrow> nat" where
  "transpositions s1 s2 =
     length (filter (\<lambda>(i, j). s1 ! i \<noteq> s2 ! j)
       (zip (sort (map fst (jaro_matches s1 s2))) (sort (map snd (jaro_matches s1 s2)))))"

definition jaro :: "(rat \<Rightarrow> rat) \<Rightarrow> string \<Rightarrow> string \<Rightarrow> rat" where
  "jaro F s1 s2 =
     (if s1 = s2 then 1
      else if length s1 = 0 \<or> length s2 = 0 then 0
      else
        let matches = length (jaro_matches s1 s2) in
        if matches = 0 then 0
        else
          let m = of_nat matches;
              t = F (of_nat (transpositions s1 s2) / 2) in
          F (F (F (F (m / of_nat (length s1)) + F (m / of_nat (length s2))) + F (F (m - t) / m)) / 3))"

section \<open>Jaro-Winkler similarity\<close>

fun common_prefix :: "nat \<Rightarrow> string \<Rightarrow> string \<Rightarrow> nat" where
  "common_prefix (Suc n) (c # cs) (d # ds) = (if c = d then Suc (common_prefix n cs ds) else 0)"
| "common_prefix _ _ _ = 0"

definition tenth :: "(rat \<Rightarrow> rat) \<Rightarrow> rat" where
  "tenth F = F (1 / 10)"

definition jaro_winkler :: "(rat \<Rightarrow> rat) \<Rightarrow> string \<Rightarrow> string \<Rightarrow> rat" where
  "jaro_winkler F s1 s2 =
     (let jaro_score = jaro F s1 s2; prefix = common_prefix 4 s1 s2 in
      F (jaro_score + F (F (of_nat prefix * tenth F) * F (1 - jaro_score))))"

section \<open>Names\<close>

text \<open>A character is a UTF-16 code unit below 256. Of these, the class \<open>\s\<close> of regular expressions and \<open>trim\<close> take exactly
  the following as blanks, the no-break space included; the blanks beyond them are not representable.\<close>

definition is_space :: "char \<Rightarrow> bool" where
  "is_space c \<longleftrightarrow> c \<in> {CHR '' '', CHR 0x09, CHR 0x0A, CHR 0x0B, CHR 0x0C, CHR 0x0D, CHR 0xA0}"

definition is_lower :: "char \<Rightarrow> bool" where
  "is_lower c \<longleftrightarrow> (let n = of_char c :: nat in 97 \<le> n \<and> n \<le> 122)"

text \<open>\<open>String.trim\<close>.\<close>

definition trim :: "string \<Rightarrow> string" where
  "trim s = rev (dropWhile is_space (rev (dropWhile is_space s)))"

text \<open>Splitting at runs of blanks and dropping the empty pieces.\<close>

fun words_of :: "string \<Rightarrow> string \<Rightarrow> string list" where
  "words_of acc [] = (if acc = [] then [] else [rev acc])"
| "words_of acc (c # cs) =
     (if is_space c then (if acc = [] then words_of [] cs else rev acc # words_of [] cs)
      else words_of (c # acc) cs)"

definition tokenize :: "string \<Rightarrow> string list" where
  "tokenize name = words_of [] (filter (\<lambda>c. is_lower c \<or> is_space c) (to_lower name))"

fun sum_from :: "(rat \<Rightarrow> rat) \<Rightarrow> rat \<Rightarrow> rat list \<Rightarrow> rat" where
  "sum_from F s [] = s"
| "sum_from F s (x # xs) = sum_from F (F (s + x)) xs"

definition best_score :: "(rat \<Rightarrow> rat) \<Rightarrow> string list \<Rightarrow> string \<Rightarrow> rat" where
  "best_score F target token = Max ((\<lambda>t. jaro_winkler F token t) ` set target)"

definition scoreTokens :: "(rat \<Rightarrow> rat) \<Rightarrow> string list \<Rightarrow> string list \<Rightarrow> rat" where
  "scoreTokens F source target =
     (if source = [] \<or> target = [] then 0
      else F (sum_from F 0 (map (best_score F target) source) / of_nat (length source)))"

definition name_compare :: "(rat \<Rightarrow> rat) \<Rightarrow> string \<Rightarrow> string \<Rightarrow> rat" where
  "name_compare F a b =
     (let tokens_a = tokenize a; tokens_b = tokenize b in
      if tokens_a = [] \<or> tokens_b = [] then 0
      else
        let full_score = (if length tokens_a \<le> length tokens_b then scoreTokens F tokens_a tokens_b
                          else scoreTokens F tokens_b tokens_a) in
        if length tokens_a < 2 \<or> length tokens_b < 2 then full_score
        else max full_score
          (scoreTokens F [hd tokens_a, last tokens_a] [hd tokens_b, last tokens_b]))"

text \<open>\<open>DISBURSEMENT_NAME_MATCH_THRESHOLD\<close>: the number \<open>0.85\<close>.\<close>

definition DISBURSEMENT_NAME_MATCH_THRESHOLD :: "(rat \<Rightarrow> rat) \<Rightarrow> rat" where
  "DISBURSEMENT_NAME_MATCH_THRESHOLD F = F (85 / 100)"

section \<open>What floating-point arithmetic promises\<close>

locale js_number =
  fixes F :: "rat \<Rightarrow> rat"
  assumes F_int: "\<bar>k\<bar> < 2 ^ 53 \<Longrightarrow> F (of_int k) = of_int k"
    and F_mono: "x \<le> y \<Longrightarrow> F x \<le> F y"
    and F_near: "\<bar>F x - x\<bar> * 2 ^ 53 \<le> \<bar>x\<bar>"
begin

lemma F_0 [simp]: "F 0 = 0" and F_1 [simp]: "F 1 = 1"
  using F_int[of 0] F_int[of 1] by simp_all

lemma F_nat: "n < 2 ^ 53 \<Longrightarrow> F (of_nat n) = of_nat n"
  using F_int[of "int n"] by simp

lemma F_nonneg: "0 \<le> x \<Longrightarrow> 0 \<le> F x"
  using F_mono[of 0 x] by simp

lemma F_le_int: "x \<le> of_int k \<Longrightarrow> \<bar>k\<bar> < 2 ^ 53 \<Longrightarrow> F x \<le> of_int k"
  using F_mono[of x "of_int k"] F_int[of k] by simp

lemma F_le_1: "x \<le> 1 \<Longrightarrow> F x \<le> 1"
  using F_le_int[of x 1] by simp

lemma F_unit: "0 \<le> x \<Longrightarrow> x \<le> 1 \<Longrightarrow> 0 \<le> F x \<and> F x \<le> 1"
  by (simp add: F_nonneg F_le_1)

end

section \<open>Matched positions\<close>

lemma candidate_Some:
  "candidate s1 s2 taken i = Some j \<Longrightarrow> j \<notin> set taken \<and> j < length s2"
  using find_SomeD[of _ "[i - match_dist s1 s2 ..< min (i + match_dist s1 s2 + 1) (length s2)]" j]
  by (fastforce simp: candidate_def)

lemma match_loop_ok:
  assumes "distinct (map snd found)" "snd ` set found \<subseteq> {..< length s2}"
  shows "distinct (map snd (match_loop s1 s2 is found)) \<and> snd ` set (match_loop s1 s2 is found) \<subseteq> {..< length s2} \<and>
    length (match_loop s1 s2 is found) \<le> length found + length is"
  using assms
proof (induction s1 s2 "is" found rule: match_loop.induct)
  case (2 s1 s2 i "is" found)
  show ?case
  proof (cases "candidate s1 s2 (map snd found) i")
    case None
    then show ?thesis using 2 by fastforce
  next
    case (Some j)
    then show ?thesis using 2(2)[OF Some] 2(3,4) candidate_Some[OF Some] by fastforce
  qed
qed simp

lemma jaro_matches_le: "length (jaro_matches s1 s2) \<le> length s1" "length (jaro_matches s1 s2) \<le> length s2"
proof -
  note ok = match_loop_ok[of "[]" s2 s1 "[0 ..< length s1]"]
  show "length (jaro_matches s1 s2) \<le> length s1" using ok by (simp add: jaro_matches_def)
  have "card (set (map snd (jaro_matches s1 s2))) \<le> card {..< length s2}"
    using ok by (intro card_mono) (simp_all add: jaro_matches_def)
  then show "length (jaro_matches s1 s2) \<le> length s2"
    using ok distinct_card[of "map snd (jaro_matches s1 s2)"] by (simp add: jaro_matches_def)
qed

lemma transpositions_le: "transpositions s1 s2 \<le> length (jaro_matches s1 s2)"
  unfolding transpositions_def by (rule order_trans[OF length_filter_le]) simp

lemma common_prefix_le: "common_prefix n s1 s2 \<le> n"
  by (induction n s1 s2 rule: common_prefix.induct) auto

section \<open>Scores lie between nought and one\<close>

definition short_tokens :: "string list \<Rightarrow> bool" where
  "short_tokens ts \<longleftrightarrow> length ts < 2 ^ 53 \<and> (\<forall>t\<in>set ts. length t < 2 ^ 53)"

context js_number begin

lemma F_slack: "0 \<le> x \<Longrightarrow> F x \<le> x * (11 / 10)"
  using F_near[of x] by (simp add: field_simps abs_if split: if_splits)

lemma jaro_unit:
  assumes "length s1 < 2 ^ 53" "length s2 < 2 ^ 53"
  shows "0 \<le> jaro F s1 s2 \<and> jaro F s1 s2 \<le> 1"
proof (cases "s1 = s2 \<or> length s1 = 0 \<or> length s2 = 0 \<or> length (jaro_matches s1 s2) = 0")
  case True
  then show ?thesis by (auto simp: jaro_def Let_def)
next
  case False
  define m where "m = (of_nat (length (jaro_matches s1 s2)) :: rat)"
  define t where "t = F (of_nat (transpositions s1 s2) / 2)"
  have m: "0 < m" "m \<le> of_nat (length s1)" "m \<le> of_nat (length s2)" "F m = m"
    using False jaro_matches_le[of s1 s2] assms by (auto simp: m_def F_nat)
  have tr: "of_nat (transpositions s1 s2) \<le> m" using transpositions_le by (simp add: m_def)
  have t: "0 \<le> t" "t \<le> m"
    using F_slack[of "of_nat (transpositions s1 s2) / 2"] tr by (auto simp: t_def F_nonneg)
  have a: "0 \<le> F (m / of_nat (length s1)) \<and> F (m / of_nat (length s1)) \<le> 1"
    and b: "0 \<le> F (m / of_nat (length s2)) \<and> F (m / of_nat (length s2)) \<le> 1"
    using m by (intro F_unit; simp add: divide_le_eq)+
  have "F (m - t) \<le> m" using F_mono[of "m - t" m] t m by simp
  then have c: "0 \<le> F (F (m - t) / m) \<and> F (F (m - t) / m) \<le> 1"
    using t m by (intro F_unit) (simp_all add: F_nonneg divide_le_eq)
  have ab: "0 \<le> F (F (m / of_nat (length s1)) + F (m / of_nat (length s2))) \<and>
      F (F (m / of_nat (length s1)) + F (m / of_nat (length s2))) \<le> 2"
    using a b F_le_int[of "F (m / of_nat (length s1)) + F (m / of_nat (length s2))" 2] by (auto intro: F_nonneg)
  have "0 \<le> F (F (F (m / of_nat (length s1)) + F (m / of_nat (length s2))) + F (F (m - t) / m)) \<and>
      F (F (F (m / of_nat (length s1)) + F (m / of_nat (length s2))) + F (F (m - t) / m)) \<le> 3"
    using ab c F_le_int[of "F (F (m / of_nat (length s1)) + F (m / of_nat (length s2))) + F (F (m - t) / m)" 3]
    by (auto intro: F_nonneg)
  then have "0 \<le> F (F (F (F (m / of_nat (length s1)) + F (m / of_nat (length s2))) + F (F (m - t) / m)) / 3) \<and>
      F (F (F (F (m / of_nat (length s1)) + F (m / of_nat (length s2))) + F (F (m - t) / m)) / 3) \<le> 1"
    by (intro F_unit) auto
  then show ?thesis using False by (simp add: jaro_def Let_def m_def t_def)
qed

lemma winkler_unit:
  assumes "length s1 < 2 ^ 53" "length s2 < 2 ^ 53"
  shows "0 \<le> jaro_winkler F s1 s2 \<and> jaro_winkler F s1 s2 \<le> 1"
proof -
  define j where "j = jaro F s1 s2"
  define c where "c = F (of_nat (common_prefix 4 s1 s2) * tenth F)"
  have j: "0 \<le> j" "j \<le> 1" using jaro_unit[OF assms] by (simp_all add: j_def)
  have tenth: "0 \<le> tenth F" "tenth F \<le> 11 / 100"
    using F_slack[of "1 / 10"] by (simp_all add: tenth_def F_nonneg)
  have "of_nat (common_prefix 4 s1 s2) * tenth F \<le> 4 * (11 / 100)"
    using tenth common_prefix_le[of 4 s1 s2] by (intro mult_mono) auto
  then have c: "0 \<le> c" "c \<le> 1 / 2"
    using tenth F_slack[of "of_nat (common_prefix 4 s1 s2) * tenth F"] by (auto simp: c_def F_nonneg)
  have y: "0 \<le> F (1 - j)" "F (1 - j) \<le> (1 - j) * (11 / 10)" using j F_slack[of "1 - j"] by (simp_all add: F_nonneg)
  have "c * F (1 - j) \<le> 1 / 2 * ((1 - j) * (11 / 10))" using c y j by (intro mult_mono) auto
  then have "F (c * F (1 - j)) \<le> 1 / 2 * ((1 - j) * (11 / 10)) * (11 / 10)"
    using F_slack[of "c * F (1 - j)"] c y by (simp add: mult_nonneg_nonneg)
  moreover have "1 / 2 * ((1 - j) * (11 / 10)) * (11 / 10) \<le> 1 - j" using j by simp
  ultimately have "F (c * F (1 - j)) \<le> 1 - j" by linarith
  then have "0 \<le> F (j + F (c * F (1 - j))) \<and> F (j + F (c * F (1 - j))) \<le> 1"
    using j c y by (intro F_unit) (simp_all add: F_nonneg)
  then show ?thesis by (simp add: jaro_winkler_def j_def c_def Let_def)
qed

lemma winkler_same [simp]: "jaro_winkler F s s = 1"
  by (simp add: jaro_winkler_def jaro_def)

lemma best_unit:
  assumes "target \<noteq> []" "length token < 2 ^ 53" "\<forall>t\<in>set target. length t < 2 ^ 53"
  shows "0 \<le> best_score F target token \<and> best_score F target token \<le> 1"
proof -
  have "best_score F target token \<in> (\<lambda>t. jaro_winkler F token t) ` set target"
    using assms(1) unfolding best_score_def by (intro Max_in) auto
  then show ?thesis using winkler_unit assms by auto
qed

lemma best_own: "token \<in> set target \<Longrightarrow> length token < 2 ^ 53 \<Longrightarrow> \<forall>t\<in>set target. length t < 2 ^ 53 \<Longrightarrow>
    best_score F target token = 1"
proof (rule antisym)
  assume token: "token \<in> set target" "length token < 2 ^ 53" "\<forall>t\<in>set target. length t < 2 ^ 53"
  then have "target \<noteq> []" by auto
  with token show "best_score F target token \<le> 1" using best_unit[of target token] by blast
  have "jaro_winkler F token token \<in> (\<lambda>t. jaro_winkler F token t) ` set target" using token by blast
  then have "jaro_winkler F token token \<le> best_score F target token"
    unfolding best_score_def by (intro Max_ge) auto
  then show "1 \<le> best_score F target token" by simp
qed

lemma sum_unit:
  assumes "\<forall>x\<in>set xs. 0 \<le> x \<and> x \<le> 1" "0 \<le> s" "s \<le> of_nat n" "n + length xs < 2 ^ 53"
  shows "0 \<le> sum_from F s xs \<and> sum_from F s xs \<le> of_nat (n + length xs)"
  using assms
proof (induction xs arbitrary: s n)
  case (Cons x xs)
  have "F (s + x) \<le> of_nat (Suc n)"
    using Cons.prems F_le_int[of "s + x" "int (Suc n)"] by simp
  moreover have "0 \<le> F (s + x)" using Cons.prems by (auto intro: F_nonneg)
  ultimately show ?case using Cons.IH[of "F (s + x)" "Suc n"] Cons.prems by simp
qed simp

lemma sum_ones: "n + length xs < 2 ^ 53 \<Longrightarrow> set xs \<subseteq> {1} \<Longrightarrow> sum_from F (of_nat n) xs = of_nat (n + length xs)"
proof (induction xs arbitrary: n)
  case (Cons x xs)
  then show ?case using F_nat[of "Suc n"] Cons.IH[of "Suc n"] by (simp add: add.commute)
qed simp

lemma score_unit:
  assumes "short_tokens source" "short_tokens target"
  shows "0 \<le> scoreTokens F source target \<and> scoreTokens F source target \<le> 1"
proof (cases "source = [] \<or> target = []")
  case False
  have "\<forall>x\<in>set (map (best_score F target) source). 0 \<le> x \<and> x \<le> 1"
    using best_unit[of target] assms False by (auto simp: short_tokens_def)
  from sum_unit[OF this, of 0 0] assms False show ?thesis
    by (auto simp: scoreTokens_def short_tokens_def divide_le_eq intro!: F_nonneg F_le_1)
qed (auto simp: scoreTokens_def)

lemma score_subset:
  assumes "short_tokens source" "short_tokens target" "source \<noteq> []" "set source \<subseteq> set target"
  shows "scoreTokens F source target = 1"
proof -
  have "set (map (best_score F target) source) \<subseteq> {1}"
    using assms best_own by (auto simp: short_tokens_def subset_iff)
  from sum_ones[OF _ this, of 0] assms show ?thesis by (auto simp: scoreTokens_def short_tokens_def)
qed

end

interpretation double: js_number "sig_round half_even 2 53"
proof unfold_locales
  fix k :: int
  assume k: "\<bar>k\<bar> < 2 ^ 53"
  then have "(of_int \<bar>k\<bar> :: rat) < of_int (2 ^ 53)" by (simp only: of_int_less_iff)
  then show "sig_round half_even 2 53 (of_int k) = of_int k"
    using bin53.round_exact[of "of_int k" 0] by simp
next
  fix x :: rat
  show "\<bar>sig_round half_even 2 53 x - x\<bar> * 2 ^ 53 \<le> \<bar>x\<bar>" using bin53.round_near[of x] by simp
qed (rule bin53.round_mono)

text \<open>The tokens of a name are short enough when the name is.\<close>

lemma words_of_lengths:
  "length (words_of acc cs) \<le> Suc (length cs) \<and> (\<forall>t\<in>set (words_of acc cs). length t \<le> length acc + length cs)"
proof (induction acc cs rule: words_of.induct)
  case (2 acc c cs)
  then show ?case by (cases "is_space c"; cases "acc = []") (auto simp: le_Suc_eq)
qed simp

lemma short_name: "length name < 2 ^ 52 \<Longrightarrow> short_tokens (tokenize name)"
proof -
  assume n: "length name < 2 ^ 52"
  define cs where "cs = filter (\<lambda>c. is_lower c \<or> is_space c) (to_lower name)"
  have "length cs \<le> length name" using length_filter_le[of _ "to_lower name"] by (simp add: cs_def to_lower_def)
  then show ?thesis
    using n words_of_lengths[of "[]" cs] by (fastforce simp: short_tokens_def tokenize_def simp flip: cs_def)
qed

lemma compare_unit:
  assumes "js_number F" "length a < 2 ^ 52" "length b < 2 ^ 52"
  shows "0 \<le> name_compare F a b \<and> name_compare F a b \<le> 1"
proof -
  have short: "short_tokens (tokenize a)" "short_tokens (tokenize b)" using assms short_name by auto
  then have ends: "short_tokens [hd (tokenize a), last (tokenize a)]" "short_tokens [hd (tokenize b), last (tokenize b)]"
    if "tokenize a \<noteq> []" "tokenize b \<noteq> []"
    using that by (auto simp: short_tokens_def)
  show ?thesis
    using js_number.score_unit[OF assms(1)] short ends
    by (simp add: name_compare_def Let_def max_def)
qed

lemma compare_subset:
  assumes "js_number F" "length a < 2 ^ 52" "length b < 2 ^ 52"
    and "tokenize a \<noteq> []" "tokenize b \<noteq> []"
    and "length (tokenize a) \<le> length (tokenize b) \<and> set (tokenize a) \<subseteq> set (tokenize b) \<or>
      length (tokenize b) < length (tokenize a) \<and> set (tokenize b) \<subseteq> set (tokenize a)"
  shows "name_compare F a b = 1"
proof -
  have short: "short_tokens (tokenize a)" "short_tokens (tokenize b)" using assms(2,3) short_name by auto
  have "(if length (tokenize a) \<le> length (tokenize b) then scoreTokens F (tokenize a) (tokenize b)
      else scoreTokens F (tokenize b) (tokenize a)) = 1"
    using assms(4-6) short js_number.score_subset[OF assms(1)] by auto
  then have "1 \<le> name_compare F a b" using assms(4,5) by (simp add: name_compare_def Let_def)
  then show ?thesis using compare_unit[OF assms(1-3)] by simp
qed

section \<open>The walk over the flags\<close>

text \<open>The second loop as it is written: for each matched position of the first word the inner
  loop steps over the unmatched positions of the second one, without looking at its end. A
  position past the end of the array reads as unmatched, so the inner loop would then never
  return.\<close>

definition flags :: "nat \<Rightarrow> nat list \<Rightarrow> bool list" where
  "flags n taken = map (\<lambda>i. i \<in> set taken) [0 ..< n]"

partial_function (option) next_matched :: "bool list \<Rightarrow> nat \<Rightarrow> nat option" where
  "next_matched s2_matches k =
     (if k < length s2_matches \<and> s2_matches ! k then Some k else next_matched s2_matches (Suc k))"

fun transposition_walk ::
    "string \<Rightarrow> string \<Rightarrow> bool list \<Rightarrow> bool list \<Rightarrow> nat list \<Rightarrow> nat \<Rightarrow> nat \<Rightarrow> nat option" where
  "transposition_walk s1 s2 s1_matches s2_matches [] k n = Some n"
| "transposition_walk s1 s2 s1_matches s2_matches (i # is) k n =
     (if \<not> s1_matches ! i then transposition_walk s1 s2 s1_matches s2_matches is k n
      else Option.bind (next_matched s2_matches k) (\<lambda>j.
        transposition_walk s1 s2 s1_matches s2_matches is (Suc j) (if s1 ! i \<noteq> s2 ! j then Suc n else n)))"

lemma match_loop_fst:
  "\<exists>js. map fst (match_loop s1 s2 is found) = map fst found @ js \<and> set js \<subseteq> set is \<and> (distinct is \<longrightarrow> distinct js)"
proof (induction s1 s2 "is" found rule: match_loop.induct)
  case (2 s1 s2 i "is" found)
  show ?case
  proof (cases "candidate s1 s2 (map snd found) i")
    case None
    then show ?thesis using 2(1) by fastforce
  next
    case (Some j)
    then obtain js where "map fst (match_loop s1 s2 is (found @ [(i, j)])) = map fst (found @ [(i, j)]) @ js"
      "set js \<subseteq> set is" "distinct is \<longrightarrow> distinct js" using 2(2)[OF Some] by blast
    then show ?thesis using Some by (intro exI[of _ "i # js"]) auto
  qed
qed simp

lemma sorted_taken:
  assumes "distinct taken" "set taken \<subseteq> {..< n}"
  shows "sort taken = filter (\<lambda>i. flags n taken ! i) [0 ..< n]"
proof (rule sorted_distinct_set_unique)
  show "set (sort taken) = set (filter (\<lambda>i. flags n taken ! i) [0 ..< n])"
    using assms(2) by (auto simp: flags_def)
qed (use assms in \<open>auto simp: sorted_filter sorted_upt distinct_filter intro!: sorted_wrt_filter\<close>)

lemma next_matched_Some:
  "filter (\<lambda>i. fs ! i) [k ..< length fs] = j # js \<Longrightarrow>
   next_matched fs k = Some j \<and> filter (\<lambda>i. fs ! i) [Suc j ..< length fs] = js"
proof (induction "length fs - k" arbitrary: k)
  case (Suc m)
  then have k: "[k ..< length fs] = k # [Suc k ..< length fs]" by (simp add: upt_conv_Cons)
  show ?case
  proof (cases "fs ! k")
    case True
    then have "next_matched fs k = Some k" using Suc.hyps(2) by (subst next_matched.simps) auto
    then show ?thesis using Suc.prems True by (auto simp: k)
  next
    case False
    then have "next_matched fs k = next_matched fs (Suc k)" by (subst next_matched.simps) auto
    then show ?thesis using Suc.prems Suc.hyps(1)[of "Suc k"] Suc.hyps(2) False by (simp add: k)
  qed
qed simp

lemma walk_counts:
  "length (filter (\<lambda>i. m1 ! i) is) = length (filter (\<lambda>i. m2 ! i) [k ..< length m2]) \<Longrightarrow>
   transposition_walk s1 s2 m1 m2 is k n =
     Some (n + length (filter (\<lambda>(i, j). s1 ! i \<noteq> s2 ! j)
       (zip (filter (\<lambda>i. m1 ! i) is) (filter (\<lambda>i. m2 ! i) [k ..< length m2]))))"
proof (induction "is" arbitrary: k n)
  case (Cons i "is")
  show ?case
  proof (cases "m1 ! i")
    case True
    then obtain j js where js: "filter (\<lambda>i. m2 ! i) [k ..< length m2] = j # js"
      using Cons.prems by (cases "filter (\<lambda>i. m2 ! i) [k ..< length m2]") auto
    show ?thesis using next_matched_Some[OF js] Cons.IH[of "Suc j"] Cons.prems js True by simp
  qed (use Cons in simp)
qed simp

text \<open>C27. The comparison of two words returns: the first loop marks as many positions of the second
  word as of the first, so the unbounded inner loop of the second one always meets a marked
  position before the end of the array, and the walk counts the transpositions.\<close>

theorem jaro_loops_end:
  "transposition_walk s1 s2 (flags (length s1) (map fst (jaro_matches s1 s2)))
     (flags (length s2) (map snd (jaro_matches s1 s2))) [0 ..< length s1] 0 0 =
   Some (transpositions s1 s2)"
proof -
  let ?M = "jaro_matches s1 s2"
  obtain js where "map fst ?M = js" "set js \<subseteq> {..< length s1}" "distinct js"
    using match_loop_fst[of s1 s2 "[0 ..< length s1]" "[]"] by (fastforce simp: jaro_matches_def)
  then have f: "sort (map fst ?M) = filter (\<lambda>i. flags (length s1) (map fst ?M) ! i) [0 ..< length s1]"
    by (intro sorted_taken) auto
  have s: "sort (map snd ?M) = filter (\<lambda>i. flags (length s2) (map snd ?M) ! i) [0 ..< length (flags (length s2) (map snd ?M))]"
    using match_loop_ok[of "[]" s2 s1 "[0 ..< length s1]"] sorted_taken[of "map snd ?M" "length s2"]
    by (auto simp: jaro_matches_def flags_def)
  have "length (filter (\<lambda>i. flags (length s1) (map fst ?M) ! i) [0 ..< length s1]) =
      length (filter (\<lambda>i. flags (length s2) (map snd ?M) ! i) [0 ..< length (flags (length s2) (map snd ?M))])"
    unfolding f[symmetric] s[symmetric] by simp
  from walk_counts[OF this] show ?thesis unfolding transpositions_def f s by simp
qed

section \<open>The score of two names\<close>

text \<open>C26. A name comparison is a score between nought and one, computed with the rounded arithmetic
  of the platform. It is exactly one whenever every word of the name with fewer words also
  occurs in the other one, so neither the order of the names nor a missing middle name costs
  anything; a name without a letter of the alphabet scores nought.\<close>

theorem name_score:
  assumes "js_number F" "length a < 2 ^ 52" "length b < 2 ^ 52"
  shows "0 \<le> name_compare F a b \<and> name_compare F a b \<le> 1 \<and>
    (tokenize a = [] \<or> tokenize b = [] \<longrightarrow> name_compare F a b = 0) \<and>
    (tokenize a \<noteq> [] \<and> tokenize b \<noteq> [] \<and>
      (length (tokenize a) \<le> length (tokenize b) \<and> set (tokenize a) \<subseteq> set (tokenize b) \<or>
       length (tokenize b) < length (tokenize a) \<and> set (tokenize b) \<subseteq> set (tokenize a)) \<longrightarrow>
     name_compare F a b = 1)"
  using compare_unit[OF assms] compare_subset[OF assms] by (auto simp: name_compare_def)

theorem name_score_witness:
  "name_compare (sig_round half_even 2 53) ''OKAFOR Ada'' ''Ada Ngozi Okafor'' = 1 \<and>
   name_compare (sig_round half_even 2 53) ''Ada'' ''12345'' = 0"
proof -
  have t: "tokenize ''OKAFOR Ada'' = [''okafor'', ''ada'']"
    "tokenize ''Ada Ngozi Okafor'' = [''ada'', ''ngozi'', ''okafor'']" "tokenize ''12345'' = []"
    by code_simp+
  show ?thesis
    using name_score[OF double.js_number_axioms, of "''OKAFOR Ada''" "''Ada Ngozi Okafor''"]
      name_score[OF double.js_number_axioms, of "''Ada''" "''12345''"]
    by (simp add: t)
qed

end
