(* ===== verification/Kyc.thy ===== *)
theory Kyc
  imports RepaymentAccounts NameMatch Guards
begin

text \<open>
  \<open>modules/kyc\<close>: the tier-1 identity check. The identity number is looked up at a provider
  (a parameter for each tier), the official name and birthday are compared with what the
  customer submitted, and the verification, the customer's names and the tier are written in
  one transaction. The decoding of the request body has checked that the submitted birthday
  has the form \<open>YYYY-MM-DD\<close>. Log lines and the messages of the answers are left out.
\<close>

section \<open>Dates\<close>

definition is_digit :: "char \<Rightarrow> bool" where
  "is_digit c \<longleftrightarrow> (let n = of_char c :: nat in 48 \<le> n \<and> n \<le> 57)"

definition iso_shape :: "string \<Rightarrow> bool" where
  "iso_shape s \<longleftrightarrow> length s = 10 \<and> list_all is_digit (take 4 s) \<and> s ! 4 = CHR ''-'' \<and>
     list_all is_digit (take 2 (drop 5 s)) \<and> s ! 7 = CHR ''-'' \<and> list_all is_digit (drop 8 s)"

definition dmy_shape :: "char \<Rightarrow> string \<Rightarrow> bool" where
  "dmy_shape sep s \<longleftrightarrow> length s = 10 \<and> list_all is_digit (take 2 s) \<and> s ! 2 = sep \<and>
     list_all is_digit (take 2 (drop 3 s)) \<and> s ! 5 = sep \<and> list_all is_digit (drop 6 s)"

definition normalize_dob :: "string \<Rightarrow> string option" where
  "normalize_dob raw =
     (if iso_shape raw then Some raw
      else if dmy_shape CHR ''-'' raw \<or> dmy_shape CHR ''/'' raw
      then Some (drop 6 raw @ ''-'' @ take 2 (drop 3 raw) @ ''-'' @ take 2 raw)
      else None)"

text \<open>\<open>new Date(iso)\<close> on a text of this form: midnight UTC of the day, with days past the end
  of a month counted on, or an invalid date when the month or the day is out of range.\<close>

definition days_from_civil :: "int \<Rightarrow> int \<Rightarrow> int \<Rightarrow> int" where
  "days_from_civil year month day =
     (let y = (if month \<le> 2 then year - 1 else year);
          yoe = y mod 400;
          doy = (153 * (if 2 < month then month - 3 else month + 9) + 2) div 5 + day - 1;
          doe = yoe * 365 + yoe div 4 - yoe div 100 + doy
      in y div 400 * 146097 + doe - 719468)"

definition js_date :: "string \<Rightarrow> time option" where
  "js_date day =
     (let y = int (read_digits (take 4 day)); m = int (read_digits (take 2 (drop 5 day)));
          d = int (read_digits (drop 8 day))
      in if 1 \<le> m \<and> m \<le> 12 \<and> 1 \<le> d \<and> d \<le> 31 then Some (days_from_civil y m d * 86400000) else None)"

section \<open>The request and its checks\<close>

record kyc_dto =
  kd_id_type :: KycIdType
  kd_id_number :: string
  kd_first_name :: string
  kd_middle_name :: "string option"
  kd_last_name :: string
  kd_date_of_birth :: string

definition full_name :: "string option list \<Rightarrow> string" where
  "full_name parts = join_with '' '' (List.map_filter present parts)"

definition submitted_name :: "kyc_dto \<Rightarrow> string" where
  "submitted_name dto = full_name [Some (kd_first_name dto), kd_middle_name dto, Some (kd_last_name dto)]"

definition verifyBiodata :: "env \<Rightarrow> kyc_dto \<Rightarrow> string \<Rightarrow> string option \<Rightarrow> unit service" where
  "verifyBiodata V dto official_name official_dob =
     bind (require (\<not> name_compare (e_float V) (submitted_name dto) official_name < DISBURSEMENT_NAME_MATCH_THRESHOLD (e_float V))
             (KycE KycBiodataMismatchException)) (\<lambda>_.
     case present official_dob of
       None \<Rightarrow> return ()
     | Some dob \<Rightarrow>
         (case normalize_dob dob of
            None \<Rightarrow> return ()
          | Some normalised \<Rightarrow> require (normalised = kd_date_of_birth dto) (KycE KycBiodataMismatchException)))"

definition resolveIdNumber :: "env \<Rightarrow> nat \<Rightarrow> kyc_dto \<Rightarrow> kyc_result service" where
  "resolveIdNumber V tier dto =
     call (\<lambda>w. e_kyc_verify V w tier (kd_id_type dto)
       \<lparr>kp_id_number = kd_id_number dto, kp_first_name = kd_first_name dto, kp_last_name = kd_last_name dto,
        kp_middle_name = kd_middle_name dto, kp_date_of_birth = kd_date_of_birth dto\<rparr>)"

text \<open>The provider's answer and its normalised birthday; every failure but a mismatch is masked.\<close>

definition check_identity :: "env \<Rightarrow> kyc_dto \<Rightarrow> (kyc_result \<times> string option) service" where
  "check_identity V dto =
     attempt
       (bind (resolveIdNumber V 1 dto) (\<lambda>answer.
        bind (verifyBiodata V dto (kr_legal_name answer) (kr_date_of_birth answer)) (\<lambda>_.
        return (answer, case present (kr_date_of_birth answer) of None \<Rightarrow> None | Some dob \<Rightarrow> normalize_dob dob))))
       (\<lambda>e. case e of KycE KycBiodataMismatchException \<Rightarrow> throw e
          | _ \<Rightarrow> throw (BitmonieException ''KYC_PROVIDER_ERROR'' 422))"

section \<open>Writing the verification\<close>

definition dob_column :: "string option \<Rightarrow> time option service" where
  "dob_column normalised =
     (case normalised of
        None \<Rightarrow> return None
      | Some day \<Rightarrow>
          (case js_date day of None \<Rightarrow> throw (OtherError ''Invalid value for argument date_of_birth'')
           | Some t \<Rightarrow> return (Some t)))"

definition set_verified :: "env \<Rightarrow> kyc_dto \<Rightarrow> kyc_result \<Rightarrow> time option \<Rightarrow> time \<Rightarrow> kyc_row \<Rightarrow> kyc_row" where
  "set_verified V dto answer dob t k = k\<lparr>k_id_type := Some (kd_id_type dto),
     k_id_number_hash := Some (e_hash_kyc_id V (kd_id_number dto)),
     k_encrypted_id_number := Some (ae_encrypt (e_auth V) (kd_id_number dto)),
     k_legal_name := Some (kr_legal_name answer), k_date_of_birth := dob, k_status := KycStatus.VERIFIED,
     k_failure_reason := None, k_provider_reference := Some (kr_provider_reference answer),
     k_provider_raw_response := Some (kr_raw_response answer), k_verified_at := Some t\<rparr>"

definition blank_verification :: "id \<Rightarrow> nat \<Rightarrow> time \<Rightarrow> id \<Rightarrow> kyc_row" where
  "blank_verification user_id tier t i =
     \<lparr>k_id = i, k_user_id = user_id, k_tier = tier, k_id_type = None, k_id_number_hash = None,
      k_encrypted_id_number = None, k_legal_name = None, k_date_of_birth = None, k_status = KycStatus.PENDING,
      k_failure_reason = None, k_provider_reference = None, k_provider_raw_response = None,
      k_verified_at = None, k_created_at = t\<rparr>"

definition upsert_verification ::
    "env \<Rightarrow> id \<Rightarrow> kyc_dto \<Rightarrow> kyc_result \<Rightarrow> time option \<Rightarrow> kyc_row service" where
  "upsert_verification V user_id dto answer dob =
     bind now (\<lambda>t.
     bind (find_first kyc_table (\<lambda>k. k_user_id k = user_id \<and> k_tier k = 1)) (\<lambda>existing.
     case existing of
       None \<Rightarrow> create_row kyc_table (\<lambda>i. set_verified V dto answer dob t (blank_verification user_id 1 t i))
     | Some k \<Rightarrow> update_by_id kyc_table (k_id k) (set_verified V dto answer dob t)))"

definition write_verification :: "env \<Rightarrow> id \<Rightarrow> kyc_dto \<Rightarrow> kyc_result \<Rightarrow> string option \<Rightarrow> unit service" where
  "write_verification V user_id dto answer normalised =
     attempt
       (transaction
         (bind (dob_column normalised) (\<lambda>dob.
          bind (upsert_verification V user_id dto answer dob) (\<lambda>_.
          bind (update_by_id user_table user_id (\<lambda>u. u\<lparr>u_kyc_tier := 1, u_first_name := Some (kd_first_name dto),
                  u_middle_name := kd_middle_name dto, u_last_name := Some (kd_last_name dto),
                  u_date_of_birth := dob\<rparr>)) (\<lambda>_.
          return ())))))
       (\<lambda>e. case e of PrismaUniqueViolation _ \<Rightarrow> throw (KycE KycIdNumberTakenException) | _ \<Rightarrow> throw e)"

section \<open>The service\<close>

definition kyc_admission :: "env \<Rightarrow> id \<Rightarrow> kyc_dto \<Rightarrow> unit service" where
  "kyc_admission V user_id dto =
     bind (find_first kyc_table (\<lambda>k. k_user_id k = user_id \<and> k_tier k = 1)) (\<lambda>existing.
     bind (require (map_option k_status existing \<noteq> Some KycStatus.VERIFIED) (KycE KycAlreadyVerifiedException)) (\<lambda>_.
     bind (require (map_option k_status existing \<noteq> Some KycStatus.UNDER_REVIEW) (KycE KycPendingException)) (\<lambda>_.
     bind (find_first kyc_table (\<lambda>k. k_id_type k = Some (kd_id_type dto) \<and>
             k_id_number_hash k = Some (e_hash_kyc_id V (kd_id_number dto)) \<and> k_user_id k \<noteq> user_id)) (\<lambda>claimed_by_other.
     require (claimed_by_other = None) (KycE KycIdNumberTakenException)))))"

definition submitTier1 :: "env \<Rightarrow> id \<Rightarrow> kyc_dto \<Rightarrow> unit service" where
  "submitTier1 V user_id dto =
     bind (kyc_admission V user_id dto) (\<lambda>_.
     bind (check_identity V dto) (\<lambda>(answer, normalised).
     bind (write_verification V user_id dto answer normalised) (\<lambda>_.
     attempt (bind (ensureForUser V user_id (return ())) (\<lambda>_. return ())) (\<lambda>_. return ()))))"

definition listVerifications :: "id \<Rightarrow> kyc_row list service" where
  "listVerifications user_id =
     bind (find_many kyc_table (\<lambda>k. k_user_id k = user_id)) (\<lambda>rows. return (sort_key k_tier rows))"

definition kyc_getStatus :: "id \<Rightarrow> (nat \<times> (nat \<times> KycStatus \<times> time option) list) service" where
  "kyc_getStatus user_id =
     bind (find_or_throw user_table user_id) (\<lambda>user.
     bind (listVerifications user_id) (\<lambda>rows.
     return (u_kyc_tier user, map (\<lambda>k. (k_tier k, k_status k, k_verified_at k)) rows)))"

definition revokeToTier :: "id \<Rightarrow> nat \<Rightarrow> unit service \<Rightarrow> unit service" where
  "revokeToTier user_id target_tier on_in_tx =
     transaction
       (bind (delete_many kyc_table (\<lambda>k. k_user_id k = user_id \<and> target_tier < k_tier k)) (\<lambda>_.
        bind (update_by_id user_table user_id (\<lambda>u. u\<lparr>u_kyc_tier := target_tier\<rparr>)) (\<lambda>_.
        on_in_tx)))"

section \<open>What a tier stands for\<close>

text \<open>The name that the verification wrote into the user's row, and what backs a tier: a verified
  tier-1 check whose official name matched it.\<close>

definition row_name :: "user_row \<Rightarrow> string" where
  "row_name u = full_name [u_first_name u, u_middle_name u, u_last_name u]"

definition backs :: "(rat \<Rightarrow> rat) \<Rightarrow> user_row \<Rightarrow> kyc_row \<Rightarrow> bool" where
  "backs F u k \<longleftrightarrow> k_user_id k = u_id u \<and> k_tier k = 1 \<and> k_status k = KycStatus.VERIFIED \<and>
     (\<exists>official. k_legal_name k = Some official \<and>
        DISBURSEMENT_NAME_MATCH_THRESHOLD F \<le> name_compare F (row_name u) official)"

definition identity_ok :: "(rat \<Rightarrow> rat) \<Rightarrow> world \<Rightarrow> bool" where
  "identity_ok F w \<longleftrightarrow> wf_table kyc_table w \<and> unique_keys u_id (users (w_db w)) \<and>
     (\<forall>u\<in>set (users (w_db w)). u_kyc_tier u = 0 \<or>
        u_kyc_tier u = 1 \<and> (\<exists>k\<in>set (kyc_verifications (w_db w)). backs F u k))"

definition one_owner :: "world \<Rightarrow> bool" where
  "one_owner w \<longleftrightarrow> (\<forall>k\<in>set (kyc_verifications (w_db w)). \<forall>j\<in>set (kyc_verifications (w_db w)).
     k_id_type k = k_id_type j \<and> k_id_type k \<noteq> None \<and> k_id_number_hash k = k_id_number_hash j \<and> k_id_number_hash k \<noteq> None \<longrightarrow>
     k_user_id k = k_user_id j)"

lemma identity_one_owner: "identity_ok F w \<Longrightarrow> one_owner w"
proof -
  assume "identity_ok F w"
  then have wf: "wf_table kyc_table w" by (simp add: identity_ok_def)
  show "one_owner w"
    unfolding one_owner_def
  proof (intro ballI impI)
    fix k j assume k: "k \<in> set (kyc_verifications (w_db w))" and j: "j \<in> set (kyc_verifications (w_db w))"
      and same: "k_id_type k = k_id_type j \<and> k_id_type k \<noteq> None \<and> k_id_number_hash k = k_id_number_hash j \<and> k_id_number_hash k \<noteq> None"
    have "k_id k = k_id j"
    proof (rule ccontr)
      assume "k_id k \<noteq> k_id j"
      moreover have "(''kyc_verifications_id_type_id_number_hash_unique'', \<lambda>a b. k_id_type a = k_id_type b \<and>
           k_id_type a \<noteq> None \<and> k_id_type b \<noteq> None \<and> k_id_number_hash a = k_id_number_hash b \<and>
           k_id_number_hash a \<noteq> None \<and> k_id_number_hash b \<noteq> None) \<in> set (t_unique kyc_table)"
        by (simp add: kyc_table_def)
      ultimately show False using wf k j same unfolding wf_table_def table_rows by fastforce
    qed
    then have "k = j" using wf k j by (auto simp: wf_table_def table_defs unique_keys_def distinct_map inj_on_def)
    then show "k_user_id k = k_user_id j" by simp
  qed
qed

lemma identity_cong:
  assumes "identity_ok F w" "users (w_db w') = users (w_db w)" "kyc_verifications (w_db w') = kyc_verifications (w_db w)"
    "next_id (w_db w) \<le> next_id (w_db w')"
  shows "identity_ok F w'"
proof -
  have "wf_table kyc_table w'"
    using assms unfolding identity_ok_def wf_table_def by (auto simp: table_rows)
  then show ?thesis using assms by (simp add: identity_ok_def)
qed

section \<open>Each step\<close>

lemma kyc_admission_reads: "wp (kyc_admission V u dto) (\<lambda>_ w'. w' = w) (\<lambda>_ w'. w' = w) w"
  by (auto simp: kyc_admission_def wp_simps)

lemma check_identity_matches:
  "wp (check_identity V dto)
     (\<lambda>(answer, _) w'. w' = w \<and> DISBURSEMENT_NAME_MATCH_THRESHOLD (e_float V) \<le>
        name_compare (e_float V) (submitted_name dto) (kr_legal_name answer)) (\<lambda>_ w'. w' = w) w"
  by (auto simp: check_identity_def resolveIdNumber_def verifyBiodata_def wp_simps
      split: option.split sum.split exn.split kyc_exn.split)

lemma ensureForUser_frame:
  "wp (ensureForUser V u (return ()))
     (\<lambda>_ w'. users (w_db w') = users (w_db w) \<and> kyc_verifications (w_db w') = kyc_verifications (w_db w) \<and>
        next_id (w_db w) \<le> next_id (w_db w'))
     (\<lambda>_ w'. users (w_db w') = users (w_db w) \<and> kyc_verifications (w_db w') = kyc_verifications (w_db w) \<and>
        next_id (w_db w) \<le> next_id (w_db w')) w"
  by (auto simp: ensureForUser_def findActive_def va_provision_def wp_simps table_rows table_puts
      split: option.split sum.split)

lemma upsert_effect:
  assumes run: "upsert_verification V u dto answer dob w = (Inr k, w')" and wf: "wf_table kyc_table w"
  shows "wf_table kyc_table w'" and "users (w_db w') = users (w_db w)" and "k \<in> set (kyc_verifications (w_db w'))"
    and "k_user_id k = u" "k_tier k = 1" "k_status k = KycStatus.VERIFIED" "k_legal_name k = Some (kr_legal_name answer)"
    and "\<And>j. j \<in> set (kyc_verifications (w_db w)) \<Longrightarrow> k_user_id j \<noteq> u \<Longrightarrow> j \<in> set (kyc_verifications (w_db w'))"
proof -
  let ?p = "\<lambda>k. k_user_id k = u \<and> k_tier k = 1" let ?rows = "kyc_verifications (w_db w)"
  let ?f = "set_verified V dto answer dob (w_clock w)"
  have key: "k_id (?f j) = k_id j" "k_user_id (?f j) = k_user_id j" "k_tier (?f j) = k_tier j"
    "k_status (?f j) = KycStatus.VERIFIED" "k_legal_name (?f j) = Some (kr_legal_name answer)" for j
    by (simp_all add: set_verified_def)
  have "wf_table kyc_table w' \<and> users (w_db w') = users (w_db w) \<and> k \<in> set (kyc_verifications (w_db w')) \<and>
    k_user_id k = u \<and> k_tier k = 1 \<and> k_status k = KycStatus.VERIFIED \<and> k_legal_name k = Some (kr_legal_name answer) \<and>
    (\<forall>j. j \<in> set ?rows \<longrightarrow> k_user_id j \<noteq> u \<longrightarrow> j \<in> set (kyc_verifications (w_db w')))"
  proof (cases "List.find ?p ?rows")
    case None
    then have c: "create_row kyc_table (\<lambda>i. ?f (blank_verification u 1 (w_clock w) i)) w = (Inr k, w')"
      using run by (simp add: upsert_verification_def run_defs find_first_def now_def table_rows)
    have "wf_table kyc_table w'"
      by (rule kyc_tbl.wf_create[OF wf _ c]) (simp add: table_rows key blank_verification_def)
    with c show ?thesis
      by (auto simp: create_row_def Let_def table_rows table_puts key blank_verification_def split: option.splits)
  next
    case (Some j)
    then have c: "update_by_id kyc_table (k_id j) ?f w = (Inr k, w')" and j: "j \<in> set ?rows" "?p j"
      using run find_SomeD[OF Some] by (auto simp: upsert_verification_def run_defs find_first_def now_def table_rows)
    have wf': "wf_table kyc_table w'"
      by (rule kyc_tbl.wf_update[OF wf _ c]) (simp add: table_rows key)
    have u: "unique_keys k_id ?rows" using wf by (simp add: wf_table_def table_rows)
    have found: "find_row k_id (k_id j) ?rows = Some j" by (rule find_row_unique[OF u j(1)])
    have k: "k = ?f j" and rows: "kyc_verifications (w_db w') = update_row k_id (k_id j) ?f ?rows"
      and users: "users (w_db w') = users (w_db w)"
      using c found by (auto simp: update_by_id_def table_rows table_puts split: option.splits)
    have other: "i \<in> set (kyc_verifications (w_db w'))" if "i \<in> set ?rows" "k_user_id i \<noteq> u" for i
    proof -
      have "k_id i \<noteq> k_id j" using u j that by (auto simp: unique_keys_def distinct_map inj_on_def)
      then show ?thesis using that(1) unfolding rows set_update_row by (intro bexI[of _ i]) auto
    qed
    have "k \<in> set (kyc_verifications (w_db w'))" using j(1) unfolding rows set_update_row k by auto
    with wf' users other j(2) show ?thesis by (simp add: k key)
  qed
  then show "wf_table kyc_table w'" and "users (w_db w') = users (w_db w)" and "k \<in> set (kyc_verifications (w_db w'))"
    and "k_user_id k = u" "k_tier k = 1" "k_status k = KycStatus.VERIFIED" "k_legal_name k = Some (kr_legal_name answer)"
    and "\<And>j. j \<in> set ?rows \<Longrightarrow> k_user_id j \<noteq> u \<Longrightarrow> j \<in> set (kyc_verifications (w_db w'))"
    by auto
qed

lemma write_verification_ok:
  assumes ok: "identity_ok F w"
    and score: "DISBURSEMENT_NAME_MATCH_THRESHOLD F \<le> name_compare F (submitted_name dto) (kr_legal_name answer)"
  shows "wp (write_verification V u dto answer dob) (\<lambda>_. identity_ok F) (\<lambda>_. identity_ok F) w"
proof -
  have wf: "wf_table kyc_table w" and uu: "unique_keys u_id (users (w_db w))"
    and tiers: "\<forall>u\<in>set (users (w_db w)). u_kyc_tier u = 0 \<or>
        u_kyc_tier u = 1 \<and> (\<exists>k\<in>set (kyc_verifications (w_db w)). backs F u k)"
    using ok by (auto simp: identity_ok_def)
  let ?f = "\<lambda>d. (\<lambda>r. r\<lparr>u_kyc_tier := 1, u_first_name := Some (kd_first_name dto), u_middle_name := kd_middle_name dto,
      u_last_name := Some (kd_last_name dto), u_date_of_birth := d\<rparr>)"
  have written: "identity_ok F w'"
    if up: "upsert_verification V u dto answer d w = (Inr k, v)"
    and w': "users (w_db w') = update_row u_id u (?f d) (users (w_db v))"
      "kyc_verifications (w_db w') = kyc_verifications (w_db v)" "next_id (w_db w') = next_id (w_db v)" for d k v w'
  proof -
    note e = upsert_effect[OF up wf]
    have key: "u_id (?f d r) = u_id r" for r by simp
    have "u_kyc_tier r = 0 \<or> u_kyc_tier r = 1 \<and> (\<exists>k\<in>set (kyc_verifications (w_db w')). backs F r k)"
      if r: "r \<in> set (users (w_db w'))" for r
    proof -
      obtain o' where o': "o' \<in> set (users (w_db w))" "r = (if u_id o' = u then ?f d o' else o')"
        using r by (auto simp: w' e(2) set_update_row)
      show ?thesis
      proof (cases "u_id o' = u")
        case True
        then have "backs F r k" using o'(2) e(4-7) score by (simp add: backs_def row_name_def submitted_name_def)
        then show ?thesis using o'(2) True e(3) w'(2) by auto
      next
        case False
        then show ?thesis using o' tiers e(8) w'(2) by (fastforce simp: backs_def)
      qed
    qed
    moreover have "wf_table kyc_table w'" using e(1) w'(2,3) by (simp add: wf_table_def table_rows)
    moreover have "unique_keys u_id (users (w_db w'))"
      unfolding w' e(2) using uu by (subst unique_keys_update_row) simp_all
    ultimately show ?thesis by (simp add: identity_ok_def)
  qed
  have restored: "identity_ok F (w'\<lparr>w_db := w_db w\<rparr>)" for w' by (rule identity_cong[OF ok]) simp_all
  have up: "wp (upsert_verification V u dto answer d) (\<lambda>k v. upsert_verification V u dto answer d w = (Inr k, v)) (\<lambda>_ _. True) w" for d
    by (simp add: wp_def split: prod.split sum.split)
  have "wp (bind (upsert_verification V u dto answer d) (\<lambda>_.
      bind (update_by_id user_table u (?f d)) (\<lambda>_. return ()))) (\<lambda>_. identity_ok F) (\<lambda>_ _. True) w" for d
    by (rule wp_seq[OF up]) (auto simp: wp_simps table_rows table_puts split: option.split intro!: written)
  then have inner: "wp (bind (dob_column dob) (\<lambda>d. bind (upsert_verification V u dto answer d) (\<lambda>_.
      bind (update_by_id user_table u (?f d)) (\<lambda>_. return ())))) (\<lambda>_. identity_ok F) (\<lambda>_ _. True) w"
    by (auto simp: dob_column_def wp_bind[of "case dob of None \<Rightarrow> m | Some d \<Rightarrow> n d" for m n] wp_case_option wp_return wp_throw
        split: option.split)
  have handler: "wp (case e of PrismaUniqueViolation x \<Rightarrow> throw (KycE KycIdNumberTakenException) | _ \<Rightarrow> throw e)
      (\<lambda>_. identity_ok F) (\<lambda>_. identity_ok F) (w'\<lparr>w_db := w_db w\<rparr>)" for e w'
    using restored by (cases e) (simp_all add: wp_throw)
  show ?thesis
    unfolding write_verification_def wp_attempt wp_transaction by (rule wp_mono[OF inner]) (assumption, rule handler)
qed

lemma submitTier1_ok:
  assumes ok: "identity_ok (e_float V) w"
  shows "wp (submitTier1 V u dto) (\<lambda>_. identity_ok (e_float V)) (\<lambda>_. identity_ok (e_float V)) w"
proof -
  have "wp (attempt (bind (ensureForUser V u (return ())) (\<lambda>_. return ())) (\<lambda>_. return ()))
      (\<lambda>_. identity_ok (e_float V)) (\<lambda>_. identity_ok (e_float V)) v" if "identity_ok (e_float V) v" for v
    unfolding wp_attempt wp_bind wp_return
    by (rule wp_mono[OF ensureForUser_frame]) (use identity_cong[OF that] in \<open>auto simp: wp_return\<close>)
  then show ?thesis
    unfolding submitTier1_def
    apply (intro wp_seq[OF kyc_admission_reads])
     apply (rule wp_seq[OF check_identity_matches])
      apply (clarsimp simp: split_def)
      apply (rule wp_seq[OF write_verification_ok])
         apply (auto simp: ok)
    done
qed

lemma reset_ok:
  assumes ok: "identity_ok F w"
  shows "wp (revokeToTier u 0 (return ())) (\<lambda>_. identity_ok F) (\<lambda>_. identity_ok F) w"
proof -
  have restored: "identity_ok F (w'\<lparr>w_db := w_db w\<rparr>)" for w' by (rule identity_cong[OF ok]) simp_all
  have reset: "identity_ok F w'"
    if w': "users (w_db w') = update_row u_id u (\<lambda>r. r\<lparr>u_kyc_tier := 0\<rparr>) (users (w_db w))"
      "kyc_verifications (w_db w') = filter (\<lambda>k. \<not> (k_user_id k = u \<and> 0 < k_tier k)) (kyc_verifications (w_db w))"
      "next_id (w_db w') = next_id (w_db w)" for w'
  proof -
    have "wf_table kyc_table w'"
      using ok kyc_tbl.wf_filter[of w w'] by (simp add: identity_ok_def table_rows w')
    moreover have "unique_keys u_id (users (w_db w'))"
      using ok unfolding w' identity_ok_def by (subst unique_keys_update_row) simp_all
    moreover have "u_kyc_tier r = 0 \<or> u_kyc_tier r = 1 \<and> (\<exists>k\<in>set (kyc_verifications (w_db w')). backs F r k)"
      if r: "r \<in> set (users (w_db w'))" for r
    proof -
      obtain o' where o': "o' \<in> set (users (w_db w))" "r = (if u_id o' = u then o'\<lparr>u_kyc_tier := 0\<rparr> else o')"
        using r by (auto simp: w' set_update_row)
      have keep: "k \<in> set (kyc_verifications (w_db w'))" if "k \<in> set (kyc_verifications (w_db w))" "k_user_id k \<noteq> u" for k
        using that by (simp add: w')
      show ?thesis
      proof (cases "u_id o' = u")
        case True
        then show ?thesis using o'(2) by simp
      next
        case False
        have "u_kyc_tier o' = 0 \<or> u_kyc_tier o' = 1 \<and> (\<exists>k\<in>set (kyc_verifications (w_db w)). backs F o' k)"
          using ok o'(1) by (simp add: identity_ok_def)
        moreover have "r = o'" using o'(2) False by simp
        moreover have "k_user_id k \<noteq> u" if "backs F o' k" for k using that False by (simp add: backs_def)
        ultimately show ?thesis using keep by blast
      qed
    qed
    ultimately show ?thesis by (simp add: identity_ok_def)
  qed
  show ?thesis
    unfolding revokeToTier_def
    by (auto simp: wp_simps table_rows table_puts restored split: option.split intro!: reset)
qed

datatype kyc_op = SubmitTier1 id kyc_dto | RevokeToTier id nat

fun kyc_step :: "env \<Rightarrow> kyc_op \<Rightarrow> world \<Rightarrow> world" where
  "kyc_step V (SubmitTier1 u dto) = final (submitTier1 V u dto)"
| "kyc_step V (RevokeToTier u t) = final (revokeToTier u t (return ()))"

fun is_reset :: "kyc_op \<Rightarrow> bool" where
  "is_reset (SubmitTier1 u dto) = True"
| "is_reset (RevokeToTier u t) = (t = 0)"

lemma kyc_step_ok: "is_reset op \<Longrightarrow> identity_ok (e_float V) w \<Longrightarrow> identity_ok (e_float V) (kyc_step V op w)"
  using submitTier1_ok reset_ok by (cases op) (auto simp: wp_final)

text \<open>C17. As long as operators only reset verifications and never revoke to a tier above nought:
  whoever has a tier has tier one, and it is backed by a verified check of theirs whose
  official name matched the names in their row; and one identity document verifies one
  customer only. This holds whatever is submitted in whatever order, and however the identity
  provider, the account provider and the database answer.\<close>

theorem tiers_stay_backed:
  assumes "identity_ok (e_float V) w" and "list_all is_reset ops"
  shows "identity_ok (e_float V) (fold (kyc_step V) ops w) \<and> one_owner (fold (kyc_step V) ops w)"
proof -
  have "identity_ok (e_float V) (fold (kyc_step V) ops w)"
    using assms by (induction ops arbitrary: w) (simp_all add: kyc_step_ok)
  then show ?thesis using identity_one_owner by blast
qed

text \<open>Revoking to a tier is not bounded by the tier the customer has: an operator who revokes a
  customer to a higher tier grants it, without any verification, and the tier guard lets the
  customer pass.\<close>

theorem revoking_can_grant_a_tier:
  assumes "wf_table user_table w" and "find_row u_id u (users (w_db w)) = Some row" and "u_kyc_tier row < t"
    and "list_all (\<lambda>k. k_user_id k \<noteq> u) (kyc_verifications (w_db w))"
  shows "\<exists>w' row'. revokeToTier u t (return ()) w = (Inr (), w') \<and>
    find_row u_id u (users (w_db w')) = Some row' \<and> u_kyc_tier row' = t \<and>
    kyc_canActivate (Some t) (Some row') = Inr True \<and> kyc_canActivate (Some t) (Some row) \<noteq> Inr True \<and>
    list_all (\<lambda>k. k_user_id k \<noteq> u) (kyc_verifications (w_db w'))"
proof -
  have v: "violated user_table (row\<lparr>u_kyc_tier := t\<rparr>) (users (w_db w)) = None"
    using user_tbl.not_violated[OF assms(1), of u row "row\<lparr>u_kyc_tier := t\<rparr>"] assms(2) by (auto simp: table_defs)
  have "wp (revokeToTier u t (return ())) (\<lambda>_ w'. find_row u_id u (users (w_db w')) = Some (row\<lparr>u_kyc_tier := t\<rparr>) \<and>
      kyc_verifications (w_db w') = filter (\<lambda>k. \<not> (k_user_id k = u \<and> t < k_tier k)) (kyc_verifications (w_db w))) (\<lambda>_ _. False) w"
    using assms(2) by (simp add: revokeToTier_def wp_simps table_rows table_puts v find_row_update_row)
  from wp_runD[OF this] show ?thesis
    using assms(3,4) by (fastforce simp: kyc_canActivate_def list_all_iff intro!: exI[of _ "row\<lparr>u_kyc_tier := t\<rparr>"])
qed

section \<open>Concrete runs\<close>

definition sample_kyc :: kyc_dto where
  "sample_kyc = \<lparr>kd_id_type = BVN, kd_id_number = ''22222222222'', kd_first_name = ''Ada'', kd_middle_name = None,
     kd_last_name = ''Obi'', kd_date_of_birth = ''1990-01-02''\<rparr>"

definition kyc_world :: world where
  "kyc_world = empty_world\<lparr>w_db := empty_db\<lparr>users := [new_user ''a@b'' 0 1], next_id := 2\<rparr>\<rparr>"

lemma kyc_world_ok: "identity_ok F kyc_world"
  by (simp add: identity_ok_def kyc_world_def empty_world_def empty_db_def new_user_def wf_table_def table_rows unique_keys_def)

lemma sample_identity: "check_identity toy_env sample_kyc w = (Inr (\<lparr>kr_legal_name = ''ADA OBI'', kr_provider_reference = ''k'',
    kr_date_of_birth = Some ''1990-01-02'', kr_raw_response = []\<rparr>, Some ''1990-01-02''), w)"
proof -
  have name: "submitted_name sample_kyc = ''Ada Obi''" and day: "normalize_dob ''1990-01-02'' = Some ''1990-01-02''"
    by code_simp+
  have "tokenize ''Ada Obi'' = [''ada'', ''obi'']" "tokenize ''ADA OBI'' = [''ada'', ''obi'']" by code_simp+
  then have one: "name_compare (e_float toy_env) ''Ada Obi'' ''ADA OBI'' = 1"
    using compare_subset[OF double.js_number_axioms, of "''Ada Obi''" "''ADA OBI''"] by (simp add: toy_env_def)
  have "DISBURSEMENT_NAME_MATCH_THRESHOLD (e_float toy_env) \<le> 1"
    using double.F_le_1[of "85 / 100"] by (simp add: DISBURSEMENT_NAME_MATCH_THRESHOLD_def toy_env_def)
  moreover have "e_kyc_verify toy_env v t ty p = Inr \<lparr>kr_legal_name = ''ADA OBI'', kr_provider_reference = ''k'',
       kr_date_of_birth = Some (kp_date_of_birth p), kr_raw_response = []\<rparr>" for v t ty p
    by (simp add: toy_env_def)
  moreover have "kd_date_of_birth sample_kyc = ''1990-01-02''" by (simp add: sample_kyc_def)
  ultimately show ?thesis
    by (simp add: run_eq_wp check_identity_def resolveIdNumber_def verifyBiodata_def wp_simps name one day present_def)
qed

lemma sample_submit:
  "wp (submitTier1 toy_env 1 sample_kyc) (\<lambda>_ w. map u_kyc_tier (users (w_db w)) = [1]) (\<lambda>_ _. False) kyc_world"
proof -
  have day: "js_date ''1990-01-02'' = Some 631238400000" by code_simp
  have w: "users (w_db kyc_world) = [new_user ''a@b'' 0 1]" "u_id (new_user ''a@b'' 0 1) = 1" "kyc_verifications (w_db kyc_world) = []" "next_id (w_db kyc_world) = 2"
    by (simp_all add: kyc_world_def empty_world_def empty_db_def new_user_def)
  have id: "wp (check_identity toy_env sample_kyc) Q E v = Q (\<lparr>kr_legal_name = ''ADA OBI'', kr_provider_reference = ''k'',
    kr_date_of_birth = Some ''1990-01-02'', kr_raw_response = []\<rparr>, Some ''1990-01-02'') v" for Q E v
    by (simp add: wp_def sample_identity)
  have one: "violated user_table r [q] = None" if "u_id r = u_id q" for r q
    using that by (simp add: violated_def user_table_def)
  have ensure: "wp (ensureForUser toy_env 1 (return ())) (\<lambda>_ w'. map u_kyc_tier (users (w_db w')) = [1])
      (\<lambda>_ w'. map u_kyc_tier (users (w_db w')) = [1]) v" if "map u_kyc_tier (users (w_db v)) = [1]" for v
    by (rule wp_mono[OF ensureForUser_frame]) (use that in simp_all)
  show ?thesis
    unfolding submitTier1_def kyc_admission_def write_verification_def dob_column_def upsert_verification_def
    by (simp del: One_nat_def add: wp_simps id w day table_rows table_puts one set_verified_def blank_verification_def wp_return_fun)
       (rule ensure, simp)
qed

theorem tiers_stay_backed_witness:
  "identity_ok (e_float toy_env) (fold (kyc_step toy_env) [SubmitTier1 1 sample_kyc] kyc_world) \<and>
   one_owner (fold (kyc_step toy_env) [SubmitTier1 1 sample_kyc] kyc_world) \<and>
   map u_kyc_tier (users (w_db (fold (kyc_step toy_env) [SubmitTier1 1 sample_kyc] kyc_world))) = [1]"
proof -
  have "map u_kyc_tier (users (w_db (final (submitTier1 toy_env 1 sample_kyc) kyc_world))) = [1]"
    using sample_submit by (auto simp: wp_def split: prod.splits sum.splits)
  then show ?thesis
    using tiers_stay_backed[OF kyc_world_ok, of "[SubmitTier1 1 sample_kyc]" toy_env] by simp
qed

theorem revoking_can_grant_a_tier_witness:
  "\<exists>w' row'. revokeToTier 1 2 (return ()) kyc_world = (Inr (), w') \<and> find_row u_id 1 (users (w_db w')) = Some row' \<and>
     u_kyc_tier row' = 2 \<and> kyc_canActivate (Some 2) (Some row') = Inr True"
proof -
  have "wf_table user_table kyc_world" "find_row u_id 1 (users (w_db kyc_world)) = Some (new_user ''a@b'' 0 1)"
    "u_kyc_tier (new_user ''a@b'' 0 1) < 2" "list_all (\<lambda>k. k_user_id k \<noteq> 1) (kyc_verifications (w_db kyc_world))"
    by (simp_all add: kyc_world_def empty_world_def empty_db_def new_user_def wf_table_def table_defs unique_keys_def)
  from revoking_can_grant_a_tier[OF this] show ?thesis by blast
qed

end
