(* ===== verification/JsText.thy ===== *)
theory JsText
  imports Kyc
begin

text \<open>
  The functions of JavaScript on texts that the scripts and the providers use, beyond those of
  \<open>NameMatch\<close> and \<open>Kyc\<close>: \<open>parseInt\<close>, \<open>lastIndexOf\<close>, splitting at a character and
  collapsing blanks. Blanks are the ASCII ones.
\<close>

section \<open>\<open>parseInt(s, 10)\<close>\<close>

text \<open>Leading blanks, a sign, and the longest run of digits; without a digit it is \<open>NaN\<close>.
  Numbers beyond the safe integers are not rounded here.\<close>

definition js_parse_int :: "string \<Rightarrow> int option" where
  "js_parse_int s =
     (let t = dropWhile is_space s;
          negative = (take 1 t = ''-'');
          u = (if negative \<or> take 1 t = ''+'' then drop 1 t else t);
          ds = takeWhile is_digit u
      in if ds = [] then None else Some (if negative then - int (read_digits ds) else int (read_digits ds)))"

lemma show_nat_digits: "list_all is_digit (show_nat n)"
proof (induction n rule: show_nat.induct)
  case (1 n)
  have digit: "is_digit (char_of (48 + k))" if "k < 10" for k :: nat
    using that by (simp add: is_digit_def Let_def)
  show ?case
  proof (cases "n < 10")
    case True
    with digit[of n] show ?thesis by (subst show_nat.simps) simp
  next
    case False
    with 1 digit[of "n mod 10"] show ?thesis by (subst show_nat.simps) simp
  qed
qed

lemma digit_no_blank: "is_digit c \<Longrightarrow> \<not> is_space c \<and> c \<noteq> CHR ''-'' \<and> c \<noteq> CHR ''+''"
  by (auto simp: is_digit_def is_space_def Let_def)

text \<open>Reading a printed number gives it back, whatever follows that is not a digit.\<close>

lemma parse_show_nat:
  assumes "rest = [] \<or> \<not> is_digit (hd rest)"
  shows "js_parse_int (show_nat n @ rest) = Some (int n)"
proof -
  obtain c cs where s: "show_nat n = c # cs" using show_nat_not_minus[of n] by (cases "show_nat n") auto
  have d: "is_digit c" "list_all is_digit cs" using show_nat_digits[of n] by (simp_all add: s)
  have "takeWhile is_digit (cs @ rest) = cs"
    using d(2) assms by (cases rest) (auto simp: takeWhile_append list_all_iff)
  with d digit_no_blank[OF d(1)] show ?thesis
    using read_show_nat[of n] by (simp add: js_parse_int_def Let_def s)
qed

section \<open>Positions and pieces\<close>

text \<open>\<open>s.lastIndexOf(c)\<close> splits a text into what stands before and after the last \<open>c\<close>.\<close>

definition split_last :: "char \<Rightarrow> string \<Rightarrow> (string \<times> string) option" where
  "split_last c s =
     (if c \<in> set s
      then Some (rev (tl (dropWhile (\<lambda>x. x \<noteq> c) (rev s))), rev (takeWhile (\<lambda>x. x \<noteq> c) (rev s)))
      else None)"

lemma split_last_Some: "split_last c s = Some (a, b) \<longleftrightarrow> s = a @ c # b \<and> c \<notin> set b"
proof
  assume split: "split_last c s = Some (a, b)"
  then have c: "c \<in> set s" by (auto simp: split_last_def split: if_splits)
  then obtain ys where ys: "dropWhile (\<lambda>x. x \<noteq> c) (rev s) = c # ys"
    by (metis (mono_tags, lifting) dropWhile_eq_Nil_conv hd_dropWhile list.exhaust_sel set_rev)
  have "rev s = takeWhile (\<lambda>x. x \<noteq> c) (rev s) @ c # ys" using ys by (metis takeWhile_dropWhile_id)
  then have "s = rev ys @ c # rev (takeWhile (\<lambda>x. x \<noteq> c) (rev s))"
    by (metis rev.simps(2) rev_append rev_rev_ident append_assoc append_Cons append_Nil)
  moreover have "a = rev ys" "b = rev (takeWhile (\<lambda>x. x \<noteq> c) (rev s))"
    using split c ys by (auto simp: split_last_def)
  ultimately show "s = a @ c # b \<and> c \<notin> set b" by (auto dest: set_takeWhileD)
next
  assume "s = a @ c # b \<and> c \<notin> set b"
  then have s: "s = a @ c # b" and b: "\<forall>x\<in>set (rev b). x \<noteq> c" by auto
  have "takeWhile (\<lambda>x. x \<noteq> c) (rev b @ c # rev a) = rev b" "dropWhile (\<lambda>x. x \<noteq> c) (rev b @ c # rev a) = c # rev a"
    by (subst takeWhile_append2 dropWhile_append2; use b in simp)+
  then show "split_last c s = Some (a, b)" by (simp add: split_last_def s)
qed

text \<open>\<open>s.split(c)\<close> for a single character.\<close>

fun split_at :: "char \<Rightarrow> string \<Rightarrow> string list" where
  "split_at c [] = [[]]"
| "split_at c (x # xs) =
     (if x = c then [] # split_at c xs
      else (case split_at c xs of [] \<Rightarrow> [[x]] | p # ps \<Rightarrow> (x # p) # ps))"

lemma split_at_nonempty [simp]: "split_at c s \<noteq> []"
  by (cases s) (auto split: list.split)

lemma split_at_none: "c \<notin> set s \<Longrightarrow> split_at c s = [s]"
  by (induction s) auto

lemma split_at_append: "c \<notin> set s \<Longrightarrow> split_at c (s @ c # t) = s # split_at c t"
  by (induction s) (auto split: list.split)

text \<open>Splitting undoes joining, when no piece has the separator.\<close>

lemma split_join: "ps \<noteq> [] \<Longrightarrow> \<forall>p\<in>set ps. c \<notin> set p \<Longrightarrow> split_at c (join_with [c] ps) = ps"
  by (induction "[c]" ps rule: join_with.induct) (auto simp: split_at_none split_at_append)

section \<open>Blanks\<close>

text \<open>\<open>s.replace(/\s+/g, ' ')\<close>.\<close>

function collapse_blanks :: "string \<Rightarrow> string" where
  "collapse_blanks [] = []"
| "collapse_blanks (c # cs) =
     (if is_space c then CHR '' '' # collapse_blanks (dropWhile is_space cs) else c # collapse_blanks cs)"
  by pat_completeness auto

termination collapse_blanks
  by (relation "measure length") (simp_all add: le_imp_less_Suc length_dropWhile_le)

end
