(* ===== verification/JsonShape.thy ===== *)
theory JsonShape
  imports WebhooksLog
begin

text \<open>
  Reading a decoded JSON value by the shape that a schema of the providers asks for: the fields of
  an object, needed or optional, and the text of a value. The members of an object have distinct
  names; \<open>number\<close> reads the text of a number.
\<close>

type_synonym params = "(string \<times> json) list"

text \<open>\<open>String(v)\<close> of a decoded value.\<close>

fun js_string :: "json \<Rightarrow> string" where
  "js_string JNull = ''null''"
| "js_string (JBool b) = (if b then ''true'' else ''false'')"
| "js_string (JNumber n) = n"
| "js_string (JString s) = s"
| "js_string (JArray vs) = joined_with '','' (map (\<lambda>v. if v = JNull then [] else js_string v) vs)"
| "js_string (JObject kvs) = ''[object Object]''"

definition need_string :: "params \<Rightarrow> string \<Rightarrow> string option" where
  "need_string ps k = (case map_of ps k of Some (JString s) \<Rightarrow> Some s | _ \<Rightarrow> None)"

definition may_string :: "params \<Rightarrow> string \<Rightarrow> string option option" where
  "may_string ps k = (case map_of ps k of None \<Rightarrow> Some None | Some (JString s) \<Rightarrow> Some (Some s) | _ \<Rightarrow> None)"

definition may_number :: "(string \<Rightarrow> rat) \<Rightarrow> params \<Rightarrow> string \<Rightarrow> rat option option" where
  "may_number number ps k =
     (case map_of ps k of None \<Rightarrow> Some None | Some (JNumber n) \<Rightarrow> Some (Some (number n)) | _ \<Rightarrow> None)"

definition all_optional :: "('a \<Rightarrow> 'b option) \<Rightarrow> 'a list \<Rightarrow> bool" where
  "all_optional read ks = list_all (\<lambda>k. read k \<noteq> None) ks"

text \<open>\<open>z.object({ data: z.object({ name: z.object(...) }) })\<close>: the members of the inner object.\<close>

definition under_data :: "string \<Rightarrow> json \<Rightarrow> params option" where
  "under_data name j =
     (case j of
        JObject ps \<Rightarrow>
          (case map_of ps ''data'' of
             Some (JObject ds) \<Rightarrow> (case map_of ds name of Some (JObject fs) \<Rightarrow> Some fs | _ \<Rightarrow> None)
           | _ \<Rightarrow> None)
      | _ \<Rightarrow> None)"

text \<open>The messages of an array of errors, each with a message and optional texts.\<close>

definition error_message :: "string list \<Rightarrow> json \<Rightarrow> string option" where
  "error_message optional j =
     (case j of
        JObject ps \<Rightarrow> if all_optional (may_string ps) optional then need_string ps ''message'' else None
      | _ \<Rightarrow> None)"

definition error_messages :: "string list \<Rightarrow> params \<Rightarrow> string list option" where
  "error_messages optional fs =
     (case map_of fs ''errors'' of Some (JArray es) \<Rightarrow> those (map (error_message optional) es) | _ \<Rightarrow> None)"

end
