(* ===== verification/PalmpayProvider.thy ===== *)
theory PalmpayProvider
  imports PalmpayCollection JsText JsonShape "HOL-Library.List_Lexorder" "HOL-Library.Char_ord"
begin

text \<open>
  \<open>providers/palmpay\<close>: the client of the payment provider that pays out naira and collects
  repayments. Modelled are the text that is signed, the request and the reading of its answer,
  what each operation makes of the answer, and the check of a notice's signature. Parameters
  are the exchange itself (a function of the world and the request to a failure or a status and a
  body), \<open>JSON.parse\<close>, the reading of a number, and the cryptography: hash, signatures and the formats of keys and
  signatures. Log lines are left out.
\<close>

section \<open>The signed text\<close>

definition filled :: "string \<times> json \<Rightarrow> bool" where
  "filled kv \<longleftrightarrow> snd kv \<noteq> JNull \<and> snd kv \<noteq> JString []"

definition signed_fields :: "params \<Rightarrow> (string \<times> string) list" where
  "signed_fields ps = map (\<lambda>(k, v). (k, js_string v)) (sort_key fst (filter filled ps))"

definition signed_text :: "params \<Rightarrow> string" where
  "signed_text ps = join_with ''&'' (map (\<lambda>(k, t). k @ ''='' @ t) (signed_fields ps))"

record palmpay_api =
  pa_fetch :: "world \<Rightarrow> string \<Rightarrow> params \<Rightarrow> string \<Rightarrow> string + nat \<times> string"
  pa_parse :: "string \<Rightarrow> json option"
  pa_number :: "string \<Rightarrow> rat"
  pa_nonce :: "world \<Rightarrow> string"
  pa_md5 :: "string \<Rightarrow> string"
  pa_sign :: "string \<Rightarrow> string"
  pa_pem_key :: "string \<Rightarrow> string option"
  pa_der_key :: "string \<Rightarrow> string option"
  pa_decode_signature :: "string \<Rightarrow> string option"
  pa_verify :: "string \<Rightarrow> string \<Rightarrow> string \<Rightarrow> bool option"
  pa_merchant_id :: string
  pa_webhook_pub_key :: string
  pa_allow_unsigned :: bool

definition build_signature :: "palmpay_api \<Rightarrow> params \<Rightarrow> string" where
  "build_signature P ps = pa_sign P (pa_md5 P (signed_text ps))"

section \<open>The signature of a notice\<close>

definition contains :: "string \<Rightarrow> string \<Rightarrow> bool" where
  "contains needle s \<longleftrightarrow> list_ex (\<lambda>n. take (length needle) (drop n s) = needle) [0 ..< Suc (length s)]"

definition load_webhook_pub_key :: "palmpay_api \<Rightarrow> string option" where
  "load_webhook_pub_key P =
     (let raw = trim (pa_webhook_pub_key P) in
      if raw = [] then None
      else if contains ''-----BEGIN'' raw then pa_pem_key P raw
      else pa_der_key P (filter (\<lambda>c. \<not> is_space c) raw))"

text \<open>A failure of the cryptography, \<open>None\<close>, makes a signature invalid.\<close>

definition verify_webhook_sign :: "palmpay_api \<Rightarrow> params \<Rightarrow> string \<Rightarrow> bool" where
  "verify_webhook_sign P ps signature =
     (case load_webhook_pub_key P of
        None \<Rightarrow> False
      | Some key \<Rightarrow>
          (case pa_decode_signature P signature of
             None \<Rightarrow> False
           | Some raw \<Rightarrow> pa_verify P key (pa_md5 P (signed_text (filter (\<lambda>(k, _). k \<noteq> ''sign'') ps))) raw = Some True))"

definition palmpay_verifyWebhookSignature :: "palmpay_api \<Rightarrow> string \<Rightarrow> bool" where
  "palmpay_verifyWebhookSignature P raw_body =
     (case pa_parse P raw_body of
        None \<Rightarrow> False
      | Some JNull \<Rightarrow> False
      | Some (JObject ps) \<Rightarrow>
          (case map_of ps ''sign'' of
             None \<Rightarrow> pa_allow_unsigned P
           | Some JNull \<Rightarrow> pa_allow_unsigned P
           | Some (JString sign) \<Rightarrow> verify_webhook_sign P ps sign
           | Some _ \<Rightarrow> False)
      | Some _ \<Rightarrow> pa_allow_unsigned P)"

section \<open>The exchange\<close>

text \<open>An answer has a code, a message and possibly data; a schema reads the data's fields.\<close>

record 'd palmpay_reply =
  py_respCode :: string
  py_respMsg :: string
  py_data :: "'d option"

definition reply_schema :: "(json \<Rightarrow> 'd option) \<Rightarrow> json \<Rightarrow> 'd palmpay_reply option" where
  "reply_schema schema j =
     (case j of
        JObject ps \<Rightarrow>
          (case (need_string ps ''respCode'', need_string ps ''respMsg'', map_of ps ''data'') of
             (Some code, Some msg, None) \<Rightarrow> Some \<lparr>py_respCode = code, py_respMsg = msg, py_data = None\<rparr>
           | (Some code, Some msg, Some JNull) \<Rightarrow> Some \<lparr>py_respCode = code, py_respMsg = msg, py_data = None\<rparr>
           | (Some code, Some msg, Some d) \<Rightarrow>
               map_option (\<lambda>x. \<lparr>py_respCode = code, py_respMsg = msg, py_data = Some x\<rparr>) (schema d)
           | _ \<Rightarrow> None)
      | _ \<Rightarrow> None)"

definition palmpay_post ::
    "palmpay_api \<Rightarrow> string \<Rightarrow> params \<Rightarrow> (json \<Rightarrow> 'd option) \<Rightarrow> world \<Rightarrow> string + 'd palmpay_reply" where
  "palmpay_post P path body schema w =
     (let payload = body @ [(''requestTime'', JNumber (show_int (w_clock w))), (''version'', JString ''V1.1''),
            (''nonceStr'', JString (pa_nonce P w))]
      in case pa_fetch P w path payload (build_signature P payload) of
           Inl m \<Rightarrow> Inl m
         | Inr (status, text) \<Rightarrow>
             if \<not> (200 \<le> status \<and> status \<le> 299)
             then Inl (''PalmPay '' @ path @ '' returned HTTP '' @ show_nat status @ '': '' @ take 200 text)
             else (case pa_parse P text of
                     None \<Rightarrow> Inl (''PalmPay '' @ path @ '' returned non-JSON response'')
                   | Some j \<Rightarrow>
                       (case reply_schema schema j of
                          None \<Rightarrow> Inl (''PalmPay '' @ path @ '' response failed schema validation'')
                        | Some reply \<Rightarrow> Inr reply)))"

definition RESP_CODE_SUCCESS :: string where "RESP_CODE_SUCCESS = ''00000000''"
definition RESP_CODE_ORDER_NOT_FOUND :: string where "RESP_CODE_ORDER_NOT_FOUND = ''00000001''"
definition ORDER_STATUS_SUCCESS :: rat where "ORDER_STATUS_SUCCESS = 2"
definition ORDER_STATUS_FAILED :: rat where "ORDER_STATUS_FAILED = 3"
definition COLLECTION_SUCCESS :: rat where "COLLECTION_SUCCESS = 1"
definition COLLECTION_FAILED :: rat where "COLLECTION_FAILED = 2"

definition refused_reply :: "string \<Rightarrow> 'd palmpay_reply \<Rightarrow> string" where
  "refused_reply operation reply = ''PalmPay '' @ operation @ '' failed: '' @ py_respCode reply @ '' '' @ py_respMsg reply"

text \<open>\<open>data?.field\<close> of an optional field.\<close>

definition data_field :: "('d \<Rightarrow> 'a option) \<Rightarrow> 'd palmpay_reply \<Rightarrow> 'a option" where
  "data_field f reply = Option.bind (py_data reply) f"

section \<open>Banks, with a cache\<close>

record bank =
  bk_code :: string
  bk_name :: string
  bk_logo_url :: "string option"

definition bank_schema :: "json \<Rightarrow> bank option" where
  "bank_schema j =
     (case j of
        JObject ps \<Rightarrow>
          (case (need_string ps ''bankCode'', need_string ps ''bankName'', map_of ps ''bankUrl'') of
             (Some code, Some name, None) \<Rightarrow> Some \<lparr>bk_code = code, bk_name = name, bk_logo_url = None\<rparr>
           | (Some code, Some name, Some JNull) \<Rightarrow> Some \<lparr>bk_code = code, bk_name = name, bk_logo_url = None\<rparr>
           | (Some code, Some name, Some (JString url)) \<Rightarrow> Some \<lparr>bk_code = code, bk_name = name, bk_logo_url = Some url\<rparr>
           | _ \<Rightarrow> None)
      | _ \<Rightarrow> None)"

definition bank_list_schema :: "json \<Rightarrow> bank list option" where
  "bank_list_schema j =
     (case j of JArray vs \<Rightarrow> those (map bank_schema vs) | _ \<Rightarrow> None)"

definition BANK_LIST_CACHE_TTL_MS :: int where "BANK_LIST_CACHE_TTL_MS = 60 * 60 * 1000"

type_synonym bank_cache = "(bank list \<times> time) option"

definition fetch_banks :: "palmpay_api \<Rightarrow> world \<Rightarrow> string + bank list" where
  "fetch_banks P w =
     (case palmpay_post P ''/api/v2/general/merchant/queryBankList'' [(''businessType'', JString ''0'')] bank_list_schema w of
        Inl m \<Rightarrow> Inl m
      | Inr reply \<Rightarrow>
          if py_respCode reply \<noteq> RESP_CODE_SUCCESS then Inl (refused_reply ''queryBankList'' reply)
          else Inr (or_else (py_data reply) []))"

definition listBanks :: "palmpay_api \<Rightarrow> world \<Rightarrow> bank_cache \<Rightarrow> (string + bank list) \<times> bank_cache" where
  "listBanks P w cache =
     (case cache of
        Some (banks, expires_at) \<Rightarrow>
          if expires_at > w_clock w then (Inr banks, cache)
          else (case fetch_banks P w of Inl m \<Rightarrow> (Inl m, cache)
                | Inr banks \<Rightarrow> (Inr banks, Some (banks, w_clock w + BANK_LIST_CACHE_TTL_MS)))
      | None \<Rightarrow>
          (case fetch_banks P w of Inl m \<Rightarrow> (Inl m, cache)
           | Inr banks \<Rightarrow> (Inr banks, Some (banks, w_clock w + BANK_LIST_CACHE_TTL_MS))))"

section \<open>Names and transfers\<close>

definition account_name_schema :: "json \<Rightarrow> string option option" where
  "account_name_schema j =
     (case j of
        JObject ps \<Rightarrow> Option.bind (may_string ps ''Status'') (\<lambda>_. may_string ps ''accountName'')
      | _ \<Rightarrow> None)"

definition palmpay_lookupAccountName :: "palmpay_api \<Rightarrow> world \<Rightarrow> string \<Rightarrow> string \<Rightarrow> string + string option" where
  "palmpay_lookupAccountName P w bank_code account_number =
     (case palmpay_post P ''/api/v2/payment/merchant/payout/queryBankAccount''
             [(''bankCode'', JString bank_code), (''bankAccNo'', JString account_number)] account_name_schema w of
        Inl m \<Rightarrow> Inl m
      | Inr reply \<Rightarrow>
          if py_respCode reply \<noteq> RESP_CODE_SUCCESS then Inr None else Inr (data_field (\<lambda>x. x) reply))"

text \<open>The amount in kobo: a hundred to the naira, rounded to a whole number.\<close>

definition amount_kobo :: "decimals \<Rightarrow> money \<Rightarrow> rat" where
  "amount_kobo D amount = d_fixed D 0 (dmul D amount 100)"

definition payout_body ::
    "rat \<Rightarrow> string \<Rightarrow> string \<Rightarrow> string \<Rightarrow> string option \<Rightarrow> string \<Rightarrow> string \<Rightarrow> (rat \<Rightarrow> string) \<Rightarrow> params" where
  "payout_body kobo currency code account name reference narration print =
     [(''orderId'', JString reference), (''amount'', JNumber (print kobo)), (''currency'', JString currency),
      (''payeeBankCode'', JString code), (''payeeBankAccNo'', JString account),
      (''payeeName'', JString (or_else name [])),
      (''notifyUrl'', JString ''https://bitmonie-api.monierate.xyz/v1/webhooks/palmpay/payout''),
      (''remark'', JString narration)]"

record payout_data =
  pd_orderNo :: "string option"
  pd_orderStatus :: "rat option"

definition payout_schema :: "palmpay_api \<Rightarrow> json \<Rightarrow> payout_data option" where
  "payout_schema P j =
     (case j of
        JObject ps \<Rightarrow>
          (case (may_string ps ''orderId'', may_string ps ''orderNo'', may_number (pa_number P) ps ''orderStatus'', may_string ps ''sessionId'') of
             (Some _, Some no, Some status, Some _) \<Rightarrow> Some \<lparr>pd_orderNo = no, pd_orderStatus = status\<rparr>
           | _ \<Rightarrow> None)
      | _ \<Rightarrow> None)"

definition palmpay_initiateTransfer ::
    "palmpay_api \<Rightarrow> (rat \<Rightarrow> string) \<Rightarrow> decimals \<Rightarrow> world \<Rightarrow> money \<Rightarrow> string \<Rightarrow> string \<Rightarrow> string \<Rightarrow> string option \<Rightarrow> string \<Rightarrow> string \<Rightarrow> string + string" where
  "palmpay_initiateTransfer P print D w amount currency code account name reference narration =
     (case palmpay_post P ''/api/v2/merchant/payment/payout''
             (payout_body (amount_kobo D amount) currency code account name reference narration print) (payout_schema P) w of
        Inl m \<Rightarrow> Inl m
      | Inr reply \<Rightarrow>
          if py_respCode reply \<noteq> RESP_CODE_SUCCESS then Inl (refused_reply ''payout'' reply)
          else Inr (or_else (data_field pd_orderNo reply) []))"

section \<open>What became of a transfer\<close>

record pay_status_data =
  ps_orderStatus :: "rat option"
  ps_message :: "string option"

definition fee_ok :: "params \<Rightarrow> bool" where
  "fee_ok ps = (case map_of ps ''fee'' of
     None \<Rightarrow> True
   | Some (JObject f) \<Rightarrow> (case map_of f ''fee'' of Some (JNumber _) \<Rightarrow> True | _ \<Rightarrow> False)
   | _ \<Rightarrow> False)"

definition pay_status_schema :: "palmpay_api \<Rightarrow> json \<Rightarrow> pay_status_data option" where
  "pay_status_schema P j =
     (case j of
        JObject ps \<Rightarrow>
          if all_optional (may_string ps) [''currency'', ''orderId'', ''orderNo'', ''sessionId''] \<and>
             all_optional (may_number (pa_number P) ps) [''amount'', ''createdTime'', ''completedTime''] \<and> fee_ok ps
          then (case (may_number (pa_number P) ps ''orderStatus'', may_string ps ''message'') of
                  (Some status, Some message) \<Rightarrow> Some \<lparr>ps_orderStatus = status, ps_message = message\<rparr>
                | _ \<Rightarrow> None)
          else None
      | _ \<Rightarrow> None)"

definition transfer_verdict :: "pay_status_data palmpay_reply \<Rightarrow> transfer_status" where
  "transfer_verdict reply =
     (let order_status = data_field ps_orderStatus reply in
      if order_status = Some ORDER_STATUS_SUCCESS
      then \<lparr>ts_state = transfer_successful, ts_failure_reason = None, ts_failure_code = None\<rparr>
      else if order_status = Some ORDER_STATUS_FAILED
      then \<lparr>ts_state = transfer_failed, ts_failure_reason = data_field ps_message reply,
             ts_failure_code = Some (py_respCode reply)\<rparr>
      else \<lparr>ts_state = transfer_processing, ts_failure_reason = None, ts_failure_code = None\<rparr>)"

definition palmpay_getTransferStatus :: "palmpay_api \<Rightarrow> world \<Rightarrow> string \<Rightarrow> string + transfer_status" where
  "palmpay_getTransferStatus P w provider_reference =
     map_sum (\<lambda>m. m) transfer_verdict
       (palmpay_post P ''/api/v2/merchant/payment/queryPayStatus'' [(''orderId'', JString provider_reference)]
          (pay_status_schema P) w)"

section \<open>What became of a collection\<close>

record collection_data =
  cd_orderStatus :: "rat option"
  cd_orderAmount :: "rat option"
  cd_virtualAccountNo :: "string option"
  cd_message :: "string option"

definition collection_schema :: "palmpay_api \<Rightarrow> json \<Rightarrow> collection_data option" where
  "collection_schema P j =
     (case j of
        JObject ps \<Rightarrow>
          if all_optional (may_string ps) [''orderNo'', ''currency'', ''payerAccountNo'', ''payerAccountName'', ''payerBankName'',
               ''sessionId'', ''reference'', ''accountReference''] \<and>
             all_optional (may_number (pa_number P) ps) [''createdTime'', ''updateTime'']
          then (case (may_number (pa_number P) ps ''orderStatus'', may_number (pa_number P) ps ''orderAmount'', may_string ps ''virtualAccountNo'',
                      may_string ps ''message'') of
                  (Some status, Some amount, Some va, Some message) \<Rightarrow>
                    Some \<lparr>cd_orderStatus = status, cd_orderAmount = amount, cd_virtualAccountNo = va, cd_message = message\<rparr>
                | _ \<Rightarrow> None)
          else None
      | _ \<Rightarrow> None)"

definition collection_answer :: "collection_data palmpay_reply \<Rightarrow> collection_status" where
  "collection_answer reply =
     (let no = \<lambda>state reason. \<lparr>cs_state = state, cs_amount_kobo = None, cs_virtual_account_no = None, cs_failure_reason = reason\<rparr>;
          told = Some (py_respCode reply @ '' '' @ py_respMsg reply);
          order_status = data_field cd_orderStatus reply
      in if py_respCode reply = RESP_CODE_ORDER_NOT_FOUND then no collection_not_found told
         else if py_respCode reply \<noteq> RESP_CODE_SUCCESS then no collection_unknown told
         else if order_status = Some COLLECTION_SUCCESS
         then \<lparr>cs_state = collection_successful, cs_amount_kobo = data_field cd_orderAmount reply,
                cs_virtual_account_no = data_field cd_virtualAccountNo reply, cs_failure_reason = None\<rparr>
         else if order_status = Some COLLECTION_FAILED then no collection_failed (data_field cd_message reply)
         else no collection_unknown None)"

definition palmpay_getCollectionOrderStatus :: "palmpay_api \<Rightarrow> world \<Rightarrow> string \<Rightarrow> string + collection_status" where
  "palmpay_getCollectionOrderStatus P w order_no =
     map_sum (\<lambda>m. m) collection_answer
       (palmpay_post P ''/api/v2/virtual/order/detail'' [(''orderNo'', JString order_no)] (collection_schema P) w)"

section \<open>Virtual accounts\<close>

definition stripMerchantSuffix :: "string \<Rightarrow> string" where
  "stripMerchantSuffix name = trim (collapse_blanks (takeWhile (\<lambda>c. c \<noteq> CHR ''('') name))"

definition VA_DEFAULT_BANK_NAME :: string where "VA_DEFAULT_BANK_NAME = ''Boost Microfinance Bank''"

record va_data =
  vd_virtualAccountNo :: "string option"
  vd_virtualAccountName :: "string option"

definition va_schema :: "json \<Rightarrow> va_data option" where
  "va_schema j =
     (case j of
        JObject ps \<Rightarrow>
          (case (may_string ps ''virtualAccountNo'', may_string ps ''virtualAccountName'', may_string ps ''accountReference'') of
             (Some no, Some name, Some _) \<Rightarrow> Some \<lparr>vd_virtualAccountNo = no, vd_virtualAccountName = name\<rparr>
           | _ \<Rightarrow> None)
      | _ \<Rightarrow> None)"

definition palmpay_createVirtualAccount :: "palmpay_api \<Rightarrow> world \<Rightarrow> va_request \<Rightarrow> string + issued_va" where
  "palmpay_createVirtualAccount P w r =
     (case palmpay_post P ''/api/v2/virtual/account/label/create''
             [(''virtualAccountName'', JString (vr_virtual_account_name r)),
              (''identityType'', JString (if vr_identity_type r = BVN then ''personal'' else ''personal_nin'')),
              (''licenseNumber'', JString (vr_license_number r)), (''customerName'', JString (vr_customer_name r)),
              (''accountReference'', JString (vr_account_reference r))] va_schema w of
        Inl m \<Rightarrow> Inl m
      | Inr reply \<Rightarrow>
          if py_respCode reply \<noteq> RESP_CODE_SUCCESS then Inl (refused_reply ''createVirtualAccount'' reply)
          else Inr \<lparr>iv_virtual_account_no = or_else (data_field vd_virtualAccountNo reply) [],
                     iv_virtual_account_name =
                       stripMerchantSuffix (or_else (data_field vd_virtualAccountName reply) (vr_virtual_account_name r)),
                     iv_bank_name = VA_DEFAULT_BANK_NAME\<rparr>)"

section \<open>The balance\<close>

record balances =
  bl_available_ngn :: rat
  bl_frozen_ngn :: rat
  bl_current_ngn :: rat
  bl_unsettle_ngn :: rat

definition balance_schema :: "palmpay_api \<Rightarrow> json \<Rightarrow> balances option" where
  "balance_schema P j =
     (case j of
        JObject ps \<Rightarrow>
          (case (may_number (pa_number P) ps ''availableBalance'', may_number (pa_number P) ps ''frozenBalance'', may_number (pa_number P) ps ''currentBalance'',
                 may_number (pa_number P) ps ''unSettleBalance'') of
             (Some a, Some f, Some c, Some u) \<Rightarrow>
               Some \<lparr>bl_available_ngn = or_else a 0, bl_frozen_ngn = or_else f 0, bl_current_ngn = or_else c 0,
                      bl_unsettle_ngn = or_else u 0\<rparr>
           | _ \<Rightarrow> None)
      | _ \<Rightarrow> None)"

definition palmpay_getBalance :: "palmpay_api \<Rightarrow> world \<Rightarrow> string + balances" where
  "palmpay_getBalance P w =
     (case palmpay_post P ''/api/v2/merchant/manage/account/queryBalance'' [(''merchantId'', JString (pa_merchant_id P))]
             (balance_schema P) w of
        Inl m \<Rightarrow> Inl m
      | Inr reply \<Rightarrow>
          if py_respCode reply \<noteq> RESP_CODE_SUCCESS then Inl (refused_reply ''queryBalance'' reply)
          else Inr (or_else (py_data reply)
                 \<lparr>bl_available_ngn = 0, bl_frozen_ngn = 0, bl_current_ngn = 0, bl_unsettle_ngn = 0\<rparr>))"

text \<open>The services' environment with PalmPay as the provider of these calls.\<close>

definition palmpay_env :: "palmpay_api \<Rightarrow> env \<Rightarrow> env" where
  "palmpay_env P V = V\<lparr>e_transfer_status := palmpay_getTransferStatus P, e_collection_status := palmpay_getCollectionOrderStatus P,
     e_lookup_account_name := (\<lambda>w _ code account. palmpay_lookupAccountName P w code account),
     e_create_va := palmpay_createVirtualAccount P\<rparr>"

section \<open>What the signature covers\<close>

definition plain_field :: "string \<times> string \<Rightarrow> bool" where
  "plain_field kt \<longleftrightarrow> CHR ''='' \<notin> set (fst kt) \<and> CHR ''&'' \<notin> set (fst kt) \<and> CHR ''&'' \<notin> set (snd kt)"

text \<open>The fields can be read back from the signed text: split at the ampersands, then at the first equals sign.\<close>

definition read_signed :: "string \<Rightarrow> (string \<times> string) list" where
  "read_signed t = map (\<lambda>p. (takeWhile (\<lambda>c. c \<noteq> CHR ''='') p, tl (dropWhile (\<lambda>c. c \<noteq> CHR ''='') p))) (split_at CHR ''&'' t)"

lemma read_signed_text:
  assumes "list_all plain_field (signed_fields ps)" and "signed_fields ps \<noteq> []"
  shows "read_signed (signed_text ps) = signed_fields ps"
proof -
  let ?join = "\<lambda>(k, t). k @ ''='' @ t :: string"
  have field: "(takeWhile (\<lambda>c. c \<noteq> CHR ''='') (?join kt), tl (dropWhile (\<lambda>c. c \<noteq> CHR ''='') (?join kt))) = kt"
    if "plain_field kt" for kt
  proof -
    obtain k t where kt: "kt = (k, t)" by (cases kt)
    have "\<forall>c\<in>set k. c \<noteq> CHR ''=''" using that by (auto simp: kt plain_field_def)
    then have "takeWhile (\<lambda>c. c \<noteq> CHR ''='') (k @ ''='' @ t) = k" "dropWhile (\<lambda>c. c \<noteq> CHR ''='') (k @ ''='' @ t) = ''='' @ t"
      by (induction k) auto
    then show ?thesis by (simp add: kt)
  qed
  have "split_at CHR ''&'' (signed_text ps) = map ?join (signed_fields ps)"
    unfolding signed_text_def
    by (rule split_join) (use assms in \<open>auto simp: list_all_iff plain_field_def\<close>)
  then show ?thesis
    using assms(1) field by (simp add: read_signed_def list_all_iff map_idI)
qed

text \<open>The order in which an object lists its members does not matter, nor do members that are null or empty.\<close>

lemma signed_text_order:
  assumes "distinct (map fst (filter filled ps))" and "mset (filter filled ps) = mset (filter filled qs)"
  shows "signed_text ps = signed_text qs"
proof -
  have "distinct (map fst (filter filled qs))"
    using assms mset_eq_imp_distinct_iff[of "map fst (filter filled ps)" "map fst (filter filled qs)"]
    by (simp del: mset_filter)
  moreover have "set (filter filled ps) = set (filter filled qs)" using assms(2) by (rule mset_eq_setD)
  ultimately have "sort_key fst (filter filled ps) = sort_key fst (filter filled qs)"
    using assms(1) by (intro map_sorted_distinct_set_unique[where f = fst])
      (auto simp: distinct_map inj_on_def simp flip: mset_filter dest: mset_eq_setD)
  then show ?thesis by (simp add: signed_text_def signed_fields_def)
qed

definition unsigned :: "params \<Rightarrow> params" where
  "unsigned ps = filter (\<lambda>(k, _). k \<noteq> ''sign'') ps"


section \<open>The name on a virtual account\<close>

definition tidy :: "string \<Rightarrow> bool" where
  "tidy s \<longleftrightarrow> successively (\<lambda>a b. \<not> (is_space a \<and> is_space b)) s \<and> list_all (\<lambda>c. is_space c \<longrightarrow> c = CHR '' '') s"

lemma tidy_append: "tidy (a @ b) \<Longrightarrow> tidy a \<and> tidy b"
  by (auto simp: tidy_def successively_append_iff)

lemma tidy_rev [simp]: "tidy (rev s) = tidy s"
proof -
  have "(\<lambda>x y. \<not> (is_space y \<and> is_space x)) = (\<lambda>x y. \<not> (is_space x \<and> is_space y))" by (intro ext) blast
  then show ?thesis by (simp only: tidy_def successively_rev list_all_rev)
qed

lemma tidy_dropWhile: "tidy s \<Longrightarrow> tidy (dropWhile p s)"
  using tidy_append[of "takeWhile p s" "dropWhile p s"] by simp

lemma tidy_trim: "tidy s \<Longrightarrow> tidy (trim s)"
  by (simp add: trim_def tidy_dropWhile)

lemma hd_collapse: "s \<noteq> [] \<Longrightarrow> \<not> is_space (hd s) \<Longrightarrow> hd (collapse_blanks s) = hd s"
  by (cases s) auto

lemma tidy_collapse: "tidy (collapse_blanks s)"
proof (induction s rule: collapse_blanks.induct)
  case (2 c cs)
  show ?case
  proof (cases "is_space c")
    case True
    have "collapse_blanks (dropWhile is_space cs) = [] \<or> \<not> is_space (hd (collapse_blanks (dropWhile is_space cs)))"
      using hd_collapse[of "dropWhile is_space cs"] hd_dropWhile[of is_space cs] collapse_blanks.simps(1) by metis
    then show ?thesis using 2(1)[OF True] True by (auto simp: tidy_def successively_Cons)
  next
    case False
    then show ?thesis using 2(2)[OF False] by (auto simp: tidy_def successively_Cons)
  qed
qed (simp add: tidy_def)

lemma collapse_tidy: "tidy s \<Longrightarrow> collapse_blanks s = s"
proof (induction s)
  case (Cons c cs)
  have "tidy cs" using tidy_append[of "[c]" cs] Cons.prems by simp
  moreover have "dropWhile is_space cs = cs" if "is_space c"
    using that Cons.prems by (cases cs) (auto simp: tidy_def successively_Cons)
  ultimately show ?case using Cons by (auto simp: tidy_def)
qed simp

lemma dropWhile_fixed: "s = [] \<or> \<not> p (hd s) \<Longrightarrow> dropWhile p s = s"
  by (cases s) auto

lemma trim_trim: "trim (trim s) = trim s"
proof -
  let ?d = "dropWhile is_space s"
  let ?r = "rev (dropWhile is_space (rev ?d))"
  have "?r = [] \<or> \<not> is_space (last ?r)" using hd_dropWhile[of is_space "rev ?d"] by (auto simp: last_rev)
  moreover have "?r = [] \<or> hd ?r = hd ?d"
    by (metis append_is_Nil_conv hd_append rev_append rev_rev_ident takeWhile_dropWhile_id)
  then have "?r = [] \<or> \<not> is_space (hd ?r)" using hd_dropWhile[of is_space s] by fastforce
  ultimately show ?thesis by (simp add: trim_def dropWhile_fixed hd_rev)
qed

lemma set_trim: "set (trim s) \<subseteq> set s"
  by (metis set_dropWhileD set_rev subsetI trim_def)

lemma set_collapse: "set (collapse_blanks s) \<subseteq> insert CHR '' '' (set s)"
  by (induction s rule: collapse_blanks.induct) (auto dest: set_dropWhileD)

text \<open>The name that is stored has no merchant in parentheses and no stray blanks, and cleaning it
  again, as the backfill script does, changes nothing.\<close>

theorem merchant_suffix_is_gone:
  "CHR ''('' \<notin> set (stripMerchantSuffix name) \<and> tidy (stripMerchantSuffix name) \<and>
   stripMerchantSuffix (stripMerchantSuffix name) = stripMerchantSuffix name"
proof -
  let ?t = "collapse_blanks (takeWhile (\<lambda>c. c \<noteq> CHR ''('') name)"
  have "CHR ''('' \<notin> set ?t" using set_collapse[of "takeWhile (\<lambda>c. c \<noteq> CHR ''('') name"] by (auto dest: set_takeWhileD)
  then have no: "CHR ''('' \<notin> set (trim ?t)" using set_trim[of ?t] by blast
  have "takeWhile (\<lambda>c. c \<noteq> CHR ''('') (trim ?t) = trim ?t" by (subst takeWhile_eq_all_conv) (use no in blast)
  moreover have tidy: "tidy (trim ?t)" by (rule tidy_trim[OF tidy_collapse])
  ultimately have "stripMerchantSuffix (trim ?t) = trim ?t"
    by (simp only: stripMerchantSuffix_def collapse_tidy[OF tidy] trim_trim)
  then show ?thesis using no tidy unfolding stripMerchantSuffix_def[of name] by blast
qed

section \<open>The list of banks is never older than an hour\<close>

fun bank_calls :: "palmpay_api \<Rightarrow> world list \<Rightarrow> bank_cache \<Rightarrow> (string + bank list) list" where
  "bank_calls P [] cache = []"
| "bank_calls P (w # ws) cache = (case listBanks P w cache of (r, cache') \<Rightarrow> r # bank_calls P ws cache')"

definition fresh_at :: "palmpay_api \<Rightarrow> world list \<Rightarrow> world \<Rightarrow> bank list \<Rightarrow> bool" where
  "fresh_at P asked w banks \<longleftrightarrow> (\<exists>v\<in>set asked. fetch_banks P v = Inr banks \<and> w_clock v \<le> w_clock w \<and>
     w_clock w < w_clock v + BANK_LIST_CACHE_TTL_MS)"

lemma listBanks_cases:
  obtains (cached) banks t where "cache = Some (banks, t)" "w_clock w < t" "listBanks P w cache = (Inr banks, cache)"
  | (failed) m where "listBanks P w cache = (Inl m, cache)"
  | (fetched) banks where "fetch_banks P w = Inr banks"
      "listBanks P w cache = (Inr banks, Some (banks, w_clock w + BANK_LIST_CACHE_TTL_MS))"
proof -
  have fetch: thesis if "listBanks P w cache = (case fetch_banks P w of Inl m \<Rightarrow> (Inl m, cache)
      | Inr banks \<Rightarrow> (Inr banks, Some (banks, w_clock w + BANK_LIST_CACHE_TTL_MS)))"
    using that failed fetched by (cases "fetch_banks P w") auto
  show thesis
  proof (cases cache)
    case None
    show thesis by (rule fetch) (simp add: listBanks_def None split: sum.split)
  next
    case (Some c)
    obtain banks t where c: "c = (banks, t)" by (cases c)
    show thesis
    proof (cases "w_clock w < t")
      case True
      then show thesis using Some c by (intro cached) (simp_all add: listBanks_def)
    next
      case False
      then show thesis by (intro fetch) (simp add: listBanks_def Some c split: sum.split)
    qed
  qed
qed

lemma bank_calls_fresh:
  assumes "case cache of None \<Rightarrow> True | Some (banks, t) \<Rightarrow>
      \<exists>v\<in>set asked. fetch_banks P v = Inr banks \<and> t = w_clock v + BANK_LIST_CACHE_TTL_MS"
    and "sorted (map w_clock (asked @ ws))" and "i < length ws" and "bank_calls P ws cache ! i = Inr banks"
  shows "fresh_at P (asked @ take (Suc i) ws) (ws ! i) banks"
  using assms
proof (induction ws arbitrary: asked cache i)
  case (Cons w ws)
  have before: "w_clock v \<le> w_clock w" if "v \<in> set asked" for v
    using that Cons.prems(2) by (auto simp: sorted_append)
  have now: "fetch_banks P w = Inr banks \<Longrightarrow> fresh_at P (asked @ [w]) w banks" for banks
    by (auto simp: fresh_at_def BANK_LIST_CACHE_TTL_MS_def)
  let ?keeps = "\<lambda>cache asked. case cache of None \<Rightarrow> True | Some (banks, t) \<Rightarrow>
      \<exists>v\<in>set asked. fetch_banks P v = Inr banks \<and> t = w_clock v + BANK_LIST_CACHE_TTL_MS"
  obtain r cache' where call: "listBanks P w cache = (r, cache')" by (cases "listBanks P w cache")
  have first: "?keeps cache' (asked @ [w]) \<and> (\<forall>bs. r = Inr bs \<longrightarrow> fresh_at P (asked @ [w]) w bs)"
    using Cons.prems(1) call now
    by (cases rule: listBanks_cases[where cache = cache and w = w and P = P]) (auto simp: fresh_at_def before split: option.splits)
  show ?case
  proof (cases i)
    case 0
    then show ?thesis using Cons.prems(4) call first by simp
  next
    case (Suc j)
    then show ?thesis
      using Cons.IH[where cache = cache' and asked = "asked @ [w]" and i = j] Cons.prems(2-4) call first by simp
  qed
qed simp

text \<open>However often the list of banks is asked for, what is shown was fetched from the provider less than
  an hour before, by one of the requests up to then; a provider that does not answer never makes an
  older list reappear.\<close>

theorem bank_list_is_recent:
  assumes "sorted (map w_clock ws)" and "i < length ws" and "bank_calls P ws None ! i = Inr banks"
  shows "\<exists>j\<le>i. fetch_banks P (ws ! j) = Inr banks \<and> w_clock (ws ! i) < w_clock (ws ! j) + 3600000"
proof -
  have "fresh_at P (take (Suc i) ws) (ws ! i) banks" using bank_calls_fresh[where cache = None and asked = "[]"] assms by simp
  then obtain j where "j < Suc i" "fetch_banks P (ws ! j) = Inr banks" "w_clock (ws ! i) < w_clock (ws ! j) + 3600000"
    using assms(2) by (auto simp: fresh_at_def in_set_conv_nth BANK_LIST_CACHE_TTL_MS_def)
  then show ?thesis by (intro exI[of _ j]) simp
qed

section \<open>Kobo\<close>

text \<open>An amount of naira with two decimals survives the trip through kobo: what is sent to the provider is the
  whole number of kobo, small enough to be a number of JavaScript, and the division with which the
  webhook reads an amount gives the naira back.\<close>

theorem kobo_round_trip:
  assumes "on_scale 2 amount" and "\<bar>amount\<bar> \<le> 9 * 10 ^ 13"
  shows "amount_kobo js_decimals amount = amount * 100 \<and> amount * 100 \<in> \<int> \<and> \<bar>amount * 100\<bar> < 2 ^ 53 \<and>
    ddiv js_decimals (amount_kobo js_decimals amount) 100 = amount"
proof -
  have whole: "amount * 100 \<in> \<int>" using assms(1) by (simp add: on_scale_def)
  then have scale: "on_scale 0 (amount * 100)" by (simp add: on_scale_def)
  have "dmul js_decimals amount 100 = amount * 100"
    unfolding dmul_def by (rule js.round_exact[OF scale]) (use assms(2) in \<open>simp add: abs_mult\<close>)
  moreover have "d_fixed js_decimals 0 (amount * 100) = amount * 100"
    using js.col_exact[OF scale] by (simp add: js_decimals_def)
  ultimately have kobo: "amount_kobo js_decimals amount = amount * 100" by (simp add: amount_kobo_def)
  have "ddiv js_decimals (amount * 100) 100 = amount"
    unfolding ddiv_def by (simp, rule js.round_exact[OF assms(1)]) (use assms(2) in simp)
  then show ?thesis using whole kobo assms(2) by (simp add: abs_mult)
qed

section \<open>What an answer means\<close>

text \<open>An answer that reports a failure of the query still settles the transfer when it comes with the data of a failed order:
  the code of the answer is not looked at.\<close>

lemma failed_query_settles_transfer:
  assumes "palmpay_post P ''/api/v2/merchant/payment/queryPayStatus'' [(''orderId'', JString r)] (pay_status_schema P) w = Inr reply"
    and "data_field ps_orderStatus reply = Some 3"
  shows "\<exists>s. palmpay_getTransferStatus P w r = Inr s \<and> ts_state s = transfer_failed"
  using assms by (simp add: palmpay_getTransferStatus_def transfer_verdict_def ORDER_STATUS_SUCCESS_def ORDER_STATUS_FAILED_def)

lemma collection_answer_credits:
  "cs_state (collection_answer reply) = collection_successful \<Longrightarrow>
     py_respCode reply = RESP_CODE_SUCCESS \<and> data_field cd_orderStatus reply = Some 1 \<and>
     cs_amount_kobo (collection_answer reply) = data_field cd_orderAmount reply"
  "cs_state (collection_answer reply) = collection_not_found \<Longrightarrow> py_respCode reply = RESP_CODE_ORDER_NOT_FOUND"
  by (auto simp: collection_answer_def Let_def COLLECTION_SUCCESS_def split: if_splits)

text \<open>C22. With PalmPay as the provider, the ledger moves on a notice only when the lookup of its order was answered, and
  the answer either reports success, order status one and exactly the amount of the notice, or
  cannot find the order, and then the notice carries a signature.\<close>

theorem palmpay_confirms_repayments:
  assumes "collection_handle (palmpay_env P V) (Some p) w = (out, w')" and "repayments (w_db w') \<noteq> repayments (w_db w)"
  shows "\<exists>reply. palmpay_post P ''/api/v2/virtual/order/detail'' [(''orderNo'', JString (cn_orderNo p))] (collection_schema P) w = Inr reply \<and>
    (py_respCode reply = ''00000000'' \<and> data_field cd_orderStatus reply = Some 1 \<and>
       data_field cd_orderAmount reply = Some (cn_orderAmount p) \<or>
     py_respCode reply = ''00000001'' \<and> present (cn_sign p) \<noteq> None)"
proof -
  have "lookup_allows (palmpay_env P V) p w" using collection_moves_books[OF assms] by blast
  then obtain st where "palmpay_getCollectionOrderStatus P w (cn_orderNo p) = Inr st"
    and st: "cs_state st = collection_successful \<and> cs_amount_kobo st = Some (cn_orderAmount p) \<or>
      cs_state st = collection_not_found \<and> present (cn_sign p) \<noteq> None"
    by (auto simp: lookup_allows_def palmpay_env_def)
  then obtain reply where "palmpay_post P ''/api/v2/virtual/order/detail'' [(''orderNo'', JString (cn_orderNo p))] (collection_schema P) w = Inr reply"
    "st = collection_answer reply"
    by (auto simp: palmpay_getCollectionOrderStatus_def map_sum_def split: sum.splits)
  then show ?thesis
    using st collection_answer_credits[of reply] by (auto simp: RESP_CODE_SUCCESS_def RESP_CODE_ORDER_NOT_FOUND_def)
qed

section \<open>Examples\<close>

definition sample_answer :: json where
  "sample_answer = JObject [(''respCode'', JString ''00000000''), (''respMsg'', JString ''success''),
     (''data'', JObject [(''orderStatus'', JNumber ''1''), (''orderAmount'', JNumber ''2000000'')])]"

definition sample_banks :: json where
  "sample_banks = JObject [(''respCode'', JString ''00000000''), (''respMsg'', JString ''success''),
     (''data'', JArray [JObject [(''bankCode'', JString ''1''), (''bankName'', JString ''First'')]])]"

definition first_notice :: params where
  "first_notice = [(''orderNo'', JString ''o9''), (''sign'', JString ''currency=NGN&orderNo=o9''), (''currency'', JString ''NGN'')]"

definition second_notice :: params where
  "second_notice = [(''reference'', JNull), (''currency'', JString ''NGN''), (''orderNo'', JString ''o9''),
     (''sign'', JString ''currency=NGN&orderNo=o9'')]"

text \<open>A provider whose answers are the path that was asked, read by the operation; a signature is the signed text itself.\<close>

definition sample_palmpay :: palmpay_api where
  "sample_palmpay = \<lparr>pa_fetch = \<lambda>_ path _ _. Inr (200, path),
     pa_parse = \<lambda>t. Some (if t = ''first'' then JObject first_notice else if t = ''second'' then JObject second_notice
       else if t = ''/api/v2/virtual/order/detail'' then sample_answer else sample_banks),
     pa_number = \<lambda>t. if t = ''1'' then 1 else 2000000, pa_nonce = \<lambda>_. ''n'', pa_md5 = \<lambda>t. t, pa_sign = \<lambda>t. t,
     pa_pem_key = \<lambda>k. Some k, pa_der_key = \<lambda>k. Some k, pa_decode_signature = \<lambda>s. Some s,
     pa_verify = \<lambda>_ t raw. Some (t = raw), pa_merchant_id = ''m'', pa_webhook_pub_key = ''k'', pa_allow_unsigned = False\<rparr>"

definition forged_notice :: params where
  "forged_notice = [(''orderNo'', JString ''o7''), (''sign'', JString ''currency=NGN&orderNo=o9''), (''currency'', JString ''NGN'')]"

text \<open>One whose signature scheme is broken: every signature verifies every text.\<close>

definition careless_palmpay :: palmpay_api where
  "careless_palmpay = sample_palmpay\<lparr>pa_parse := \<lambda>t. Some (JObject (if t = ''first'' then first_notice else forged_notice)),
     pa_verify := \<lambda>_ _ _. Some True\<rparr>"

lemma sample_key: "load_webhook_pub_key sample_palmpay = Some ''k''"
  by (simp add: load_webhook_pub_key_def sample_palmpay_def contains_def trim_def is_space_def Let_def)

lemma notice_fields:
  "filter filled (unsigned first_notice) = [(''orderNo'', JString ''o9''), (''currency'', JString ''NGN'')]"
  "filter filled (unsigned second_notice) = [(''currency'', JString ''NGN''), (''orderNo'', JString ''o9'')]"
  "signed_fields (unsigned first_notice) = [(''currency'', ''NGN''), (''orderNo'', ''o9'')]"
  "signed_fields (unsigned forged_notice) = [(''currency'', ''NGN''), (''orderNo'', ''o7'')]"
  by code_simp+


lemma sample_fetch: "fetch_banks sample_palmpay w = Inr [\<lparr>bk_code = ''1'', bk_name = ''First'', bk_logo_url = None\<rparr>]"
  by (simp add: fetch_banks_def palmpay_post_def sample_palmpay_def sample_banks_def reply_schema_def need_string_def
      bank_list_schema_def bank_schema_def RESP_CODE_SUCCESS_def or_else_def)

theorem bank_list_is_recent_witness:
  "\<exists>j\<le>1. fetch_banks sample_palmpay ([empty_world, empty_world\<lparr>w_clock := 1800000\<rparr>] ! j) =
       Inr [\<lparr>bk_code = ''1'', bk_name = ''First'', bk_logo_url = None\<rparr>]"
proof -
  let ?ws = "[empty_world, empty_world\<lparr>w_clock := 1800000\<rparr>]"
  have "bank_calls sample_palmpay ?ws None ! 1 = Inr [\<lparr>bk_code = ''1'', bk_name = ''First'', bk_logo_url = None\<rparr>]"
    by (simp add: listBanks_def sample_fetch BANK_LIST_CACHE_TTL_MS_def empty_world_def)
  from bank_list_is_recent[OF _ _ this] show ?thesis by (simp add: empty_world_def) blast
qed

theorem kobo_round_trip_witness:
  "amount_kobo js_decimals 5000.55 = 500055 \<and> ddiv js_decimals (amount_kobo js_decimals 5000.55) 100 = 5000.55"
  using kobo_round_trip[of "5000.55"] by (auto simp: on_scale_def)

lemma sample_collection:
  "palmpay_getCollectionOrderStatus sample_palmpay w r = Inr \<lparr>cs_state = collection_successful, cs_amount_kobo = Some 2000000,
     cs_virtual_account_no = None, cs_failure_reason = None\<rparr>"
  by (simp add: palmpay_getCollectionOrderStatus_def palmpay_post_def sample_palmpay_def sample_answer_def reply_schema_def
      need_string_def may_string_def may_number_def all_optional_def collection_schema_def collection_answer_def
      data_field_def RESP_CODE_SUCCESS_def RESP_CODE_ORDER_NOT_FOUND_def COLLECTION_SUCCESS_def)

theorem palmpay_confirms_repayments_witness:
  "\<exists>out w'. collection_handle (palmpay_env sample_palmpay toy_env) (Some (sample_notice 2000000)) (collection_world active_loan) = (out, w') \<and>
     repayments (w_db w') \<noteq> [] \<and>
     (\<exists>reply. palmpay_post sample_palmpay ''/api/v2/virtual/order/detail'' [(''orderNo'', JString ''o9'')]
        (collection_schema sample_palmpay) (collection_world active_loan) = Inr reply)"
proof -
  let ?V = "palmpay_env sample_palmpay toy_env" and ?w = "collection_world active_loan"
  have env: "e_collection_status ?V w r = e_collection_status (confirming_env 2000000) w r" "e_dec ?V = js_decimals"
    "\<not> e_fault ?V f w" for w r f
    by (simp_all add: palmpay_env_def sample_collection toy_env_def)
  have "wp (collection_handle ?V (Some (sample_notice 2000000))) (\<lambda>_ w'. repayments (w_db w') \<noteq> []) (\<lambda>_ _. False) ?w"
    by (simp add: env collection_handle_def collection_for_user_def collection_verify_def collection_credit_def upsert_inflow_def
        creditInflow_def send_receipt_def credit_tx_def credit_active_def close_loan_def transition_from_def wp_transition Let_def
        present_def wp_simps table_ops kobo_exact MIN_PARTIAL_REPAYMENT_NGN_def collected_inflow_def)
  then obtain out w' where r: "collection_handle ?V (Some (sample_notice 2000000)) ?w = (Inr out, w')"
    "repayments (w_db w') \<noteq> repayments (w_db ?w)" using wp_runD by fastforce
  from palmpay_confirms_repayments[OF r] r show ?thesis by auto
qed

end
