(* ===== verification/BlinkProvider.thy ===== *)
theory BlinkProvider
  imports CollateralRelease JsText JsonShape
begin

text \<open>
  \<open>providers/blink\<close>: the client of the Lightning wallet that takes collateral in and sends it back.
  Modelled are the variables of each query, the reading of the answer with the error envelope of
  GraphQL, what each operation makes of it, the routing of an address that Blink hosts itself, and the check
  of a delivery's signature. Parameters are the exchange (a function of the world, the name of
  the query and its variables to a failure or a decoded body), the reading of a number, the message
  authentication code and the decoding of its key. A call that throws one of the service's own exceptions is a
  failure with its name. Log lines are left out; offsets of prices are whole numbers.
\<close>

section \<open>The exchange\<close>

record blink_api =
  ba_fetch :: "world \<Rightarrow> string \<Rightarrow> params \<Rightarrow> string + json"
  ba_number :: "string \<Rightarrow> rat"
  ba_wallet_btc_id :: string
  ba_wallet_usd_id :: string
  ba_account_id :: string
  ba_webhook_secret :: string
  ba_secret_bytes :: "string \<Rightarrow> string"
  ba_hmac :: "string \<Rightarrow> string \<Rightarrow> string"

text \<open>The message of a top-level error envelope: no data, and a non-empty array of errors.\<close>

definition envelope_error :: "json \<Rightarrow> string option" where
  "envelope_error j =
     (case j of
        JObject ps \<Rightarrow>
          (case (map_of ps ''data'', map_of ps ''errors'') of
             (d, Some (JArray es)) \<Rightarrow>
               if d \<in> {None, Some JNull} \<and> es \<noteq> []
               then Some (join_with '', '' (map (\<lambda>e. case e of JObject fs \<Rightarrow> or_else (need_string fs ''message'') ''unknown''
                                                   | _ \<Rightarrow> ''unknown'') es))
               else None
           | _ \<Rightarrow> None)
      | _ \<Rightarrow> None)"

definition graphql :: "blink_api \<Rightarrow> string \<Rightarrow> params \<Rightarrow> (json \<Rightarrow> 'r option) \<Rightarrow> world \<Rightarrow> string + 'r" where
  "graphql B query variables schema w =
     (case ba_fetch B w query variables of
        Inl m \<Rightarrow> Inl m
      | Inr j \<Rightarrow>
          (case envelope_error j of
             Some reason \<Rightarrow> Inl (''Blink GraphQL error: '' @ reason)
           | None \<Rightarrow> (case schema j of None \<Rightarrow> Inl ''response failed schema validation'' | Some r \<Rightarrow> Inr r)))"

section \<open>Invoices\<close>

record blink_invoice =
  bi_payment_request :: string
  bi_payment_hash :: string

text \<open>An invoice that may be null, and the errors. Only an invoice for an amount is asked for its satoshis.\<close>

definition satoshis_ok :: "params \<Rightarrow> bool" where
  "satoshis_ok is = (case map_of is ''satoshis'' of
     None \<Rightarrow> True | Some JNull \<Rightarrow> True | Some (JNumber _) \<Rightarrow> True | _ \<Rightarrow> False)"

definition invoice_schema :: "string \<Rightarrow> json \<Rightarrow> (blink_invoice option \<times> string list) option" where
  "invoice_schema name j =
     (case under_data name j of
        None \<Rightarrow> None
      | Some fs \<Rightarrow>
          (case (map_of fs ''invoice'', error_messages [] fs) of
             (Some JNull, Some es) \<Rightarrow> Some (None, es)
           | (Some (JObject is), Some es) \<Rightarrow>
               (case (need_string is ''paymentRequest'', need_string is ''paymentHash'') of
                  (Some request_text, Some hash) \<Rightarrow>
                    if name = ''lnInvoiceCreate'' \<and> \<not> satoshis_ok is then None
                    else Some (Some \<lparr>bi_payment_request = request_text, bi_payment_hash = hash\<rparr>, es)
                | _ \<Rightarrow> None)
           | _ \<Rightarrow> None))"

definition expiry_minutes :: "int \<Rightarrow> int" where
  "expiry_minutes expiry_seconds = \<lceil>of_int expiry_seconds / (60 :: rat)\<rceil>"

definition blink_invoice_of ::
    "(string + (blink_invoice option \<times> string list)) \<Rightarrow> world \<Rightarrow> int \<Rightarrow> string + invoice" where
  "blink_invoice_of answer w expiry_seconds =
     (case answer of
        Inr (Some i, []) \<Rightarrow> Inr \<lparr>inv_provider_reference = bi_payment_hash i, inv_payment_request = bi_payment_request i,
          inv_receiving_address = bi_payment_hash i, inv_expires_at = w_clock w + expiry_seconds * 1000\<rparr>
      | Inr _ \<Rightarrow> Inl ''CollateralInvoiceFailedException''
      | Inl m \<Rightarrow> Inl m)"

definition blink_createPaymentRequest :: "blink_api \<Rightarrow> string \<Rightarrow> world \<Rightarrow> sats \<Rightarrow> int \<Rightarrow> string + invoice" where
  "blink_createPaymentRequest B memo w amount_sat expiry_seconds =
     blink_invoice_of
       (graphql B ''lnInvoiceCreate''
          [(''walletId'', JString (ba_wallet_btc_id B)), (''amount'', JNumber (show_int amount_sat)), (''memo'', JString memo),
           (''expiresIn'', JNumber (show_int (expiry_minutes expiry_seconds)))]
          (invoice_schema ''lnInvoiceCreate'') w) w expiry_seconds"

definition blink_createNoAmountInvoice :: "blink_api \<Rightarrow> string \<Rightarrow> world \<Rightarrow> int \<Rightarrow> string + invoice" where
  "blink_createNoAmountInvoice B memo w expiry_seconds =
     blink_invoice_of
       (graphql B ''lnNoAmountInvoiceCreate''
          [(''walletId'', JString (ba_wallet_btc_id B)), (''memo'', JString memo),
           (''expiresIn'', JNumber (show_int (expiry_minutes expiry_seconds)))]
          (invoice_schema ''lnNoAmountInvoiceCreate'') w) w expiry_seconds"

definition address_schema :: "json \<Rightarrow> (string option \<times> string list) option" where
  "address_schema j =
     (case under_data ''onChainAddressCreate'' j of
        None \<Rightarrow> None
      | Some fs \<Rightarrow>
          (case (map_of fs ''address'', error_messages [] fs) of
             (Some JNull, Some es) \<Rightarrow> Some (None, es)
           | (Some (JString a), Some es) \<Rightarrow> Some (Some a, es)
           | _ \<Rightarrow> None))"

definition blink_createOnchainAddress :: "blink_api \<Rightarrow> world \<Rightarrow> string + string" where
  "blink_createOnchainAddress B w =
     (case graphql B ''onChainAddressCreate'' [(''walletId'', JString (ba_wallet_btc_id B))] address_schema w of
        Inl m \<Rightarrow> Inl m
      | Inr (address, es) \<Rightarrow>
          (case present address of
             Some a \<Rightarrow> if es = [] then Inr a else Inl (''Blink onChainAddressCreate failed: '' @ join_with '', '' es)
           | None \<Rightarrow> Inl (''Blink onChainAddressCreate failed: '' @ join_with '', '' es)))"

section \<open>Payments\<close>

record blink_payment_reply =
  br_status :: string
  br_errors :: "string list"
  br_transaction :: "string option"

definition payment_schema :: "string \<Rightarrow> string list \<Rightarrow> json \<Rightarrow> blink_payment_reply option" where
  "payment_schema name optional j =
     (case under_data name j of
        None \<Rightarrow> None
      | Some fs \<Rightarrow>
          (case (need_string fs ''status'', error_messages optional fs) of
             (Some status, Some es) \<Rightarrow>
               if status \<notin> {''SUCCESS'', ''FAILURE'', ''PENDING''} then None
               else Some \<lparr>br_status = status, br_errors = es, br_transaction = None\<rparr>
           | _ \<Rightarrow> None))"

definition intraledger_schema :: "json \<Rightarrow> blink_payment_reply option" where
  "intraledger_schema j =
     (case (under_data ''intraLedgerPaymentSend'' j, payment_schema ''intraLedgerPaymentSend'' [''code''] j) of
        (Some fs, Some r) \<Rightarrow>
          (case map_of fs ''transaction'' of
             None \<Rightarrow> Some r
           | Some JNull \<Rightarrow> Some r
           | Some (JObject ts) \<Rightarrow> map_option (\<lambda>i. r\<lparr>br_transaction := Some i\<rparr>) (need_string ts ''id'')
           | _ \<Rightarrow> None)
      | _ \<Rightarrow> None)"

text \<open>A payment failed when its status says so or an error comes with it; a pending one did not.\<close>

definition payment_failed :: "blink_payment_reply \<Rightarrow> bool" where
  "payment_failed r \<longleftrightarrow> br_status r = ''FAILURE'' \<or> br_errors r \<noteq> []"

definition failure_reason :: "blink_payment_reply \<Rightarrow> string" where
  "failure_reason r = (if join_with '', '' (br_errors r) = [] then ''FAILURE'' else join_with '', '' (br_errors r))"

definition BLINK_HOSTED_LN_ADDRESS_DOMAINS :: "string list" where
  "BLINK_HOSTED_LN_ADDRESS_DOMAINS = [''blink.sv'', ''pay.blink.sv'']"

definition blinkHostedUsername :: "string \<Rightarrow> string option" where
  "blinkHostedUsername address =
     (case split_last CHR ''@'' address of
        None \<Rightarrow> None
      | Some (before, after) \<Rightarrow>
          if before = [] then None
          else let local_part = to_lower (trim before); domain = to_lower (trim after) in
            if domain \<notin> set BLINK_HOSTED_LN_ADDRESS_DOMAINS \<or> local_part = [] then None else Some local_part)"

definition wallet_schema :: "json \<Rightarrow> string option" where
  "wallet_schema j = (case under_data ''accountDefaultWallet'' j of None \<Rightarrow> None | Some fs \<Rightarrow> need_string fs ''id'')"

definition sent_reference :: "string \<Rightarrow> string \<Rightarrow> sats \<Rightarrow> world \<Rightarrow> string" where
  "sent_reference way address amount_sat w = way @ address @ '':'' @ show_int amount_sat @ '':'' @ show_int (w_clock w)"

definition sendIntraLedgerToUsername :: "blink_api \<Rightarrow> string \<Rightarrow> world \<Rightarrow> string \<Rightarrow> sats \<Rightarrow> string + string" where
  "sendIntraLedgerToUsername B memo w username amount_sat =
     (case graphql B ''accountDefaultWallet'' [(''username'', JString username), (''walletCurrency'', JString ''BTC'')] wallet_schema w of
        Inl m \<Rightarrow> Inl (''Blink sendToLightningAddress failed: could not resolve Blink user '' @ [CHR 0x22] @ username @ [CHR 0x22] @ '': '' @ m)
      | Inr recipient \<Rightarrow>
          (case graphql B ''intraLedgerPaymentSend''
                  [(''walletId'', JString (ba_wallet_btc_id B)), (''recipientWalletId'', JString recipient),
                   (''amount'', JNumber (show_int amount_sat)), (''memo'', JString memo)] intraledger_schema w of
             Inl m \<Rightarrow> Inl m
           | Inr r \<Rightarrow>
               if payment_failed r then Inl (''Blink sendToLightningAddress failed: '' @ failure_reason r)
               else Inr (case present (br_transaction r) of
                      Some i \<Rightarrow> ''blink:intraledger:'' @ i
                    | None \<Rightarrow> sent_reference ''blink:intraledger:'' (username @ ''@blink.sv'') amount_sat w)))"

definition blink_sendToLightningAddress :: "blink_api \<Rightarrow> string \<Rightarrow> world \<Rightarrow> string \<Rightarrow> sats \<Rightarrow> string + string" where
  "blink_sendToLightningAddress B memo w address amount_sat =
     (case blinkHostedUsername address of
        Some username \<Rightarrow> sendIntraLedgerToUsername B memo w username amount_sat
      | None \<Rightarrow>
          (case graphql B ''lnAddressPaymentSend''
                  [(''walletId'', JString (ba_wallet_btc_id B)), (''lnAddress'', JString address),
                   (''amount'', JNumber (show_int amount_sat))]
                  (payment_schema ''lnAddressPaymentSend'' [''code'', ''path'']) w of
             Inl m \<Rightarrow> Inl m
           | Inr r \<Rightarrow>
               if payment_failed r then Inl (''Blink sendToLightningAddress failed: '' @ failure_reason r)
               else Inr (sent_reference ''blink:ln_address:'' address amount_sat w)))"

definition blink_sendToOnchainAddress :: "blink_api \<Rightarrow> world \<Rightarrow> string \<Rightarrow> sats \<Rightarrow> string + string" where
  "blink_sendToOnchainAddress B w address amount_sat =
     (case graphql B ''onChainPaymentSend''
             [(''walletId'', JString (ba_wallet_btc_id B)), (''address'', JString address), (''amount'', JNumber (show_int amount_sat))]
             (payment_schema ''onChainPaymentSend'' [''code'']) w of
        Inl m \<Rightarrow> Inl m
      | Inr r \<Rightarrow>
          if payment_failed r then Inl (''Blink sendToOnchainAddress failed: '' @ failure_reason r)
          else Inr (sent_reference ''blink:onchain:'' address amount_sat w))"

definition blink_swapBtcToUsd :: "blink_api \<Rightarrow> world \<Rightarrow> sats \<Rightarrow> string + unit" where
  "blink_swapBtcToUsd B w amount_sat =
     (case graphql B ''intraLedgerPaymentSend''
             [(''walletId'', JString (ba_wallet_btc_id B)), (''recipientWalletId'', JString (ba_wallet_usd_id B)),
              (''amount'', JNumber (show_int amount_sat))] intraledger_schema w of
        Inl m \<Rightarrow> Inl m
      | Inr r \<Rightarrow> if payment_failed r then Inl (''Blink swapBtcToUsd failed: '' @ failure_reason r) else Inr ())"

section \<open>The price\<close>

definition price_schema :: "(string \<Rightarrow> rat) \<Rightarrow> json \<Rightarrow> (rat \<times> rat \<times> string) option" where
  "price_schema number j =
     (case under_data ''realtimePrice'' j of
        None \<Rightarrow> None
      | Some fs \<Rightarrow>
          (case map_of fs ''btcSatPrice'' of
             Some (JObject ps) \<Rightarrow>
               (case (map_of ps ''base'', map_of ps ''offset'', need_string ps ''currencyUnit'') of
                  (Some (JNumber base), Some (JNumber offset), Some unit) \<Rightarrow> Some (number base, number offset, unit)
                | _ \<Rightarrow> None)
           | _ \<Rightarrow> None))"

definition power_of_ten :: "rat \<Rightarrow> rat" where
  "power_of_ten offset = (if 0 \<le> offset then 10 ^ nat \<lfloor>offset\<rfloor> else 1 / 10 ^ nat \<lfloor>- offset\<rfloor>)"

definition blink_getBtcUsdRate :: "blink_api \<Rightarrow> decimals \<Rightarrow> world \<Rightarrow> string + rat" where
  "blink_getBtcUsdRate B D w =
     (case graphql B ''realtimePrice'' [(''currency'', JString ''USD'')] (price_schema (ba_number B)) w of
        Inl m \<Rightarrow> Inl m
      | Inr (base, offset, currencyUnit) \<Rightarrow>
          if currencyUnit \<noteq> ''MINOR''
          then Inl (''Blink getBtcUsdRate: unexpected currencyUnit '' @ currencyUnit @ '' (expected USDCENT)'')
          else let usdcent_per_sat = ddiv D base (d_round D (power_of_ten offset)) in
            Inr (dmul D (ddiv D usdcent_per_sat 100) SATS_PER_BTC))"

definition isOwnAccount :: "blink_api \<Rightarrow> string \<Rightarrow> bool" where
  "isOwnAccount B account_id \<longleftrightarrow> account_id = ba_account_id B"

section \<open>The signature of a delivery\<close>

record svix_headers =
  svix_id :: string
  svix_timestamp :: string
  svix_signature :: string

definition SVIX_TOLERANCE_SECONDS :: int where "SVIX_TOLERANCE_SECONDS = 300"

definition strip_prefix :: "string \<Rightarrow> string \<Rightarrow> string" where
  "strip_prefix p s = (if take (length p) s = p then drop (length p) s else s)"

definition expected_signature :: "blink_api \<Rightarrow> svix_headers \<Rightarrow> string \<Rightarrow> string" where
  "expected_signature B h raw_body =
     ba_hmac B (ba_secret_bytes B (strip_prefix ''whsec_'' (ba_webhook_secret B)))
       (svix_id h @ ''.'' @ svix_timestamp h @ ''.'' @ raw_body)"

definition blink_verifyWebhookSignature :: "blink_api \<Rightarrow> world \<Rightarrow> string \<Rightarrow> svix_headers \<Rightarrow> bool" where
  "blink_verifyWebhookSignature B w raw_body h =
     (if svix_id h = [] \<or> svix_timestamp h = [] \<or> svix_signature h = [] then False
      else case js_parse_int (svix_timestamp h) of
        None \<Rightarrow> False
      | Some ts \<Rightarrow>
          if \<bar>w_clock w div 1000 - ts\<bar> > SVIX_TOLERANCE_SECONDS then False
          else list_ex (\<lambda>sig. strip_prefix ''v1,'' sig = expected_signature B h raw_body)
                 (split_at CHR '' '' (svix_signature h)))"

definition blink_env :: "blink_api \<Rightarrow> string \<Rightarrow> env \<Rightarrow> env" where
  "blink_env B memo V = V\<lparr>e_create_payment_request := blink_createPaymentRequest B memo,
     e_create_no_amount_invoice := blink_createNoAmountInvoice B memo, e_send_lightning := blink_sendToLightningAddress B memo,
     e_btc_usd_rate := blink_getBtcUsdRate B (e_dec V)\<rparr>"

section \<open>Invoices outlive the payment request\<close>

text \<open>Blink is asked for whole minutes, at least as long as the books give the customer and less than a minute longer.\<close>

lemma expiry_minutes_bounds: "s \<le> 60 * expiry_minutes s \<and> 60 * expiry_minutes s < s + 60"
proof -
  have "of_int s / 60 \<le> (of_int (expiry_minutes s) :: rat)" "of_int (expiry_minutes s) < (of_int s / 60 + 1 :: rat)"
    unfolding expiry_minutes_def by linarith+
  then have "of_int s \<le> (of_int (60 * expiry_minutes s) :: rat)" "of_int (60 * expiry_minutes s) < (of_int (s + 60) :: rat)"
    by (simp_all add: field_simps)
  then show ?thesis by (simp only: of_int_le_iff of_int_less_iff)
qed

section \<open>Addresses of Blink itself\<close>

text \<open>An address on a domain of Blink, however its letters are cased and whatever blanks surround it, is paid
  inside the ledger.\<close>

lemma hosted_username:
  assumes "CHR ''@'' \<notin> set d" and "to_lower (trim d) \<in> {''blink.sv'', ''pay.blink.sv''}" and "u \<noteq> []" "to_lower (trim u) \<noteq> []"
  shows "blinkHostedUsername (u @ CHR ''@'' # d) = Some (to_lower (trim u))"
proof -
  have "split_last CHR ''@'' (u @ CHR ''@'' # d) = Some (u, d)" using assms(1) by (simp add: split_last_Some)
  then show ?thesis using assms(2-) by (auto simp: blinkHostedUsername_def BLINK_HOSTED_LN_ADDRESS_DOMAINS_def Let_def)
qed

lemma hosted_address_stays_inside:
  "blinkHostedUsername a = Some u \<Longrightarrow> blink_sendToLightningAddress B memo w a n = sendIntraLedgerToUsername B memo w u n"
  by (simp add: blink_sendToLightningAddress_def)

section \<open>The rate\<close>

lemma blink_rate:
  assumes "graphql B ''realtimePrice'' [(''currency'', JString ''USD'')] (price_schema (ba_number B)) w =
      Inr (of_nat base, of_nat offset, ''MINOR'')"
    and "base < 10 ^ 14" and "offset < 20"
  shows "blink_getBtcUsdRate B js_decimals w = Inr (of_nat base * 10 ^ 6 / 10 ^ offset)"
proof -
  have whole: "on_scale offset (of_nat base / 10 ^ offset :: rat)" "on_scale (offset + 2) (of_nat base / 10 ^ offset / 100 :: rat)"
    "on_scale offset (of_nat base / 10 ^ offset / 100 * 10 ^ 8 :: rat)"
    by (simp_all add: on_scale_def power_add)
  have small: "(of_nat base :: rat) < 10 ^ 14" using assms(2) by (metis of_nat_less_iff of_nat_numeral of_nat_power)
  have "(10 :: rat) ^ offset < 10 ^ 20" using assms(3) by (intro power_strict_increasing) simp_all
  then have ten: "d_round js_decimals (power_of_ten (of_nat offset)) = 10 ^ offset"
    unfolding power_of_ten_def by (simp, subst js.round_exact[of 0]) (simp_all add: on_scale_def)
  have "ddiv js_decimals (of_nat base) (10 ^ offset) = of_nat base / 10 ^ offset"
    unfolding ddiv_def by (rule js.round_exact[OF whole(1)]) (use small in simp)
  moreover have "ddiv js_decimals (of_nat base / 10 ^ offset) 100 = of_nat base / 10 ^ offset / 100"
    unfolding ddiv_def by (rule js.round_exact[OF whole(2)]) (use small in \<open>simp add: power_add\<close>)
  moreover have "dmul js_decimals (of_nat base / 10 ^ offset / 100) SATS_PER_BTC = of_nat base / 10 ^ offset / 100 * 10 ^ 8"
    unfolding dmul_def SATS_PER_BTC_def using js.round_exact[OF whole(3)] small by simp
  ultimately show ?thesis using assms(1) by (simp add: blink_getBtcUsdRate_def ten)
qed

section \<open>Deliveries\<close>

lemma strip_prefix_append [simp]: "strip_prefix p (p @ s) = s"
  by (simp add: strip_prefix_def)

lemma delivery_expires:
  assumes "blink_verifyWebhookSignature B w body h" and "blink_verifyWebhookSignature B w' body' h"
  shows "\<bar>w_clock w' - w_clock w\<bar> < 601000"
proof -
  obtain ts where "\<bar>w_clock w div 1000 - ts\<bar> \<le> 300" "\<bar>w_clock w' div 1000 - ts\<bar> \<le> 300"
    using assms by (auto simp: blink_verifyWebhookSignature_def SVIX_TOLERANCE_SECONDS_def not_less split: if_splits option.splits)
  then show ?thesis by linarith
qed

text \<open>C24. A delivery with a printed timestamp and signatures of the first version is accepted exactly when the
  timestamp lies at most five minutes from the clock, before or after, and one of the signatures is the expected
  one; whatever was accepted once is refused ten minutes and a second later, and as much earlier.\<close>

theorem delivery_is_signed_and_fresh:
  assumes "svix_id h \<noteq> []" and "svix_timestamp h = show_nat ts"
    and "svix_signature h = join_with '' '' (map ((@) ''v1,'') sigs)" and "sigs \<noteq> []" and "\<forall>s\<in>set sigs. CHR '' '' \<notin> set s"
  shows "(blink_verifyWebhookSignature B w body h \<longleftrightarrow>
      \<bar>w_clock w div 1000 - int ts\<bar> \<le> 300 \<and> expected_signature B h body \<in> set sigs) \<and>
    (blink_verifyWebhookSignature B w body h \<and> blink_verifyWebhookSignature B w' body' h \<longrightarrow> \<bar>w_clock w' - w_clock w\<bar> < 601000)"
proof -
  have ps: "split_at CHR '' '' (svix_signature h) = map ((@) ''v1,'') sigs"
    unfolding assms(3) by (rule split_join) (use assms(4,5) in auto)
  obtain s ss where "sigs = s # ss" using assms(4) by (cases sigs) auto
  then have "svix_signature h \<noteq> []" using assms(3) by (cases ss) simp_all
  moreover have "js_parse_int (show_nat ts) = Some (int ts)" using parse_show_nat[of "[]" ts] by simp
  ultimately show ?thesis
    using assms(1,2) ps show_nat_not_minus[of ts] delivery_expires[of B w body h w' body']
    by (auto simp: blink_verifyWebhookSignature_def SVIX_TOLERANCE_SECONDS_def list_ex_iff simp del: append.simps)
qed

section \<open>What a release does with the answer\<close>

lemma payment_status:
  "payment_schema name optional j = Some r \<Longrightarrow> br_status r \<in> {''SUCCESS'', ''FAILURE'', ''PENDING''}"
  by (auto simp: payment_schema_def split: option.splits if_splits)

lemma graphql_answer:
  assumes "graphql B query variables schema w = Inr r"
  obtains j where "ba_fetch B w query variables = Inr j" "schema j = Some r"
  using assms by (auto simp: graphql_def split: sum.splits option.splits)

text \<open>What Blink answers to the payment itself: for one of its own addresses a payment to the wallet of that user, once the
  user is resolved, and a payment to the address otherwise.\<close>

definition payment_answer :: "blink_api \<Rightarrow> string \<Rightarrow> string \<Rightarrow> sats \<Rightarrow> world \<Rightarrow> string + blink_payment_reply" where
  "payment_answer B memo address amount_sat w =
     (case blinkHostedUsername address of
        None \<Rightarrow> graphql B ''lnAddressPaymentSend''
          [(''walletId'', JString (ba_wallet_btc_id B)), (''lnAddress'', JString address), (''amount'', JNumber (show_int amount_sat))]
          (payment_schema ''lnAddressPaymentSend'' [''code'', ''path'']) w
      | Some username \<Rightarrow>
          (case graphql B ''accountDefaultWallet'' [(''username'', JString username), (''walletCurrency'', JString ''BTC'')] wallet_schema w of
             Inl m \<Rightarrow> Inl m
           | Inr recipient \<Rightarrow> graphql B ''intraLedgerPaymentSend''
               [(''walletId'', JString (ba_wallet_btc_id B)), (''recipientWalletId'', JString recipient),
                (''amount'', JNumber (show_int amount_sat)), (''memo'', JString memo)] intraledger_schema w))"

lemma payment_answer_status:
  "payment_answer B memo a n w = Inr r \<Longrightarrow> br_status r \<in> {''SUCCESS'', ''FAILURE'', ''PENDING''}"
  using payment_status
  by (fastforce simp: payment_answer_def intraledger_schema_def elim!: graphql_answer split: option.splits sum.splits json.splits)

lemma payment_answer_sends:
  assumes "payment_answer B memo a n w = Inr r"
  shows "(\<exists>ref. blink_sendToLightningAddress B memo w a n = Inr ref) \<longleftrightarrow> \<not> payment_failed r"
  using assms
  by (auto simp: payment_answer_def blink_sendToLightningAddress_def sendIntraLedgerToUsername_def split: option.splits sum.splits)

text \<open>C39. With Blink as the wallet, a release whose payment Blink answered, to an address of its own or elsewhere, is booked as done
  exactly when the answer carries no errors and says that the payment succeeded or that it is pending: the loan is stamped with the time
  and a reference, and the customer is told. So a pending payment, which may still fail, is booked like one that
  arrived. With any other answer the loans stay as they are.\<close>

theorem release_follows_blink_status:
  assumes "wf_table loan_table w" and "release_due w i l address" and "live w (COLLATERAL_RELEASE_LOCK i) = None"
    and "payment_answer B memo address (l_collateral_amount_sat l) (under_lock i w) = Inr r"
    and "\<And>v. \<not> e_fault V (ReleaseStampFault i) v"
  shows "if br_errors r = [] \<and> br_status r \<in> {''SUCCESS'', ''PENDING''}
    then \<exists>ref w'. releaseForLoan (blink_env B memo V) i w = (Inr (Released ref), w') \<and>
        find_row l_id i (loans (w_db w')) =
          Some (l\<lparr>l_collateral_released_at := Some (w_clock w), l_collateral_release_reference := Some ref\<rparr>) \<and>
        MailSent (l_user_id l) (CollateralReleasedMail i ref) \<in> set (w_outbox w')
    else \<exists>reason w'. releaseForLoan (blink_env B memo V) i w = (Inr (SendFailed reason), w') \<and> loans (w_db w') = loans (w_db w)"
proof -
  let ?V = "blink_env B memo V"
  have good: "br_errors r = [] \<and> br_status r \<in> {''SUCCESS'', ''PENDING''} \<longleftrightarrow> \<not> payment_failed r"
    using payment_answer_status[OF assms(4)] by (auto simp: payment_failed_def)
  have sent: "(\<exists>ref. e_send_lightning ?V (under_lock i w) address (l_collateral_amount_sat l) = Inr ref) \<longleftrightarrow> \<not> payment_failed r"
    using payment_answer_sends[OF assms(4)] by (simp add: blink_env_def)
  have l: "unique_keys l_id (loans (w_db w))" "find_row l_id i (loans (w_db w)) = Some l" "l_collateral_released_at l = None"
    using assms(1,2) by (simp_all add: wf_table_def table_rows release_due_def)
  show ?thesis
  proof (cases rule: release_cases[of ?V i w])
    case (due l' a r' v)
    have same: "l' = l" "a = address" using due(2) assms(2) by (simp_all add: release_due_def)
    have no_fault: "\<not> e_fault ?V (ReleaseStampFault i) u" for u using assms(5) by (simp add: blink_env_def)
    have id: "l_id l = i" using due(3) same by simp
    have "release_ends ?V l address (under_lock i w) r' v" using due(4) unfolding same .
    then consider (refused) m where "r' = SendFailed m" "loans (w_db v) = loans (w_db w)"
        "e_send_lightning ?V (under_lock i w) address (l_collateral_amount_sat l) = Inl m" |
      (stamped) ref where "r' = Released ref" "loans (w_db v) = mark_released i (w_clock w) ref (loans (w_db w))"
        "MailSent (l_user_id l) (CollateralReleasedMail i ref) \<in> set (w_outbox v)"
        "e_send_lightning ?V (under_lock i w) address (l_collateral_amount_sat l) = Inr ref"
      by (cases rule: release_endsE) (auto simp: no_fault id)
    then show ?thesis
    proof cases
      case refused
      then have "payment_failed r" using sent by simp
      then show ?thesis unfolding good using due(1) refused(1,2) by simp
    next
      case stamped
      then have "\<not> payment_failed r" using sent by blast
      moreover have "find_row l_id i (loans (w_db (unlocked i v))) =
          Some (l\<lparr>l_collateral_released_at := Some (w_clock w), l_collateral_release_reference := Some ref\<rparr>)"
        using mark_released_found[OF l] stamped(2) by simp
      ultimately show ?thesis unfolding good using due(1) stamped(1,3) by auto
    qed
  qed (use assms(2,3) in simp_all)
qed

section \<open>Examples\<close>

text \<open>A wallet that answers every payment as pending.\<close>

definition pending_blink :: blink_api where
  "pending_blink = \<lparr>ba_fetch = \<lambda>_ query _. Inr (JObject [(''data'', JObject [(query,
       JObject [(''status'', JString ''PENDING''), (''errors'', JArray [])])])]),
     ba_number = \<lambda>_. 0, ba_wallet_btc_id = ''btc'', ba_wallet_usd_id = ''usd'', ba_account_id = ''us'',
     ba_webhook_secret = ''whsec_s'', ba_secret_bytes = \<lambda>s. s, ba_hmac = \<lambda>k t. k @ t\<rparr>"

theorem release_follows_blink_status_witness:
  "\<exists>ref w'. releaseForLoan (blink_env pending_blink ''memo'' toy_env) 3 repaid_world = (Inr (Released ref), w') \<and>
     find_row l_id 3 (loans (w_db w')) = Some (repaid_loan\<lparr>l_collateral_released_at := Some (w_clock repaid_world),
       l_collateral_release_reference := Some ref\<rparr>) \<and> MailSent 7 (CollateralReleasedMail 3 ref) \<in> set (w_outbox w')"
proof -
  let ?r = "\<lparr>br_status = ''PENDING'', br_errors = [], br_transaction = None\<rparr>"
  have elsewhere: "blinkHostedUsername ''me'' = None" by (simp add: blinkHostedUsername_def split_last_def)
  have answer: "payment_answer pending_blink ''memo'' ''me'' (l_collateral_amount_sat repaid_loan) (under_lock 3 repaid_world) = Inr ?r"
    by (simp add: payment_answer_def elsewhere graphql_def pending_blink_def envelope_error_def payment_schema_def under_data_def
        need_string_def error_messages_def)
  from release_follows_blink_status[OF repaid_world_due(2,1,3) answer, of toy_env]
  show ?thesis by (simp add: toy_env_def repaid_loan_def)
qed

definition sample_delivery :: svix_headers where
  "sample_delivery = \<lparr>svix_id = ''m'', svix_timestamp = show_nat 1000, svix_signature = ''v1,old v1,sm.1000.b''\<rparr>"

theorem delivery_is_signed_and_fresh_witness:
  "blink_verifyWebhookSignature pending_blink (empty_world\<lparr>w_clock := 1300999\<rparr>) ''b'' sample_delivery \<and>
   \<not> blink_verifyWebhookSignature pending_blink (empty_world\<lparr>w_clock := 1301000\<rparr>) ''b'' sample_delivery \<and>
   \<not> blink_verifyWebhookSignature pending_blink (empty_world\<lparr>w_clock := 1300999\<rparr>) ''c'' sample_delivery"
proof -
  have ts: "show_nat 1000 = ''1000''" by code_simp
  have expected: "expected_signature pending_blink sample_delivery b = ''sm.1000.'' @ b" for b
    by (simp add: expected_signature_def pending_blink_def sample_delivery_def strip_prefix_def ts)
  have fields: "svix_id sample_delivery \<noteq> []" "svix_timestamp sample_delivery = show_nat 1000"
    "svix_signature sample_delivery = join_with '' '' (map ((@) ''v1,'') [''old'', ''sm.1000.b''])"
    by (simp_all add: sample_delivery_def)
  show ?thesis by (simp add: delivery_is_signed_and_fresh[OF fields] expected)
qed

end
