(* ===== verification/Liquidation.thy ===== *)
theory Liquidation
  imports Loans
begin

text \<open>
  \<open>workers/liquidation-monitor.worker.ts\<close>: the watch over the coverage of the active loans. The
  cycle reads the rate, the active loans and their repayments once; a loan whose collateral has
  fallen to the threshold is liquidated and its collateral swapped, one that comes near it is
  nudged. Log lines are left out, their counters are kept.
\<close>

section \<open>Nudging the customer\<close>

definition sendCoverageNotice :: "loan_row \<Rightarrow> mail \<Rightarrow> unit service" where
  "sendCoverageNotice loan notice =
     bind (find_by_id user_table (l_user_id loan)) (\<lambda>user.
     bind (find_first repayment_account_table (\<lambda>a. va_user_id a = l_user_id loan \<and> va_is_active a)) (\<lambda>va.
     if user = None \<or> va = None then return () else notify (l_user_id loan) notice))"

definition notify_tier :: "rkey \<Rightarrow> loan_row \<Rightarrow> mail \<Rightarrow> bool service" where
  "notify_tier key loan notice =
     bind (redis_setnx key (VInt 1) COVERAGE_NOTIFY_COOLDOWN_SEC) (\<lambda>is_first.
     bind (if is_first then sendCoverageNotice loan notice else return ()) (\<lambda>_. return is_first))"

definition evaluateCoverageTiers :: "loan_row \<Rightarrow> ext_dec \<Rightarrow> (bool \<times> bool) service" where
  "evaluateCoverageTiers loan ratio =
     (if ext_gte ratio COVERAGE_WARN_TIER then return (False, False)
      else bind (notify_tier (COVERAGE_WARN_NOTIFIED (l_id loan)) loan (CoverageWarnMail (l_id loan))) (\<lambda>warn_sent.
           if ext_gte ratio COVERAGE_MARGIN_CALL_TIER then return (warn_sent, False)
           else bind (notify_tier (COVERAGE_MARGIN_CALL_NOTIFIED (l_id loan)) loan (MarginCallMail (l_id loan))) (\<lambda>margin_call_sent.
                return (warn_sent, margin_call_sent))))"

section \<open>Liquidating a loan\<close>

definition liquidation_log :: "loan_row \<Rightarrow> time \<Rightarrow> id \<Rightarrow> status_log_row" where
  "liquidation_log loan = status_log_of \<lparr>tp_loan_id = l_id loan, tp_user_id = l_user_id loan,
     tp_from_status = Some LoanStatus.ACTIVE, tp_to_status = LoanStatus.LIQUIDATED, tp_triggered_by = SYSTEM,
     tp_triggered_by_id = None, tp_reason_code = LIQUIDATION_COMPLETED, tp_reason_detail = None, tp_metadata = []\<rparr>"

definition mark_liquidated :: "decimals \<Rightarrow> rat \<Rightarrow> time \<Rightarrow> loan_row \<Rightarrow> loan_row" where
  "mark_liquidated D rate t l = l\<lparr>l_status := LoanStatus.LIQUIDATED, l_liquidated_at := Some t,
     l_liquidation_rate_actual := Some (d_col D 6 rate)\<rparr>"

definition liquidateLoan :: "decimals \<Rightarrow> loan_row \<Rightarrow> rat \<Rightarrow> unit service" where
  "liquidateLoan D loan current_rate =
     bind now (\<lambda>t.
     transaction
       (bind (update_by_id loan_table (l_id loan) (mark_liquidated D current_rate t)) (\<lambda>_.
        bind (create_row status_log_table (liquidation_log loan t)) (\<lambda>_. return ()))))"

definition swapBtcToUsd :: "env \<Rightarrow> loan_row \<Rightarrow> unit service" where
  "swapBtcToUsd V loan w =
     (let answer = e_swap V w (l_collateral_amount_sat loan)
      in bind (emit (Swapped (l_id loan) (l_collateral_amount_sat loan) answer)) (\<lambda>_.
         case answer of Inl m \<Rightarrow> throw (OtherError m) | Inr _ \<Rightarrow> return ()) w)"

section \<open>The cycle\<close>

record liquidation_tally =
  lt_checked :: nat
  lt_liquidated :: nat
  lt_alerted :: nat
  lt_warn_sent :: nat
  lt_margin_call_sent :: nat
  lt_suspicious_skipped :: nat

definition coverage_ratio :: "decimals \<Rightarrow> rat \<Rightarrow> repayment_row list \<Rightarrow> time \<Rightarrow> loan_row \<Rightarrow> ext_dec" where
  "coverage_ratio D current_rate reps as_of loan =
     (let owed = compute D (accrual_loan_of loan)
            (map toAccrualRepayment (filter (\<lambda>r. rep_loan_id r = l_id loan) reps)) as_of;
          current_value_ngn = dmul D (of_int (l_collateral_amount_sat loan)) current_rate
      in ddiv_ext D current_value_ngn (o_total_outstanding_ngn owed))"

definition sanity_floor :: "decimals \<Rightarrow> loan_row \<Rightarrow> rat" where
  "sanity_floor D loan = dmul D (l_sat_ngn_rate_at_creation loan) MIN_LIQUIDATION_RATE_FRACTION"

definition nudge :: "loan_row \<Rightarrow> ext_dec \<Rightarrow> liquidation_tally \<Rightarrow> liquidation_tally service" where
  "nudge loan ratio n =
     bind (attempt
            (bind (evaluateCoverageTiers loan ratio) (\<lambda>(warn, margin_call).
             return (n\<lparr>lt_warn_sent := lt_warn_sent n + (if warn then 1 else 0),
                       lt_margin_call_sent := lt_margin_call_sent n + (if margin_call then 1 else 0)\<rparr>)))
            (\<lambda>_. return n)) (\<lambda>n'.
     if ext_lte ratio ALERT_THRESHOLD
     then bind (redis_get (ALERT_SENT (l_id loan))) (\<lambda>already_alerted.
          if already_alerted = None
          then bind (redis_setex (ALERT_SENT (l_id loan)) (VInt 1) ALERT_COOLDOWN_SEC) (\<lambda>_.
               return (n'\<lparr>lt_alerted := Suc (lt_alerted n')\<rparr>))
          else return n')
     else return n')"

definition monitor_loan ::
    "env \<Rightarrow> rat \<Rightarrow> repayment_row list \<Rightarrow> time \<Rightarrow> loan_row \<Rightarrow> liquidation_tally \<Rightarrow> liquidation_tally service" where
  "monitor_loan V current_rate reps as_of loan n =
     (let ratio = coverage_ratio (e_dec V) current_rate reps as_of loan in
      if current_rate < sanity_floor (e_dec V) loan
      then return (n\<lparr>lt_suspicious_skipped := Suc (lt_suspicious_skipped n)\<rparr>)
      else if ext_lte ratio LIQUIDATION_THRESHOLD
      then attempt
        (bind (liquidateLoan (e_dec V) loan current_rate) (\<lambda>_.
         bind (attempt (swapBtcToUsd V loan) (\<lambda>_. return ())) (\<lambda>_.
         return (n\<lparr>lt_liquidated := Suc (lt_liquidated n)\<rparr>))))
        (\<lambda>_. return n)
      else nudge loan ratio n)"

fun monitor_all ::
    "env \<Rightarrow> rat \<Rightarrow> repayment_row list \<Rightarrow> time \<Rightarrow> loan_row list \<Rightarrow> liquidation_tally \<Rightarrow> liquidation_tally service" where
  "monitor_all V rate reps as_of [] n = return n"
| "monitor_all V rate reps as_of (loan # rows) n =
     bind (monitor_loan V rate reps as_of loan n) (\<lambda>n'. monitor_all V rate reps as_of rows n')"

text \<open>The rate of the cycle, or why there is none.\<close>

datatype cycle_rate = PriceStale | NoRate | RateParseError | RateNonPositive | CycleRate rat

definition fetch_cycle_rate :: "cycle_rate service" where
  "fetch_cycle_rate =
     bind (redis_get PRICE_STALE) (\<lambda>stale.
     if stale \<noteq> None then return PriceStale
     else bind (redis_get (PRICE SAT_NGN)) (\<lambda>rate_raw.
       case rate_raw of
         None \<Rightarrow> return NoRate
       | Some (VRates _ sell) \<Rightarrow>
           if sell \<le> 0
           then bind now (\<lambda>t. bind (redis_set PRICE_STALE (VInt t)) (\<lambda>_. return RateNonPositive))
           else return (CycleRate sell)
       | Some _ \<Rightarrow> return RateParseError))"

definition empty_tally :: liquidation_tally where
  "empty_tally = \<lparr>lt_checked = 0, lt_liquidated = 0, lt_alerted = 0, lt_warn_sent = 0, lt_margin_call_sent = 0,
     lt_suspicious_skipped = 0\<rparr>"

definition heartbeat :: "unit service" where
  "heartbeat = bind now (\<lambda>t. redis_set (WORKER_HEARTBEAT ''liquidation_monitor'') (VInt t))"

definition runLiquidationCycle :: "env \<Rightarrow> liquidation_tally service" where
  "runLiquidationCycle V =
     bind fetch_cycle_rate (\<lambda>rate.
     case rate of
       CycleRate current_rate \<Rightarrow>
         bind (find_many loan_table (\<lambda>l. l_status l = LoanStatus.ACTIVE)) (\<lambda>active_loans.
         bind (find_many repayment_table (\<lambda>r. rep_loan_id r \<in> l_id ` set active_loans)) (\<lambda>reps.
         bind now (\<lambda>as_of.
         bind (monitor_all V current_rate reps as_of active_loans (empty_tally\<lparr>lt_checked := length active_loans\<rparr>)) (\<lambda>n.
         bind heartbeat (\<lambda>_. return n)))))
     | _ \<Rightarrow> bind heartbeat (\<lambda>_. return empty_tally))"

section \<open>Who is liquidated\<close>

definition liquidable :: "decimals \<Rightarrow> rat \<Rightarrow> repayment_row list \<Rightarrow> time \<Rightarrow> loan_row \<Rightarrow> bool" where
  "liquidable D rate reps as_of loan \<longleftrightarrow> sanity_floor D loan \<le> rate \<and>
     ext_lte (coverage_ratio D rate reps as_of loan) LIQUIDATION_THRESHOLD"

definition liquidated_in :: "decimals \<Rightarrow> rat \<Rightarrow> time \<Rightarrow> id set \<Rightarrow> world \<Rightarrow> world \<Rightarrow> bool" where
  "liquidated_in D rate t ids w w' \<longleftrightarrow> w_clock w' = w_clock w \<and> wf_table loan_table w' \<and>
     (\<forall>j l. find_row l_id j (loans (w_db w)) = Some l \<longrightarrow>
        find_row l_id j (loans (w_db w')) = Some (if j \<in> ids then mark_liquidated D rate t l else l))"

lemma mark_liquidated_again [simp]:
  "mark_liquidated D rate t (mark_liquidated D rate t l) = mark_liquidated D rate t l" "l_id (mark_liquidated D rate t l) = l_id l"
  by (simp_all add: mark_liquidated_def)

lemma liquidated_none: "wf_table loan_table w \<Longrightarrow> liquidated_in D rate t {} w w"
  by (simp add: liquidated_in_def)

lemma liquidated_more:
  "liquidated_in D rate t A u v \<Longrightarrow> liquidated_in D rate t B v w \<Longrightarrow> liquidated_in D rate t (A \<union> B) u w"
  by (auto simp: liquidated_in_def)

lemma liquidated_cong:
  "liquidated_in D rate t A u v \<Longrightarrow> loans (w_db w) = loans (w_db v) \<Longrightarrow> w_clock w = w_clock v \<Longrightarrow>
   next_id (w_db v) \<le> next_id (w_db w) \<Longrightarrow> liquidated_in D rate t A u w"
  by (force simp: liquidated_in_def wf_table_def table_rows)

lemma liquidateLoan_run:
  assumes "wf_table loan_table w" "find_row l_id (l_id loan) (loans (w_db w)) = Some l"
  shows "wp (liquidateLoan D loan rate) (\<lambda>_ w'. liquidated_in D rate (w_clock w) {l_id loan} w w') (\<lambda>_ _. False) w"
proof -
  let ?f = "mark_liquidated D rate (w_clock w)"
  have v: "violated loan_table (?f l) (loans (w_db w)) = None"
    by (rule loan_update_ok[OF assms]) (simp_all add: mark_liquidated_def)
  then have "wf_table loan_table (t_put loan_table (update_row l_id (l_id loan) ?f) w)"
    by (intro loan_tbl.wf_update[OF assms(1), of ?f "l_id loan" "?f l"]) (use assms(2) in \<open>simp_all add: update_by_id_def table_ops\<close>)
  then show ?thesis
    using v assms(2)
    by (simp add: liquidateLoan_def wp_simps table_ops liquidated_in_def find_row_update_row wf_table_def less_SucI)
qed

lemma swap_quiet: "wp (attempt (swapBtcToUsd V loan) (\<lambda>_. return ())) (\<lambda>_ w'. w_db w' = w_db w \<and> w_clock w' = w_clock w) (\<lambda>_ _. False) w"
  by (cases "e_swap V w (l_collateral_amount_sat loan)")
     (simp_all add: wp_def swapBtcToUsd_def run_defs emit_def Let_def)

lemma notify_tier_quiet:
  "w_db v = w_db w \<and> w_clock v = w_clock w \<Longrightarrow> wp (notify_tier k loan m) (\<lambda>_ w'. w_db w' = w_db w \<and> w_clock w' = w_clock w) (\<lambda>_ _. False) v"
  by (simp add: notify_tier_def sendCoverageNotice_def wp_simps)

lemma tiers_quiet: "wp (evaluateCoverageTiers loan r) (\<lambda>_ w'. w_db w' = w_db w \<and> w_clock w' = w_clock w) (\<lambda>_ _. False) w"
  by (auto simp: evaluateCoverageTiers_def wp_return intro!: wp_seq[OF notify_tier_quiet])

lemma nudge_quiet: "wp (nudge loan r n) (\<lambda>_ w'. w_db w' = w_db w \<and> w_clock w' = w_clock w) (\<lambda>_ _. False) w"
proof -
  have "wp (attempt (bind (evaluateCoverageTiers loan r) (\<lambda>(a, b). return (f a b))) (\<lambda>_. return n))
      (\<lambda>_ w'. w_db w' = w_db w \<and> w_clock w' = w_clock w) (\<lambda>_ _. False) w" for f
    unfolding wp_attempt by (rule wp_seq[OF tiers_quiet]) (auto simp: wp_return split: prod.split)
  then show ?thesis
    unfolding nudge_def by (rule wp_seq) (auto simp: wp_simps)
qed

lemma monitor_loan_run:
  assumes "wf_table loan_table w" "find_row l_id (l_id loan) (loans (w_db w)) = Some l"
  shows "wp (monitor_loan V rate reps as_of loan n) (\<lambda>_. liquidated_in (e_dec V) rate (w_clock w)
      (if liquidable (e_dec V) rate reps as_of loan then {l_id loan} else {}) w) (\<lambda>_ _. False) w"
proof -
  let ?D = "e_dec V"
  have swap: "wp (bind (attempt (swapBtcToUsd V loan) (\<lambda>_. return ())) (\<lambda>_. return m))
      (\<lambda>_. liquidated_in ?D rate (w_clock w) {l_id loan} w) (\<lambda>_ _. False) v"
    if "liquidated_in ?D rate (w_clock w) {l_id loan} w v" for m v
    by (rule wp_seq[OF swap_quiet]) (use that in \<open>auto simp: wp_return intro: liquidated_cong\<close>)
  have "wp (attempt (bind (liquidateLoan ?D loan rate) (\<lambda>_. bind (attempt (swapBtcToUsd V loan) (\<lambda>_. return ())) (\<lambda>_. return m)))
      (\<lambda>_. return n)) (\<lambda>_. liquidated_in ?D rate (w_clock w) {l_id loan} w) (\<lambda>_ _. False) w" for m
    unfolding wp_attempt by (rule wp_seq[OF liquidateLoan_run[OF assms]]) (auto intro: wp_mono[OF swap])
  moreover have "wp (nudge loan r n) (\<lambda>_. liquidated_in ?D rate (w_clock w) {} w) (\<lambda>_ _. False) w" for r
    by (rule wp_mono[OF nudge_quiet]) (auto intro: liquidated_cong[OF liquidated_none[OF assms(1)]])
  ultimately show ?thesis
    using liquidated_none[OF assms(1)]
    by (simp add: monitor_loan_def Let_def wp_return liquidable_def not_less split: if_split)
qed

lemma monitor_all_run:
  assumes "wf_table loan_table w" "\<forall>loan\<in>set rows. \<exists>l. find_row l_id (l_id loan) (loans (w_db w)) = Some l" "w_clock w = t"
  shows "wp (monitor_all V rate reps as_of rows n) (\<lambda>_. liquidated_in (e_dec V) rate t
      (l_id ` {loan \<in> set rows. liquidable (e_dec V) rate reps as_of loan}) w) (\<lambda>_ _. False) w"
  using assms
proof (induction rows arbitrary: n w)
  case Nil
  then show ?case by (simp add: wp_return liquidated_none)
next
  case (Cons loan rows)
  let ?L = "liquidable (e_dec V) rate reps as_of"
  let ?here = "if ?L loan then {l_id loan} else {}"
  obtain l where l: "find_row l_id (l_id loan) (loans (w_db w)) = Some l" using Cons.prems(2) by auto
  have rest: "wp (monitor_all V rate reps as_of rows n') (\<lambda>_. liquidated_in (e_dec V) rate t
      (l_id ` {x \<in> set (loan # rows). ?L x}) w) (\<lambda>_ _. False) v"
    if v: "liquidated_in (e_dec V) rate (w_clock w) ?here w v" for n' v
  proof -
    have "{x \<in> set (loan # rows). ?L x} = (if ?L loan then {loan} else {}) \<union> {x \<in> set rows. ?L x}" by auto
    then have ids: "l_id ` {x \<in> set (loan # rows). ?L x} = ?here \<union> l_id ` {x \<in> set rows. ?L x}"
      by (simp only: image_Un) simp
    have "wp (monitor_all V rate reps as_of rows n') (\<lambda>_. liquidated_in (e_dec V) rate t (l_id ` {loan \<in> set rows. ?L loan}) v) (\<lambda>_ _. False) v"
      using v Cons.prems by (intro Cons.IH) (fastforce simp: liquidated_in_def)+
    then show ?thesis
      unfolding ids by (rule wp_mono) (rule liquidated_more[OF v[unfolded Cons.prems(3)]], assumption, assumption)
  qed
  show ?case
    unfolding monitor_all.simps by (rule wp_seq[OF monitor_loan_run[OF Cons.prems(1) l]]) (use rest in auto)
qed

text \<open>The rate a cycle works with, when it works at all.\<close>

definition usable_rate :: "world \<Rightarrow> rat option" where
  "usable_rate w = (case (live w PRICE_STALE, live w (PRICE SAT_NGN)) of
     (None, Some (VRates _ sell)) \<Rightarrow> if sell \<le> 0 then None else Some sell | _ \<Rightarrow> None)"

lemma coverage_ratio_restrict:
  "loan \<in> set rows \<Longrightarrow> coverage_ratio D rate (filter (\<lambda>r. rep_loan_id r \<in> l_id ` set rows) reps) t loan = coverage_ratio D rate reps t loan"
proof -
  assume "loan \<in> set rows"
  then have "filter (\<lambda>r. rep_loan_id r \<in> l_id ` set rows \<and> rep_loan_id r = l_id loan) reps = filter (\<lambda>r. rep_loan_id r = l_id loan) reps"
    by (intro filter_cong) auto
  then show ?thesis by (simp add: coverage_ratio_def conj_commute)
qed

text \<open>C10. A cycle always completes. Without a fresh, positive rate it changes no loan; with one it
  liquidates exactly the active loans whose coverage has fallen to the threshold, unless the rate lies below half the
  rate at which the loan was made, and leaves every other loan as it is.\<close>

theorem liquidation_exact:
  assumes "wf_table loan_table w"
  shows "\<exists>n w'. runLiquidationCycle V w = (Inr n, w') \<and>
    list_all (\<lambda>l. find_row l_id (l_id l) (loans (w_db w')) =
      Some (case usable_rate w of
              None \<Rightarrow> l
            | Some rate \<Rightarrow>
                if l_status l = LoanStatus.ACTIVE \<and> liquidable (e_dec V) rate (repayments (w_db w)) (w_clock w) l
                then mark_liquidated (e_dec V) rate (w_clock w) l else l)) (loans (w_db w))"
proof -
  have here: "find_row l_id (l_id l) (loans (w_db w)) = Some l" if "l \<in> set (loans (w_db w))" for l
    using assms that find_row_unique[of l_id "loans (w_db w)" l] by (simp add: wf_table_def table_rows)
  have beat: "wp (bind heartbeat (\<lambda>_. return x)) (\<lambda>_ w'. loans (w_db w') = loans (w_db v)) (\<lambda>_ _. False) v" for x :: liquidation_tally and v
    by (simp add: heartbeat_def wp_simps)
  show ?thesis
  proof (cases "usable_rate w")
    case None
    have "wp fetch_cycle_rate (\<lambda>r w'. loans (w_db w') = loans (w_db w) \<and> (\<forall>x. r \<noteq> CycleRate x)) (\<lambda>_ _. False) w"
      using None by (auto simp: fetch_cycle_rate_def usable_rate_def wp_simps split: option.splits rval.splits if_splits)
    then have "wp (runLiquidationCycle V) (\<lambda>_ w'. loans (w_db w') = loans (w_db w)) (\<lambda>_ _. False) w"
      unfolding runLiquidationCycle_def
      by (rule wp_seq) (auto intro!: wp_mono[OF beat] split: cycle_rate.split)
    from wp_runD[OF this] here None show ?thesis by (auto simp: list_all_iff)
  next
    case (Some rate)
    let ?D = "e_dec V" and ?active = "filter (\<lambda>l. l_status l = LoanStatus.ACTIVE) (loans (w_db w))"
    let ?reps = "filter (\<lambda>r. rep_loan_id r \<in> l_id ` set ?active) (repayments (w_db w))"
    define ids where "ids = l_id ` {loan \<in> set ?active. liquidable ?D rate ?reps (w_clock w) loan}"
    have fetch: "wp fetch_cycle_rate (\<lambda>r v. r = CycleRate rate \<and> v = w) (\<lambda>_ _. False) w"
      using Some by (auto simp: fetch_cycle_rate_def usable_rate_def wp_simps split: option.splits rval.splits if_splits)
    have all: "wp (monitor_all V rate ?reps (w_clock w) ?active n) (\<lambda>_. liquidated_in ?D rate (w_clock w) ids w) (\<lambda>_ _. False) w" for n
      unfolding ids_def by (rule monitor_all_run[OF assms]) (auto intro: here)
    have "wp (runLiquidationCycle V) (\<lambda>_ w'. \<exists>v. liquidated_in ?D rate (w_clock w) ids w v \<and> loans (w_db w') = loans (w_db v)) (\<lambda>_ _. False) w"
      unfolding runLiquidationCycle_def
    proof (rule wp_seq[OF fetch], elim conjE, hypsubst, goal_cases)
      case 1
      show ?case
        unfolding cycle_rate.case wp_bind[of "find_many _ _"] wp_find_many table_rows wp_bind[of now] wp_now
      proof (rule wp_seq[OF all])
        fix n :: liquidation_tally and v assume "liquidated_in ?D rate (w_clock w) ids w v"
        then show "wp (bind heartbeat (\<lambda>_. return n)) (\<lambda>_ w'. \<exists>v. liquidated_in ?D rate (w_clock w) ids w v \<and>
            loans (w_db w') = loans (w_db v)) (\<lambda>_ _. False) v"
          by (intro wp_mono[OF beat] exI[of _ v] conjI)
      qed
    qed simp
    from wp_runD[OF this] obtain n w' v where run: "runLiquidationCycle V w = (Inr n, w')" and
      v: "liquidated_in ?D rate (w_clock w) ids w v" "loans (w_db w') = loans (w_db v)" by blast
    have member: "l_id l \<in> ids \<longleftrightarrow> l_status l = LoanStatus.ACTIVE \<and> liquidable ?D rate (repayments (w_db w)) (w_clock w) l"
      if l: "l \<in> set (loans (w_db w))" for l
    proof -
      have "l_id l \<in> ids \<longleftrightarrow> l \<in> set ?active \<and> liquidable ?D rate ?reps (w_clock w) l"
      proof
        assume "l_id l \<in> ids"
        then obtain m where m: "m \<in> set ?active" "liquidable ?D rate ?reps (w_clock w) m" "l_id l = l_id m" unfolding ids_def by blast
        have "m \<in> set (loans (w_db w))" using m(1) by simp
        from here[OF this] here[OF l] m(3) have "l = m" by simp
        then show "l \<in> set ?active \<and> liquidable ?D rate ?reps (w_clock w) l" using m(1,2) by blast
      qed (simp add: ids_def)
      then show ?thesis using l coverage_ratio_restrict[of l ?active] by (auto simp: liquidable_def)
    qed
    have "find_row l_id (l_id l) (loans (w_db w')) = Some (if l_status l = LoanStatus.ACTIVE \<and>
        liquidable ?D rate (repayments (w_db w)) (w_clock w) l then mark_liquidated ?D rate (w_clock w) l else l)"
      if l: "l \<in> set (loans (w_db w))" for l
      using v(1) here[OF l] unfolding liquidated_in_def v(2) member[OF l, symmetric] by blast
    then show ?thesis using run Some by (simp add: list_all_iff)
  qed
qed

end
