(* ===== verification/OpsLoans.thy ===== *)
theory OpsLoans
  imports Liquidation Payouts
begin

text \<open>
  \<open>modules/ops/loans/ops-loans.service.ts\<close>: an operator quotes a loan without creating it, takes back
  a liquidation that a broken rate caused, and releases collateral by hand. The details of the
  audit rows are left out; a rate or a percentage of the quote is the value that its text shows.
\<close>

record ops_quote =
  oq_customer_name :: string
  oq_customer_email :: string
  oq_principal_ngn :: string
  oq_ltv_percent :: rat
  oq_collateral_amount_sat :: sats
  oq_initial_collateral_usd :: rat
  oq_sat_ngn_rate_at_creation :: rat
  oq_origination_fee_ngn :: string
  oq_daily_custody_fee_ngn :: string
  oq_daily_interest_rate_bps :: nat
  oq_daily_interest_ngn :: string
  oq_daily_total_ngn :: string
  oq_amount_to_receive_ngn :: string
  oq_initial_liquidation_rate_ngn :: rat
  oq_initial_alert_rate_ngn :: rat
  oq_payment_request :: string
  oq_payment_uri :: string
  oq_receiving_address :: string
  oq_expires_at :: time

definition ops_quote_of :: "decimals \<Rightarrow> string \<Rightarrow> string \<Rightarrow> calculator_result \<Rightarrow> invoice \<Rightarrow> ops_quote" where
  "ops_quote_of D name email calc bill =
     \<lparr>oq_customer_name = name, oq_customer_email = email,
      oq_principal_ngn = displayNgn (cr_principal_ngn calc) ceil_mode,
      oq_ltv_percent = d_fixed D 2 (cr_ltv_percent calc),
      oq_collateral_amount_sat = cr_collateral_amount_sat calc,
      oq_initial_collateral_usd = d_fixed D 2 (cr_initial_collateral_usd calc),
      oq_sat_ngn_rate_at_creation = d_fixed D 6 (cr_sat_ngn_rate_at_creation calc),
      oq_origination_fee_ngn = displayNgn (cr_origination_fee_ngn calc) ceil_mode,
      oq_daily_custody_fee_ngn = displayNgn (cr_daily_custody_fee_ngn calc) ceil_mode,
      oq_daily_interest_rate_bps = cr_daily_interest_rate_bps calc,
      oq_daily_interest_ngn = displayNgn (cr_daily_interest_ngn calc) ceil_mode,
      oq_daily_total_ngn = displayNgn (dplus D (cr_daily_interest_ngn calc) (cr_daily_custody_fee_ngn calc)) ceil_mode,
      oq_amount_to_receive_ngn = displayNgn (cr_amount_to_receive_ngn calc) floor_mode,
      oq_initial_liquidation_rate_ngn = d_fixed D 6 (cr_initial_liquidation_rate_ngn calc),
      oq_initial_alert_rate_ngn = d_fixed D 6 (cr_initial_alert_rate_ngn calc),
      oq_payment_request = inv_payment_request bill,
      oq_payment_uri = (if inv_payment_request bill = [] then [] else ''lightning:'' @ inv_payment_request bill),
      oq_receiving_address = inv_receiving_address bill, oq_expires_at = inv_expires_at bill\<rparr>"

definition createLoanQuote :: "env \<Rightarrow> string \<Rightarrow> string \<Rightarrow> money \<Rightarrow> id \<Rightarrow> ops_quote service" where
  "createLoanQuote V name email principal_ngn ops_user_id =
     bind (createOpsQuote V principal_ngn) (\<lambda>(calc, bill).
     bind (transaction (audit_write ops_user_id ''loan.create_quote'' ''loan_quote'' (inv_provider_reference bill))) (\<lambda>_.
     return (ops_quote_of (e_dec V) name email calc bill)))"

section \<open>Taking back a liquidation\<close>

definition is_bad_rate :: "decimals \<Rightarrow> loan_row \<Rightarrow> bool" where
  "is_bad_rate D loan = (case l_liquidation_rate_actual loan of None \<Rightarrow> True | Some r \<Rightarrow> r < sanity_floor D loan)"

definition restore_log :: "loan_row \<Rightarrow> id \<Rightarrow> string \<Rightarrow> time \<Rightarrow> id \<Rightarrow> status_log_row" where
  "restore_log loan ops_user_id reason = status_log_of \<lparr>tp_loan_id = l_id loan, tp_user_id = l_user_id loan,
     tp_from_status = Some LoanStatus.LIQUIDATED, tp_to_status = LoanStatus.ACTIVE, tp_triggered_by = SYSTEM,
     tp_triggered_by_id = Some (show_nat ops_user_id), tp_reason_code = LIQUIDATION_REVERSED_BAD_RATE,
     tp_reason_detail = Some reason,
     tp_metadata = (case l_liquidation_rate_actual loan of None \<Rightarrow> [] | Some r \<Rightarrow> [(''original_liquidation_rate_actual'', JNum r)]) @
       (case l_liquidated_at loan of None \<Rightarrow> [] | Some t \<Rightarrow> [(''original_liquidated_at'', JInt t)]) @
       [(''sat_ngn_rate_at_creation'', JNum (l_sat_ngn_rate_at_creation loan)),
        (''min_liquidation_rate_fraction'', JNum MIN_LIQUIDATION_RATE_FRACTION)]\<rparr>"

definition restoreFromBadLiquidation :: "decimals \<Rightarrow> id \<Rightarrow> string \<Rightarrow> id \<Rightarrow> unit service" where
  "restoreFromBadLiquidation D loan_id reason ops_user_id =
     bind (find_by_id loan_table loan_id) (\<lambda>found.
     bind (the_or_throw (LoanE LoanNotFoundException) found) (\<lambda>loan.
     bind (require (l_status loan = LoanStatus.LIQUIDATED) (LoanE (LoanNotLiquidatedException (l_status loan)))) (\<lambda>_.
     bind (require (is_bad_rate D loan)
             (LoanE (LiquidationNotBadRateException (l_liquidation_rate_actual loan) (l_sat_ngn_rate_at_creation loan)
                       (sanity_floor D loan)))) (\<lambda>_.
     bind now (\<lambda>t.
     transaction
       (bind (update_by_id loan_table (l_id loan) (\<lambda>l. l\<lparr>l_status := LoanStatus.ACTIVE, l_liquidated_at := None,
                l_liquidation_rate_actual := None\<rparr>)) (\<lambda>_.
        bind (create_row status_log_table (restore_log loan ops_user_id reason t)) (\<lambda>_.
        audit_write ops_user_id ''loan.restore_bad_liquidation'' ''loan'' (show_nat (l_id loan))))))))))"

section \<open>Releasing collateral by hand\<close>

datatype manual_release = ManualReleased string | ManualAlreadyReleased "string option" | ManualInFlight

definition releaseCollateral :: "env \<Rightarrow> id \<Rightarrow> id \<Rightarrow> manual_release service" where
  "releaseCollateral V loan_id ops_user_id =
     bind (find_by_id loan_table loan_id) (\<lambda>found.
     bind (the_or_throw (LoanE LoanNotFoundException) found) (\<lambda>loan.
     bind (transaction (audit_write ops_user_id ''loan.release_collateral'' ''loan'' (show_nat (l_id loan)))) (\<lambda>_.
     bind (releaseForLoan V (l_id loan)) (\<lambda>result.
     case result of
       Released reference \<Rightarrow> return (ManualReleased reference)
     | AlreadyReleased reference \<Rightarrow> return (ManualAlreadyReleased reference)
     | InFlight \<Rightarrow> return ManualInFlight
     | NotEligible reason \<Rightarrow> throw (InflowE (CollateralReleaseNotEligibleException reason))
     | SendFailed error \<Rightarrow> throw (InflowE (CollateralReleaseSendFailedException error))))))"

section \<open>A liquidation and its reversal\<close>

lemma violated_audit: "violated audit_table r rows = None"
  by (simp add: audit_table_def violated_def)

lemma liquidateLoan_quiet:
  "wp (liquidateLoan D loan rate) (\<lambda>_ w1. w_redis w1 = w_redis w \<and> w_outbox w1 = w_outbox w) (\<lambda>_ _. True) w"
  by (simp add: liquidateLoan_def wp_simps table_ops split: option.split)

text \<open>C29. A liquidation and its reversal fit together: an operator can take back exactly the
  liquidations at a rate below half the rate of the loan, which the worker never makes, and taking one
  back restores the loan as it was; any other is refused and nothing changes.\<close>

theorem restore_undoes_bad_liquidation:
  assumes "decimal_env D" and "wf_table loan_table w" and "find_row l_id (l_id l) (loans (w_db w)) = Some l"
    and "l_status l = LoanStatus.ACTIVE" "l_liquidated_at l = None" "l_liquidation_rate_actual l = None" "on_scale 6 rate"
    and "liquidateLoan D l rate w = (Inr (), w1)"
  shows "if rate < sanity_floor D l
    then \<exists>w2. restoreFromBadLiquidation D (l_id l) reason ops w1 = (Inr (), w2) \<and> find_row l_id (l_id l) (loans (w_db w2)) = Some l
    else restoreFromBadLiquidation D (l_id l) reason ops w1 =
      (Inl (LoanE (LiquidationNotBadRateException (Some rate) (l_sat_ngn_rate_at_creation l) (sanity_floor D l))), w1)"
proof -
  have col: "d_col D 6 rate = rate" using decimal_env.col_exact[OF assms(1)] assms(7) by simp
  let ?m = "mark_liquidated D rate (w_clock w) l"
  have w1: "wf_table loan_table w1" "find_row l_id (l_id l) (loans (w_db w1)) = Some ?m"
    using liquidateLoan_run[OF assms(2,3), of D rate] assms(3,8) by (simp_all add: wp_def liquidated_in_def)
  have m: "l_status ?m = LoanStatus.LIQUIDATED" "l_liquidation_rate_actual ?m = Some rate" "l_id ?m = l_id l"
    "l_sat_ngn_rate_at_creation ?m = l_sat_ngn_rate_at_creation l" "sanity_floor D ?m = sanity_floor D l"
    "?m\<lparr>l_status := LoanStatus.ACTIVE, l_liquidated_at := None, l_liquidation_rate_actual := None\<rparr> = l"
    using assms(4-6) col by (simp_all add: mark_liquidated_def sanity_floor_def)
  have v: "violated loan_table l (loans (w_db w1)) = None"
    by (rule loan_update_ok[OF w1]) (use assms(4) in \<open>simp_all add: mark_liquidated_def\<close>)
  have "wp (restoreFromBadLiquidation D (l_id l) reason ops) (\<lambda>_ w2. rate < sanity_floor D l \<and> find_row l_id (l_id l) (loans (w_db w2)) = Some l)
      (\<lambda>e w2. \<not> rate < sanity_floor D l \<and> w2 = w1 \<and>
        e = LoanE (LiquidationNotBadRateException (Some rate) (l_sat_ngn_rate_at_creation l) (sanity_floor D l))) w1"
    by (simp add: restoreFromBadLiquidation_def wp_simps table_ops w1(2) m is_bad_rate_def v audit_write_def
        violated_audit find_row_update_row)
  then show ?thesis by (auto simp: wp_def split: prod.splits sum.splits)
qed

text \<open>C36. The worker liquidates from the list it read, without looking at the loan again: a loan that was
  repaid in the meantime is turned from repaid to liquidated, and its collateral is then no longer released.\<close>

theorem repaid_loan_is_liquidated:
  assumes "wf_table loan_table w" and "find_row l_id (l_id read) (loans (w_db w)) = Some l" and "l_status l = LoanStatus.REPAID"
    and "live w (COLLATERAL_RELEASE_LOCK (l_id read)) = None"
  shows "\<exists>w1 w2. liquidateLoan D read rate w = (Inr (), w1) \<and>
    find_row l_id (l_id read) (loans (w_db w1)) = Some (mark_liquidated D rate (w_clock w) l) \<and>
    releaseForLoan V (l_id read) w1 = (Inr (NotEligible ''status=LIQUIDATED''), w2) \<and> w_outbox w2 = w_outbox w"
proof -
  have "wp (liquidateLoan D read rate) (\<lambda>_ w1. liquidated_in D rate (w_clock w) {l_id read} w w1 \<and> w_redis w1 = w_redis w \<and>
      w_outbox w1 = w_outbox w) (\<lambda>_ _. False) w"
    by (rule wp_mono[OF wp_conj[OF liquidateLoan_run[OF assms(1,2)] liquidateLoan_quiet]]) auto
  from wp_runD[OF this] obtain w1 where w1: "liquidateLoan D read rate w = (Inr (), w1)" "w_redis w1 = w_redis w"
    "w_outbox w1 = w_outbox w" "w_clock w1 = w_clock w"
    "find_row l_id (l_id read) (loans (w_db w1)) = Some (mark_liquidated D rate (w_clock w) l)"
    using assms(2) by (auto simp: liquidated_in_def)
  have "live w1 (COLLATERAL_RELEASE_LOCK (l_id read)) = None" using assms(4) unfolding live_def w1(2,4) .
  then have "wp (releaseForLoan V (l_id read)) (\<lambda>r w2. r = NotEligible ''status=LIQUIDATED'' \<and> w_outbox w2 = w_outbox w) (\<lambda>_ _. False) w1"
    by (simp add: releaseForLoan_def release_locked_def wp_simps table_ops w1 mark_liquidated_def LoanStatus_name_def)
  from wp_runD[OF this] show ?thesis using w1 by auto
qed

section \<open>Concrete runs\<close>

definition covered_world :: world where
  "covered_world = credit_world\<lparr>w_redis := [PRICE SAT_NGN \<mapsto> (VRates (1 / 2) (1 / 2), None)]\<rparr>"

lemma covered_world_facts:
  "loans (w_db covered_world) = [active_loan]" "repayments (w_db covered_world) = []" "w_clock covered_world = 86400000"
  "usable_rate covered_world = Some (1 / 2)" "wf_table loan_table covered_world"
  by (simp_all add: covered_world_def usable_rate_def live_def wf_table_def unique_keys_def table_ops)

lemma active_loan_facts:
  "find_row l_id (l_id active_loan) (loans (w_db covered_world)) = Some active_loan" "l_liquidated_at active_loan = None"
  "l_liquidation_rate_actual active_loan = None" "l_sat_ngn_rate_at_creation active_loan = 8 / 10"
  "l_collateral_amount_sat active_loan = 208334"
  by (simp_all add: covered_world_facts active_loan_def repaid_loan_def)

lemma sample_liquidation: "\<exists>w1. liquidateLoan D active_loan rate covered_world = (Inr (), w1)"
  using wp_runD[OF liquidateLoan_run[OF covered_world_facts(5) active_loan_facts(1)]] by auto

theorem restore_undoes_bad_liquidation_witness:
  "\<exists>w1 w2. liquidateLoan js_decimals active_loan (1 / 10) covered_world = (Inr (), w1) \<and>
     restoreFromBadLiquidation js_decimals 3 ''glitch'' 99 w1 = (Inr (), w2) \<and> find_row l_id 3 (loans (w_db w2)) = Some active_loan"
proof -
  obtain w1 where w1: "liquidateLoan js_decimals active_loan (1 / 10) covered_world = (Inr (), w1)"
    using sample_liquidation by blast
  have "sanity_floor js_decimals active_loan = 4 / 10"
    unfolding sanity_floor_def dmul_def
    by (subst js.round_exact[of 2]) (simp_all add: active_loan_facts MIN_LIQUIDATION_RATE_FRACTION_def on_scale_def)
  then show ?thesis
    using restore_undoes_bad_liquidation[OF js.decimal_env_axioms covered_world_facts(5) active_loan_facts(1) _ active_loan_facts(2,3) _ w1] w1
    by (auto simp: on_scale_def)
qed

theorem repaid_loan_is_liquidated_witness:
  "\<exists>w1 w2. liquidateLoan js_decimals active_loan 1 repaid_world = (Inr (), w1) \<and>
     releaseForLoan toy_env 3 w1 = (Inr (NotEligible ''status=LIQUIDATED''), w2)"
proof -
  have "find_row l_id (l_id active_loan) (loans (w_db repaid_world)) = Some repaid_loan" "l_status repaid_loan = LoanStatus.REPAID"
    "live repaid_world (COLLATERAL_RELEASE_LOCK (l_id active_loan)) = None"
    by (simp_all add: repaid_world_def repaid_loan_def empty_world_def live_def)
  from repaid_loan_is_liquidated[OF repaid_world_due(2) this, of js_decimals 1 toy_env] show ?thesis by auto
qed

lemma covered_loan_total: "o_total_outstanding_ngn (compute js_decimals (accrual_loan_of active_loan) [] 86400000) = 100300"
proof -
  have ok: "accrual_ok (accrual_loan_of active_loan) [] 0 86400000"
    by (simp add: accrual_ok_def accrual_loan_of_def active_loan_def repaid_loan_def MS_PER_DAY_def)
  have "owed_principal (accrual_loan_of active_loan) [] 86400000 + owed_interest (accrual_loan_of active_loan) 0 [] 86400000 = 100300"
    by code_simp
  then show ?thesis using js.compute_facts[OF _ ok] by (simp add: accrual_loan_of_def)
qed

theorem liquidation_exact_witness:
  "\<exists>n w'. runLiquidationCycle toy_env covered_world = (Inr n, w') \<and>
     find_row l_id 3 (loans (w_db w')) = Some (mark_liquidated js_decimals (1 / 2) 86400000 active_loan)"
proof -
  have worth: "dmul js_decimals 208334 (1 / 2) = 104167"
    unfolding dmul_def by (subst js.round_exact[of 0]) (simp_all add: on_scale_def)
  have "ddiv js_decimals 104167 100300 \<le> d_round js_decimals (11 / 10)"
    unfolding ddiv_def by (rule js.round_mono) simp
  also have "\<dots> = 11 / 10" by (rule js.round_exact[of 1]) (simp_all add: on_scale_def)
  finally have ratio: "ddiv js_decimals 104167 100300 \<le> 11 / 10" .
  have limit: "sanity_floor js_decimals active_loan = 4 / 10"
    unfolding sanity_floor_def dmul_def
    by (subst js.round_exact[of 2]) (simp_all add: active_loan_facts MIN_LIQUIDATION_RATE_FRACTION_def on_scale_def)
  have "liquidable js_decimals (1 / 2) [] 86400000 active_loan"
    using ratio by (simp add: liquidable_def coverage_ratio_def Let_def active_loan_facts covered_loan_total worth limit ddiv_ext_def
        LIQUIDATION_THRESHOLD_def)
  then show ?thesis
    using liquidation_exact[OF covered_world_facts(5), of toy_env] by (simp add: covered_world_facts)
qed

end
