(* ===== verification/Remediation.thy ===== *)
theory Remediation
  imports OpsLoans PalmpayCollection JsText "HOL-Library.Product_Lexorder"
begin

text \<open>
  The operators' scripts that move money: \<open>scripts/replay-dropped-palmpay-collections.ts\<close>
  credits collection notices that an earlier release dropped,
  \<open>scripts/restore-bad-rate-liquidations.ts\<close> takes back liquidations at a broken rate, and
  \<open>scripts/release-collateral-for-repaid-loan.ts\<close> sends the collateral of a repaid loan back.
  A script runs beside the services on the same database; what it reads and what it then
  writes are separate programs where it waits for the operator in between. A script that
  exits with an error raises; what it prints is left out, except for the outcomes of a replay.
\<close>

section \<open>The command line\<close>

text \<open>
  The loop of the three \<open>parseArgs\<close>: a switch sets a field, a flag with a value takes the next
  word, which must not be missing or empty, and anything else is refused.
\<close>

definition unknown_flag :: "string \<Rightarrow> string" where
  "unknown_flag f = ''Unknown argument: '' @ f @ ''. Pass --help for usage.''"

fun parse_flags ::
    "(string \<Rightarrow> ('a \<Rightarrow> 'a) option) \<Rightarrow> (string \<Rightarrow> (string \<Rightarrow> 'a \<Rightarrow> string + 'a) option) \<Rightarrow> string list \<Rightarrow> 'a \<Rightarrow> string + 'a" where
  "parse_flags switch valued [] a = Inr a"
| "parse_flags switch valued (f # rest) a =
     (case switch f of
        Some g \<Rightarrow> parse_flags switch valued rest (g a)
      | None \<Rightarrow>
          (case valued f of
             None \<Rightarrow> Inl (unknown_flag f)
           | Some h \<Rightarrow>
               (case rest of
                  [] \<Rightarrow> Inl (f @ '' requires a value'')
                | v # rest' \<Rightarrow>
                    if v = [] then Inl (f @ '' requires a value'')
                    else (case h v a of Inl m \<Rightarrow> Inl m | Inr b \<Rightarrow> parse_flags switch valued rest' b))))"

definition limit_value :: "string \<Rightarrow> string + int" where
  "limit_value v =
     (case js_parse_int v of Some n \<Rightarrow> if 0 < n then Inr n else Inl ''--limit must be a positive integer''
      | None \<Rightarrow> Inl ''--limit must be a positive integer'')"

record replay_args =
  ra_apply :: bool
  ra_force :: bool
  ra_help :: bool
  ra_alert_ops :: bool
  ra_skip_requery :: bool
  ra_limit :: "int option"
  ra_order_no :: "string option"
  ra_since :: "string option"

definition replay_defaults :: replay_args where
  "replay_defaults = \<lparr>ra_apply = False, ra_force = False, ra_help = False, ra_alert_ops = False,
     ra_skip_requery = False, ra_limit = None, ra_order_no = None, ra_since = None\<rparr>"

definition replay_switch :: "string \<Rightarrow> (replay_args \<Rightarrow> replay_args) option" where
  "replay_switch f =
     (if f = ''--apply'' then Some (\<lambda>a. a\<lparr>ra_apply := True\<rparr>)
      else if f = ''--force'' then Some (\<lambda>a. a\<lparr>ra_force := True\<rparr>)
      else if f = ''--alert-ops'' then Some (\<lambda>a. a\<lparr>ra_alert_ops := True\<rparr>)
      else if f = ''--skip-requery'' then Some (\<lambda>a. a\<lparr>ra_skip_requery := True\<rparr>)
      else if f = ''--help'' \<or> f = ''-h'' then Some (\<lambda>a. a\<lparr>ra_help := True\<rparr>)
      else None)"

definition replay_valued :: "string \<Rightarrow> (string \<Rightarrow> replay_args \<Rightarrow> string + replay_args) option" where
  "replay_valued f =
     (if f = ''--limit''
      then Some (\<lambda>v a. case limit_value v of Inl m \<Rightarrow> Inl m | Inr n \<Rightarrow> Inr (a\<lparr>ra_limit := Some n\<rparr>))
      else if f = ''--order-no'' then Some (\<lambda>v a. Inr (a\<lparr>ra_order_no := Some v\<rparr>))
      else if f = ''--since'' then Some (\<lambda>v a. Inr (a\<lparr>ra_since := Some v\<rparr>))
      else None)"

record restore_args =
  ta_apply :: bool
  ta_force :: bool
  ta_help :: bool
  ta_limit :: "int option"
  ta_reason :: string
  ta_loan_ids :: "id list"

definition restore_defaults :: restore_args where
  "restore_defaults = \<lparr>ta_apply = False, ta_force = False, ta_help = False, ta_limit = None,
     ta_reason = ''Ops remediation: liquidation triggered by bad SAT/NGN rate'', ta_loan_ids = []\<rparr>"

definition restore_switch :: "string \<Rightarrow> (restore_args \<Rightarrow> restore_args) option" where
  "restore_switch f =
     (if f = ''--apply'' then Some (\<lambda>a. a\<lparr>ta_apply := True\<rparr>)
      else if f = ''--force'' then Some (\<lambda>a. a\<lparr>ta_force := True\<rparr>)
      else if f = ''--help'' \<or> f = ''-h'' then Some (\<lambda>a. a\<lparr>ta_help := True\<rparr>)
      else None)"

text \<open>A row's id is a number here; \<open>id_of\<close> reads one from its text.\<close>

definition restore_valued :: "(string \<Rightarrow> id) \<Rightarrow> string \<Rightarrow> (string \<Rightarrow> restore_args \<Rightarrow> string + restore_args) option" where
  "restore_valued id_of f =
     (if f = ''--loan-id'' then Some (\<lambda>v a. Inr (a\<lparr>ta_loan_ids := ta_loan_ids a @ [id_of v]\<rparr>))
      else if f = ''--reason'' then Some (\<lambda>v a. Inr (a\<lparr>ta_reason := v\<rparr>))
      else if f = ''--limit''
      then Some (\<lambda>v a. case limit_value v of Inl m \<Rightarrow> Inl m | Inr n \<Rightarrow> Inr (a\<lparr>ta_limit := Some n\<rparr>))
      else None)"

record release_args =
  ea_loan_id :: "id option"
  ea_apply :: bool
  ea_force :: bool
  ea_help :: bool
  ea_memo :: string

definition release_defaults :: release_args where
  "release_defaults = \<lparr>ea_loan_id = None, ea_apply = False, ea_force = False, ea_help = False,
     ea_memo = ''Bitmonie collateral release''\<rparr>"

definition release_switch :: "string \<Rightarrow> (release_args \<Rightarrow> release_args) option" where
  "release_switch f =
     (if f = ''--apply'' then Some (\<lambda>a. a\<lparr>ea_apply := True\<rparr>)
      else if f = ''--force'' then Some (\<lambda>a. a\<lparr>ea_force := True\<rparr>)
      else if f = ''--help'' \<or> f = ''-h'' then Some (\<lambda>a. a\<lparr>ea_help := True\<rparr>)
      else None)"

definition release_valued :: "(string \<Rightarrow> id) \<Rightarrow> string \<Rightarrow> (string \<Rightarrow> release_args \<Rightarrow> string + release_args) option" where
  "release_valued id_of f =
     (if f = ''--loan-id'' then Some (\<lambda>v a. Inr (a\<lparr>ea_loan_id := Some (id_of v)\<rparr>))
      else if f = ''--memo'' then Some (\<lambda>v a. Inr (a\<lparr>ea_memo := v\<rparr>))
      else None)"

text \<open>The scripts are documented with a separator before their flags, which the backfill scripts
  say the package manager passes on; these three refuse it.\<close>

lemma separator_is_refused:
  "parse_flags replay_switch replay_valued (''--'' # rest) a = Inl (unknown_flag ''--'')"
  "parse_flags restore_switch (restore_valued id_of) (''--'' # rest) b = Inl (unknown_flag ''--'')"
  "parse_flags release_switch (release_valued id_of) (''--'' # rest) c = Inl (unknown_flag ''--'')"
  by (simp_all add: replay_switch_def replay_valued_def restore_switch_def restore_valued_def release_switch_def
      release_valued_def)

definition capped :: "int option \<Rightarrow> 'a list \<Rightarrow> 'a list" where
  "capped limit xs = (case limit of None \<Rightarrow> xs | Some n \<Rightarrow> take (nat n) xs)"

section \<open>Replaying dropped collection notices\<close>

definition DROPPED_PATHS :: "string list" where
  "DROPPED_PATHS = [''/v1/webhooks/palmpay'', ''/v1/webhooks/palmpay/collection'', ''/v1/webhooks/palmpay/collection/va'']"

definition dropped_log :: "webhook_log_row \<Rightarrow> bool" where
  "dropped_log r \<longleftrightarrow> wh_provider r = ''palmpay'' \<and> wh_signature_valid r = Some True \<and>
     wh_http_path r \<in> set DROPPED_PATHS \<and>
     (case wh_outcome_detail r of None \<Rightarrow> False
      | Some d \<Rightarrow> prefix ''collection orderStatus='' d \<or>
          wh_outcome r = IGNORED \<and> d = ''collection schema validation failed'')"

text \<open>\<open>date_of\<close> is \<open>new Date\<close> on the operator's text; the database client refuses an invalid date.\<close>

definition findCandidates :: "(string \<Rightarrow> time option) \<Rightarrow> replay_args \<Rightarrow> webhook_log_row list service" where
  "findCandidates date_of args =
     bind (case ra_since args of None \<Rightarrow> return None
           | Some s \<Rightarrow> bind (the_or_throw (OtherError ''Invalid Date'') (date_of s)) (\<lambda>t. return (Some t))) (\<lambda>since.
     bind (find_many webhook_log_table (\<lambda>r. dropped_log r \<and>
        (case since of None \<Rightarrow> True | Some t \<Rightarrow> t \<le> wh_received_at r) \<and>
        (case ra_order_no args of None \<Rightarrow> True | Some n \<Rightarrow> wh_external_reference r = Some n))) (\<lambda>rows.
     return (capped (ra_limit args) (sort_key wh_received_at rows))))"

datatype replay_decision =
    rp_credited | rp_skipped | rp_mismatch | rp_unmatched | rp_parse_failed | rp_requery_failed | rp_already_credited

record replay_outcome =
  ro_log_id :: id
  ro_order_no :: "string option"
  ro_decision :: replay_decision
  ro_loan_id :: "id option"

definition replayed :: "id \<Rightarrow> collection_notification \<Rightarrow> replay_decision \<Rightarrow> id option \<Rightarrow> replay_outcome service" where
  "replayed log_id p decision loan =
     return \<lparr>ro_log_id = log_id, ro_order_no = Some (cn_orderNo p), ro_decision = decision, ro_loan_id = loan\<rparr>"

definition replayed_inflow ::
    "decimals \<Rightarrow> collection_notification \<Rightarrow> money \<Rightarrow> id option \<Rightarrow> UnmatchedReason \<Rightarrow> time \<Rightarrow> id \<Rightarrow> inflow_row" where
  "replayed_inflow D p amount_ngn user_id reason t i =
     \<lparr>in_id = i, in_user_id = user_id, in_amount = d_col D 8 amount_ngn, in_currency = CUR_NGN,
      in_network = PaymentNetwork.BANK_TRANSFER, in_receiving_address = or_else (cn_virtualAccountNo p) [],
      in_provider_reference = cn_orderNo p, in_is_matched = False, in_matched_at = None, in_source_type = None,
      in_source_id = None, in_provider_response = Some \<lparr>resp_unmatched_reason = Some reason,
        resp_payer_name = Some (cn_payerAccountName p), resp_payer_bank_name = Some (cn_payerBankName p)\<rparr>,
      in_created_at = t\<rparr>"

definition replay_park ::
    "env \<Rightarrow> replay_args \<Rightarrow> collection_notification \<Rightarrow> money \<Rightarrow> id option \<Rightarrow> UnmatchedReason \<Rightarrow> unit service" where
  "replay_park V args p amount_ngn user_id reason =
     bind (may_fail V (InflowWriteFault (cn_orderNo p))) (\<lambda>_.
     bind (find_first inflow_table (\<lambda>i. in_provider_reference i = cn_orderNo p)) (\<lambda>found.
     bind (case found of Some _ \<Rightarrow> return ()
           | None \<Rightarrow> bind now (\<lambda>t. bind (create_row inflow_table (replayed_inflow (e_dec V) p amount_ngn user_id reason t))
                       (\<lambda>_. return ()))) (\<lambda>_.
     if ra_alert_ops args then page_ops (UnmatchedInflowAlert reason (cn_orderNo p)) else return ())))"

text \<open>The customer of the virtual account and the loan that the payment is for, or why there is none.\<close>

definition replay_target ::
    "env \<Rightarrow> string \<Rightarrow> money \<Rightarrow> ((UnmatchedReason \<times> id option) + id \<times> id) service" where
  "replay_target V va amount_ngn =
     bind (find_first repayment_account_table (\<lambda>a. va_virtual_account_no a = va)) (\<lambda>found.
     case found of
       None \<Rightarrow> return (Inl (no_user_for_va, None))
     | Some a \<Rightarrow>
         if amount_ngn < MIN_PARTIAL_REPAYMENT_NGN then return (Inl (below_floor, Some (va_user_id a)))
         else bind (find_many loan_table (\<lambda>l. l_user_id l = va_user_id a \<and> l_status l = LoanStatus.ACTIVE)) (\<lambda>active_loans.
           case active_loans of
             [] \<Rightarrow> return (Inl (no_active_loans, Some (va_user_id a)))
           | [loan] \<Rightarrow> return (Inr (va_user_id a, l_id loan))
           | _ \<Rightarrow>
               bind (findActiveLoanMatchingOutstanding (e_dec V) (va_user_id a) amount_ngn) (\<lambda>smart_match.
               return (case smart_match of None \<Rightarrow> Inl (multiple_active_loans, Some (va_user_id a))
                       | Some (loan_id, _) \<Rightarrow> Inr (va_user_id a, loan_id)))))"

text \<open>The decision against a credit that the provider's answer calls for, if any.\<close>

definition replay_requery :: "env \<Rightarrow> collection_notification \<Rightarrow> string \<Rightarrow> replay_decision option service" where
  "replay_requery V p va =
     bind (attempt (bind (call (\<lambda>w. e_collection_status V w (cn_orderNo p))) (\<lambda>s. return (Some s))) (\<lambda>_. return None)) (\<lambda>answer.
     return (case answer of
       None \<Rightarrow> Some rp_requery_failed
     | Some verified \<Rightarrow>
         if cs_state verified \<noteq> collection_successful then Some rp_mismatch
         else if cs_amount_kobo verified \<noteq> Some (cn_orderAmount p) then Some rp_mismatch
         else if present (cs_virtual_account_no verified) \<notin> {None, Some va} then Some rp_mismatch
         else None))"

definition replay_credit ::
    "env \<Rightarrow> id \<Rightarrow> collection_notification \<Rightarrow> string \<Rightarrow> money \<Rightarrow> id \<Rightarrow> id \<Rightarrow> replay_outcome service" where
  "replay_credit V log_id p va amount_ngn user_id loan_id =
     bind (upsert_inflow V p va amount_ngn user_id) (\<lambda>inflow.
     if in_is_matched inflow then replayed log_id p rp_already_credited None
     else attempt
       (bind (creditInflow (e_dec V) \<lparr>cp_inflow_id = in_id inflow, cp_loan_id = loan_id, cp_amount_ngn = amount_ngn,
                cp_match_method = AUTO_AMOUNT, cp_skip_floor = False\<rparr>) (\<lambda>_.
        replayed log_id p rp_credited (Some loan_id)))
       (\<lambda>_. bind (page_ops (UnmatchedInflowAlert credit_failed (cn_orderNo p))) (\<lambda>_.
            replayed log_id p rp_mismatch (Some loan_id))))"

definition replay_notice :: "env \<Rightarrow> replay_args \<Rightarrow> id \<Rightarrow> collection_notification \<Rightarrow> replay_outcome service" where
  "replay_notice V args log_id p =
     (if cn_orderStatus p \<noteq> COLLECTION_STATUS_SUCCESS then replayed log_id p rp_skipped None
      else case present (cn_virtualAccountNo p) of
        None \<Rightarrow> replayed log_id p rp_skipped None
      | Some va \<Rightarrow>
          bind (find_first inflow_table (\<lambda>i. in_provider_reference i = cn_orderNo p)) (\<lambda>existing.
          if (case existing of None \<Rightarrow> False | Some i \<Rightarrow> in_is_matched i) then replayed log_id p rp_already_credited None
          else let amount_ngn = ddiv (e_dec V) (cn_orderAmount p) 100 in
            bind (replay_target V va amount_ngn) (\<lambda>target.
            case target of
              Inl (reason, user_id) \<Rightarrow>
                bind (if ra_apply args then replay_park V args p amount_ngn user_id reason else return ()) (\<lambda>_.
                replayed log_id p rp_unmatched None)
            | Inr (user_id, loan_id) \<Rightarrow>
                bind (if ra_skip_requery args then return None else replay_requery V p va) (\<lambda>against.
                case against of
                  Some decision \<Rightarrow> replayed log_id p decision None
                | None \<Rightarrow>
                    if \<not> ra_apply args then replayed log_id p rp_credited (Some loan_id)
                    else replay_credit V log_id p va amount_ngn user_id loan_id))))"

text \<open>\<open>body_of\<close> is \<open>JSON.parse\<close> and the schema of the notice on a stored body.\<close>

definition replayOne :: "env \<Rightarrow> (string \<Rightarrow> collection_notification option) \<Rightarrow> replay_args \<Rightarrow> webhook_log_row \<Rightarrow> replay_outcome service" where
  "replayOne V body_of args row =
     (case body_of (wh_raw_body row) of
        None \<Rightarrow> return \<lparr>ro_log_id = wh_id row, ro_order_no = None, ro_decision = rp_parse_failed, ro_loan_id = None\<rparr>
      | Some p \<Rightarrow> replay_notice V args (wh_id row) p)"

fun replay_all :: "env \<Rightarrow> (string \<Rightarrow> collection_notification option) \<Rightarrow> replay_args \<Rightarrow> webhook_log_row list \<Rightarrow> replay_outcome list service" where
  "replay_all V body_of args [] = return []"
| "replay_all V body_of args (c # cs) =
     bind (replayOne V body_of args c) (\<lambda>r. bind (replay_all V body_of args cs) (\<lambda>rs. return (r # rs)))"

definition says_yes :: "string \<Rightarrow> bool" where
  "says_yes answer \<longleftrightarrow> to_lower (trim answer) \<in> {''y'', ''yes''}"

definition replay_main ::
    "env \<Rightarrow> (string \<Rightarrow> collection_notification option) \<Rightarrow> (string \<Rightarrow> time option) \<Rightarrow> string list \<Rightarrow> string \<Rightarrow> replay_outcome list service" where
  "replay_main V body_of date_of argv answer =
     (case parse_flags replay_switch replay_valued argv replay_defaults of
        Inl m \<Rightarrow> throw (OtherError m)
      | Inr args \<Rightarrow>
          if ra_help args then return []
          else bind (findCandidates date_of args) (\<lambda>candidates.
            if candidates = [] then return []
            else if ra_apply args \<and> \<not> ra_force args \<and> \<not> says_yes answer then return []
            else replay_all V body_of args candidates))"

section \<open>Taking back liquidations at a broken rate\<close>

definition findAffected :: "decimals \<Rightarrow> id list \<Rightarrow> loan_row list service" where
  "findAffected D loan_ids =
     bind (find_many loan_table (\<lambda>l. l_status l = LoanStatus.LIQUIDATED \<and> (loan_ids = [] \<or> l_id l \<in> set loan_ids))) (\<lambda>rows.
     return (filter (is_bad_rate D) (sort_key (\<lambda>l. (l_liquidated_at l = None, or_else (l_liquidated_at l) 0)) rows)))"

definition script_restore_log :: "loan_row \<Rightarrow> string \<Rightarrow> time \<Rightarrow> id \<Rightarrow> status_log_row" where
  "script_restore_log loan reason = status_log_of \<lparr>tp_loan_id = l_id loan, tp_user_id = l_user_id loan,
     tp_from_status = Some LoanStatus.LIQUIDATED, tp_to_status = LoanStatus.ACTIVE, tp_triggered_by = SYSTEM,
     tp_triggered_by_id = None, tp_reason_code = LIQUIDATION_REVERSED_BAD_RATE, tp_reason_detail = Some reason,
     tp_metadata = (case l_liquidation_rate_actual loan of None \<Rightarrow> [] | Some r \<Rightarrow> [(''original_liquidation_rate_actual'', JNum r)]) @
       (case l_liquidated_at loan of None \<Rightarrow> [] | Some t \<Rightarrow> [(''original_liquidated_at'', JInt t)]) @
       [(''sat_ngn_rate_at_creation'', JNum (l_sat_ngn_rate_at_creation loan)),
        (''min_liquidation_rate_fraction'', JNum MIN_LIQUIDATION_RATE_FRACTION),
        (''script'', JStr ''restore-bad-rate-liquidations.ts'')]\<rparr>"

definition restoreOne :: "loan_row \<Rightarrow> string \<Rightarrow> unit service" where
  "restoreOne loan reason =
     bind now (\<lambda>t.
     transaction
       (bind (update_by_id loan_table (l_id loan) (\<lambda>l. l\<lparr>l_status := LoanStatus.ACTIVE, l_liquidated_at := None,
                l_liquidation_rate_actual := None\<rparr>)) (\<lambda>_.
        bind (create_row status_log_table (script_restore_log loan reason t)) (\<lambda>_. return ()))))"

text \<open>The loans that were restored, and those that failed.\<close>

fun restore_all :: "string \<Rightarrow> loan_row list \<Rightarrow> (id list \<times> id list) service" where
  "restore_all reason [] = return ([], [])"
| "restore_all reason (l # ls) =
     bind (attempt (bind (restoreOne l reason) (\<lambda>_. return True)) (\<lambda>_. return False)) (\<lambda>ok.
     bind (restore_all reason ls) (\<lambda>(restored, failures).
     return (if ok then (l_id l # restored, failures) else (restored, l_id l # failures))))"

definition restore_main ::
    "decimals \<Rightarrow> (string \<Rightarrow> id) \<Rightarrow> string list \<Rightarrow> bool \<Rightarrow> string \<Rightarrow> (id list \<times> id list) service" where
  "restore_main D id_of argv interactive answer =
     (case parse_flags restore_switch (restore_valued id_of) argv restore_defaults of
        Inl m \<Rightarrow> throw (OtherError m)
      | Inr args \<Rightarrow>
          if ta_help args then return ([], [])
          else bind (findAffected D (ta_loan_ids args)) (\<lambda>affected.
            if \<not> ta_apply args \<or> \<not> ta_force args \<and> \<not> (interactive \<and> to_lower (trim answer) = ''yes'')
            then return ([], [])
            else restore_all (ta_reason args) (capped (ta_limit args) affected)))"

section \<open>Releasing the collateral of one loan\<close>

definition release_script_read :: "id \<Rightarrow> (loan_row \<times> string) option service" where
  "release_script_read loan_id =
     bind (find_by_id loan_table loan_id) (\<lambda>found.
     bind (the_or_throw (OtherError ''not found'') found) (\<lambda>loan.
     bind (require (l_status loan = LoanStatus.REPAID) (OtherError ''not REPAID'')) (\<lambda>_.
     bind (the_or_throw (OtherError ''no collateral_release_address'') (present (l_collateral_release_address loan))) (\<lambda>address.
     return (if l_collateral_released_at loan \<noteq> None then None else Some (loan, address))))))"

definition release_script_send :: "env \<Rightarrow> loan_row \<Rightarrow> string \<Rightarrow> string service" where
  "release_script_send V loan address =
     bind (sendToLightningAddress V (l_id loan) address (l_collateral_amount_sat loan)) (\<lambda>provider_reference.
     bind now (\<lambda>t.
     bind (update_by_id loan_table (l_id loan) (\<lambda>l. l\<lparr>l_collateral_released_at := Some t,
             l_collateral_release_reference := Some provider_reference\<rparr>)) (\<lambda>_.
     return provider_reference)))"

definition release_main :: "env \<Rightarrow> (string \<Rightarrow> id) \<Rightarrow> string list \<Rightarrow> string \<Rightarrow> string option service" where
  "release_main V id_of argv answer =
     (case parse_flags release_switch (release_valued id_of) argv release_defaults of
        Inl m \<Rightarrow> throw (OtherError m)
      | Inr args \<Rightarrow>
          if ea_help args then return None
          else bind (the_or_throw (OtherError ''--loan-id is required'') (ea_loan_id args)) (\<lambda>loan_id.
            bind (release_script_read loan_id) (\<lambda>plan.
            case plan of
              None \<Rightarrow> return None
            | Some (loan, address) \<Rightarrow>
                if \<not> ea_apply args \<or> \<not> ea_force args \<and> \<not> says_yes answer then return None
                else bind (release_script_send V loan address) (\<lambda>reference. return (Some reference)))))"

section \<open>What a replay books\<close>

text \<open>An order is settled when the inflow on record for it is matched to a loan.\<close>

definition settled :: "string \<Rightarrow> world \<Rightarrow> bool" where
  "settled order_no w \<longleftrightarrow>
     (case List.find (\<lambda>i. in_provider_reference i = order_no) (inflows (w_db w)) of
        None \<Rightarrow> False | Some i \<Rightarrow> in_is_matched i)"

definition only_settles :: "world \<Rightarrow> world \<Rightarrow> bool" where
  "only_settles w w' \<longleftrightarrow> (\<forall>order_no. settled order_no w \<longrightarrow> settled order_no w')"

lemma only_settles_refl [simp]: "only_settles w w"
  by (simp add: only_settles_def)

lemma settled_append: "inflows (w_db w') = inflows (w_db w) @ rows \<Longrightarrow> only_settles w w'"
  by (auto simp: only_settles_def settled_def find_append split: option.splits)

lemma find_mark_credited:
  "List.find (\<lambda>i. in_provider_reference i = order_no) (update_row in_id k (mark_credited p t) rows) =
     map_option (\<lambda>i. if in_id i = k then mark_credited p t i else i)
       (List.find (\<lambda>i. in_provider_reference i = order_no) rows)"
  by (induction rows) (simp_all add: mark_credited_def)

lemma settled_credit:
  assumes "inflows (w_db w') = update_row in_id k (mark_credited p t) (inflows (w_db w))"
  shows "only_settles w w'"
    and "List.find (\<lambda>i. in_provider_reference i = order_no) (inflows (w_db w)) = Some i \<Longrightarrow> in_id i = k \<Longrightarrow> settled order_no w'"
  using assms by (auto simp: only_settles_def settled_def find_mark_credited mark_credited_def split: option.splits)

lemma replay_upsert:
  "wp (upsert_inflow V p va n u) (\<lambda>i w'. same_books w w' \<and> only_settles w w' \<and>
     List.find (\<lambda>i. in_provider_reference i = cn_orderNo p) (inflows (w_db w')) = Some i) (\<lambda>_ w'. w' = w) w"
  by (auto simp: upsert_inflow_def wp_simps table_ops same_books_def find_append collected_inflow_def
      intro: settled_append split: option.split)

lemma credit_loan_ids: "wp (creditInflow D p) (\<lambda>_ w'. map l_id (loans (w_db w')) = map l_id (loans (w_db w))) (\<lambda>_ _. True) w"
  by (simp add: creditInflow_def send_receipt_def credit_tx_def credit_active_def close_loan_def transition_from_def
      wp_simps wp_transition Let_def mark_repaid_def map_key_update_row split: option.split)

text \<open>What one notice does: a credit settles an unsettled order and books one repayment, any other
  decision leaves the books alone.\<close>

definition replay_effect :: "string \<Rightarrow> world \<Rightarrow> replay_outcome \<Rightarrow> world \<Rightarrow> bool" where
  "replay_effect order_no w out w' \<longleftrightarrow> only_settles w w' \<and> map l_id (loans (w_db w')) = map l_id (loans (w_db w)) \<and>
     ro_order_no out = Some order_no \<and>
     (if ro_decision out = rp_credited
      then \<not> settled order_no w \<and> settled order_no w' \<and> (\<exists>r. repayments (w_db w') = repayments (w_db w) @ [r])
      else same_books w w')"

lemma replay_refused_effect:
  assumes "same_books w w'" "only_settles w w'" "decision \<noteq> rp_credited"
  shows "wp (replayed log_id p decision loan) (replay_effect (cn_orderNo p) w) E w'"
  using assms by (simp add: replayed_def wp_return replay_effect_def same_books_def)

lemma replay_credit_effect:
  assumes "unique_keys l_id (loans (w_db w))" and "own_active u i w" and "\<not> settled (cn_orderNo p) w"
  shows "wp (replay_credit V log_id p va n u i) (replay_effect (cn_orderNo p) w) (\<lambda>_ w'. w' = w) w"
  unfolding replay_credit_def
proof (rule wp_seq[OF replay_upsert], goal_cases)
  case (1 inflow t)
  then have t: "same_books w t" "only_settles w t"
    "List.find (\<lambda>i. in_provider_reference i = cn_orderNo p) (inflows (w_db t)) = Some inflow" by auto
  let ?p = "\<lparr>cp_inflow_id = in_id inflow, cp_loan_id = i, cp_amount_ngn = n, cp_match_method = AUTO_AMOUNT, cp_skip_floor = False\<rparr>"
  obtain l where l: "find_row l_id i (loans (w_db t)) = Some l" "l_status l = LoanStatus.ACTIVE"
    using assms(1,2) t(1) find_row_unique[of l_id "loans (w_db w)"] by (auto simp: own_active_def same_books_def)
  have page: "wp (page_ops a) (\<lambda>_ v. same_books w v \<and> only_settles w v) (\<lambda>_ _. False) t" for a
    using t(1,2) by (simp add: wp_page_ops same_books_def only_settles_def settled_def)
  show ?case
  proof (cases "in_is_matched inflow")
    case True
    then show ?thesis using t by (simp add: replay_refused_effect)
  next
    case False
    have "wp (creditInflow (e_dec V) ?p) (\<lambda>_ w'. only_settles t w' \<and> settled (cn_orderNo p) w' \<and>
        map l_id (loans (w_db w')) = map l_id (loans (w_db t)) \<and> (\<exists>r. repayments (w_db w') = repayments (w_db t) @ [r]))
        (\<lambda>_ w'. w' = t) t"
    proof (cases "creditInflow (e_dec V) ?p t")
      case (Pair r w')
      then show ?thesis
        using refused_credit[of "e_dec V" ?p t] credit_loan_ids[of "e_dec V" ?p t]
          credit_effect(1,2)[of ?p t l "e_dec V" _ w'] l settled_credit(1) settled_credit(2)[OF _ t(3)]
        by (cases r) (auto simp: wp_def)
    qed
    then have "wp (attempt (bind (creditInflow (e_dec V) ?p) (\<lambda>_. replayed log_id p rp_credited (Some i)))
        (\<lambda>_. bind (page_ops (UnmatchedInflowAlert credit_failed (cn_orderNo p))) (\<lambda>_. replayed log_id p rp_mismatch (Some i))))
        (replay_effect (cn_orderNo p) w) (\<lambda>_ w'. w' = w) t"
      unfolding wp_attempt
    proof (rule wp_seq, goal_cases)
      case (1 x v)
      then show ?case using t assms(3)
        by (auto simp: replayed_def wp_return replay_effect_def same_books_def only_settles_def)
    next
      case (2 e v)
      show ?case unfolding 2 by (rule wp_seq[OF page]) (auto simp: replay_refused_effect)
    qed
    then show ?thesis using False by simp
  qed
qed simp

lemma replay_target_own:
  "wp (replay_target V va n) (\<lambda>target w'. w' = w \<and> (\<forall>u i. target = Inr (u, i) \<longrightarrow> own_active u i w)) (\<lambda>_ _. False) w"
proof (cases "List.find (\<lambda>a. va_virtual_account_no a = va) (repayment_accounts (w_db w))")
  case (Some a)
  let ?active = "filter (\<lambda>l. l_user_id l = va_user_id a \<and> l_status l = LoanStatus.ACTIVE) (loans (w_db w))"
  have one: "own_active (va_user_id a) (l_id l) w" if "?active = [l]" for l
  proof -
    have "l \<in> set ?active" using that by simp
    then show ?thesis by (auto simp: own_active_def)
  qed
  obtain m where m: "findActiveLoanMatchingOutstanding (e_dec V) (va_user_id a) n w = (Inr m, w)"
    by (simp add: findActiveLoanMatchingOutstanding_def gets_def)
  have "own_active (va_user_id a) i w" if "m = Some (i, tie)" for i tie
    using smart_match_own m that by blast
  with m have "wp (findActiveLoanMatchingOutstanding (e_dec V) (va_user_id a) n)
      (\<lambda>m w'. w' = w \<and> (\<forall>i tie. m = Some (i, tie) \<longrightarrow> own_active (va_user_id a) i w)) (\<lambda>_ _. False) w"
    by (auto simp: wp_def)
  then have "wp (bind (findActiveLoanMatchingOutstanding (e_dec V) (va_user_id a) n) (\<lambda>smart_match.
      return (case smart_match of None \<Rightarrow> Inl (multiple_active_loans, Some (va_user_id a)) | Some (loan_id, _) \<Rightarrow> Inr (va_user_id a, loan_id))))
      (\<lambda>target w'. w' = w \<and> (\<forall>u i. target = Inr (u, i) \<longrightarrow> own_active u i w)) (\<lambda>_ _. False) w"
    by (rule wp_seq) (auto simp: wp_return split: option.splits)
  then show ?thesis
    using Some one by (auto simp: replay_target_def wp_simps table_rows split: list.split)
qed (simp add: replay_target_def wp_simps table_rows)

text \<open>The provider confirms the order of a notice and its exact amount when it is asked in the given world.\<close>

definition confirms :: "env \<Rightarrow> collection_notification \<Rightarrow> world \<Rightarrow> bool" where
  "confirms V p w \<longleftrightarrow> (\<exists>st. e_collection_status V w (cn_orderNo p) = Inr st \<and> cs_state st = collection_successful \<and>
     cs_amount_kobo st = Some (cn_orderAmount p))"

lemma replay_requery_confirms:
  "wp (replay_requery V p va) (\<lambda>against w'. w' = w \<and> against \<noteq> Some rp_credited \<and> (against = None \<longrightarrow> confirms V p w))
     (\<lambda>_ _. False) w"
  by (auto simp: replay_requery_def wp_simps confirms_def split: sum.split)

lemma replay_park_effect:
  "wp (replay_park V args p n u r) (\<lambda>_ w'. same_books w w' \<and> only_settles w w') (\<lambda>_ w'. w' = w) w"
  by (auto simp: replay_park_def wp_simps table_ops same_books_def intro: settled_append split: option.split)

text \<open>What a credited notice has shown when its turn came: that it reported success, and, unless the operator waived the
  lookup, that the provider confirmed it.\<close>

definition due_notice :: "env \<Rightarrow> replay_args \<Rightarrow> collection_notification \<Rightarrow> world \<Rightarrow> bool" where
  "due_notice V args p w \<longleftrightarrow> cn_orderStatus p = COLLECTION_STATUS_SUCCESS \<and> (\<not> ra_skip_requery args \<longrightarrow> confirms V p w)"

lemma replay_notice_effect:
  assumes "unique_keys l_id (loans (w_db w))" and "ra_apply args"
  shows "wp (replay_notice V args log_id p) (\<lambda>out w'. replay_effect (cn_orderNo p) w out w' \<and>
     (ro_decision out = rp_credited \<longrightarrow> due_notice V args p w)) (\<lambda>_ _. True) w"
proof (cases "cn_orderStatus p = COLLECTION_STATUS_SUCCESS \<and> \<not> settled (cn_orderNo p) w \<and> present (cn_virtualAccountNo p) \<noteq> None")
  case False
  then show ?thesis
    by (auto simp: replay_notice_def replayed_def wp_simps table_rows replay_effect_def settled_def split: option.splits)
next
  case True
  then obtain va where va: "present (cn_virtualAccountNo p) = Some va" by auto
  let ?n = "ddiv (e_dec V) (cn_orderAmount p) 100"
  let ?Q = "\<lambda>out w'. replay_effect (cn_orderNo p) w out w' \<and> (ro_decision out = rp_credited \<longrightarrow> due_notice V args p w)"
  have no: "wp (replayed log_id p d loan) ?Q (\<lambda>_ _. True) v" if "same_books w v" "only_settles w v" "d \<noteq> rp_credited" for d loan v
    using that by (simp add: replayed_def wp_return replay_effect_def same_books_def)
  have park: "wp (bind (replay_park V args p ?n u r) (\<lambda>_. replayed log_id p rp_unmatched None)) ?Q (\<lambda>_ _. True) w" for u r
    by (rule wp_seq[OF replay_park_effect]) (auto intro: no)
  have credit: "wp (bind (if ra_skip_requery args then return None else replay_requery V p va) (\<lambda>against.
      case against of Some decision \<Rightarrow> replayed log_id p decision None
      | None \<Rightarrow> replay_credit V log_id p va ?n u i)) ?Q (\<lambda>_ _. True) w" if "own_active u i w" for u i
  proof (rule wp_seq[where P = "\<lambda>against w'. w' = w \<and> against \<noteq> Some rp_credited \<and> (against = None \<and> \<not> ra_skip_requery args \<longrightarrow> confirms V p w)"
        and F = "\<lambda>_ _. False"], goal_cases)
    case 1
    show ?case by (auto simp: wp_return intro: wp_mono[OF replay_requery_confirms])
  next
    case (2 against t)
    then show ?case
    proof (cases against)
      case None
      have "wp (replay_credit V log_id p va ?n u i) (replay_effect (cn_orderNo p) w) (\<lambda>_ w'. w' = w) w"
        by (rule replay_credit_effect[OF assms(1) that]) (use True in simp)
      then show ?thesis using None 2 True by (auto simp: due_notice_def elim!: wp_mono)
    qed (use no in \<open>auto simp: same_books_def\<close>)
  qed simp
  have "wp (bind (replay_target V va ?n) (\<lambda>target. case target of
      Inl (reason, user_id) \<Rightarrow> bind (replay_park V args p ?n user_id reason) (\<lambda>_. replayed log_id p rp_unmatched None)
    | Inr (user_id, loan_id) \<Rightarrow> bind (if ra_skip_requery args then return None else replay_requery V p va) (\<lambda>against.
        case against of Some decision \<Rightarrow> replayed log_id p decision None
        | None \<Rightarrow> replay_credit V log_id p va ?n user_id loan_id))) ?Q (\<lambda>_ _. True) w"
  proof (rule wp_seq[OF replay_target_own], goal_cases)
    case (1 target t)
    then show ?case
    proof (cases target)
      case (Inl x)
      then show ?thesis using 1 park by (cases x) (simp only: sum.case prod.case)
    next
      case (Inr x)
      then show ?thesis using 1 credit by (cases x) (simp only: sum.case prod.case)
    qed
  qed simp
  then show ?thesis
    using True va assms(2)
    by (simp add: replay_notice_def wp_bind[of "find_first _ _"] wp_find_first table_rows settled_def Let_def)
qed

lemma replayOne_effect:
  assumes "unique_keys l_id (loans (w_db w))" and "ra_apply args" and "replayOne V body_of args row w = (Inr out, w')"
  shows "only_settles w w' \<and> unique_keys l_id (loans (w_db w')) \<and>
    (if ro_decision out = rp_credited
     then \<exists>p. body_of (wh_raw_body row) = Some p \<and> due_notice V args p w \<and> ro_order_no out = Some (cn_orderNo p) \<and>
       \<not> settled (cn_orderNo p) w \<and> settled (cn_orderNo p) w' \<and>
       length (repayments (w_db w')) = Suc (length (repayments (w_db w)))
     else repayments (w_db w') = repayments (w_db w))"
proof (cases "body_of (wh_raw_body row)")
  case None
  then show ?thesis using assms(1,3) by (auto simp: replayOne_def return_def)
next
  case (Some p)
  then have "replay_notice V args (wh_id row) p w = (Inr out, w')" using assms(3) by (simp add: replayOne_def)
  from wp_result_Inr[OF this replay_notice_effect[OF assms(1,2)]] show ?thesis
    using Some assms(1) by (auto simp: replay_effect_def unique_keys_def same_books_def split: if_splits)
qed

definition credited_orders :: "replay_outcome list \<Rightarrow> string list" where
  "credited_orders outs = map (\<lambda>r. or_else (ro_order_no r) []) (filter (\<lambda>r. ro_decision r = rp_credited) outs)"

lemma replay_all_effect:
  assumes "unique_keys l_id (loans (w_db w))" and "ra_apply args" and "replay_all V body_of args rows w = (Inr outs, w')"
  shows "only_settles w w' \<and> distinct (credited_orders outs) \<and>
    (\<forall>n\<in>set (credited_orders outs). \<not> settled n w \<and> settled n w' \<and>
       (\<exists>before row after earlier v p. rows = before @ row # after \<and> replay_all V body_of args before w = (Inr earlier, v) \<and>
          body_of (wh_raw_body row) = Some p \<and> cn_orderNo p = n \<and> due_notice V args p v)) \<and>
    length (repayments (w_db w')) = length (repayments (w_db w)) + length (credited_orders outs)"
  using assms
proof (induction rows arbitrary: w outs)
  case Nil
  then show ?case by (simp add: return_def credited_orders_def)
next
  case (Cons row rows)
  from Cons.prems(3) obtain out t rest where one: "replayOne V body_of args row w = (Inr out, t)"
    and others: "replay_all V body_of args rows t = (Inr rest, w')" and outs: "outs = out # rest"
    by (auto elim!: bind_InrE simp: return_def)
  note effect = replayOne_effect[OF Cons.prems(1,2) one]
  from effect have "unique_keys l_id (loans (w_db t))" by simp
  note later = Cons.IH[OF this Cons.prems(2) others]
  let ?from = "\<lambda>rows w n. \<exists>before row after earlier v p. rows = before @ row # after \<and>
    replay_all V body_of args before w = (Inr earlier, v) \<and> body_of (wh_raw_body row) = Some p \<and> cn_orderNo p = n \<and>
    due_notice V args p v"
  have shift: "?from (row # rows) w n" if n: "?from rows t n" for n
  proof -
    obtain before x after earlier v p where h: "rows = before @ x # after" "replay_all V body_of args before t = (Inr earlier, v)"
      "body_of (wh_raw_body x) = Some p" "cn_orderNo p = n" "due_notice V args p v" using n by blast
    have "replay_all V body_of args (row # before) w = (Inr (out # earlier), v)"
      by (simp add: bind_def one h(2) return_def)
    with h show ?thesis by (metis append_Cons)
  qed
  from later have l: "only_settles t w'" "distinct (credited_orders rest)"
    "\<And>n. n \<in> set (credited_orders rest) \<Longrightarrow> \<not> settled n t" "\<And>n. n \<in> set (credited_orders rest) \<Longrightarrow> settled n w'"
    "\<And>n. n \<in> set (credited_orders rest) \<Longrightarrow> ?from rows t n"
    "length (repayments (w_db w')) = length (repayments (w_db t)) + length (credited_orders rest)" by blast+
  have o: "only_settles w t" using effect by simp
  then have keep: "only_settles w w'" "\<And>n. n \<in> set (credited_orders rest) \<Longrightarrow> \<not> settled n w"
    using l(1,3) by (auto simp: only_settles_def)
  show ?case
  proof (cases "ro_decision out = rp_credited")
    case True
    then obtain p where p: "body_of (wh_raw_body row) = Some p" "due_notice V args p w" "ro_order_no out = Some (cn_orderNo p)"
      "\<not> settled (cn_orderNo p) w" "settled (cn_orderNo p) t"
      "length (repayments (w_db t)) = Suc (length (repayments (w_db w)))" using effect by auto
    have co: "credited_orders outs = cn_orderNo p # credited_orders rest"
      using True p(3) by (simp add: outs credited_orders_def or_else_def)
    have "replay_all V body_of args [] w = (Inr [], w)" by (simp add: return_def)
    then have head: "?from (row # rows) w (cn_orderNo p)" using p(1,2) by (metis append_Nil)
    have end_settled: "settled (cn_orderNo p) w'" using l(1) p(5) by (simp add: only_settles_def)
    show ?thesis
      unfolding co
    proof (intro conjI ballI)
      fix n assume n: "n \<in> set (cn_orderNo p # credited_orders rest)"
      show "\<not> settled n w" "settled n w'" using n p(4) end_settled keep(2) l(4) by auto
      show "?from (row # rows) w n"
      proof (cases "n = cn_orderNo p")
        case True
        then show ?thesis using head by (simp only:)
      next
        case False
        with n have "n \<in> set (credited_orders rest)" by simp
        from shift[OF l(5)[OF this]] show ?thesis .
      qed
    qed (use l(2,3,6) p(5,6) keep(1) in auto)
  next
    case False
    then have co: "credited_orders outs = credited_orders rest" by (simp add: outs credited_orders_def)
    show ?thesis
      unfolding co
    proof (intro conjI ballI)
      fix n assume n: "n \<in> set (credited_orders rest)"
      show "\<not> settled n w" "settled n w'" using n keep(2) l(4) by auto
      show "?from (row # rows) w n" by (rule shift[OF l(5)[OF n]])
    qed (use l(2,6) keep(1) False effect in auto)
  qed
qed

lemma replay_dry:
  assumes "\<not> ra_apply args"
  shows "wp (replayOne V body_of args row) (\<lambda>_ w'. w' = w) (\<lambda>_ _. False) w"
proof -
  have against: "wp (bind (if ra_skip_requery args then return None else replay_requery V p va) (\<lambda>against.
      case against of Some decision \<Rightarrow> replayed i p decision None | None \<Rightarrow> replayed i p rp_credited (Some loan_id)))
      (\<lambda>_ w'. w' = w) (\<lambda>_ _. False) w" for i p va loan_id
  proof (rule wp_seq[where P = "\<lambda>_ w'. w' = w" and F = "\<lambda>_ _. False"], goal_cases)
    case 1
    show ?case by (auto simp: wp_return intro: wp_mono[OF replay_requery_confirms])
  qed (auto simp: replayed_def wp_return split: option.split)
  have notice: "wp (replay_notice V args i p) (\<lambda>_ w'. w' = w) (\<lambda>_ _. False) w" for i p
  proof (cases "cn_orderStatus p = COLLECTION_STATUS_SUCCESS \<and> \<not> settled (cn_orderNo p) w \<and> present (cn_virtualAccountNo p) \<noteq> None")
    case True
    then obtain va where va: "present (cn_virtualAccountNo p) = Some va" by auto
    have "wp (bind (replay_target V va (ddiv (e_dec V) (cn_orderAmount p) 100)) (\<lambda>target. case target of
        Inl (reason, user_id) \<Rightarrow> bind (return ()) (\<lambda>_. replayed i p rp_unmatched None)
      | Inr (user_id, loan_id) \<Rightarrow> bind (if ra_skip_requery args then return None else replay_requery V p va) (\<lambda>against.
          case against of Some decision \<Rightarrow> replayed i p decision None | None \<Rightarrow> replayed i p rp_credited (Some loan_id))))
        (\<lambda>_ w'. w' = w) (\<lambda>_ _. False) w"
    proof (rule wp_seq[OF replay_target_own], goal_cases)
      case (1 target t)
      then show ?case
      proof (cases target)
        case (Inl x)
        then show ?thesis using 1 by (cases x) (simp add: wp_simps replayed_def)
      next
        case (Inr x)
        then show ?thesis using 1 against by (cases x) (simp only: sum.case prod.case)
      qed
    qed simp
    then show ?thesis
      using True va assms
      by (simp add: replay_notice_def wp_bind[of "find_first _ _"] wp_find_first table_rows settled_def Let_def)
  qed (auto simp: replay_notice_def replayed_def wp_simps table_rows settled_def split: option.splits)
  show ?thesis using notice by (auto simp: replayOne_def wp_return split: option.split)
qed

lemma replay_all_dry:
  assumes "\<not> ra_apply args"
  shows "wp (replay_all V body_of args rows) (\<lambda>_ w'. w' = w) (\<lambda>_ _. False) w"
proof (induction rows)
  case (Cons row rows)
  show ?case
    unfolding replay_all.simps
    by (rule wp_seq[OF replay_dry[OF assms]]) (auto intro!: wp_seq[OF Cons] simp: wp_return)
qed (simp add: wp_return)

lemma findCandidates_logged:
  "wp (findCandidates date_of args) (\<lambda>rows w'. w' = w \<and> (\<forall>row\<in>set rows. row \<in> set (webhook_logs (w_db w)) \<and> dropped_log row))
     (\<lambda>_ w'. w' = w) w"
  by (auto simp: findCandidates_def wp_simps table_rows capped_def dest!: in_set_takeD split: option.split)

lemma replay_main_runs:
  assumes "parse_flags replay_switch replay_valued argv replay_defaults = Inr args"
    and "replay_main V body_of date_of argv answer w = (Inr outs, w')"
  obtains (none) "outs = []" "w' = w"
  | (runs) rows where "findCandidates date_of args w = (Inr rows, w)"
      "\<forall>row\<in>set rows. row \<in> set (webhook_logs (w_db w)) \<and> dropped_log row"
      "replay_all V body_of args rows w = (Inr outs, w')" "ra_apply args \<longrightarrow> ra_force args \<or> says_yes answer"
proof -
  let ?found = "\<lambda>rows. findCandidates date_of args w = (Inr rows, w)"
  let ?logged = "\<lambda>rows. \<forall>row\<in>set rows. row \<in> set (webhook_logs (w_db w)) \<and> dropped_log row"
  let ?Q = "\<lambda>outs v. outs = [] \<and> v = w \<or> (\<exists>rows. ?found rows \<and> ?logged rows \<and> replay_all V body_of args rows w = (Inr outs, v) \<and>
         (ra_apply args \<longrightarrow> ra_force args \<or> says_yes answer))"
  have found: "wp (findCandidates date_of args) (\<lambda>rows v. v = w \<and> ?found rows \<and> ?logged rows) (\<lambda>_ v. v = w) w"
    using findCandidates_logged[of date_of args w] by (auto simp: wp_def split: prod.splits sum.splits)
  have "wp (bind (findCandidates date_of args) (\<lambda>candidates. if candidates = [] then return []
      else if ra_apply args \<and> \<not> ra_force args \<and> \<not> says_yes answer then return []
      else replay_all V body_of args candidates)) ?Q (\<lambda>_ _. True) w"
  proof (rule wp_seq[OF found], goal_cases)
    case (1 rows v)
    then show ?case by (auto simp: wp_return wp_def[of "replay_all _ _ _ _"] split: prod.split sum.split)
  qed simp
  then have "wp (replay_main V body_of date_of argv answer) ?Q (\<lambda>_ _. True) w"
    using assms(1) by (simp add: replay_main_def wp_return)
  from wp_result_Inr[OF assms(2) this] show ?thesis using that by blast
qed

text \<open>C20. A replay books every order at most once: of the orders it reports as credited none was
  settled before and all are afterwards, none is credited twice even when several deliveries of it were
  logged, and exactly one repayment is booked for each. A credited order stems from a delivery among the logged, correctly
  signed and dropped ones that reported success; and unless the operator passed the switch that skips the lookup, the provider
  confirmed the exact amount of the order when the replay asked, after it had gone through the deliveries before that one. Without
  the switch to apply, or without the operator's word, nothing changes.\<close>

theorem replay_books_each_order_once:
  assumes "wf_table loan_table w" and "parse_flags replay_switch replay_valued argv replay_defaults = Inr args"
    and "replay_main V body_of date_of argv answer w = (Inr outs, w')"
  shows "if ra_apply args \<and> (ra_force args \<or> says_yes answer)
    then distinct (credited_orders outs) \<and>
      (\<forall>n\<in>set (credited_orders outs). \<not> settled n w \<and> settled n w' \<and>
         (\<exists>before row after earlier v p. findCandidates date_of args w = (Inr (before @ row # after), w) \<and>
            row \<in> set (webhook_logs (w_db w)) \<and> dropped_log row \<and> wh_signature_valid row = Some True \<and>
            body_of (wh_raw_body row) = Some p \<and> cn_orderNo p = n \<and> cn_orderStatus p = COLLECTION_STATUS_SUCCESS \<and>
            replay_all V body_of args before w = (Inr earlier, v) \<and> (\<not> ra_skip_requery args \<longrightarrow> confirms V p v))) \<and>
      length (repayments (w_db w')) = length (repayments (w_db w)) + length (credited_orders outs)
    else w' = w"
proof (rule replay_main_runs[OF assms(2,3)], goal_cases)
  case 1
  then show ?thesis by (simp add: credited_orders_def)
next
  case runs: (2 rows)
  have unique: "unique_keys l_id (loans (w_db w))" using assms(1) by (simp add: wf_table_def table_rows)
  show ?thesis
  proof (cases "ra_apply args")
    case True
    have "\<exists>before row after earlier v p. findCandidates date_of args w = (Inr (before @ row # after), w) \<and>
        row \<in> set (webhook_logs (w_db w)) \<and> dropped_log row \<and> wh_signature_valid row = Some True \<and>
        body_of (wh_raw_body row) = Some p \<and> cn_orderNo p = n \<and> cn_orderStatus p = COLLECTION_STATUS_SUCCESS \<and>
        replay_all V body_of args before w = (Inr earlier, v) \<and> (\<not> ra_skip_requery args \<longrightarrow> confirms V p v)"
      if n: "\<exists>before row after earlier v p. rows = before @ row # after \<and> replay_all V body_of args before w = (Inr earlier, v) \<and>
        body_of (wh_raw_body row) = Some p \<and> cn_orderNo p = n \<and> due_notice V args p v" for n
    proof -
      obtain before row after earlier v p where h: "rows = before @ row # after" "replay_all V body_of args before w = (Inr earlier, v)"
        "body_of (wh_raw_body row) = Some p" "cn_orderNo p = n" "due_notice V args p v" using n by blast
      moreover have "row \<in> set (webhook_logs (w_db w))" "dropped_log row" using runs(2) h(1) by auto
      moreover from this have "wh_signature_valid row = Some True" by (simp add: dropped_log_def)
      ultimately show ?thesis using runs(1) unfolding due_notice_def by blast
    qed
    then show ?thesis using True runs(4) replay_all_effect[OF unique True runs(3)] by (simp only: if_True simp_thms) blast
  qed (use wp_result_Inr[OF runs(3) replay_all_dry[of args]] in simp)
qed

text \<open>Without infrastructure failures a replay goes through: every candidate gets an outcome.\<close>

lemma new_order_ok:
  "List.find (\<lambda>i. in_provider_reference i = n) rows = None \<Longrightarrow> in_provider_reference r = n \<Longrightarrow> violated inflow_table r rows = None"
  by (auto simp: violated_def inflow_table_def find_None_iff)

lemma replayed_returns: "wp (replayed i p d x) (\<lambda>_ _. True) E v"
  by (simp add: replayed_def wp_return)

lemma replay_credit_returns:
  assumes "\<And>f v. \<not> e_fault V f v"
  shows "wp (replay_credit V i p va n u j) (\<lambda>_ _. True) (\<lambda>_ _. False) w"
proof -
  have up: "wp (upsert_inflow V p va n u) (\<lambda>_ _. True) (\<lambda>_ _. False) w"
    using assms by (auto simp: upsert_inflow_def wp_simps table_rows new_order_ok collected_inflow_def split: option.split)
  have credit: "wp (attempt (bind (creditInflow D c) (\<lambda>_. replayed i p d x)) (\<lambda>_. bind (page_ops a) (\<lambda>_. replayed i p d' x)))
      (\<lambda>_ _. True) (\<lambda>_ _. False) v" for D c d d' x a v
    unfolding wp_attempt by (rule wp_seq[OF refused_credit]) (simp_all add: replayed_returns wp_bind wp_page_ops)
  show ?thesis
    unfolding replay_credit_def by (rule wp_seq[OF up]) (simp_all add: replayed_returns credit)
qed

lemma replayOne_returns:
  assumes "\<And>f v. \<not> e_fault V f v"
  shows "wp (replayOne V body_of args row) (\<lambda>_ _. True) (\<lambda>_ _. False) w"
proof -
  have park: "wp (if b then replay_park V args p n u r else return ()) (\<lambda>_ _. True) (\<lambda>_ _. False) v" for b p n u r v
    using assms by (auto simp: replay_park_def wp_simps table_rows new_order_ok replayed_inflow_def split: option.split)
  have ask: "wp (if b then return None else replay_requery V p va) (\<lambda>_ _. True) (\<lambda>_ _. False) v" for b p va v
    by (auto simp: wp_return intro: wp_mono[OF replay_requery_confirms])
  have rest: "wp (case target of
      Inl (reason, user_id) \<Rightarrow> bind (if ra_apply args then replay_park V args p n user_id reason else return ()) (\<lambda>_.
        replayed i p rp_unmatched None)
    | Inr (user_id, loan_id) \<Rightarrow> bind (if ra_skip_requery args then return None else replay_requery V p va) (\<lambda>against.
        case against of Some decision \<Rightarrow> replayed i p decision None
        | None \<Rightarrow> if \<not> ra_apply args then replayed i p rp_credited (Some loan_id)
            else replay_credit V i p va n user_id loan_id)) (\<lambda>_ _. True) (\<lambda>_ _. False) v" for target p n i va v
  proof (cases target)
    case (Inl x)
    then show ?thesis by (cases x) (simp only: sum.case prod.case, rule wp_seq[OF park], simp_all add: replayed_returns)
  next
    case (Inr x)
    then show ?thesis
      by (cases x) (simp only: sum.case prod.case, rule wp_seq[OF ask],
        simp_all add: replayed_returns replay_credit_returns[OF assms] split: option.split)
  qed
  have "wp (replay_notice V args i p) (\<lambda>_ _. True) (\<lambda>_ _. False) w" for i p
  proof (cases "cn_orderStatus p = COLLECTION_STATUS_SUCCESS \<and> \<not> settled (cn_orderNo p) w \<and> present (cn_virtualAccountNo p) \<noteq> None")
    case True
    then obtain va where va: "present (cn_virtualAccountNo p) = Some va" by auto
    have "wp (bind (replay_target V va n) f) (\<lambda>_ _. True) (\<lambda>_ _. False) w"
      if "\<And>target v. wp (f target) (\<lambda>_ _. True) (\<lambda>_ _. False) v" for n and f :: "_ \<Rightarrow> replay_outcome service"
      by (rule wp_seq[OF replay_target_own]) (use that in auto)
    from this[OF rest] show ?thesis
      using True va by (simp only: replay_notice_def wp_bind[of "find_first _ _"] wp_find_first table_rows settled_def Let_def
          option.case if_False if_True simp_thms)
  qed (auto simp: replay_notice_def replayed_returns wp_bind wp_find_first table_rows settled_def split: option.splits)
  then show ?thesis by (auto simp: replayOne_def wp_return split: option.split)
qed

lemma replay_all_returns:
  assumes "\<And>f v. \<not> e_fault V f v"
  shows "wp (replay_all V body_of args rows) (\<lambda>_ _. True) (\<lambda>_ _. False) w"
proof (induction rows arbitrary: w)
  case (Cons row rows)
  show ?case
    unfolding replay_all.simps
    by (rule wp_seq[OF replayOne_returns[OF assms]], rule wp_seq[OF Cons.IH]) (simp_all add: wp_return)
qed (simp add: wp_return)

lemma replay_all_length: "replay_all V body_of args rows w = (Inr outs, w') \<Longrightarrow> length outs = length rows"
  by (induction rows arbitrary: w outs) (auto simp: return_def elim!: bind_InrE)

section \<open>The restoring script and the endpoint\<close>

text \<open>C21. The restoring script and the operators' endpoint take back the same liquidations in the same
  way: the script lists a liquidated loan exactly when the endpoint does not refuse it, and both then leave the
  same loans behind. Only the endpoint writes an audit row.\<close>

theorem restore_script_matches_endpoint:
  assumes "wf_table loan_table w" and "find_row l_id i (loans (w_db w)) = Some l"
    and "findAffected D [] w = (Inr affected, w)"
  shows "(l \<in> set affected \<longleftrightarrow> (\<exists>w2. restoreFromBadLiquidation D i reason ops w = (Inr (), w2))) \<and>
    (l \<in> set affected \<longrightarrow> (\<exists>w1 w2. restoreOne l reason w = (Inr (), w1) \<and>
       restoreFromBadLiquidation D i reason ops w = (Inr (), w2) \<and> loans (w_db w1) = loans (w_db w2) \<and>
       length (status_logs (w_db w1)) = length (status_logs (w_db w2)) \<and>
       audits (w_db w1) = audits (w_db w) \<and> length (audits (w_db w2)) = Suc (length (audits (w_db w)))))"
proof -
  have i: "l_id l = i" using assms(2) by (rule find_row_key)
  have listed: "l \<in> set affected \<longleftrightarrow> l_status l = LoanStatus.LIQUIDATED \<and> is_bad_rate D l"
    using assms(2,3) by (auto simp: findAffected_def run_defs find_many_def table_rows dest: find_row_in_set)
  let ?f = "\<lambda>l. l\<lparr>l_status := LoanStatus.ACTIVE, l_liquidated_at := None, l_liquidation_rate_actual := None\<rparr>"
  have ok: "violated loan_table (?f l) (loans (w_db w)) = None"
    by (rule loan_update_ok[OF assms(1,2)]) simp_all
  have log: "violated status_log_table r rows = None" for r rows by (simp add: status_log_table_def violated_def)
  have script: "wp (restoreOne l reason) (\<lambda>_ w1. loans (w_db w1) = update_row l_id i ?f (loans (w_db w)) \<and>
      audits (w_db w1) = audits (w_db w) \<and> length (status_logs (w_db w1)) = Suc (length (status_logs (w_db w)))) (\<lambda>_ _. False) w"
    using assms(2) ok by (simp add: restoreOne_def wp_simps table_ops i log)
  have endpoint: "wp (restoreFromBadLiquidation D i reason ops) (\<lambda>_ w2. l \<in> set affected \<and>
      loans (w_db w2) = update_row l_id i ?f (loans (w_db w)) \<and>
      length (status_logs (w_db w2)) = Suc (length (status_logs (w_db w))) \<and>
      length (audits (w_db w2)) = Suc (length (audits (w_db w)))) (\<lambda>_ _. l \<notin> set affected) w"
    using assms(2) ok
    by (simp add: restoreFromBadLiquidation_def wp_simps table_ops i listed log audit_write_def violated_audit)
  obtain w1 where w1: "restoreOne l reason w = (Inr (), w1)" "loans (w_db w1) = update_row l_id i ?f (loans (w_db w))"
    "audits (w_db w1) = audits (w_db w)" "length (status_logs (w_db w1)) = Suc (length (status_logs (w_db w)))"
    using wp_runD[OF script] by auto
  show ?thesis using endpoint w1 by (auto simp: wp_def split: prod.splits sum.splits)
qed

text \<open>The script writes what it read: a loan that was restored and repaid while the operator was asked
  for confirmation is made active again, although it is paid.\<close>

theorem stale_restore_reopens_repaid_loan:
  assumes "wf_table loan_table w" and "find_row l_id (l_id listed) (loans (w_db w)) = Some l"
    and "l_status l = LoanStatus.REPAID"
  shows "\<exists>w1. restoreOne listed reason w = (Inr (), w1) \<and> find_row l_id (l_id listed) (loans (w_db w1)) =
    Some (l\<lparr>l_status := LoanStatus.ACTIVE, l_liquidated_at := None, l_liquidation_rate_actual := None\<rparr>)"
proof -
  let ?f = "\<lambda>l. l\<lparr>l_status := LoanStatus.ACTIVE, l_liquidated_at := None, l_liquidation_rate_actual := None\<rparr>"
  have ok: "violated loan_table (?f l) (loans (w_db w)) = None"
    by (rule loan_update_ok[OF assms(1,2)]) (simp_all add: find_row_key[OF assms(2)])
  have log: "violated status_log_table r rows = None" for r rows by (simp add: status_log_table_def violated_def)
  have "wp (restoreOne listed reason) (\<lambda>_ w1. find_row l_id (l_id listed) (loans (w_db w1)) = Some (?f l)) (\<lambda>_ _. False) w"
    using assms(2) ok by (simp add: restoreOne_def wp_simps table_ops log find_row_update_row)
  from wp_runD[OF this] show ?thesis by auto
qed

section \<open>The release script and the worker\<close>

text \<open>C37. The release script takes no lock and does not look again: a loan that the worker releases while the
  operator is asked for confirmation is paid a second time, and the reference of the first payment is
  overwritten.\<close>

theorem release_script_pays_again:
  assumes "wf_table loan_table w" and "release_due w i l address" and "releaseForLoan V i w = (Inr (Released first), w1)"
    and "e_send_lightning V w1 address (l_collateral_amount_sat l) = Inr second"
  shows "release_script_read i w = (Inr (Some (l, address)), w) \<and>
    (\<exists>w2. release_script_send V l address w1 = (Inr second, w2) \<and>
       lightning_sends w2 = lightning_sends w @
         [LightningSend i address (l_collateral_amount_sat l) (Inr first),
          LightningSend i address (l_collateral_amount_sat l) (Inr second)] \<and>
       (\<exists>l2. find_row l_id i (loans (w_db w2)) = Some l2 \<and> l_collateral_release_reference l2 = Some second))"
proof -
  let ?n = "l_collateral_amount_sat l"
  have sends: "lightning_sends w1 = lightning_sends w @ [LightningSend i address ?n (Inr first)]"
  proof (cases rule: release_cases[of V i w])
    case (due l' a' r v)
    have "l' = l" "a' = address" "r = Released first" using due(1,2) assms(2,3) by (auto simp: release_due_def)
    then show ?thesis using due(1,3,4) assms(3)
      by (cases rule: release_endsE[OF due(4)]) (auto simp: lightning_sends_def)
  qed (use assms(3) in auto)
  have i: "l_id l = i" using assms(2) by (auto simp: release_due_def dest: find_row_key)
  have marked: "loans (w_db w1) = mark_released i (w_clock w) first (loans (w_db w))"
  proof (cases rule: release_cases[of V i w])
    case (due l' a' r v)
    then have "release_ends V l' a' (under_lock i w) (Released first) v" "w1 = unlocked i v" using assms(3) by auto
    then show ?thesis by (cases rule: release_endsE) (auto simp: due(3))
  qed (use assms(3) in auto)
  let ?u = "w\<lparr>w_db := (w_db w)\<lparr>loans := loans (w_db w1)\<rparr>\<rparr>"
  let ?stamp = "\<lambda>t r x. x\<lparr>l_collateral_released_at := t, l_collateral_release_reference := r\<rparr>"
  have wf: "wf_table loan_table ?u"
    by (rule loan_tbl.wf_touch[OF assms(1), where p = "\<lambda>l. l_id l = i \<and> l_collateral_released_at l = None"
          and f = "?stamp (Some (w_clock w)) (Some first)"])
      (auto simp: table_rows marked mark_released_def loan_table_def)
  obtain l1 where l1: "find_row l_id i (loans (w_db w1)) = Some l1" using released_state[OF assms(1,3)] by blast
  have stamp: "violated loan_table (?stamp t r l1) (loans (w_db w1)) = None" for t r
    using loan_update_ok[OF wf, of i l1 "?stamp t r l1"] l1 by simp
  have "wp (release_script_send V l address) (\<lambda>ref w2. ref = second \<and>
      lightning_sends w2 = lightning_sends w1 @ [LightningSend i address ?n (Inr second)] \<and>
      (\<exists>l2. find_row l_id i (loans (w_db w2)) = Some l2 \<and> l_collateral_release_reference l2 = Some second)) (\<lambda>_ _. False) w1"
    using assms(4) l1
    by (simp add: release_script_send_def wp_simps i table_ops stamp lightning_sends_def find_row_update_row)
  moreover have "release_script_read i w = (Inr (Some (l, address)), w)"
    using assms(2) by (auto simp: release_script_read_def run_defs find_by_id_def table_rows release_due_def present_def)
  ultimately show ?thesis using wp_runD sends by fastforce
qed

section \<open>Concrete runs\<close>

definition dropped_row :: "id \<Rightarrow> webhook_log_row" where
  "dropped_row i = \<lparr>wh_id = i, wh_provider = ''palmpay'', wh_received_at = 0, wh_http_method = ''POST'',
     wh_http_path = ''/v1/webhooks/palmpay'', wh_headers = [], wh_raw_body = [], wh_body_length = 0,
     wh_signature_valid = Some True, wh_outcome = IGNORED,
     wh_outcome_detail = Some ''collection orderStatus=1'', wh_processed_at = None, wh_external_reference = None\<rparr>"

definition replay_world :: world where
  "replay_world = (collection_world active_loan)\<lparr>w_db := (w_db (collection_world active_loan))\<lparr>webhook_logs := [dropped_row 1, dropped_row 2]\<rparr>\<rparr>"

definition replay_argv :: "string list" where
  "replay_argv = [''--apply'', ''--force'']"

lemma replay_world_wf: "wf_table loan_table replay_world"
  by (simp add: wf_table_def unique_keys_def table_rows replay_world_def collection_world_def)

lemma replay_argv_read:
  "parse_flags replay_switch replay_valued replay_argv replay_defaults = Inr (replay_defaults\<lparr>ra_apply := True, ra_force := True\<rparr>)"
  by (simp add: replay_argv_def replay_switch_def)

lemma replay_help:
  "\<not> ra_help (replay_defaults\<lparr>ra_apply := a, ra_force := f\<rparr>)" "ra_force (replay_defaults\<lparr>ra_apply := a, ra_force := f\<rparr>) = f"
  "ra_apply (replay_defaults\<lparr>ra_apply := a, ra_force := f\<rparr>) = a"
  by (simp_all add: replay_defaults_def)

theorem replay_books_each_order_once_witness:
  "\<exists>outs w'. replay_main (confirming_env 2000000) (\<lambda>_. Some (sample_notice 2000000)) (\<lambda>_. None) replay_argv [] replay_world =
       (Inr outs, w') \<and> length outs = 2 \<and> distinct (credited_orders outs) \<and>
     length (repayments (w_db w')) = length (credited_orders outs)"
proof -
  let ?V = "confirming_env 2000000" and ?body = "\<lambda>_. Some (sample_notice 2000000)"
    and ?args = "replay_defaults\<lparr>ra_apply := True, ra_force := True\<rparr>"
  obtain outs w' where run: "replay_all ?V ?body ?args [dropped_row 1, dropped_row 2] replay_world = (Inr outs, w')"
    using wp_runD[OF replay_all_returns[of ?V]] by fastforce
  have "dropped_log (dropped_row i)" for i by (simp add: dropped_log_def dropped_row_def DROPPED_PATHS_def)
  then have "findCandidates (\<lambda>_. None) ?args replay_world = (Inr [dropped_row 1, dropped_row 2], replay_world)"
    by (simp add: findCandidates_def run_defs find_many_def table_rows replay_world_def replay_defaults_def capped_def dropped_row_def)
  with run have main: "replay_main ?V ?body (\<lambda>_. None) replay_argv [] replay_world = (Inr outs, w')"
    by (simp add: replay_main_def replay_argv_read bind_def replay_help del: replay_all.simps)
  have "repayments (w_db replay_world) = []" by (simp add: replay_world_def)
  then show ?thesis
    using replay_books_each_order_once[OF replay_world_wf replay_argv_read main] main replay_all_length[OF run] by simp
qed

theorem release_script_pays_again_witness:
  "\<exists>w1 w2. releaseForLoan toy_env 3 repaid_world = (Inr (Released ''paid''), w1) \<and>
     release_script_send toy_env repaid_loan ''me'' w1 = (Inr ''paid'', w2) \<and> length (lightning_sends w2) = 2"
proof (cases rule: release_cases[of toy_env 3 repaid_world])
  case (due l a r v)
  from due(4) have "r = Released ''paid''" by (cases rule: release_endsE) auto
  then have run: "releaseForLoan toy_env 3 repaid_world = (Inr (Released ''paid''), unlocked 3 v)" using due(1) by simp
  have "lightning_sends repaid_world = []" by (simp add: lightning_sends_def repaid_world_def empty_world_def)
  then show ?thesis
    using release_script_pays_again[OF repaid_world_due(2,1) run, of "''paid''"] run by auto
qed (use repaid_world_due in auto)

definition liquidated_loan :: loan_row where
  "liquidated_loan = repaid_loan\<lparr>l_status := LoanStatus.LIQUIDATED, l_liquidated_at := Some 0, l_liquidation_rate_actual := None\<rparr>"

definition liquidated_world :: world where
  "liquidated_world = repaid_world\<lparr>w_db := (w_db repaid_world)\<lparr>loans := [liquidated_loan]\<rparr>\<rparr>"

lemma liquidated_world_facts:
  "wf_table loan_table liquidated_world" "find_row l_id 3 (loans (w_db liquidated_world)) = Some liquidated_loan"
  "findAffected D [] liquidated_world = (Inr [liquidated_loan], liquidated_world)"
  by (simp_all add: wf_table_def unique_keys_def table_rows liquidated_world_def liquidated_loan_def repaid_loan_def
      repaid_world_def findAffected_def run_defs find_many_def is_bad_rate_def)

theorem restore_script_matches_endpoint_witness:
  "\<exists>w1 w2. restoreOne liquidated_loan ''glitch'' liquidated_world = (Inr (), w1) \<and>
     restoreFromBadLiquidation js_decimals 3 ''glitch'' 99 liquidated_world = (Inr (), w2) \<and>
     loans (w_db w1) = loans (w_db w2)"
  using restore_script_matches_endpoint[OF liquidated_world_facts, of js_decimals "''glitch''" 99] by auto

theorem stale_restore_reopens_repaid_loan_witness:
  "\<exists>w1 l. restoreOne liquidated_loan ''glitch'' repaid_world = (Inr (), w1) \<and>
     find_row l_id 3 (loans (w_db w1)) = Some l \<and> l_status l = LoanStatus.ACTIVE \<and> l_repaid_at l \<noteq> None"
proof -
  have "l_id liquidated_loan = 3" "find_row l_id (l_id liquidated_loan) (loans (w_db repaid_world)) = Some repaid_loan"
    "l_status repaid_loan = LoanStatus.REPAID" "l_repaid_at repaid_loan \<noteq> None"
    by (simp_all add: liquidated_loan_def repaid_loan_def repaid_world_def)
  then show ?thesis using stale_restore_reopens_repaid_loan[OF repaid_world_due(2), of liquidated_loan repaid_loan "''glitch''"] by auto
qed

end
