(* ===== verification/Backfill.thy ===== *)
theory Backfill
  imports Remediation PalmpayProvider Kyc
begin

text \<open>
  The one-off corrections of stored columns: \<open>scripts/rehash-kyc-id-numbers.ts\<close>,
  \<open>scripts/clean-repayment-account-names.ts\<close>, \<open>scripts/replace-bloom-repayment-accounts.ts\<close> and
  \<open>scripts/correct-repayment-account-bank-name.ts\<close>. Each reads its rows first and then writes one row after the
  other, and tells what it would do unless it is asked to apply it. A command line that is refused
  raises; what is printed is left out, except for the counts and the orders that wait. The
  reading of a number and of JSON are parameters.
\<close>

section \<open>The command line\<close>

record backfill_args =
  bf_apply :: bool
  bf_limit :: "int option"
  bf_help :: bool

definition backfill_defaults :: backfill_args where
  "backfill_defaults = \<lparr>bf_apply = False, bf_limit = None, bf_help = False\<rparr>"

definition backfill_switch :: "string \<Rightarrow> (backfill_args \<Rightarrow> backfill_args) option" where
  "backfill_switch f =
     (if f = ''--'' then Some (\<lambda>a. a)
      else if f = ''--apply'' then Some (\<lambda>a. a\<lparr>bf_apply := True\<rparr>)
      else if f = ''--help'' \<or> f = ''-h'' then Some (\<lambda>a. a\<lparr>bf_help := True\<rparr>)
      else None)"

text \<open>\<open>Number(v)\<close>, none when it is not finite, must be a positive integer.\<close>

definition whole_limit :: "(string \<Rightarrow> rat option) \<Rightarrow> string \<Rightarrow> string + int" where
  "whole_limit number v =
     (case number v of
        None \<Rightarrow> Inl ''--limit must be a positive integer''
      | Some n \<Rightarrow> if n = of_int \<lfloor>n\<rfloor> \<and> 0 < n then Inr \<lfloor>n\<rfloor> else Inl ''--limit must be a positive integer'')"

definition backfill_valued :: "(string \<Rightarrow> rat option) \<Rightarrow> string \<Rightarrow> (string \<Rightarrow> backfill_args \<Rightarrow> string + backfill_args) option" where
  "backfill_valued number f =
     (if f = ''--limit''
      then Some (\<lambda>v a. case whole_limit number v of Inl m \<Rightarrow> Inl m | Inr n \<Rightarrow> Inr (a\<lparr>bf_limit := Some n\<rparr>))
      else None)"

record replace_args =
  rb_apply :: bool
  rb_help :: bool
  rb_user_id :: "string option"

definition replace_defaults :: replace_args where
  "replace_defaults = \<lparr>rb_apply = False, rb_help = False, rb_user_id = None\<rparr>"

definition replace_switch :: "string \<Rightarrow> (replace_args \<Rightarrow> replace_args) option" where
  "replace_switch f =
     (if take 7 f = ''--user='' then Some (\<lambda>a. a\<lparr>rb_user_id := Some (drop 7 f)\<rparr>)
      else if f = ''--'' then Some (\<lambda>a. a)
      else if f = ''--apply'' then Some (\<lambda>a. a\<lparr>rb_apply := True\<rparr>)
      else if f = ''--help'' \<or> f = ''-h'' then Some (\<lambda>a. a\<lparr>rb_help := True\<rparr>)
      else None)"

section \<open>Hashing the numbers of identities again\<close>

record rehash_tally =
  rh_rehashed :: nat
  rh_already_correct :: nat
  rh_decrypt_failed :: nat
  rh_conflicts :: "id list"

definition rehash_row ::
    "env \<Rightarrow> (string \<Rightarrow> string option) \<Rightarrow> bool \<Rightarrow> kyc_row \<Rightarrow> rehash_tally \<Rightarrow> rehash_tally service" where
  "rehash_row V decrypt apply_changes row n =
     (case present (k_encrypted_id_number row) of
        None \<Rightarrow> return n
      | Some encrypted \<Rightarrow>
          if k_id_type row = None then return n
          else (case decrypt encrypted of
             None \<Rightarrow> return (n\<lparr>rh_decrypt_failed := Suc (rh_decrypt_failed n)\<rparr>)
           | Some id_number \<Rightarrow>
               if Some (e_hash_kyc_id V id_number) = k_id_number_hash row
               then return (n\<lparr>rh_already_correct := Suc (rh_already_correct n)\<rparr>)
               else if \<not> apply_changes then return (n\<lparr>rh_rehashed := Suc (rh_rehashed n)\<rparr>)
               else attempt
                 (bind (update_by_id kyc_table (k_id row) (\<lambda>k. k\<lparr>k_id_number_hash := Some (e_hash_kyc_id V id_number)\<rparr>)) (\<lambda>_.
                  return (n\<lparr>rh_rehashed := Suc (rh_rehashed n)\<rparr>)))
                 (\<lambda>e. case e of PrismaUniqueViolation _ \<Rightarrow> return (n\<lparr>rh_conflicts := rh_conflicts n @ [k_id row]\<rparr>)
                    | _ \<Rightarrow> throw e)))"

fun rehash_all :: "env \<Rightarrow> (string \<Rightarrow> string option) \<Rightarrow> bool \<Rightarrow> kyc_row list \<Rightarrow> rehash_tally \<Rightarrow> rehash_tally service" where
  "rehash_all V decrypt apply_changes [] n = return n"
| "rehash_all V decrypt apply_changes (row # rows) n =
     bind (rehash_row V decrypt apply_changes row n) (\<lambda>n'. rehash_all V decrypt apply_changes rows n')"

definition rehash_ids :: "env \<Rightarrow> (string \<Rightarrow> string option) \<Rightarrow> bool \<Rightarrow> int option \<Rightarrow> rehash_tally service" where
  "rehash_ids V decrypt apply_changes limit =
     bind (find_many kyc_table (\<lambda>k. k_id_type k \<noteq> None \<and> k_encrypted_id_number k \<noteq> None)) (\<lambda>rows.
     rehash_all V decrypt apply_changes (capped limit (sort_key k_created_at rows))
       \<lparr>rh_rehashed = 0, rh_already_correct = 0, rh_decrypt_failed = 0, rh_conflicts = []\<rparr>)"

text \<open>The counts and the exit code, or nothing for help.\<close>

definition rehash_main ::
    "env \<Rightarrow> (string \<Rightarrow> string option) \<Rightarrow> (string \<Rightarrow> rat option) \<Rightarrow> string list \<Rightarrow> (rehash_tally \<times> nat) option service" where
  "rehash_main V decrypt number argv =
     (case parse_flags backfill_switch (backfill_valued number) argv backfill_defaults of
        Inl m \<Rightarrow> throw (OtherError m)
      | Inr args \<Rightarrow>
          if bf_help args then return None
          else bind (rehash_ids V decrypt (bf_apply args) (bf_limit args)) (\<lambda>n.
            return (Some (n, if 0 < rh_decrypt_failed n + length (rh_conflicts n) then 1 else 0))))"

section \<open>Cleaning the names of accounts\<close>

record clean_tally =
  cl_cleaned :: nat
  cl_already_clean :: nat

definition clean_row :: "bool \<Rightarrow> repayment_account_row \<Rightarrow> clean_tally \<Rightarrow> clean_tally service" where
  "clean_row apply_changes row n =
     (let cleaned_name = stripMerchantSuffix (va_virtual_account_name row) in
      if cleaned_name = va_virtual_account_name row then return (n\<lparr>cl_already_clean := Suc (cl_already_clean n)\<rparr>)
      else if cleaned_name = [] then return n
      else bind (if apply_changes
                 then bind (update_by_id repayment_account_table (va_id row)
                         (\<lambda>a. a\<lparr>va_virtual_account_name := cleaned_name\<rparr>)) (\<lambda>_. return ())
                 else return ()) (\<lambda>_.
           return (n\<lparr>cl_cleaned := Suc (cl_cleaned n)\<rparr>)))"

fun clean_all :: "bool \<Rightarrow> repayment_account_row list \<Rightarrow> clean_tally \<Rightarrow> clean_tally service" where
  "clean_all apply_changes [] n = return n"
| "clean_all apply_changes (row # rows) n =
     bind (clean_row apply_changes row n) (\<lambda>n'. clean_all apply_changes rows n')"

definition clean_names :: "bool \<Rightarrow> int option \<Rightarrow> clean_tally service" where
  "clean_names apply_changes limit =
     bind (find_many repayment_account_table (\<lambda>_. True)) (\<lambda>rows.
     clean_all apply_changes (capped limit (sort_key va_created_at rows)) \<lparr>cl_cleaned = 0, cl_already_clean = 0\<rparr>)"

definition clean_main :: "(string \<Rightarrow> rat option) \<Rightarrow> string list \<Rightarrow> clean_tally option service" where
  "clean_main number argv =
     (case parse_flags backfill_switch (backfill_valued number) argv backfill_defaults of
        Inl m \<Rightarrow> throw (OtherError m)
      | Inr args \<Rightarrow>
          if bf_help args then return None
          else bind (clean_names (bf_apply args) (bf_limit args)) (\<lambda>n. return (Some n)))"

section \<open>Replacing the accounts at Bloom\<close>

definition BLOOM_BANK_NAME :: string where "BLOOM_BANK_NAME = ''Bloom Microfinance Bank''"

text \<open>\<open>LoanNotificationsService.notifyRepaymentAccountChanged\<close>: the mail names the account that was retired.\<close>

definition notifyRepaymentAccountChanged :: "id \<Rightarrow> va_summary \<Rightarrow> unit service" where
  "notifyRepaymentAccountChanged user_id previous_account =
     bind (find_by_id user_table user_id) (\<lambda>user.
     bind (find_first repayment_account_table (\<lambda>a. va_user_id a = user_id \<and> va_is_active a)) (\<lambda>va.
     case (user, va) of
       (Some _, Some _) \<Rightarrow> notify user_id (RepaymentAccountChangedMail (vs_virtual_account_no previous_account))
     | _ \<Rightarrow> return ()))"

record replace_tally =
  nb_replaced :: nat
  nb_emailed :: nat
  nb_skipped :: nat
  nb_failed :: nat

definition replace_row :: "env \<Rightarrow> bool \<Rightarrow> repayment_account_row \<Rightarrow> replace_tally \<Rightarrow> replace_tally service" where
  "replace_row V apply_changes row n =
     bind (find_many loan_table (\<lambda>l. l_user_id l = va_user_id row \<and> l_status l = LoanStatus.ACTIVE)) (\<lambda>active_loans.
     if \<not> apply_changes then return n
     else attempt
       (bind (replaceForUser V (va_user_id row)) (\<lambda>result.
        case result of
          None \<Rightarrow> return (n\<lparr>nb_skipped := Suc (nb_skipped n)\<rparr>)
        | Some (summary, retired) \<Rightarrow>
            (case retired of
               None \<Rightarrow> return (n\<lparr>nb_replaced := Suc (nb_replaced n)\<rparr>)
             | Some account \<Rightarrow>
                 if active_loans = [] then return (n\<lparr>nb_replaced := Suc (nb_replaced n)\<rparr>)
                 else bind (notifyRepaymentAccountChanged (va_user_id row) account) (\<lambda>_.
                   return (n\<lparr>nb_replaced := Suc (nb_replaced n), nb_emailed := Suc (nb_emailed n)\<rparr>)))))
       (\<lambda>_. return (n\<lparr>nb_failed := Suc (nb_failed n)\<rparr>)))"

fun replace_all :: "env \<Rightarrow> bool \<Rightarrow> repayment_account_row list \<Rightarrow> replace_tally \<Rightarrow> replace_tally service" where
  "replace_all V apply_changes [] n = return n"
| "replace_all V apply_changes (row # rows) n =
     bind (replace_row V apply_changes row n) (\<lambda>n'. replace_all V apply_changes rows n')"

definition replace_bloom :: "env \<Rightarrow> bool \<Rightarrow> id option \<Rightarrow> replace_tally service" where
  "replace_bloom V apply_changes only =
     bind (find_many repayment_account_table (\<lambda>a. va_is_active a \<and> va_bank_name a = BLOOM_BANK_NAME \<and>
             (case only of None \<Rightarrow> True | Some u \<Rightarrow> va_user_id a = u))) (\<lambda>rows.
     replace_all V apply_changes (sort_key va_created_at rows) \<lparr>nb_replaced = 0, nb_emailed = 0, nb_skipped = 0, nb_failed = 0\<rparr>)"

definition replace_main :: "env \<Rightarrow> (string \<Rightarrow> id) \<Rightarrow> string list \<Rightarrow> (replace_tally \<times> nat) option service" where
  "replace_main V id_of argv =
     (case parse_flags replace_switch (\<lambda>_. None) argv replace_defaults of
        Inl m \<Rightarrow> throw (OtherError m)
      | Inr args \<Rightarrow>
          if rb_help args then return None
          else bind (replace_bloom V (rb_apply args) (map_option id_of (present (rb_user_id args)))) (\<lambda>n.
            return (Some (n, if 0 < nb_failed n then 1 else 0))))"

section \<open>Correcting the names of banks\<close>

definition BOOST_BANK_NAME :: string where "BOOST_BANK_NAME = ''Boost Microfinance Bank''"
definition BOOST_VA_PREFIX :: string where "BOOST_VA_PREFIX = ''0100''"

definition mislabelled :: "repayment_account_row \<Rightarrow> bool" where
  "mislabelled a \<longleftrightarrow> take (length BOOST_VA_PREFIX) (va_virtual_account_no a) = BOOST_VA_PREFIX \<and> va_bank_name a \<noteq> BOOST_BANK_NAME"

definition correct_names :: "bool \<Rightarrow> nat service" where
  "correct_names apply_changes =
     bind (find_many repayment_account_table mislabelled) (\<lambda>rows.
     if apply_changes \<and> rows \<noteq> []
     then update_many repayment_account_table (\<lambda>a. va_id a \<in> set (map va_id rows)) (\<lambda>a. a\<lparr>va_bank_name := BOOST_BANK_NAME\<rparr>)
     else return 0)"

text \<open>The deferred notices whose order nobody has credited since, each order once.\<close>

definition deferred_log :: "webhook_log_row \<Rightarrow> bool" where
  "deferred_log l \<longleftrightarrow> wh_provider l = ''palmpay'' \<and> wh_http_path l = ''/v1/webhooks/palmpay/collection/va'' \<and>
     wh_outcome l = ''DEFERRED''"

definition body_order :: "(string \<Rightarrow> json option) \<Rightarrow> webhook_log_row \<Rightarrow> string service" where
  "body_order decode l =
     (case decode (wh_raw_body l) of
        Some JNull \<Rightarrow> throw (OtherError ''Cannot read properties of null'')
      | Some (JObject ps) \<Rightarrow>
          (case map_of ps ''orderNo'' of
             None \<Rightarrow> return (or_else (wh_external_reference l) [])
           | Some JNull \<Rightarrow> return (or_else (wh_external_reference l) [])
           | Some v \<Rightarrow> return (js_string v))
      | _ \<Rightarrow> return (or_else (wh_external_reference l) []))"

fun pending_orders :: "(string \<Rightarrow> json option) \<Rightarrow> webhook_log_row list \<Rightarrow> string list \<Rightarrow> string list service" where
  "pending_orders decode [] seen = return []"
| "pending_orders decode (l # ls) seen =
     bind (body_order decode l) (\<lambda>order_no.
     if order_no = [] \<or> order_no \<in> set seen then pending_orders decode ls seen
     else bind (find_first inflow_table (\<lambda>i. in_provider_reference i = order_no)) (\<lambda>inflow.
       bind (pending_orders decode ls (order_no # seen)) (\<lambda>rest.
       return (if map_option in_is_matched inflow = Some True then rest else order_no # rest))))"

definition correct_main :: "(string \<Rightarrow> json option) \<Rightarrow> string list \<Rightarrow> (nat \<times> string list) option service" where
  "correct_main decode argv =
     (case parse_flags backfill_switch (\<lambda>_. None) argv backfill_defaults of
        Inl m \<Rightarrow> throw (OtherError m)
      | Inr args \<Rightarrow>
          if bf_help args then return None
          else bind (correct_names (bf_apply args)) (\<lambda>count.
            bind (find_many webhook_log_table deferred_log) (\<lambda>logs.
            bind (pending_orders decode (sort_key wh_received_at logs) []) (\<lambda>orders.
            return (Some (count, orders))))))"

section \<open>What cleaning does\<close>

lemma insort_key_map: "(\<And>x. g (f x) = g x) \<Longrightarrow> insort_key g (f x) (map f ys) = map f (insort_key g x ys)"
  by (induction ys) auto

lemma sort_key_map: "(\<And>x. g (f x) = g x) \<Longrightarrow> sort_key g (map f xs) = map f (sort_key g xs)"
  by (induction xs) (auto simp: insort_key_map)

lemma update_row_cong:
  assumes "unique_keys key rows" and "r \<in> set rows" and "f r = g r"
  shows "update_row key (key r) f rows = update_row key (key r) g rows"
proof -
  have "x = r" if "x \<in> set rows" "key x = key r" for x
    using assms(1,2) that by (auto simp: unique_keys_def distinct_map inj_on_def)
  then show ?thesis using assms(3) by (auto simp: update_row_def update_where_def)
qed

lemma update_row_id:
  assumes "unique_keys key rows" and "r \<in> set rows" and "f r = r"
  shows "update_row key (key r) f rows = rows"
  using update_row_cong[where key = key and f = f and g = "\<lambda>x. x", OF assms] by (simp add: update_row_def update_where_def)

definition cleaned :: "repayment_account_row \<Rightarrow> repayment_account_row" where
  "cleaned a = (let name = stripMerchantSuffix (va_virtual_account_name a) in
     if name = [] then a else a\<lparr>va_virtual_account_name := name\<rparr>)"

lemma cleaned_fields [simp]:
  "va_id (cleaned a) = va_id a" "va_created_at (cleaned a) = va_created_at a" "va_user_id (cleaned a) = va_user_id a"
  "va_virtual_account_no (cleaned a) = va_virtual_account_no a" "va_is_active (cleaned a) = va_is_active a"
  by (simp_all add: cleaned_def Let_def)

lemma cleaned_again [simp]: "cleaned (cleaned a) = cleaned a"
  using merchant_suffix_is_gone by (auto simp: cleaned_def Let_def)

lemma cleaned_same: "cleaned a = a \<longleftrightarrow> stripMerchantSuffix (va_virtual_account_name a) \<in> {[], va_virtual_account_name a}"
  by (auto simp: cleaned_def Let_def) (metis repayment_account_row.select_convs(4) repayment_account_row.surjective
      repayment_account_row.update_convs(4))

definition relabelled :: "(repayment_account_row \<Rightarrow> bool) \<Rightarrow> world \<Rightarrow> world" where
  "relabelled p w = t_put repayment_account_table (update_where p cleaned) w"

lemma relabelled_rows [simp]: "repayment_accounts (w_db (relabelled p w)) = update_where p cleaned (repayment_accounts (w_db w))"
  by (simp add: relabelled_def table_puts)

lemma relabelled_wf: "wf_table repayment_account_table w \<Longrightarrow> wf_table repayment_account_table (relabelled p w)"
  by (rule repayment_account_tbl.wf_touch[of w cleaned _ p])
     (auto simp: table_rows relabelled_def table_puts table_defs)

lemma clean_row_run:
  assumes "wf_table repayment_account_table w" and "row \<in> set (repayment_accounts (w_db w))"
  shows "\<exists>n'. clean_row True row n w = (Inr n', relabelled (\<lambda>a. va_id a = va_id row) w)"
proof -
  let ?rows = "repayment_accounts (w_db w)"
  have u: "unique_keys va_id ?rows" using assms(1) by (simp add: wf_table_def table_rows)
  note found = find_row_unique[OF u assms(2)]
  have same: "relabelled (\<lambda>a. va_id a = va_id row) w = w" if "cleaned row = row"
    using update_row_id[where key = va_id and f = cleaned, OF u assms(2) that] by (simp add: relabelled_def table_puts update_row_def)
  show ?thesis
  proof (cases "cleaned row = row")
    case True
    then show ?thesis by (auto simp: cleaned_same clean_row_def Let_def return_def same)
  next
    case False
    then have name: "stripMerchantSuffix (va_virtual_account_name row) \<notin> {[], va_virtual_account_name row}" by (simp add: cleaned_same)
    let ?f = "\<lambda>a. a\<lparr>va_virtual_account_name := stripMerchantSuffix (va_virtual_account_name row)\<rparr>"
    have "violated repayment_account_table (?f row) ?rows = None"
      using found by (intro repayment_account_tbl.not_violated[OF assms(1), of "va_id row" row, unfolded table_rows])
        (auto simp: table_defs)
    moreover have "update_row va_id (va_id row) ?f ?rows = update_row va_id (va_id row) cleaned ?rows"
      by (rule update_row_cong[OF u assms(2)]) (use name in \<open>simp add: cleaned_def Let_def\<close>)
    ultimately show ?thesis
      using name found
      by (auto simp: clean_row_def Let_def run_defs update_by_id_def table_rows table_puts relabelled_def update_row_def)
  qed
qed

lemma relabelled_more:
  assumes "\<And>a. p (cleaned a) = p a"
  shows "relabelled p (relabelled q w) = relabelled (\<lambda>a. p a \<or> q a) w"
proof -
  have "update_where p cleaned (update_where q cleaned rows) = update_where (\<lambda>a. p a \<or> q a) cleaned rows" for rows
    by (simp add: update_where_def assms)
  then show ?thesis by (simp add: relabelled_def table_puts)
qed

lemma clean_all_run:
  assumes "wf_table repayment_account_table w" and "set rows \<subseteq> set (repayment_accounts (w_db w))" and "distinct (map va_id rows)"
  shows "\<exists>n'. clean_all True rows n w = (Inr n', relabelled (\<lambda>a. va_id a \<in> va_id ` set rows) w)"
  using assms
proof (induction rows arbitrary: n w)
  case Nil
  then show ?case by (simp add: return_def relabelled_def table_puts update_where_def)
next
  case (Cons row rows)
  let ?v = "relabelled (\<lambda>a. va_id a = va_id row) w"
  obtain n' where row: "clean_row True row n w = (Inr n', ?v)" using clean_row_run Cons.prems(1,2) by fastforce
  have "r \<in> set (repayment_accounts (w_db ?v))" if "r \<in> set rows" for r
  proof -
    have "r \<in> set (repayment_accounts (w_db w))" "va_id r \<noteq> va_id row" using that Cons.prems(2,3) by (force simp: image_iff)+
    then show ?thesis by (auto simp: set_update_where)
  qed
  then have "set rows \<subseteq> set (repayment_accounts (w_db ?v))" by blast
  then obtain m where "clean_all True rows n' ?v = (Inr m, relabelled (\<lambda>a. va_id a \<in> va_id ` set rows) ?v)"
    using Cons.IH[OF relabelled_wf[OF Cons.prems(1)]] Cons.prems(3) by fastforce
  then show ?case using row by (simp add: bind_def relabelled_more disj_commute)
qed

lemma clean_all_noop:
  assumes "\<forall>r\<in>set rows. cleaned r = r"
  shows "\<exists>n'. clean_all b rows n w = (Inr n', w) \<and> cl_cleaned n' = cl_cleaned n"
  using assms
proof (induction rows arbitrary: n)
  case (Cons row rows)
  have "\<exists>n'. clean_row b row n w = (Inr n', w) \<and> cl_cleaned n' = cl_cleaned n"
    using Cons.prems by (auto simp: cleaned_same clean_row_def Let_def return_def)
  then show ?case using Cons by (fastforce simp: bind_def)
qed (simp add: return_def)

definition first_ids :: "int option \<Rightarrow> world \<Rightarrow> id set" where
  "first_ids limit w = va_id ` set (capped limit (sort_key va_created_at (repayment_accounts (w_db w))))"

lemma set_capped: "set (capped limit xs) \<subseteq> set xs"
  by (auto simp: capped_def dest: in_set_takeD split: option.split)

lemma clean_names_run:
  assumes "wf_table repayment_account_table w"
  shows "\<exists>n. clean_names True limit w = (Inr n, relabelled (\<lambda>a. va_id a \<in> first_ids limit w) w)"
proof -
  let ?rows = "sort_key va_created_at (repayment_accounts (w_db w))"
  have "distinct (map va_id (repayment_accounts (w_db w)))" using assms by (simp add: wf_table_def unique_keys_def table_rows)
  then have "distinct (map va_id ?rows)" by (simp add: distinct_map)
  then have "distinct (map va_id (capped limit ?rows))" by (simp add: capped_def take_map[symmetric] distinct_take split: option.split)
  moreover have "set (capped limit ?rows) \<subseteq> set (repayment_accounts (w_db w))" using set_capped[of limit ?rows] by simp
  ultimately show ?thesis
    using clean_all_run[OF assms, of "capped limit ?rows"]
    by (auto simp: clean_names_def first_ids_def bind_def find_many_def gets_def table_rows)
qed

text \<open>Cleaning every name twice is cleaning it once: the second run, under whatever limit, writes nothing.\<close>

theorem cleaning_is_idempotent:
  assumes "wf_table repayment_account_table w"
  shows "\<exists>n w' m. clean_names True None w = (Inr n, w') \<and> repayment_accounts (w_db w') = map cleaned (repayment_accounts (w_db w)) \<and>
    clean_names b limit w' = (Inr m, w') \<and> cl_cleaned m = 0"
proof -
  let ?w = "relabelled (\<lambda>a. va_id a \<in> first_ids None w) w"
  obtain n where run: "clean_names True None w = (Inr n, ?w)" using clean_names_run[OF assms] by blast
  have rows: "repayment_accounts (w_db ?w) = map cleaned (repayment_accounts (w_db w))"
    by (auto simp: update_where_def first_ids_def capped_def)
  have "\<forall>r\<in>set (capped limit (sort_key va_created_at (repayment_accounts (w_db ?w)))). cleaned r = r"
    using set_capped[of limit "sort_key va_created_at (repayment_accounts (w_db ?w))"] unfolding rows by fastforce
  then obtain m where "clean_names b limit ?w = (Inr m, ?w)" "cl_cleaned m = 0"
    using clean_all_noop[of "capped limit (sort_key va_created_at (repayment_accounts (w_db ?w)))" b
        "\<lparr>cl_cleaned = 0, cl_already_clean = 0\<rparr>" ?w]
    by (auto simp: clean_names_def bind_def find_many_def gets_def table_rows)
  then show ?thesis using run rows by blast
qed

lemma first_ids_stay: "first_ids limit (relabelled p w) = first_ids limit w" if "\<And>a. p (cleaned a) = p a"
proof -
  let ?f = "\<lambda>a. if p a then cleaned a else a"
  have "sort_key va_created_at (map ?f (repayment_accounts (w_db w))) = map ?f (sort_key va_created_at (repayment_accounts (w_db w)))"
    by (rule sort_key_map) simp
  moreover have "capped limit (map ?f xs) = map ?f (capped limit xs)" for xs
    by (simp add: capped_def take_map split: option.split)
  ultimately have "first_ids limit (relabelled p w) =
      set (map va_id (map ?f (capped limit (sort_key va_created_at (repayment_accounts (w_db w))))))"
    by (simp only: first_ids_def relabelled_rows update_where_def set_map)
  also have "\<dots> = first_ids limit w" by (simp only: first_ids_def map_map o_def if_distrib cleaned_fields if_cancel set_map)
  finally show ?thesis .
qed

text \<open>A name without a parenthesis is cleaned of its blanks all the same.\<close>

lemma blanks_are_cleaned: "cleaned (a\<lparr>va_virtual_account_name := ''Ada  Obi''\<rparr>) = a\<lparr>va_virtual_account_name := ''Ada Obi''\<rparr>"
proof -
  have "stripMerchantSuffix ''Ada  Obi'' = ''Ada Obi''" by code_simp
  then show ?thesis by (simp add: cleaned_def)
qed

text \<open>A limit is a limit of the rows that are looked at, the oldest ones: however often the script runs with the same limit,
  what lies behind them is never reached.\<close>

theorem limited_cleaning_never_advances:
  assumes "wf_table repayment_account_table w" and "a \<in> set (repayment_accounts (w_db w))" and "va_id a \<notin> first_ids (Some n) w"
  shows "a \<in> set (repayment_accounts (w_db (((\<lambda>v. final (clean_names True (Some n)) v) ^^ k) w)))"
proof -
  let ?run = "\<lambda>v. final (clean_names True (Some n)) v"
  have "wf_table repayment_account_table ((?run ^^ k) w) \<and> a \<in> set (repayment_accounts (w_db ((?run ^^ k) w))) \<and>
      first_ids (Some n) ((?run ^^ k) w) = first_ids (Some n) w"
  proof (induction k)
    case (Suc k)
    let ?v = "(?run ^^ k) w"
    have v: "wf_table repayment_account_table ?v" "a \<in> set (repayment_accounts (w_db ?v))" "first_ids (Some n) ?v = first_ids (Some n) w"
      using Suc by blast+
    have "?run ?v = relabelled (\<lambda>a. va_id a \<in> first_ids (Some n) ?v) ?v"
      using clean_names_run[OF v(1), of "Some n"] by auto
    then show ?case
      using v assms(3) relabelled_wf[OF v(1)] first_ids_stay[of "\<lambda>a. va_id a \<in> first_ids (Some n) ?v" "Some n" ?v]
      by (auto simp: set_update_where intro!: bexI[of _ a])
  qed (use assms in simp)
  then show ?thesis by blast
qed

section \<open>What correcting does\<close>

theorem bank_names_are_corrected:
  assumes "wf_table repayment_account_table w"
  shows "\<exists>w'. correct_names True w = (Inr (length (filter mislabelled (repayment_accounts (w_db w)))), w') \<and>
    repayment_accounts (w_db w') = map (\<lambda>a. if mislabelled a then a\<lparr>va_bank_name := BOOST_BANK_NAME\<rparr> else a) (repayment_accounts (w_db w)) \<and>
    correct_names True w' = (Inr 0, w')"
proof -
  let ?rows = "repayment_accounts (w_db w)" let ?fix = "\<lambda>a. a\<lparr>va_bank_name := BOOST_BANK_NAME\<rparr>"
  have u: "unique_keys va_id ?rows" using assms by (simp add: wf_table_def table_rows)
  have chosen: "va_id a \<in> va_id ` set (filter mislabelled ?rows) \<longleftrightarrow> mislabelled a" if "a \<in> set ?rows" for a
    using u that by (auto simp: unique_keys_def distinct_map inj_on_def)
  have count: "filter (\<lambda>a. va_id a \<in> va_id ` set (filter mislabelled ?rows)) ?rows = filter mislabelled ?rows"
    by (rule filter_cong[OF refl chosen])
  have rows: "update_where (\<lambda>a. va_id a \<in> va_id ` set (filter mislabelled ?rows)) ?fix ?rows = map (\<lambda>a. if mislabelled a then ?fix a else a) ?rows"
    unfolding update_where_def by (rule map_cong[OF refl]) (simp only: chosen)
  have none: "filter mislabelled (map (\<lambda>a. if mislabelled a then ?fix a else a) xs) = []" for xs
    by (auto simp: filter_empty_conv mislabelled_def)
  show ?thesis
  proof (cases "filter mislabelled ?rows = []")
    case True
    then have "map (\<lambda>a. if mislabelled a then ?fix a else a) ?rows = ?rows" by (simp add: filter_empty_conv map_idI)
    then show ?thesis using True by (simp add: correct_names_def run_defs find_many_def table_rows)
  next
    case False
    then show ?thesis
      using count rows none[of ?rows]
      by (auto simp: correct_names_def run_defs find_many_def update_many_def table_rows table_puts simp del: set_filter)
  qed
qed

text \<open>The orders that are listed as waiting: each once, named by a deferred notice, and not credited by now.\<close>

lemma pending_orders_wait:
  "wp (pending_orders decode ls seen) (\<lambda>orders w'. w' = w \<and> distinct orders \<and> set orders \<inter> set seen = {} \<and>
     (\<forall>r\<in>set orders. r \<noteq> [] \<and> (\<forall>i. List.find (\<lambda>i. in_provider_reference i = r) (inflows (w_db w)) = Some i \<longrightarrow> \<not> in_is_matched i)))
     (\<lambda>_ w'. w' = w) w"
proof (induction ls arbitrary: seen)
  case (Cons l ls)
  have body: "wp (body_order decode l) (\<lambda>_ w'. w' = w) (\<lambda>_ w'. w' = w) w"
    by (auto simp: body_order_def wp_simps split: option.split json.split)
  show ?case
    unfolding pending_orders.simps
  proof (rule wp_seq[OF body])
    fix r t assume t: "t = w"
    show "wp (if r = [] \<or> r \<in> set seen then pending_orders decode ls seen
        else bind (find_first inflow_table (\<lambda>i. in_provider_reference i = r)) (\<lambda>inflow.
          bind (pending_orders decode ls (r # seen)) (\<lambda>rest.
          return (if map_option in_is_matched inflow = Some True then rest else r # rest))))
       (\<lambda>orders w'. w' = w \<and> distinct orders \<and> set orders \<inter> set seen = {} \<and>
         (\<forall>r\<in>set orders. r \<noteq> [] \<and> (\<forall>i. List.find (\<lambda>i. in_provider_reference i = r) (inflows (w_db w)) = Some i \<longrightarrow> \<not> in_is_matched i)))
       (\<lambda>_ w'. w' = w) t"
    proof (cases "r = [] \<or> r \<in> set seen")
      case True
      then show ?thesis using Cons.IH[of seen] by (simp add: t)
    next
      case False
      show ?thesis
        unfolding t using False
        by (simp add: wp_bind wp_find_first table_rows) (rule wp_mono[OF Cons.IH[of "r # seen"]]; auto simp: wp_return)
    qed
  qed simp
qed (simp add: wp_simps)

section \<open>What replacing does\<close>

text \<open>Nobody who has an account is without one afterwards, and no account number is lost.\<close>

definition accounts_kept :: "world \<Rightarrow> world \<Rightarrow> bool" where
  "accounts_kept w w' \<longleftrightarrow> (\<exists>new. routes w' = routes w @ new) \<and> (\<forall>u. active_of u w \<noteq> [] \<longrightarrow> active_of u w' \<noteq> [])"

lemma accounts_kept_refl [simp]: "accounts_kept w w"
  by (simp add: accounts_kept_def)

lemma accounts_kept_trans: "accounts_kept u v \<Longrightarrow> accounts_kept v w \<Longrightarrow> accounts_kept u w"
  by (fastforce simp: accounts_kept_def)

lemma accounts_kept_same: "repayment_accounts (w_db w') = repayment_accounts (w_db w) \<Longrightarrow> accounts_kept w w'"
  by (simp add: accounts_kept_def routes_def active_of_def)

lemma accounts_kept_replaced:
  assumes "repayment_accounts (w_db w') = update_where (\<lambda>a. va_user_id a = u \<and> va_is_active a)
      (\<lambda>a. a\<lparr>va_is_active := False, va_deactivated_at := t\<rparr>) (repayment_accounts (w_db w)) @ [new]"
    and "va_user_id new = u" and "va_is_active new"
  shows "accounts_kept w w'"
proof -
  have "routes w' = routes w @ [(va_virtual_account_no new, va_user_id new)]"
    by (simp add: routes_def assms(1) update_where_def)
  moreover have "active_of v w' \<noteq> []" if kept: "active_of v w \<noteq> []" for v
  proof (cases "v = u")
    case True
    then show ?thesis using assms(2,3) by (simp add: active_of_def assms(1))
  next
    case False
    obtain a where "a \<in> set (repayment_accounts (w_db w))" "va_user_id a = v" "va_is_active a"
      using kept by (auto simp: active_of_def filter_empty_conv)
    then have "a \<in> set (active_of v w')" using False by (auto simp: active_of_def assms(1) set_update_where)
    then show ?thesis by auto
  qed
  ultimately show ?thesis by (auto simp: accounts_kept_def)
qed

lemma replaceForUser_rows:
  "wp (replaceForUser V u)
     (\<lambda>_ w'. repayment_accounts (w_db w') = repayment_accounts (w_db w) \<or>
        (\<exists>t new. repayment_accounts (w_db w') = update_where (\<lambda>a. va_user_id a = u \<and> va_is_active a)
           (\<lambda>a. a\<lparr>va_is_active := False, va_deactivated_at := t\<rparr>) (repayment_accounts (w_db w)) @ [new] \<and>
           va_user_id new = u \<and> va_is_active new))
     (\<lambda>_ w'. repayment_accounts (w_db w') = repayment_accounts (w_db w)) w"
  unfolding replaceForUser_def findActive_def va_provision_def
  by (auto simp: wp_simps table_rows table_puts new_repayment_account_def split: option.split sum.split)

lemma replaceForUser_kept: "wp (replaceForUser V u) (\<lambda>_. accounts_kept w) (\<lambda>_. accounts_kept w) w"
  by (rule wp_mono[OF replaceForUser_rows]) (auto intro: accounts_kept_same accounts_kept_replaced)

lemma replace_row_kept: "wp (replace_row V b row n) (\<lambda>_. accounts_kept w) (\<lambda>_ _. False) w"
proof -
  have told: "wp (notifyRepaymentAccountChanged u a) (\<lambda>_. accounts_kept w) (\<lambda>_ _. False) v" if "accounts_kept w v" for u a v
    using accounts_kept_trans[OF that accounts_kept_same]
    by (auto simp: notifyRepaymentAccountChanged_def wp_simps that split: option.split)
  have handled: "wp (attempt (bind (replaceForUser V u) f) (\<lambda>_. return m)) (\<lambda>_. accounts_kept w) (\<lambda>_ _. False) w"
    if "\<And>r v. accounts_kept w v \<Longrightarrow> wp (f r) (\<lambda>_. accounts_kept w) (\<lambda>_ _. False) v"
    for u m and f :: "(va_summary \<times> va_summary option) option \<Rightarrow> replace_tally service"
    unfolding wp_attempt
    by (rule wp_seq[OF replaceForUser_kept]) (auto simp: wp_return intro: wp_mono[OF that])
  show ?thesis
    unfolding replace_row_def wp_bind[of "find_many loan_table p" for p] wp_find_many
    by (auto simp: wp_if wp_return wp_bind intro!: handled wp_mono[OF told] split: option.split prod.split)
qed

lemma replace_all_kept: "wp (replace_all V b rows n) (\<lambda>_. accounts_kept w) (\<lambda>_ _. False) w"
proof (induction rows arbitrary: n w)
  case (Cons row rows)
  show ?case
    unfolding replace_all.simps
    by (rule wp_seq[OF replace_row_kept]) (auto intro: wp_mono[OF Cons.IH] accounts_kept_trans)
qed (simp add: wp_simps)

theorem replacing_keeps_everyone_reachable:
  "\<exists>n w'. replace_bloom V apply_changes only w = (Inr n, w') \<and> (\<exists>new. routes w' = routes w @ new) \<and>
     (\<forall>u. active_of u w \<noteq> [] \<longrightarrow> active_of u w' \<noteq> [])"
proof -
  have "wp (replace_bloom V apply_changes only) (\<lambda>_. accounts_kept w) (\<lambda>_ _. False) w"
    unfolding replace_bloom_def wp_bind wp_find_many by (rule replace_all_kept)
  from wp_runD[OF this] show ?thesis by (auto simp: accounts_kept_def)
qed

section \<open>What hashing again does\<close>

text \<open>The hash that belongs to a row; none when the row has no number or the number cannot be read.\<close>

definition due_hash :: "env \<Rightarrow> (string \<Rightarrow> string option) \<Rightarrow> kyc_row \<Rightarrow> string option" where
  "due_hash V decrypt k =
     (if k_id_type k = None then None
      else map_option (e_hash_kyc_id V) (Option.bind (present (k_encrypted_id_number k)) decrypt))"

definition rehashed :: "env \<Rightarrow> (string \<Rightarrow> string option) \<Rightarrow> kyc_row \<Rightarrow> kyc_row \<Rightarrow> bool" where
  "rehashed V decrypt k k' \<longleftrightarrow> k' = k \<or> due_hash V decrypt k \<noteq> None \<and> k' = k\<lparr>k_id_number_hash := due_hash V decrypt k\<rparr>"

definition settled_hash :: "env \<Rightarrow> (string \<Rightarrow> string option) \<Rightarrow> kyc_row \<Rightarrow> bool" where
  "settled_hash V decrypt k \<longleftrightarrow> k_id_type k = None \<or> present (k_encrypted_id_number k) = None \<or>
     due_hash V decrypt k \<noteq> None \<and> k_id_number_hash k = due_hash V decrypt k"

definition troubles :: "rehash_tally \<Rightarrow> nat" where
  "troubles n = rh_decrypt_failed n + length (rh_conflicts n)"

lemma due_hash_same [simp]: "due_hash V decrypt (k\<lparr>k_id_number_hash := h\<rparr>) = due_hash V decrypt k"
  by (simp add: due_hash_def)

lemma rehashed_refl [simp]: "rehashed V decrypt k k"
  by (simp add: rehashed_def)

lemma rehashed_trans: "rehashed V decrypt j k \<Longrightarrow> rehashed V decrypt k l \<Longrightarrow> rehashed V decrypt j l"
  by (auto simp: rehashed_def)

lemma rehashed_key: "rehashed V decrypt j k \<Longrightarrow> k_id k = k_id j"
  by (auto simp: rehashed_def)

lemma rehash_row_noop:
  "settled_hash V decrypt row \<Longrightarrow> \<exists>n'. rehash_row V decrypt b row n w = (Inr n', w) \<and> rh_rehashed n' = rh_rehashed n"
  by (auto simp: settled_hash_def due_hash_def rehash_row_def return_def split: option.split)

lemma rehash_all_noop:
  "\<forall>r\<in>set rows. settled_hash V decrypt r \<Longrightarrow> \<exists>n'. rehash_all V decrypt b rows n w = (Inr n', w) \<and> rh_rehashed n' = rh_rehashed n"
proof (induction rows arbitrary: n)
  case (Cons row rows)
  obtain n' where "rehash_row V decrypt b row n w = (Inr n', w)" "rh_rehashed n' = rh_rehashed n"
    using rehash_row_noop[of V decrypt row b n w] Cons.prems by auto
  then show ?case using Cons by (fastforce simp: bind_def)
qed (simp add: return_def)

lemma rehash_row_run:
  assumes wf: "wf_table kyc_table w" and row: "row \<in> set (kyc_verifications (w_db w))"
  shows "\<exists>n' w'. rehash_row V decrypt True row n w = (Inr n', w') \<and> wf_table kyc_table w' \<and> troubles n \<le> troubles n' \<and>
    (\<exists>r. rehashed V decrypt row r \<and> (troubles n' = troubles n \<longrightarrow> settled_hash V decrypt r) \<and>
       kyc_verifications (w_db w') = update_row k_id (k_id row) (\<lambda>_. r) (kyc_verifications (w_db w)))"
proof -
  let ?rows = "kyc_verifications (w_db w)"
  have u: "unique_keys k_id ?rows" using wf by (simp add: wf_table_def table_rows)
  note found = find_row_unique[OF u row]
  have same: "update_row k_id (k_id row) (\<lambda>_. row) ?rows = ?rows" by (rule update_row_id[OF u row]) simp
  have stays: ?thesis if "rehash_row V decrypt True row n w = (Inr n', w)" "troubles n \<le> troubles n'"
    "troubles n' = troubles n \<longrightarrow> settled_hash V decrypt row" for n'
    using that wf same by (intro exI[of _ n'] exI[of _ w]) (auto intro!: exI[of _ row])
  show ?thesis
  proof (cases "settled_hash V decrypt row")
    case True
    then show ?thesis
      using True by (intro stays[of "if k_id_type row = None \<or> present (k_encrypted_id_number row) = None then n
          else n\<lparr>rh_already_correct := Suc (rh_already_correct n)\<rparr>"])
        (auto simp: settled_hash_def due_hash_def rehash_row_def return_def troubles_def split: option.splits)
  next
    case unsettled: False
    then obtain encrypted where enc: "k_id_type row \<noteq> None" "present (k_encrypted_id_number row) = Some encrypted"
      by (auto simp: settled_hash_def)
    show ?thesis
    proof (cases "decrypt encrypted")
      case None
      then show ?thesis
        using enc by (intro stays[of "n\<lparr>rh_decrypt_failed := Suc (rh_decrypt_failed n)\<rparr>"])
          (auto simp: rehash_row_def return_def troubles_def)
    next
      case (Some id_number)
      let ?h = "Some (e_hash_kyc_id V id_number)" let ?f = "\<lambda>k. k\<lparr>k_id_number_hash := ?h\<rparr>"
      have due: "due_hash V decrypt row = ?h" using enc Some by (simp add: due_hash_def)
      then have ne: "?h \<noteq> k_id_number_hash row" using unsettled enc by (auto simp: settled_hash_def)
      show ?thesis
      proof (cases "violated kyc_table (?f row) ?rows")
        case (Some index)
        then show ?thesis
          using enc \<open>decrypt encrypted = Some id_number\<close> ne found
          by (intro stays[of "n\<lparr>rh_conflicts := rh_conflicts n @ [k_id row]\<rparr>"])
            (auto simp: rehash_row_def run_defs update_by_id_def table_rows troubles_def)
      next
        case None
        let ?w = "t_put kyc_table (update_row k_id (k_id row) ?f) w"
        have up: "update_by_id kyc_table (k_id row) ?f w = (Inr (?f row), ?w)"
          using found None by (simp add: update_by_id_def table_rows)
        then have run: "rehash_row V decrypt True row n w = (Inr (n\<lparr>rh_rehashed := Suc (rh_rehashed n)\<rparr>), ?w)"
          using enc Some ne by (auto simp: rehash_row_def run_defs)
        have "wf_table kyc_table ?w" by (rule kyc_tbl.wf_update[OF wf _ up]) (simp add: table_rows)
        moreover have "kyc_verifications (w_db ?w) = update_row k_id (k_id row) (\<lambda>_. ?f row) ?rows"
          using update_row_cong[OF u row, of ?f "\<lambda>_. ?f row"] by (simp add: table_puts)
        moreover have "rehashed V decrypt row (?f row)" "settled_hash V decrypt (?f row)"
          using due enc by (simp_all add: rehashed_def settled_hash_def)
        ultimately show ?thesis using run by (fastforce simp: troubles_def)
      qed
    qed
  qed
qed

lemma rehash_all_run:
  assumes "wf_table kyc_table w" and "set rows \<subseteq> set (kyc_verifications (w_db w))" and "distinct (map k_id rows)"
  shows "\<exists>n' w'. rehash_all V decrypt True rows n w = (Inr n', w') \<and> wf_table kyc_table w' \<and> troubles n \<le> troubles n' \<and>
    list_all2 (rehashed V decrypt) (kyc_verifications (w_db w)) (kyc_verifications (w_db w')) \<and>
    (troubles n' = troubles n \<longrightarrow> (\<forall>k\<in>set (kyc_verifications (w_db w')). k_id k \<in> k_id ` set rows \<longrightarrow> settled_hash V decrypt k)) \<and>
    (\<forall>k\<in>set (kyc_verifications (w_db w')). k_id k \<notin> k_id ` set rows \<longrightarrow> k \<in> set (kyc_verifications (w_db w)))"
  using assms
proof (induction rows arbitrary: n w)
  case Nil
  then show ?case by (simp add: return_def list.rel_refl)
next
  case (Cons row rows)
  let ?t = "\<lambda>w. kyc_verifications (w_db w)"
  have row: "row \<in> set (?t w)" and u: "unique_keys k_id (?t w)"
    using Cons.prems(1,2) by (auto simp: wf_table_def table_rows)
  obtain m v r where one: "rehash_row V decrypt True row n w = (Inr m, v)" "wf_table kyc_table v" "troubles n \<le> troubles m"
    "rehashed V decrypt row r" "troubles m = troubles n \<longrightarrow> settled_hash V decrypt r"
    "?t v = update_row k_id (k_id row) (\<lambda>_. r) (?t w)"
    using rehash_row_run[OF Cons.prems(1) row] by blast
  have first: "list_all2 (rehashed V decrypt) (?t w) (?t v)"
  proof -
    have "x = row" if "x \<in> set (?t w)" "k_id x = k_id row" for x
      using u row that by (auto simp: unique_keys_def distinct_map inj_on_def)
    then show ?thesis
      using one(4) by (auto simp: one(6) update_row_def update_where_def list_all2_map2 intro!: list.rel_refl_strong)
  qed
  have others: "k \<in> set (?t v)" if "k \<in> set (?t w)" "k_id k \<noteq> k_id row" for k
    using that by (auto simp: one(6) set_update_row)
  have sub: "set rows \<subseteq> set (?t v)" using Cons.prems(2,3) by (force intro!: others simp: image_iff)
  have dist: "distinct (map k_id rows)" using Cons.prems(3) by simp
  obtain n' w' where rest: "rehash_all V decrypt True rows m v = (Inr n', w')" "wf_table kyc_table w'" "troubles m \<le> troubles n'"
    "list_all2 (rehashed V decrypt) (?t v) (?t w')"
    "troubles n' = troubles m \<longrightarrow> (\<forall>k\<in>set (?t w'). k_id k \<in> k_id ` set rows \<longrightarrow> settled_hash V decrypt k)"
    "\<forall>k\<in>set (?t w'). k_id k \<notin> k_id ` set rows \<longrightarrow> k \<in> set (?t v)"
    using Cons.IH[OF one(2) sub dist, of m] by (elim exE conjE)
  have "list_all2 (rehashed V decrypt) (?t w) (?t w')"
    by (rule list_all2_trans[OF _ first rest(4)]) (rule rehashed_trans)
  moreover have "settled_hash V decrypt k" if "troubles n' = troubles n" "k \<in> set (?t w')" "k_id k \<in> k_id ` set (row # rows)" for k
  proof (cases "k_id k \<in> k_id ` set rows")
    case True
    then show ?thesis using rest(3,5) one(3) that by auto
  next
    case False
    then have "k \<in> set (?t v)" "k_id k = k_id row" using rest(6) that by auto
    then have "k = r" by (auto simp: one(6) set_update_row split: if_splits)
    then show ?thesis using one(3,5) rest(3) that(1) by auto
  qed
  moreover have "k \<in> set (?t w)" if k: "k \<in> set (?t w')" "k_id k \<notin> k_id ` set (row # rows)" for k
  proof -
    have "k \<in> set (?t v)" using k rest(6) by auto
    then show ?thesis using k(2) rehashed_key[OF one(4)] by (auto simp: one(6) set_update_row split: if_splits)
  qed
  ultimately show ?case using one(1,3) rest(1,2,3) by (auto simp: bind_def)
qed

text \<open>A run over every row never raises and only ever writes the hash that is due; when every number could be read and
  no two rows compete for a hash, every row then has its hash, and the next run writes nothing.\<close>

theorem rehashing_completes:
  assumes "wf_table kyc_table w"
  shows "\<exists>n w'. rehash_ids V decrypt True None w = (Inr n, w') \<and>
    list_all2 (rehashed V decrypt) (kyc_verifications (w_db w)) (kyc_verifications (w_db w')) \<and>
    (troubles n = 0 \<longrightarrow> list_all (settled_hash V decrypt) (kyc_verifications (w_db w')) \<and>
       (\<exists>m. rehash_ids V decrypt b limit w' = (Inr m, w') \<and> rh_rehashed m = 0))"
proof -
  let ?t = "\<lambda>w. kyc_verifications (w_db w)" let ?p = "\<lambda>k. k_id_type k \<noteq> None \<and> k_encrypted_id_number k \<noteq> None"
  let ?rows = "sort_key k_created_at (filter ?p (?t w))"
  let ?n = "\<lparr>rh_rehashed = 0, rh_already_correct = 0, rh_decrypt_failed = 0, rh_conflicts = []\<rparr>"
  have start: "rehash_ids V decrypt b limit v = rehash_all V decrypt b (capped limit (sort_key k_created_at (filter ?p (?t v)))) ?n v"
    for b limit v by (simp add: rehash_ids_def bind_def find_many_def gets_def table_rows)
  have "distinct (map k_id ?rows)"
    using assms by (simp add: wf_table_def unique_keys_def table_rows distinct_map inj_on_def)
  then have dist: "distinct (map k_id ?rows)" and zero: "troubles ?n = 0" and sub: "set ?rows \<subseteq> set (?t w)"
    by (auto simp: troubles_def)
  obtain n w' where run: "rehash_all V decrypt True ?rows ?n w = (Inr n, w')" "list_all2 (rehashed V decrypt) (?t w) (?t w')"
    "troubles n = 0 \<longrightarrow> (\<forall>k\<in>set (?t w'). k_id k \<in> k_id ` set ?rows \<longrightarrow> settled_hash V decrypt k)"
    "\<forall>k\<in>set (?t w'). k_id k \<notin> k_id ` set ?rows \<longrightarrow> k \<in> set (?t w)"
    using rehash_all_run[OF assms sub dist, of V decrypt ?n, unfolded zero] by (elim exE conjE)
  have settled: "settled_hash V decrypt k" if "troubles n = 0" "k \<in> set (?t w')" for k
  proof (cases "k_id k \<in> k_id ` set ?rows")
    case False
    then have k: "k \<in> set (?t w)" using run(4) that(2) by blast
    have "\<not> ?p k"
    proof
      assume "?p k"
      then have "k \<in> set ?rows" using k by simp
      then show False using False by blast
    qed
    then show ?thesis by (auto simp: settled_hash_def present_def)
  qed (use run(3) that in blast)
  have "\<exists>m. rehash_all V decrypt b (capped limit (sort_key k_created_at (filter ?p (?t w')))) ?n w' = (Inr m, w') \<and> rh_rehashed m = rh_rehashed ?n"
    if "troubles n = 0"
    by (rule rehash_all_noop) (use settled[OF that] set_capped in fastforce)
  then show ?thesis
    using run(1,2) settled by (auto simp: start capped_def list_all_iff)
qed

end
