(* ===== verification/LoanBook.thy ===== *)
theory LoanBook
  imports OpsLoans
begin

text \<open>
  What the business promises about a loan, without handlers, transactions or tables: a book of
  loans in which a loan is opened once, moves along its life, and keeps its terms. The system
  theory shows that the handlers and workers implement it.
\<close>

section \<open>The life of a loan\<close>

inductive loan_moves :: "decimals \<Rightarrow> loan_row \<Rightarrow> loan_row \<Rightarrow> bool" for D where
  funded: "l_status l = LoanStatus.PENDING_COLLATERAL \<Longrightarrow>
    loan_moves D l (l\<lparr>l_collateral_received_at := Some t, l_status := LoanStatus.ACTIVE\<rparr>)"
| expired: "l_status l = LoanStatus.PENDING_COLLATERAL \<Longrightarrow> loan_moves D l (l\<lparr>l_status := LoanStatus.EXPIRED\<rparr>)"
| cancelled: "l_status l = LoanStatus.PENDING_COLLATERAL \<Longrightarrow> loan_moves D l (l\<lparr>l_status := LoanStatus.CANCELLED\<rparr>)"
| repaid: "l_status l = LoanStatus.ACTIVE \<Longrightarrow>
    loan_moves D l (l\<lparr>l_repaid_at := Some t, l_repayment_method := Some NGN, l_repayment_reference := Some i,
      l_status := LoanStatus.REPAID\<rparr>)"
| liquidated: "l_status l = LoanStatus.ACTIVE \<Longrightarrow> loan_moves D l (mark_liquidated D rate t l)"
| restored: "l_status l = LoanStatus.LIQUIDATED \<Longrightarrow> is_bad_rate D l \<Longrightarrow>
    loan_moves D l (l\<lparr>l_status := LoanStatus.ACTIVE, l_liquidated_at := None, l_liquidation_rate_actual := None\<rparr>)"
| addressed: "l_collateral_released_at l = None \<Longrightarrow> loan_moves D l (l\<lparr>l_collateral_release_address := Some a\<rparr>)"
| released: "l_status l = LoanStatus.REPAID \<Longrightarrow> l_collateral_released_at l = None \<Longrightarrow> l_collateral_release_address l = Some a \<Longrightarrow>
    loan_moves D l (l\<lparr>l_collateral_released_at := Some t, l_collateral_release_reference := Some ref\<rparr>)"

definition fresh_loan :: "loan_row \<Rightarrow> bool" where
  "fresh_loan l \<longleftrightarrow> l_status l = LoanStatus.PENDING_COLLATERAL \<and> l_collateral_received_at l = None \<and> l_repaid_at l = None \<and>
     l_collateral_released_at l = None \<and> l_collateral_release_reference l = None \<and> l_liquidated_at l = None \<and>
     l_liquidation_rate_actual l = None"

type_synonym book = "id \<Rightarrow> loan_row option"

inductive book_step :: "decimals \<Rightarrow> book \<Rightarrow> book \<Rightarrow> bool" for D where
  opened: "b i = None \<Longrightarrow> fresh_loan l \<Longrightarrow> l_id l = i \<Longrightarrow> book_step D b (b(i \<mapsto> l))"
| moved: "b i = Some l \<Longrightarrow> loan_moves D l l' \<Longrightarrow> book_step D b (b(i \<mapsto> l'))"

abbreviation book_run :: "decimals \<Rightarrow> book \<Rightarrow> book \<Rightarrow> bool" where
  "book_run D \<equiv> (book_step D)\<^sup>*\<^sup>*"

inductive_cases book_stepE: "book_step D b b'"

section \<open>What the life of a loan keeps\<close>

text \<open>The columns agreed at checkout.\<close>

definition loan_terms :: "loan_row \<Rightarrow> loan_row" where
  "loan_terms l = l\<lparr>l_status := LoanStatus.PENDING_COLLATERAL, l_collateral_received_at := None, l_repayment_method := None,
     l_repayment_reference := None, l_repaid_at := None, l_collateral_release_address := None, l_collateral_released_at := None,
     l_collateral_release_reference := None, l_liquidated_at := None, l_liquidation_rate_actual := None\<rparr>"

text \<open>The timestamps that go with the status.\<close>

definition loan_ok :: "loan_row \<Rightarrow> bool" where
  "loan_ok l \<longleftrightarrow>
     (l_collateral_received_at l = None \<longleftrightarrow>
        l_status l \<in> {LoanStatus.PENDING_COLLATERAL, LoanStatus.EXPIRED, LoanStatus.CANCELLED}) \<and>
     (l_repaid_at l = None \<longleftrightarrow> l_status l \<noteq> LoanStatus.REPAID) \<and>
     (l_liquidated_at l = None \<longleftrightarrow> l_status l \<noteq> LoanStatus.LIQUIDATED) \<and>
     (l_liquidation_rate_actual l = None \<longleftrightarrow> l_status l \<noteq> LoanStatus.LIQUIDATED) \<and>
     (l_collateral_released_at l = None \<longleftrightarrow> l_collateral_release_reference l = None) \<and>
     (l_collateral_released_at l \<noteq> None \<longrightarrow> l_status l = LoanStatus.REPAID \<and> l_collateral_release_address l \<noteq> None)"

lemma moves_keep_terms: "loan_moves D l l' \<Longrightarrow> loan_terms l' = loan_terms l"
  by (induction rule: loan_moves.induct) (simp_all add: loan_terms_def mark_liquidated_def)

lemma moves_keep_ok: "loan_moves D l l' \<Longrightarrow> loan_ok l \<Longrightarrow> loan_ok l'"
  by (induction rule: loan_moves.induct) (simp_all add: loan_ok_def mark_liquidated_def, auto)

lemma fresh_loan_ok: "fresh_loan l \<Longrightarrow> loan_ok l"
  by (auto simp: fresh_loan_def loan_ok_def)

text \<open>A status changes along the permitted transitions, except that a bad liquidation is taken back.\<close>

lemma moves_status:
  "loan_moves D l l' \<Longrightarrow> l_status l' = l_status l \<or> (\<exists>reason. valid_transition (l_status l) (l_status l') reason) \<or>
     (l_status l = LoanStatus.LIQUIDATED \<and> is_bad_rate D l \<and> l_status l' = LoanStatus.ACTIVE)"
  by (induction rule: loan_moves.induct) (simp_all add: valid_transition_def VALID_TRANSITIONS_def mark_liquidated_def)

text \<open>A loan whose collateral went back is closed for good.\<close>

lemma released_is_final: "loan_moves D l l' \<Longrightarrow> loan_ok l \<Longrightarrow> l_collateral_released_at l = None"
  by (induction rule: loan_moves.induct) (auto simp: loan_ok_def)

definition settled_status :: "loan_row \<Rightarrow> bool" where
  "settled_status l \<longleftrightarrow> l_status l \<in> {LoanStatus.REPAID, LoanStatus.EXPIRED, LoanStatus.CANCELLED}"

lemma settled_moves: "loan_moves D l l' \<Longrightarrow> settled_status l \<Longrightarrow> l_status l' = l_status l"
  by (induction rule: loan_moves.induct) (simp_all add: settled_status_def mark_liquidated_def)

section \<open>What a run of the book keeps\<close>

lemma in_ran_updD: "x \<in> ran (b(i \<mapsto> l)) \<Longrightarrow> x = l \<or> x \<in> ran b"
  by (auto simp: ran_def split: if_splits)

definition book_ok :: "book \<Rightarrow> bool" where
  "book_ok b \<longleftrightarrow> (\<forall>l\<in>ran b. loan_ok l)"

lemma book_okD: "book_ok b \<Longrightarrow> b i = Some l \<Longrightarrow> loan_ok l"
  by (auto simp: book_ok_def intro: ranI)

definition follows :: "loan_row \<Rightarrow> loan_row \<Rightarrow> bool" where
  "follows l l' \<longleftrightarrow> loan_terms l' = loan_terms l \<and> (settled_status l \<longrightarrow> l_status l' = l_status l) \<and>
     (l_collateral_released_at l \<noteq> None \<longrightarrow> l' = l)"

lemma moves_follow: "loan_moves D l l' \<Longrightarrow> loan_ok l \<Longrightarrow> follows l l'"
  using moves_keep_terms settled_moves released_is_final by (auto simp: follows_def)

lemma follows_trans: "follows k l \<Longrightarrow> follows l m \<Longrightarrow> follows k m"
  by (auto simp: follows_def settled_status_def)

lemma follows_refl: "follows l l"
  by (simp add: follows_def)

lemma book_step_ok: "book_step D b b' \<Longrightarrow> book_ok b \<Longrightarrow> book_ok b'"
  by (induction rule: book_step.induct) (auto simp: book_ok_def fresh_loan_ok dest!: in_ran_updD intro: ranI moves_keep_ok)

lemma book_step_follows: "book_step D b b' \<Longrightarrow> book_ok b \<Longrightarrow> b i = Some l \<Longrightarrow> \<exists>l'. b' i = Some l' \<and> follows l l'"
  by (induction rule: book_step.induct) (auto simp: follows_refl intro: moves_follow book_okD)

lemma book_run_follows:
  assumes "book_run D b b'" "book_ok b" "b i = Some l"
  shows "book_ok b' \<and> (\<exists>l'. b' i = Some l' \<and> follows l l')"
  using assms(1)
proof (induction rule: rtranclp_induct)
  case base
  then show ?case using assms(2,3) by (simp add: follows_refl)
next
  case (step b1 b2)
  then show ?case by (meson book_step_ok book_step_follows follows_trans)
qed

lemma book_run_ok: "book_run D b b' \<Longrightarrow> book_ok b \<Longrightarrow> book_ok b'"
  by (induction rule: rtranclp_induct) (auto intro: book_step_ok)

end
