(* ===== verification/LoanExpiry.thy ===== *)
theory LoanExpiry
  imports Loans
begin

text \<open>
  \<open>workers/loan-expiry.worker.ts\<close>: the loans that wait for collateral past the end of their
  invoice expire. The cycle reads the due loans first and writes them one by one; what happens
  between the two is part of the world in which a row is expired.
\<close>

record expired_row =
  ex_loan_id :: id
  ex_user_id :: id
  ex_payment_request_id :: id
  ex_receiving_address :: string

definition overdue :: "time \<Rightarrow> loan_row \<Rightarrow> payment_request_row \<Rightarrow> bool" where
  "overdue t l pr \<longleftrightarrow> pr_source_type pr = SOURCE_LOAN \<and> pr_source_id pr = l_id l \<and>
     pr_status pr = PaymentRequestStatus.PENDING \<and> l_status l = LoanStatus.PENDING_COLLATERAL \<and> pr_expires_at pr < t"

definition expired_rows :: "world \<Rightarrow> expired_row list" where
  "expired_rows w = concat (map (\<lambda>l. map (\<lambda>pr. \<lparr>ex_loan_id = l_id l, ex_user_id = l_user_id l,
     ex_payment_request_id = pr_id pr, ex_receiving_address = pr_receiving_address pr\<rparr>)
     (filter (overdue (w_clock w) l) (payment_requests (w_db w)))) (loans (w_db w)))"

definition expiry_log :: "expired_row \<Rightarrow> time \<Rightarrow> id \<Rightarrow> status_log_row" where
  "expiry_log row = status_log_of \<lparr>tp_loan_id = ex_loan_id row, tp_user_id = ex_user_id row,
     tp_from_status = Some LoanStatus.PENDING_COLLATERAL, tp_to_status = LoanStatus.EXPIRED, tp_triggered_by = SYSTEM,
     tp_triggered_by_id = None, tp_reason_code = INVOICE_EXPIRED, tp_reason_detail = None, tp_metadata = []\<rparr>"

definition expireLoan :: "expired_row \<Rightarrow> unit service" where
  "expireLoan row =
     bind now (\<lambda>t.
     bind (transaction
       (bind (update_by_id loan_table (ex_loan_id row) (\<lambda>l. l\<lparr>l_status := LoanStatus.EXPIRED\<rparr>)) (\<lambda>_.
        bind (create_row status_log_table (expiry_log row t)) (\<lambda>_.
        update_by_id payment_request_table (ex_payment_request_id row)
          (\<lambda>p. p\<lparr>pr_status := PaymentRequestStatus.EXPIRED\<rparr>))))) (\<lambda>_.
     redis_del (PAYMENT_REQUEST_PENDING (ex_receiving_address row))))"

fun expire_all :: "expired_row list \<Rightarrow> nat service" where
  "expire_all [] = return 0"
| "expire_all (row # rows) =
     bind (attempt (bind (expireLoan row) (\<lambda>_. return (1::nat))) (\<lambda>_. return 0)) (\<lambda>n.
     bind (expire_all rows) (\<lambda>m. return (n + m)))"

definition runExpiryCycle :: "nat service" where
  "runExpiryCycle =
     bind (gets expired_rows) (\<lambda>rows.
     bind (expire_all rows) (\<lambda>expired.
     bind now (\<lambda>t.
     bind (redis_set (WORKER_HEARTBEAT ''loan_expiry'') (VInt t)) (\<lambda>_.
     return expired))))"

end
