(* ===== verification/Frames.thy ===== *)
theory Frames
  imports OpsLoans PalmpayCollection LoanExpiry TransactionPin Guards PriceFeed
begin

text \<open>
  What a handler leaves alone. A relation between the world before and the world after a handler
  is a frame when it is reflexive and transitive and speaks about the database only; then a program
  keeps it when its parts do. The rules of the calculus are proved once for every frame, and used for the
  three that the system theory needs.
\<close>

definition keeps :: "(world \<Rightarrow> world \<Rightarrow> bool) \<Rightarrow> 'a service \<Rightarrow> bool" where
  "keeps R m \<longleftrightarrow> (\<forall>w. wp m (\<lambda>_. R w) (\<lambda>_. R w) w)"

lemma keepsI: "(\<And>w. wp m (\<lambda>_. R w) (\<lambda>_. R w) w) \<Longrightarrow> keeps R m"
  by (simp add: keeps_def)

lemma keepsD: "keeps R m \<Longrightarrow> R w (snd (m w))"
  by (cases "m w") (auto simp: keeps_def wp_def split: sum.splits elim!: allE[of _ w])

lemma keeps_at: "keeps R m \<Longrightarrow> wp m (\<lambda>_. R w) (\<lambda>_. R w) w"
  by (simp add: keeps_def)

lemma keeps_weaken: "keeps R m \<Longrightarrow> (\<And>v w. R v w \<Longrightarrow> S v w) \<Longrightarrow> keeps S m"
  unfolding keeps_def by (blast intro: wp_mono)

locale frame =
  fixes R :: "world \<Rightarrow> world \<Rightarrow> bool"
  assumes same_db: "w_db v = w_db w \<Longrightarrow> R w v"
    and trans: "R u v \<Longrightarrow> R v w \<Longrightarrow> R u w"
begin

lemma later: "R w v \<Longrightarrow> w_db u = w_db v \<Longrightarrow> R w u"
  by (blast intro: trans same_db)

lemma keeps_bind:
  assumes "keeps R m" and "\<And>x. keeps R (f x)"
  shows "keeps R (bind m f)"
  using assms unfolding keeps_def wp_bind by (blast intro: wp_mono[of m] wp_mono[of "f _"] trans)

lemma keeps_attempt:
  assumes "keeps R m" and "\<And>e. keeps R (h e)"
  shows "keeps R (attempt m h)"
  using assms unfolding keeps_def wp_attempt by (blast intro: wp_mono[of m] wp_mono[of "h _"] trans)

lemma keeps_ensure:
  assumes "keeps R m" and "keeps R f"
  shows "keeps R (ensure m f)"
  using assms unfolding keeps_def wp_ensure by (blast intro: wp_mono[of m] wp_mono[of f] trans)

lemma keeps_same_db: "(\<And>w. wp m (\<lambda>_ v. w_db v = w_db w) (\<lambda>_ v. w_db v = w_db w) w) \<Longrightarrow> keeps R m"
  unfolding keeps_def by (blast intro: wp_mono same_db)

lemma keeps_transaction: "keeps R m \<Longrightarrow> keeps R (transaction m)"
  unfolding keeps_def wp_transaction using same_db by (fastforce intro: wp_mono)

lemma keeps_calls:
  "keeps R (return x)" "keeps R (throw e)" "keeps R (gets g)" "keeps R (require b e)" "keeps R (the_or_throw e y)"
  "keeps R (find_by_id T i)" "keeps R (find_first T p)" "keeps R (find_many T p)" "keeps R (find_or_throw T i)"
  "keeps R now" "keeps R (emit eff)" "keeps R (notify u m)" "keeps R (page_ops a)" "keeps R (spawn t)"
  "keeps R (redis_get k)" "keeps R (redis_set k v)" "keeps R (redis_setex k v ttl)" "keeps R (redis_setnx k v ttl)"
  "keeps R (redis_del k)" "keeps R (redis_incr k)" "keeps R (redis_expire k ttl)" "keeps R (call c)" "keeps R (may_fail V ft)"
  by (rule keeps_same_db; auto simp: wp_simps split: option.split rval.split sum.split)+

lemma keeps_cases:
  "keeps R m \<Longrightarrow> keeps R n \<Longrightarrow> keeps R (if b then m else n)"
  "keeps R n \<Longrightarrow> (\<And>y. keeps R (f y)) \<Longrightarrow> keeps R (case x of None \<Rightarrow> n | Some y \<Rightarrow> f y)"
  "(\<And>y. keeps R (g y)) \<Longrightarrow> (\<And>y. keeps R (f y)) \<Longrightarrow> keeps R (case z of Inl y \<Rightarrow> g y | Inr y \<Rightarrow> f y)"
  "(\<And>a b. keeps R (h a b)) \<Longrightarrow> keeps R (case p of (a, b) \<Rightarrow> h a b)"
  by (auto split: option.split sum.split prod.split)

lemma keeps_for_each: "(\<And>x. keeps R (f x)) \<Longrightarrow> keeps R (for_each f xs)"
  by (induction xs) (auto intro: keeps_bind keeps_calls)

lemmas keeps_intros = keeps_calls keeps_cases keeps_bind keeps_attempt keeps_ensure keeps_transaction keeps_for_each

end

section \<open>The loans and the ledger are left alone\<close>

definition untouched :: "world \<Rightarrow> world \<Rightarrow> bool" where
  "untouched w v \<longleftrightarrow> loans (w_db v) = loans (w_db w) \<and> inflows (w_db v) = inflows (w_db w) \<and>
     repayments (w_db v) = repayments (w_db w) \<and> next_id (w_db w) \<le> next_id (w_db v)"

interpretation other: frame untouched
  by unfold_locales (auto simp: untouched_def)

text \<open>A write to one of the other tables.\<close>

definition elsewhere :: "'r table \<Rightarrow> bool" where
  "elsewhere T \<longleftrightarrow> (\<forall>f w. loans (w_db (t_put T f w)) = loans (w_db w) \<and> inflows (w_db (t_put T f w)) = inflows (w_db w) \<and>
     repayments (w_db (t_put T f w)) = repayments (w_db w) \<and> next_id (w_db (t_put T f w)) = next_id (w_db w))"

lemma elsewhere_tables:
  "elsewhere user_table" "elsewhere session_table" "elsewhere account_table" "elsewhere payment_request_table"
  "elsewhere disbursement_table" "elsewhere outflow_table" "elsewhere price_feed_table" "elsewhere repayment_account_table"
  "elsewhere topup_table" "elsewhere status_log_table" "elsewhere webhook_log_table" "elsewhere audit_table"
  "elsewhere kyc_table" "elsewhere ops_user_table" "elsewhere ops_session_table" "elsewhere loan_application_table"
  by (simp_all add: elsewhere_def table_puts)

lemma keeps_writes:
  assumes "elsewhere T"
  shows "keeps untouched (create_row T mk)" "keeps untouched (update_by_id T i f)"
    "keeps untouched (update_many T p f)" "keeps untouched (delete_many T p)"
  using assms by (auto simp: keeps_def wp_simps untouched_def elsewhere_def split: option.split)

text \<open>The counter of row ids never falls, whatever is written.\<close>

definition ids_grow :: "world \<Rightarrow> world \<Rightarrow> bool" where
  "ids_grow w v \<longleftrightarrow> next_id (w_db w) \<le> next_id (w_db v)"

interpretation ids: frame ids_grow
  by unfold_locales (auto simp: ids_grow_def)

lemma ids_grow_writes:
  assumes "\<And>f w. next_id (w_db (t_put T f w)) = next_id (w_db w)"
  shows "keeps ids_grow (create_row T mk)" "keeps ids_grow (update_by_id T i f)" "keeps ids_grow (update_many T p f)"
  using assms by (auto simp: keeps_def wp_simps ids_grow_def split: option.split)

lemma ids_grow_loans:
  "keeps ids_grow (create_row loan_table mk)" "keeps ids_grow (update_by_id loan_table i f)" "keeps ids_grow (update_many loan_table p f)"
  "keeps ids_grow (create_row status_log_table mk')" "keeps ids_grow (create_row audit_table mk'')"
  by (rule ids_grow_writes; simp)+

lemma transition_ids: "keeps ids_grow (transition p)"
  by (auto simp: transition_def assertValidTransition_def intro!: ids.keeps_intros ids_grow_loans)

named_theorems frame_ops "the operations that leave the loans and the ledger alone"

lemmas frame_rules = other.keeps_intros keeps_writes elsewhere_tables

subsection \<open>Accounts, sessions and the second factor\<close>

lemma otp_untouched [frame_ops]:
  "keeps untouched (generateOtp A)" "keeps untouched (sendEmailOtp A pu em)" "keeps untouched (consumeEmailOtp A pu em c)"
  "keeps untouched (sendScopedOtp A pu i j)" "keeps untouched (consumeScopedOtp A pu i c j)" "keeps untouched (session_create A i)" "keeps untouched (session_destroyAll i)"
  by (auto simp: generateOtp_def sendEmailOtp_def consumeEmailOtp_def sendScopedOtp_def consumeScopedOtp_def session_create_def session_destroyAll_def
      intro!: frame_rules split: rval.split)

lemma login_untouched [frame_ops]:
  "keeps untouched (find_user_by_email em)" "keeps untouched (signup A em)" "keeps untouched (verifyEmail A em c)"
  "keeps untouched (resendVerificationEmail A em)" "keeps untouched (requestLoginOtp A em)"
  "keeps untouched (verifyLoginOtp A em c)" "keeps untouched (logout A tok)" "keeps untouched (logoutAll i)"
  by (auto simp: find_user_by_email_def signup_def verifyEmail_def resendVerificationEmail_def requestLoginOtp_def
      verifyLoginOtp_def logout_def logoutAll_def session_destroy_def check_totp_def Let_def
      intro!: frame_rules frame_ops)

lemma totp_untouched [frame_ops]:
  "keeps untouched (setup2fa A i)" "keeps untouched (confirm2fa A i c)" "keeps untouched (disable2fa A i c)"
  "keeps untouched (verifyTotpForUser A i c)" "keeps untouched (session_canActivate A rq)"
  by (auto simp: setup2fa_def confirm2fa_def disable2fa_def verifyTotpForUser_def check_totp_def session_canActivate_def
      intro!: frame_rules frame_ops)

lemma scoped_untouched [frame_ops]:
  "keeps untouched (consumeReleaseAddressChangeOtp A i j c)" "keeps untouched (sendReleaseAddressChangeOtp A i j)"
  "keeps untouched (consumeTransactionPinOtp A i pu c)" "keeps untouched (sendTransactionPinOtp A i pu)"
  by (auto simp: consumeReleaseAddressChangeOtp_def sendReleaseAddressChangeOtp_def consumeTransactionPinOtp_def sendTransactionPinOtp_def
      intro!: frame_rules frame_ops split: rval.split)

lemma pin_untouched [frame_ops]:
  "keeps untouched (requestSetOtp A i)" "keeps untouched (requestChangeOtp A i)" "keeps untouched (requestDisableOtp A i)"
  "keeps untouched (setPin A i pin c)" "keeps untouched (verifyCurrentPinOrThrow A i pin)" "keeps untouched (verifyPinOrThrow A i pin)"
  "keeps untouched (changePin A i pin pin' c)" "keeps untouched (assertHasAnyFactorConfigured i)"
  by (auto simp: requestSetOtp_def requestChangeOtp_def requestDisableOtp_def setPin_def store_pin_def verifyCurrentPinOrThrow_def
      verifyPinOrThrow_def changePin_def assertHasAnyFactorConfigured_def Let_def intro!: frame_rules frame_ops)

lemma factor_untouched [frame_ops]:
  "keeps untouched (disablePin A i pin totp c)" "keeps untouched (verifyTransactionFactor A i pin totp)"
  by (auto simp: disablePin_def store_pin_def verifyTransactionFactor_def intro!: frame_rules frame_ops)

subsection \<open>Rates, quotes, views and invoices\<close>

lemma rates_untouched [frame_ops]:
  "keeps untouched (getCurrentRate pair)" "keeps untouched (isStale)" "keeps untouched (getRates D)"
  "keeps untouched (current_quote V amt)" "keeps untouched (createOpsQuote V amt)"
  by (auto simp: getCurrentRate_def getLatestRate_def isPastStaleness_def isStale_def getRates_def rate_item_of_def current_quote_def
      createOpsQuote_def Let_def intro!: frame_rules split: rval.split)

lemma request_untouched [frame_ops]:
  "keeps untouched (payment_request_create V u i n)" "keeps untouched (markExpired i adr)"
  "keeps untouched (findPendingByReceivingAddress adr)" "keeps untouched (resolveDefaultAccount u a)" "keeps untouched (checkout_admission usr dto)"
  by (auto simp: payment_request_create_def markExpired_def findPendingByReceivingAddress_def resolveDefaultAccount_def checkout_admission_def
      intro!: frame_rules split: rval.split)

lemma repayment_accounts_untouched [frame_ops]:
  "keeps untouched (findActive u)" "keeps untouched (va_provision V u r)"
  "keeps untouched h \<Longrightarrow> keeps untouched (ensureForUser V u h)" "keeps untouched (replaceForUser V u)"
  by (auto simp: findActive_def va_provision_def ensureForUser_def replaceForUser_def Let_def
      intro!: frame_rules split: option.split)

lemma views_untouched [frame_ops]:
  "keeps untouched (own_loan u i)" "keeps untouched (own_active_loan u i)" "keeps untouched (getLoan V u i)" "keeps untouched (getLoans u)"
  "keeps untouched (getRepaymentInstructions V u i)" "keeps untouched (listUnmatchedInflowsForUser u)"
  "keeps untouched (findActiveLoanMatchingOutstanding D u amt)" "keeps untouched (amountClosesAnyActiveLoan D u amt)"
  by (auto simp: own_loan_def own_active_loan_def getLoan_def coverage_of_def margin_call_flag_def open_payment_request_def getLoans_def
      getRepaymentInstructions_def listUnmatchedInflowsForUser_def findActiveLoanMatchingOutstanding_def amountClosesAnyActiveLoan_def
      Let_def intro!: frame_rules frame_ops)

lemma loan_requests_untouched [frame_ops]:
  "keeps untouched (refuse_released l)" "keeps untouched (release_step_up A u i otp pin totp)"
  "keeps untouched (requestReleaseAddressChangeOtp V u i)" "keeps untouched (createCollateralTopUp V u i)"
  by (auto simp: refuse_released_def release_step_up_def requestReleaseAddressChangeOtp_def createCollateralTopUp_def
      intro!: frame_rules frame_ops)

subsection \<open>Payouts\<close>

lemma payout_writes_untouched [frame_ops]:
  "keeps untouched (createForLoan D pm)" "keeps untouched (disbursement_findById i)" "keeps untouched (existsForLoan i)"
  "keeps untouched (set_disbursement i f)" "keeps untouched (markProcessing i)" "keeps untouched (markSuccessful i)"
  "keeps untouched (markOnHold i r)" "keeps untouched (markOnHoldAlerted i)" "keeps untouched (markCancelled i j r)"
  "keeps untouched (set_outflow i g)" "keeps untouched (forRoute cur rail)"
  by (auto simp: createForLoan_def disbursement_findById_def existsForLoan_def set_disbursement_def markProcessing_def markSuccessful_def
      markOnHold_def markOnHoldAlerted_def markCancelled_def set_outflow_def forRoute_def intro!: frame_rules)

lemma initiateTransfer_untouched [frame_ops]: "keeps untouched (initiateTransfer V p r amt c a)"
  by (rule other.keeps_same_db) (auto simp: wp_initiateTransfer split: sum.split)

lemma attempts_untouched [frame_ops]:
  "keeps untouched (markOnHoldAndMaybeAlert i j r)" "keeps untouched (attempt_transfer V d a p)" "keeps untouched (executeDispatch V d n)"
  "keeps untouched (dispatch V i)" "keeps untouched (retryDispatch V i)" "keeps untouched (handleSuccess i j r)"
  "keeps untouched (handleFailure i j r c)"
  by (auto simp: markOnHoldAndMaybeAlert_def attempt_transfer_def executeDispatch_def dispatch_def retryDispatch_def handleSuccess_def
      handleFailure_def intro!: frame_rules frame_ops)

lemma webhook_log_untouched [frame_ops]: "keeps untouched (log_record V d)" "keeps untouched (updateOutcome V i x b)"
  by (auto simp: log_record_def updateOutcome_def intro!: frame_rules)

lemma settlement_untouched [frame_ops]:
  "keeps untouched (settle_outflow p a st)" "keeps untouched (payout_handle V parsed)" "keeps untouched (reconcile_row V a)"
  by (auto simp: settle_outflow_def payout_handle_def reconcile_row_def intro!: frame_rules frame_ops split: transfer_state.split)

lemma reconcile_all_untouched [frame_ops]: "keeps untouched (reconcile_all V rows)"
  by (induction rows) (auto intro!: frame_rules frame_ops)

lemma operators_untouched [frame_ops]:
  "keeps untouched (runReconcilerCycle V)" "keeps untouched (audit_write i a t x)" "keeps untouched (ops_disbursement i)"
  "keeps untouched (refuse_terminal d)" "keeps untouched (ops_retry V i j)" "keeps untouched (ops_cancel i r j)"
  "keeps untouched (recreate_target i)" "keeps untouched (recreateForActiveLoan V i j)" "keeps untouched (abandonAttempt i r j)"
  "keeps untouched (createLoanQuote V n m amt i)"
  by (auto simp: runReconcilerCycle_def audit_write_def ops_disbursement_def refuse_terminal_def ops_retry_def ops_cancel_def recreate_target_def
      recreateForActiveLoan_def abandonAttempt_def createLoanQuote_def Let_def intro!: frame_rules frame_ops)

end
