(* ===== verification/Evolve.thy ===== *)
theory Evolve
  imports LoanBook Frames
begin

text \<open>
  Each handler and worker moves the loans of the database along the book: what it does to the rows is a
  run of the book.
\<close>

section \<open>The book that the database holds\<close>

definition book :: "world \<Rightarrow> book" where
  "book w i = find_row l_id i (loans (w_db w))"

definition evolves :: "decimals \<Rightarrow> world \<Rightarrow> world \<Rightarrow> bool" where
  "evolves D w v \<longleftrightarrow> (wf_table loan_table w \<longrightarrow> wf_table loan_table v \<and> book_run D (book w) (book v))"

lemma wf_loans_cong:
  "wf_table loan_table w \<Longrightarrow> loans (w_db v) = loans (w_db w) \<Longrightarrow> next_id (w_db w) \<le> next_id (w_db v) \<Longrightarrow> wf_table loan_table v"
  by (force simp: wf_table_def)

lemma book_cong: "loans (w_db v) = loans (w_db w) \<Longrightarrow> book v = book w"
  by (simp add: book_def fun_eq_iff)

lemma evolves_same_loans: "loans (w_db v) = loans (w_db w) \<Longrightarrow> next_id (w_db w) \<le> next_id (w_db v) \<Longrightarrow> evolves D w v"
  by (auto simp: evolves_def book_cong[of v w] intro: wf_loans_cong)

interpretation life: frame "evolves D" for D
  by unfold_locales (simp add: evolves_same_loans, auto simp: evolves_def)

lemma untouched_evolves: "untouched w v \<Longrightarrow> evolves D w v"
  by (simp add: untouched_def evolves_same_loans)

lemma keeps_untouched: "keeps untouched m \<Longrightarrow> keeps (evolves D) m"
  by (rule keeps_weaken[OF _ untouched_evolves])

text \<open>A proof that a handler follows the book may assume well-formed loans.\<close>

lemma keeps_evolvesI:
  assumes "\<And>w. wf_table loan_table w \<Longrightarrow> wp m (\<lambda>_. evolves D w) (\<lambda>_. evolves D w) w"
  shows "keeps (evolves D) m"
proof (rule keepsI)
  show "wp m (\<lambda>_. evolves D w) (\<lambda>_. evolves D w) w" for w
    using assms[of w] by (cases "wf_table loan_table w") (auto simp: evolves_def[of D w] wp_def split: prod.splits sum.splits)
qed

text \<open>One loan is written, and moves along its life.\<close>

lemma evolves_move:
  assumes "find_row l_id i (loans (w_db w)) = Some l" "loan_moves D l (f l) \<or> f l = l" "\<And>r. l_id (f r) = l_id r"
    and "violated loan_table (f l) (loans (w_db w)) = None"
    and "loans (w_db v) = update_row l_id i f (loans (w_db w))" "next_id (w_db w) \<le> next_id (w_db v)"
  shows "evolves D w v"
proof -
  let ?u = "t_put loan_table (update_row l_id i f) w"
  have "wf_table loan_table w \<Longrightarrow> wf_table loan_table ?u"
    by (rule loan_tbl.wf_update[of w f i "f l"]) (simp_all add: assms update_by_id_def)
  then have "wf_table loan_table w \<Longrightarrow> wf_table loan_table v"
    by (rule wf_loans_cong) (simp_all add: assms)
  moreover have "book v = (book w)(i \<mapsto> f l)"
    using assms(1,5) by (auto simp: book_def fun_eq_iff find_row_update_row[of l_id f, OF assms(3)])
  then have "book_run D (book w) (book v)"
    using book_step.moved[of "book w" i l D "f l"] assms(1,2) by (auto simp: book_def fun_upd_idem)
  ultimately show ?thesis by (auto simp: evolves_def)
qed

section \<open>Cancellation, activation and the release address\<close>

lemma owned_loan:
  assumes "wf_table loan_table w" "List.find (\<lambda>l. l_id l = i \<and> l_user_id l = u) (loans (w_db w)) = Some l"
  shows "find_row l_id i (loans (w_db w)) = Some l" "l_id l = i"
proof -
  have "l \<in> set (loans (w_db w))" "l_id l = i" using find_SomeD[OF assms(2)] by auto
  then show "find_row l_id i (loans (w_db w)) = Some l" "l_id l = i"
    using assms(1) find_row_unique[of l_id "loans (w_db w)" l] by (auto simp: wf_table_def)
qed

text \<open>A status transition of a loan that is in the status it was read with.\<close>

lemma transition_evolves:
  assumes "find_row l_id (l_id l) (loans (w_db w)) = Some l"
    and "valid_transition (l_status l) to reason \<Longrightarrow> l_status l \<noteq> to \<Longrightarrow> loan_moves D l (l\<lparr>l_status := to\<rparr>)"
  shows "wp (transition_from l to trigger reason detail meta) (\<lambda>_. evolves D w) (\<lambda>_. evolves D w) w"
proof -
  have moved: "evolves D w v" if "valid_transition (l_status l) to reason" "l_status l \<noteq> to"
    "violated loan_table (l\<lparr>l_status := to\<rparr>) (loans (w_db w)) = None"
    "loans (w_db v) = update_row l_id (l_id l) (\<lambda>l. l\<lparr>l_status := to\<rparr>) (loans (w_db w))" "next_id (w_db w) \<le> next_id (w_db v)" for v
    by (rule evolves_move[OF assms(1), where f = "\<lambda>l. l\<lparr>l_status := to\<rparr>"]) (use that assms(2) in auto)
  have same: "evolves D w (log_status p w)" "evolves D w w" for p by (simp_all add: evolves_same_loans)
  show ?thesis
    using assms(1) moved[of "log_status _ (move_status (l_id l) to w)"]
    by (auto simp: transition_from_def wp_transition same split: option.split)
qed

lemma cancelLoan_evolves: "keeps (evolves D) (cancelLoan u i)"
proof (rule keeps_evolvesI)
  fix w assume wf: "wf_table loan_table w"
  have "loan_moves D l (l\<lparr>l_status := LoanStatus.CANCELLED\<rparr>)"
    if "valid_transition (l_status l) LoanStatus.CANCELLED CUSTOMER_CANCELLED" "l_status l \<noteq> LoanStatus.CANCELLED" for l
    using that by (intro loan_moves.cancelled) (auto simp: valid_transition_def VALID_TRANSITIONS_def split: LoanStatus.split_asm if_split_asm)
  then have "wp (transition_from l LoanStatus.CANCELLED CUSTOMER CUSTOMER_CANCELLED None []) (\<lambda>_. evolves D w) (\<lambda>_. evolves D w) w"
    if "List.find (\<lambda>l. l_id l = i \<and> l_user_id l = u) (loans (w_db w)) = Some l" for l
    using owned_loan[OF wf that] by (intro transition_evolves) auto
  then show "wp (cancelLoan u i) (\<lambda>_. evolves D w) (\<lambda>_. evolves D w) w"
    by (auto simp: cancelLoan_def own_loan_def wp_simps evolves_same_loans split: option.split intro: wp_mono)
qed

lemma activateLoan_evolves: "keeps (evolves D) (activateLoan i t)"
proof (rule keeps_evolvesI)
  fix w assume wf: "wf_table loan_table w"
  let ?f = "\<lambda>l. l\<lparr>l_collateral_received_at := Some t, l_status := LoanStatus.ACTIVE\<rparr>"
  have grow: "keeps ids_grow (activateLoan i t)"
    by (auto simp: activateLoan_def transition_from_def intro!: ids.keeps_intros ids_grow_loans transition_ids)
  show "wp (activateLoan i t) (\<lambda>_. evolves D w) (\<lambda>_. evolves D w) w"
  proof (cases "\<exists>l. find_row l_id i (loans (w_db w)) = Some l \<and> l_status l = LoanStatus.PENDING_COLLATERAL")
    case True
    then obtain l where l: "find_row l_id i (loans (w_db w)) = Some l" "l_status l = LoanStatus.PENDING_COLLATERAL" by blast
    show ?thesis
      by (rule wp_mono[OF wp_conj[OF activation_effect[OF l(1) wf l(2)] keeps_at[OF grow]]])
         (auto simp: ids_grow_def intro!: evolves_move[OF l(1), where f = ?f] disjI1[OF loan_moves.funded[OF l(2)]] loan_update_ok[OF wf l(1)])
  qed (auto simp: activateLoan_def wp_simps evolves_same_loans split: option.split)
qed

lemma store_release_address_evolves:
  assumes "wf_table loan_table w" "find_row l_id i (loans (w_db w)) = Some l" "l_collateral_released_at l = None"
  shows "wp (store_release_address V l i a) (\<lambda>_. evolves D w) (\<lambda>_. evolves D w) w"
proof -
  let ?f = "\<lambda>l. l\<lparr>l_collateral_release_address := Some a\<rparr>"
  have "evolves D w v" if "loans (w_db v) = update_row l_id i ?f (loans (w_db w))" "next_id (w_db w) \<le> next_id (w_db v)" for v
    by (rule evolves_move[OF assms(2), where f = ?f])
       (use that assms loan_update_ok[OF assms(1,2), of "?f l"] in \<open>auto intro: loan_moves.addressed\<close>)
  then show ?thesis
    by (auto simp: store_release_address_def wp_simps evolves_same_loans split: option.split)
qed

lemma setReleaseAddress_evolves: "keeps (evolves D) (setReleaseAddress V u i a otp pin totp)"
proof (rule keeps_evolvesI)
  fix w assume wf: "wf_table loan_table w"
  have store: "wp (store_release_address V l i a) (\<lambda>_. evolves D w) (\<lambda>_. evolves D w) v"
    if "find_row l_id i (loans (w_db w)) = Some l" "l_collateral_released_at l = None" "untouched w v" for l v
  proof -
    have "wf_table loan_table v" "find_row l_id i (loans (w_db v)) = Some l"
      using that wf by (auto simp: untouched_def intro: wf_loans_cong)
    then show ?thesis
      using that(2) life.trans[OF untouched_evolves[OF that(3)]]
      by (auto intro: wp_mono[OF store_release_address_evolves])
  qed
  have step: "wp (if b then release_step_up A u i otp pin totp else return ()) (\<lambda>_. untouched w) (\<lambda>_. untouched w) w" for A b
    by (rule keeps_at) (auto intro!: frame_rules frame_ops)
  have "wp (bind (if l_collateral_release_address l \<noteq> None then release_step_up (e_auth V) u i otp pin totp else return ()) (\<lambda>_. store_release_address V l i a))
      (\<lambda>_. evolves D w) (\<lambda>_. evolves D w) w"
    if "List.find (\<lambda>l. l_id l = i \<and> l_user_id l = u) (loans (w_db w)) = Some l" "l_collateral_released_at l = None" for l
    by (rule wp_seq[OF step]) (rule store[OF owned_loan(1)[OF wf that(1)] that(2)], assumption, rule untouched_evolves)
  then show "wp (setReleaseAddress V u i a otp pin totp) (\<lambda>_. evolves D w) (\<lambda>_. evolves D w) w"
    unfolding setReleaseAddress_def own_loan_def refuse_released_def wp_bind wp_find_first wp_the_or_throw table_rows
    by (simp add: wp_simps evolves_same_loans split: option.split cong: if_cong)
qed

section \<open>Checkout\<close>

lemma evolves_open:
  assumes "wf_table loan_table w" "violated loan_table l (loans (w_db w)) = None" "l_id l = next_id (w_db w)" "fresh_loan l"
    and "loans (w_db v) = loans (w_db w) @ [l]" "next_id (w_db w) < next_id (w_db v)"
  shows "evolves D w v"
proof -
  let ?u = "t_put loan_table (\<lambda>rows. rows @ [l]) (w\<lparr>w_db := (w_db w)\<lparr>next_id := Suc (next_id (w_db w))\<rparr>\<rparr>)"
  have "wf_table loan_table ?u" by (rule loan_tbl.wf_append[OF assms(1), of l]) (simp_all add: assms)
  then have "wf_table loan_table v" by (rule wf_loans_cong) (use assms in simp_all)
  moreover have "find_row l_id (next_id (w_db w)) (loans (w_db w)) = None"
    using assms(1) by (auto simp: find_row_None_iff wf_table_def)
  then have "book v = (book w)(l_id l \<mapsto> l)" "book w (l_id l) = None"
    using assms(3,5) by (auto simp: book_def fun_eq_iff find_row_append split: option.split)
  then have "book_step D (book w) (book v)" using book_step.opened[of "book w" "l_id l" l D] assms(4) by simp
  ultimately show ?thesis by (auto simp: evolves_def)
qed

lemma create_pending_loan_evolves: "keeps (evolves D) (create_pending_loan E user dto account calc)"
proof (rule keeps_evolvesI)
  fix w assume wf: "wf_table loan_table w"
  have "fresh_loan (new_loan E user dto account calc t i)" "l_id (new_loan E user dto account calc t i) = i" for t i
    by (simp_all add: fresh_loan_def new_loan_def)
  then show "wp (create_pending_loan E user dto account calc) (\<lambda>_. evolves D w) (\<lambda>_. evolves D w) w"
    by (intro wp_mono[OF create_pending_loan_effect]) (auto intro: evolves_open[OF wf] evolves_same_loans)
qed

lemma checkoutLoan_evolves: "keeps (evolves D) (checkoutLoan V user dto)"
  unfolding checkoutLoan_def
  by (intro life.keeps_intros create_pending_loan_evolves keeps_untouched frame_ops)

section \<open>Repayment and release\<close>

lemma creditInflow_loans:
  "wp (creditInflow D p) (\<lambda>_ v. loans (w_db v) = loans (w_db w) \<or> (\<exists>l. find_row l_id (cp_loan_id p) (loans (w_db w)) = Some l \<and>
      l_status l = LoanStatus.ACTIVE \<and>
      loans (w_db v) = update_row l_id (cp_loan_id p) (\<lambda>l. (mark_repaid p (w_clock w) l)\<lparr>l_status := LoanStatus.REPAID\<rparr>) (loans (w_db w))))
     (\<lambda>_ v. v = w) w"
proof (cases "find_row l_id (cp_loan_id p) (loans (w_db w))")
  case None
  then show ?thesis by (simp add: creditInflow_def credit_tx_def wp_simps)
next
  case (Some l)
  have id: "l_id l = cp_loan_id p" using Some by (rule find_row_key)
  have "wp (creditInflow D p) (\<lambda>_ v. loans (w_db v) = loans (w_db w) \<or> (l_status l = LoanStatus.ACTIVE \<and>
      loans (w_db v) = update_row l_id (cp_loan_id p) (\<lambda>l. (mark_repaid p (w_clock w) l)\<lparr>l_status := LoanStatus.REPAID\<rparr>) (loans (w_db w))))
      (\<lambda>_ _. True) w"
    using Some id
    by (simp add: creditInflow_def send_receipt_def credit_tx_def credit_active_def close_loan_def transition_from_def wp_simps
        wp_transition Let_def find_row_update_row update_row_twice mark_repaid_def split: option.split)
  from wp_conj[OF this refused_credit] show ?thesis by (rule wp_mono) (use Some in auto)
qed

lemma creditInflow_ids: "keeps ids_grow (creditInflow D p)"
  by (auto simp: creditInflow_def send_receipt_def credit_tx_def credit_active_def close_loan_def transition_from_def Let_def
      intro!: ids.keeps_intros ids_grow_loans transition_ids ids_grow_writes)

lemma creditInflow_evolves: "keeps (evolves D) (creditInflow E p)"
proof (rule keeps_evolvesI)
  fix w assume wf: "wf_table loan_table w"
  let ?f = "\<lambda>l. (mark_repaid p (w_clock w) l)\<lparr>l_status := LoanStatus.REPAID\<rparr>"
  have moved: "evolves D w v" if "find_row l_id (cp_loan_id p) (loans (w_db w)) = Some l" "l_status l = LoanStatus.ACTIVE"
    "loans (w_db v) = update_row l_id (cp_loan_id p) ?f (loans (w_db w))" "next_id (w_db w) \<le> next_id (w_db v)" for l v
    by (rule evolves_move[OF that(1), where f = ?f])
       (use that loan_update_ok[OF wf that(1), of "?f l"] loan_moves.repaid[OF that(2)] in \<open>simp_all add: mark_repaid_def\<close>)
  show "wp (creditInflow E p) (\<lambda>_. evolves D w) (\<lambda>_. evolves D w) w"
    by (rule wp_mono[OF wp_conj[OF creditInflow_loans keeps_at[OF creditInflow_ids]]])
       (auto simp: ids_grow_def intro: moved evolves_same_loans)
qed

lemma claims_evolve: "keeps (evolves D) (applyInflowToLoan E u i j)" "keeps (evolves D) (claimInflow E u j)"
  unfolding applyInflowToLoan_def claimInflow_def
  by (intro life.keeps_intros creditInflow_evolves keeps_untouched frame_ops)+

lemma update_where_one:
  assumes "unique_keys key rows" "find_row key i rows = Some r" "q r"
  shows "update_where (\<lambda>x. key x = i \<and> q x) f rows = update_row key i f rows"
proof -
  have "x = r" if "x \<in> set rows" "key x = i" for x using find_row_unique[OF assms(1) that(1)] that(2) assms(2) by simp
  then show ?thesis using assms(3) by (auto simp: update_where_def update_row_def)
qed

lemma releaseForLoan_ids: "keeps ids_grow (releaseForLoan V i)"
  by (auto simp: releaseForLoan_def release_locked_def stamp_release_def maybeAlertOps_def Let_def
      intro!: ids.keeps_intros ids_grow_loans transition_ids ids.keeps_same_db[of "sendToLightningAddress V _ _ _"]
      simp: wp_send split: sum.split)

lemma releaseForLoan_evolves: "keeps (evolves D) (releaseForLoan V i)"
proof (rule keeps_evolvesI)
  fix w assume wf: "wf_table loan_table w"
  let ?f = "\<lambda>t ref l. l\<lparr>l_collateral_released_at := Some t, l_collateral_release_reference := Some ref\<rparr>"
  have moved: "evolves D w v" if "release_due w i l a" "loans (w_db v) = mark_released i t ref (loans (w_db w))"
    "next_id (w_db w) \<le> next_id (w_db v)" for l a v t ref
  proof (rule evolves_move[where f = "?f t ref" and l = l and i = i])
    show l: "find_row l_id i (loans (w_db w)) = Some l" using that(1) by (simp add: release_due_def)
    show "loan_moves D l (?f t ref l) \<or> ?f t ref l = l" using that(1) by (auto simp: release_due_def intro: loan_moves.released)
    show "violated loan_table (?f t ref l) (loans (w_db w)) = None" using loan_update_ok[OF wf l] by simp
    show "loans (w_db v) = update_row l_id i (?f t ref) (loans (w_db w))"
      using that wf l by (simp add: mark_released_def release_due_def wf_table_def update_where_one)
  qed (use that in simp_all)
  have "evolves D w v" if "releaseForLoan V i w = (r, v)" for r v
  proof -
    have "next_id (w_db w) \<le> next_id (w_db v)" using keepsD[OF releaseForLoan_ids, of w V i] that by (simp add: ids_grow_def)
    then show ?thesis
      using that by (cases rule: release_cases[of V i w]) (auto simp: under_lock_def unlocked_def elim!: release_endsE intro: moved evolves_same_loans)
  qed
  then show "wp (releaseForLoan V i) (\<lambda>_. evolves D w) (\<lambda>_. evolves D w) w"
    by (auto simp: wp_def split: prod.split sum.split)
qed

lemma release_all_evolves: "keeps (evolves D) (release_all V rows n)"
proof (induction rows arbitrary: n)
  case (Cons row rows)
  show ?case unfolding release_all.simps by (intro life.keeps_intros releaseForLoan_evolves Cons.IH)
qed (simp add: life.keeps_intros)

lemma release_work_evolves: "keeps (evolves D) (runCollateralReleaseCycle V)" "keeps (evolves D) (releaseCollateral V i j)"
proof -
  show "keeps (evolves D) (runCollateralReleaseCycle V)"
    unfolding runCollateralReleaseCycle_def by (intro life.keeps_intros release_all_evolves)
  have result: "keeps (evolves D) (case r of Released x \<Rightarrow> return (ManualReleased x) | AlreadyReleased x' \<Rightarrow> return (ManualAlreadyReleased x')
     | InFlight \<Rightarrow> return ManualInFlight | NotEligible x \<Rightarrow> throw (InflowE (CollateralReleaseNotEligibleException x))
     | SendFailed x \<Rightarrow> throw (InflowE (CollateralReleaseSendFailedException x)))" for r
    by (cases r) (simp_all add: life.keeps_intros)
  show "keeps (evolves D) (releaseCollateral V i j)"
    unfolding releaseCollateral_def by (intro life.keeps_intros releaseForLoan_evolves result keeps_untouched[OF operators_untouched(2)])
qed

section \<open>Expiry\<close>

definition waiting :: "world \<Rightarrow> id \<Rightarrow> bool" where
  "waiting w i \<longleftrightarrow> (\<exists>l. find_row l_id i (loans (w_db w)) = Some l \<and>
     l_status l \<in> {LoanStatus.PENDING_COLLATERAL, LoanStatus.EXPIRED})"

definition expiring :: "decimals \<Rightarrow> world \<Rightarrow> world \<Rightarrow> bool" where
  "expiring D w v \<longleftrightarrow> evolves D w v \<and> (\<forall>i. waiting w i \<longrightarrow> waiting v i) \<and> (wf_table loan_table w \<longrightarrow> wf_table loan_table v)"

interpretation expiry: frame "expiring D" for D
  by unfold_locales (auto simp: expiring_def waiting_def evolves_same_loans intro: wf_loans_cong life.trans)

lemma expireLoan_evolves:
  assumes "wf_table loan_table w" "waiting w (ex_loan_id row)"
  shows "wp (expireLoan row) (\<lambda>_. expiring D w) (\<lambda>_. expiring D w) w"
proof -
  let ?f = "\<lambda>l. l\<lparr>l_status := LoanStatus.EXPIRED\<rparr>"
  obtain l where l: "find_row l_id (ex_loan_id row) (loans (w_db w)) = Some l"
    "l_status l = LoanStatus.PENDING_COLLATERAL \<or> l_status l = LoanStatus.EXPIRED" using assms(2) by (auto simp: waiting_def)
  have "expiring D w v" if "loans (w_db v) = update_row l_id (ex_loan_id row) ?f (loans (w_db w))" "next_id (w_db w) \<le> next_id (w_db v)" for v
  proof -
    have "evolves D w v"
      by (rule evolves_move[OF l(1), where f = ?f]) (use that l(2) loan_update_ok[OF assms(1) l(1), of "?f l"] in \<open>auto intro: loan_moves.expired\<close>)
    then show ?thesis using that(1) assms(1) by (auto simp: expiring_def waiting_def find_row_update_row evolves_def)
  qed
  moreover have "expiring D w v" if "w_db v = w_db w" for v using that by (rule expiry.same_db)
  ultimately show ?thesis
    using l(1) by (simp add: expireLoan_def wp_simps split: option.split)
qed

lemma expire_all_evolves:
  assumes "wf_table loan_table w" "\<forall>row\<in>set rows. waiting w (ex_loan_id row)"
  shows "wp (expire_all rows) (\<lambda>_. expiring D w) (\<lambda>_ _. False) w"
  using assms
proof (induction rows arbitrary: w)
  case Nil
  then show ?case by (simp add: wp_simps expiry.same_db)
next
  case (Cons row rows)
  have "wp (attempt (bind (expireLoan row) (\<lambda>_. return (1::nat))) (\<lambda>_. return 0)) (\<lambda>_. expiring D w) (\<lambda>_ _. False) w"
    unfolding wp_attempt wp_bind by (rule wp_mono[OF expireLoan_evolves[of w row D]]) (use Cons.prems in \<open>auto simp: wp_return\<close>)
  moreover have "wp (bind (expire_all rows) (\<lambda>m. return (n + m))) (\<lambda>_. expiring D w) (\<lambda>_ _. False) v" if "expiring D w v" for n v
    unfolding wp_bind wp_return_fun
    by (rule wp_mono[OF Cons.IH]) (use that Cons.prems expiry.trans[OF that] in \<open>auto simp: expiring_def\<close>)
  ultimately show ?case unfolding expire_all.simps by (rule wp_seq) auto
qed

lemma runExpiryCycle_evolves: "keeps (evolves D) runExpiryCycle"
proof (rule keeps_evolvesI)
  fix w assume wf: "wf_table loan_table w"
  have "waiting w (ex_loan_id row)" if row: "row \<in> set (expired_rows w)" for row
  proof -
    obtain l where "l \<in> set (loans (w_db w))" "ex_loan_id row = l_id l" "l_status l = LoanStatus.PENDING_COLLATERAL"
      using row by (auto simp: expired_rows_def overdue_def)
    then show ?thesis using wf find_row_unique[of l_id "loans (w_db w)" l] by (simp add: waiting_def wf_table_def)
  qed
  then have "wp (expire_all (expired_rows w)) (\<lambda>_. expiring D w) (\<lambda>_ _. False) w" by (intro expire_all_evolves wf) blast
  then have "wp (bind (expire_all (expired_rows w)) (\<lambda>expired. bind now (\<lambda>t.
      bind (redis_set (WORKER_HEARTBEAT ''loan_expiry'') (VInt t)) (\<lambda>_. return expired)))) (\<lambda>_. evolves D w) (\<lambda>_. evolves D w) w"
    by (rule wp_seq) (auto simp: wp_simps expiring_def intro: life.later)
  then show "wp runExpiryCycle (\<lambda>_. evolves D w) (\<lambda>_. evolves D w) w"
    by (simp add: runExpiryCycle_def wp_simps)
qed

section \<open>Liquidation and its reversal\<close>

text \<open>The loans that the cycle has still to visit are as it read them.\<close>

definition as_read :: "world \<Rightarrow> loan_row list \<Rightarrow> bool" where
  "as_read w rows \<longleftrightarrow> (\<forall>l\<in>set rows. find_row l_id (l_id l) (loans (w_db w)) = Some l \<and> l_status l = LoanStatus.ACTIVE)"

lemma liquidateLoan_evolves:
  assumes "wf_table loan_table w" "find_row l_id (l_id l) (loans (w_db w)) = Some l" "l_status l = LoanStatus.ACTIVE"
  shows "wp (liquidateLoan D l rate) (\<lambda>_ v. evolves D w v \<and> (\<forall>j. j \<noteq> l_id l \<longrightarrow> book v j = book w j)) (\<lambda>_ _. False) w"
proof -
  let ?f = "mark_liquidated D rate (w_clock w)"
  have v: "violated loan_table (?f l) (loans (w_db w)) = None"
    by (rule loan_update_ok[OF assms(1,2)]) (simp_all add: mark_liquidated_def)
  have "evolves D w v \<and> (\<forall>j. j \<noteq> l_id l \<longrightarrow> book v j = book w j)"
    if "loans (w_db v) = update_row l_id (l_id l) ?f (loans (w_db w))" "next_id (w_db w) \<le> next_id (w_db v)" for v
  proof
    show "evolves D w v"
      by (rule evolves_move[OF assms(2), where f = ?f]) (use that v loan_moves.liquidated[OF assms(3)] in simp_all)
    show "\<forall>j. j \<noteq> l_id l \<longrightarrow> book v j = book w j" using that(1) by (simp add: book_def find_row_update_row)
  qed
  then show ?thesis using v assms(2) by (simp add: liquidateLoan_def wp_simps)
qed

lemma monitor_loan_evolves:
  assumes "wf_table loan_table w" "find_row l_id (l_id l) (loans (w_db w)) = Some l" "l_status l = LoanStatus.ACTIVE"
  shows "wp (monitor_loan V rate reps as_of l n) (\<lambda>_ v. evolves (e_dec V) w v \<and> (\<forall>j. j \<noteq> l_id l \<longrightarrow> book v j = book w j)) (\<lambda>_ _. False) w"
proof -
  let ?Q = "\<lambda>v. evolves (e_dec V) w v \<and> (\<forall>j. j \<noteq> l_id l \<longrightarrow> book v j = book w j)"
  have same: "?Q v" if "?Q u" "w_db v = w_db u" for u v
    using that by (auto simp: book_cong[of v u] intro: life.later)
  have quiet: "?Q v" if "w_db v = w_db w" for v using that by (simp add: life.same_db book_cong[of v w])
  have swap: "wp (bind (attempt (swapBtcToUsd V l) (\<lambda>_. return ())) (\<lambda>_. return m)) (\<lambda>_. ?Q) (\<lambda>_ _. False) v" if "?Q v" for m v
    using same[OF that] by (intro wp_seq[OF swap_quiet]) (simp_all add: wp_return)
  have "wp (attempt (bind (liquidateLoan (e_dec V) l rate) (\<lambda>_. bind (attempt (swapBtcToUsd V l) (\<lambda>_. return ())) (\<lambda>_. return m)))
      (\<lambda>_. return n)) (\<lambda>_. ?Q) (\<lambda>_ _. False) w" for m
    unfolding wp_attempt by (rule wp_seq[OF liquidateLoan_evolves[OF assms]]; (rule wp_mono[OF swap])?) simp_all
  moreover have "wp (nudge l r n) (\<lambda>_. ?Q) (\<lambda>_ _. False) w" for r
    by (rule wp_mono[OF nudge_quiet]) (rule quiet, simp, simp)
  ultimately show ?thesis
    using quiet[of w] by (simp add: monitor_loan_def Let_def wp_return)
qed

lemma monitor_all_evolves:
  assumes "wf_table loan_table w" "as_read w rows" "distinct (map l_id rows)"
  shows "wp (monitor_all V rate reps as_of rows n) (\<lambda>_. evolves (e_dec V) w) (\<lambda>_ _. False) w"
  using assms
proof (induction rows arbitrary: n w)
  case Nil
  then show ?case by (simp add: wp_return life.same_db)
next
  case (Cons l rows)
  let ?Q = "\<lambda>v. evolves (e_dec V) w v \<and> (\<forall>j. j \<noteq> l_id l \<longrightarrow> book v j = book w j)"
  have "wp (monitor_all V rate reps as_of rows n') (\<lambda>_. evolves (e_dec V) w) (\<lambda>_ _. False) v" if v: "?Q v" for n' v
  proof (rule wp_mono[OF Cons.IH])
    show "wf_table loan_table v" using v Cons.prems(1) by (simp add: evolves_def)
    show "as_read v rows" using v Cons.prems(2,3) by (auto simp: as_read_def book_def) (metis image_eqI)
  qed (use v Cons.prems(3) life.trans in auto)
  then show ?case
    unfolding monitor_all.simps
    by (intro wp_seq[OF monitor_loan_evolves[OF Cons.prems(1)]]) (use Cons.prems(2) in \<open>auto simp: as_read_def\<close>)
qed

lemma unique_filter: "unique_keys key rows \<Longrightarrow> distinct (map key (filter p rows))"
  by (simp add: unique_keys_def distinct_map_filter)

lemma runLiquidationCycle_evolves: "keeps (evolves (e_dec V)) (runLiquidationCycle V)"
proof (rule keeps_evolvesI)
  fix w assume wf: "wf_table loan_table w"
  let ?D = "e_dec V" and ?rows = "\<lambda>v. filter (\<lambda>l. l_status l = LoanStatus.ACTIVE) (loans (w_db v))"
  have beat: "keeps (evolves ?D) (bind heartbeat (\<lambda>_. return n))" for n :: liquidation_tally
    by (intro life.keeps_intros) (simp add: heartbeat_def life.keeps_intros)
  have cycle: "wp (bind (monitor_all V rate reps as_of (?rows v) n) (\<lambda>n. bind heartbeat (\<lambda>_. return n))) (\<lambda>_. evolves ?D w) (\<lambda>_. evolves ?D w) v"
    if "w_db v = w_db w" for v rate reps as_of n
  proof (rule wp_seq[OF monitor_all_evolves])
    show wfv: "wf_table loan_table v" using wf that by (auto intro: wf_loans_cong)
    then have u: "unique_keys l_id (loans (w_db v))" by (simp add: wf_table_def)
    then show "as_read v (?rows v)" "distinct (map l_id (?rows v))"
      using find_row_unique[OF u] by (auto simp: as_read_def intro: unique_filter)
    fix x :: liquidation_tally and t assume t: "evolves ?D v t"
    have "evolves ?D w t" using life.trans[OF life.same_db[OF \<open>w_db v = w_db w\<close>] t] .
    then show "wp (bind heartbeat (\<lambda>_. return x)) (\<lambda>_. evolves ?D w) (\<lambda>_. evolves ?D w) t"
      using life.trans by (blast intro: wp_mono[OF keeps_at[OF beat]])
  qed simp
  have rate: "wp fetch_cycle_rate (\<lambda>_ v. w_db v = w_db w) (\<lambda>_ v. w_db v = w_db w) w"
    by (auto simp: fetch_cycle_rate_def wp_simps split: option.split rval.split)
  have idle: "wp (bind heartbeat (\<lambda>_. return n)) (\<lambda>_. evolves ?D w) (\<lambda>_. evolves ?D w) v" if "w_db v = w_db w" for n :: liquidation_tally and v
    by (intro wp_mono[OF keeps_at[OF beat]]; rule life.trans[OF life.same_db[OF that]])
  show "wp (runLiquidationCycle V) (\<lambda>_. evolves ?D w) (\<lambda>_. evolves ?D w) w"
    unfolding runLiquidationCycle_def
    by (rule wp_seq[OF rate]) (use cycle idle in \<open>auto simp: wp_find_many wp_now wp_bind[of "find_many _ _"] wp_bind[of now]
      intro: life.same_db split: cycle_rate.split\<close>)
qed

lemma restore_evolves: "keeps (evolves D) (restoreFromBadLiquidation D i reason ops)"
proof (rule keeps_evolvesI)
  fix w assume wf: "wf_table loan_table w"
  let ?f = "\<lambda>l. l\<lparr>l_status := LoanStatus.ACTIVE, l_liquidated_at := None, l_liquidation_rate_actual := None\<rparr>"
  have moved: "evolves D w v" if "find_row l_id i (loans (w_db w)) = Some l" "l_status l = LoanStatus.LIQUIDATED" "is_bad_rate D l"
    "loans (w_db v) = update_row l_id i ?f (loans (w_db w))" "next_id (w_db w) \<le> next_id (w_db v)" for l v
    by (rule evolves_move[OF that(1), where f = ?f])
       (use that loan_update_ok[OF wf that(1), of "?f l"] loan_moves.restored[OF that(2,3)] in simp_all)
  have "l_id l = i" if "find_row l_id i (loans (w_db w)) = Some l" for l using that by (rule find_row_key)
  then show "wp (restoreFromBadLiquidation D i reason ops) (\<lambda>_. evolves D w) (\<lambda>_. evolves D w) w"
    by (auto simp: restoreFromBadLiquidation_def audit_write_def wp_simps evolves_same_loans violated_audit intro: moved split: option.split)
qed

section \<open>The webhooks\<close>

text \<open>The ledger tables hold no loans.\<close>

lemma ledger_writes_evolve:
  "keeps (evolves D) (create_row inflow_table mk)" "keeps (evolves D) (update_by_id inflow_table i f)"
  by (auto simp: keeps_def wp_simps intro: evolves_same_loans split: option.split)

lemma ingest_evolves: "keeps (evolves D) (ingest E p)"
  unfolding ingest_def createInflow_def matchInflow_def
  by (intro life.keeps_intros ledger_writes_evolve keeps_untouched[OF request_untouched(3)] keeps_untouched[OF keeps_writes(2)] elsewhere_tables)

lemma handleLoanCollateral_evolves: "keeps (evolves D) (handleLoanCollateral V pr t)"
  unfolding handleLoanCollateral_def Let_def
  by (intro life.keeps_intros activateLoan_evolves keeps_untouched frame_ops)

lemma logged_handler_evolves: "keeps (evolves D) h \<Longrightarrow> keeps (evolves D) (logged_handler V d ok h)"
  unfolding logged_handler_def
  by (intro life.keeps_intros keeps_untouched[OF webhook_log_untouched(1)] keeps_untouched[OF webhook_log_untouched(2)])

lemma blink_payment_evolves: "keeps (evolves D) (blink_payment V p h)"
  unfolding blink_payment_def by (intro life.keeps_intros ingest_evolves handleLoanCollateral_evolves)

lemma blink_webhook_evolves: "keeps (evolves D) (blink_webhook V own d ok body)"
  unfolding blink_webhook_def blink_process_def
  by (intro logged_handler_evolves, cases body) (auto intro!: life.keeps_intros blink_payment_evolves)

lemma payout_webhook_evolves: "keeps (evolves D) (payout_webhook V d ok note)"
  unfolding payout_webhook_def
  by (intro logged_handler_evolves life.keeps_intros keeps_untouched settlement_untouched)

lemma park_evolves: "keeps (evolves D) (park V p va amt u r detail)"
  unfolding park_def storeUnmatchedInflow_def by (intro life.keeps_intros ledger_writes_evolve)

lemma collection_credit_evolves: "keeps (evolves D) (collection_credit V p va amt u i so)"
  unfolding collection_credit_def upsert_inflow_def credit_failed_outcome_def inflowIsMatched_def creditFailedBefore_def
  by (intro life.keeps_intros ledger_writes_evolve creditInflow_evolves)

lemma collection_verify_evolves: "keeps (evolves D) (collection_verify V p va amt u i)"
proof -
  have "keeps (evolves D) (case requery_verdict p va st of Refuse reason detail \<Rightarrow> park V p va amt u reason detail
      | Defer detail \<Rightarrow> return (refusal p DEFERRED detail) | Credit so \<Rightarrow> collection_credit V p va amt u i so)" for st
    by (cases "requery_verdict p va st") (simp_all add: park_evolves collection_credit_evolves life.keeps_intros)
  then show ?thesis unfolding collection_verify_def by (intro life.keeps_intros)
qed

lemma collection_for_user_evolves: "keeps (evolves D) (collection_for_user V p va amt u)"
proof -
  have "keeps (evolves D) (case rows of [] \<Rightarrow> park V p va amt u no_active_loans ''no_active_loans''
       | [loan] \<Rightarrow> collection_verify V p va amt u (l_id loan)
       | _ \<Rightarrow> bind (findActiveLoanMatchingOutstanding (e_dec V) u amt) (\<lambda>smart_match.
           case smart_match of
             None \<Rightarrow> park V p va amt u multiple_active_loans ''multiple_active_loans''
           | Some (loan_id, _) \<Rightarrow> collection_verify V p va amt u loan_id))" for rows
    by (auto split: list.split intro!: life.keeps_intros park_evolves collection_verify_evolves keeps_untouched[OF views_untouched(7)])
  then show ?thesis
    unfolding collection_for_user_def by (intro life.keeps_intros park_evolves keeps_untouched[OF views_untouched(8)])
qed

lemma collection_webhook_evolves: "keeps (evolves D) (collection_webhook V d ok note)"
  unfolding collection_webhook_def collection_handle_def
  by (intro logged_handler_evolves life.keeps_intros collection_for_user_evolves)

end
