(* ===== verification/Ledger.thy ===== *)
theory Ledger
  imports Frames "HOL-Library.Sublist"
begin

text \<open>
  The books of the money that came in: the inflows and the repayments they became. A
  repayment is never changed or removed, each inflow pays for at most one, and that inflow is marked as matched.
\<close>

definition ledger_ok :: "world \<Rightarrow> bool" where
  "ledger_ok w \<longleftrightarrow> wf_table repayment_table w \<and> wf_table inflow_table w \<and>
     (\<forall>r\<in>set (repayments (w_db w)). \<exists>i. find_row in_id (rep_inflow_id r) (inflows (w_db w)) = Some i \<and> in_is_matched i)"

text \<open>An inflow keeps its amount and origin, and stays matched once it is.\<close>

definition inflow_later :: "inflow_row \<Rightarrow> inflow_row \<Rightarrow> bool" where
  "inflow_later i j \<longleftrightarrow> in_id j = in_id i \<and> in_amount j = in_amount i \<and> in_provider_reference j = in_provider_reference i \<and>
     (in_is_matched i \<longrightarrow> in_is_matched j)"

definition ledger_grows :: "world \<Rightarrow> world \<Rightarrow> bool" where
  "ledger_grows w v \<longleftrightarrow> (ledger_ok w \<longrightarrow> ledger_ok v) \<and> prefix (repayments (w_db w)) (repayments (w_db v)) \<and>
     (\<forall>k i. find_row in_id k (inflows (w_db w)) = Some i \<longrightarrow> (\<exists>j. find_row in_id k (inflows (w_db v)) = Some j \<and> inflow_later i j))"

definition same_ledger :: "world \<Rightarrow> world \<Rightarrow> bool" where
  "same_ledger w v \<longleftrightarrow> inflows (w_db v) = inflows (w_db w) \<and> repayments (w_db v) = repayments (w_db w) \<and>
     next_id (w_db w) \<le> next_id (w_db v)"

interpretation still: frame same_ledger
  by unfold_locales (auto simp: same_ledger_def)

lemma ledger_ok_cong: "ledger_ok w \<Longrightarrow> same_ledger w v \<Longrightarrow> ledger_ok v"
  by (force simp: ledger_ok_def same_ledger_def wf_table_def)

lemma inflow_later_refl: "inflow_later i i"
  by (simp add: inflow_later_def)

lemma same_ledger_grows: "same_ledger w v \<Longrightarrow> ledger_grows w v"
  using ledger_ok_cong[of w v] by (auto simp: ledger_grows_def same_ledger_def inflow_later_refl)

interpretation money: frame ledger_grows
proof
  show "ledger_grows w v" if "w_db v = w_db w" for v w
    using that by (intro same_ledger_grows) (simp add: same_ledger_def)
  show "ledger_grows u w" if "ledger_grows u v" "ledger_grows v w" for u v w
  proof -
    have "\<exists>j. find_row in_id k (inflows (w_db w)) = Some j \<and> inflow_later i j" if k: "find_row in_id k (inflows (w_db u)) = Some i" for k i
    proof -
      obtain m where m: "find_row in_id k (inflows (w_db v)) = Some m" "inflow_later i m"
        using \<open>ledger_grows u v\<close> k by (auto simp: ledger_grows_def)
      then obtain j where "find_row in_id k (inflows (w_db w)) = Some j" "inflow_later m j"
        using \<open>ledger_grows v w\<close> by (auto simp: ledger_grows_def)
      then show ?thesis using m(2) by (auto simp: inflow_later_def)
    qed
    then show ?thesis using that by (auto simp: ledger_grows_def)
  qed
qed

lemma still_ledger: "keeps same_ledger m \<Longrightarrow> keeps ledger_grows m"
  by (rule keeps_weaken[OF _ same_ledger_grows])

lemma untouched_still: "keeps untouched m \<Longrightarrow> keeps same_ledger m"
  by (rule keeps_weaken[where R = untouched]) (auto simp: untouched_def same_ledger_def)

section \<open>The operations on loans leave the ledger alone\<close>

lemma still_writes:
  assumes "\<And>f w. inflows (w_db (t_put T f w)) = inflows (w_db w) \<and> repayments (w_db (t_put T f w)) = repayments (w_db w) \<and>
    next_id (w_db (t_put T f w)) = next_id (w_db w)"
  shows "keeps same_ledger (create_row T mk)" "keeps same_ledger (update_by_id T i f)" "keeps same_ledger (update_many T p f)"
  using assms by (auto simp: keeps_def wp_simps same_ledger_def split: option.split)

lemma still_tables:
  "keeps same_ledger (create_row loan_table mk)" "keeps same_ledger (update_by_id loan_table i f)" "keeps same_ledger (update_many loan_table p f)"
  "keeps same_ledger (create_row status_log_table mk')" "keeps same_ledger (update_by_id payment_request_table j g)"
  by (rule still_writes; simp)+

lemma transition_still: "keeps same_ledger (transition p)" "keeps same_ledger (transition_from l s tr rc d m)"
  by (auto simp: transition_from_def transition_def assertValidTransition_def intro!: still.keeps_intros still_tables)

lemma send_still: "keeps same_ledger (sendToLightningAddress V i a n)"
  by (rule still.keeps_same_db) (auto simp: wp_send split: sum.split)

lemma swap_still: "keeps same_ledger (attempt (swapBtcToUsd V l) (\<lambda>_. return ()))"
  by (rule still.keeps_same_db) (auto intro: wp_mono[OF swap_quiet])

lemmas still_rules = still.keeps_intros still_tables transition_still send_still swap_still

lemma loan_operations_still:
  "keeps same_ledger (create_pending_loan D u dto a c)" "keeps same_ledger (cancelLoan x i)" "keeps same_ledger (activateLoan i t)"
  "keeps same_ledger (store_release_address V l i adr)" "keeps same_ledger (releaseForLoan V i)" "keeps same_ledger (expireLoan row)"
  "keeps same_ledger (liquidateLoan D l rate)" "keeps same_ledger (restoreFromBadLiquidation D i reason ops)"
  by (auto simp: create_pending_loan_def cancelLoan_def activateLoan_def store_release_address_def releaseForLoan_def release_locked_def
      stamp_release_def maybeAlertOps_def expireLoan_def liquidateLoan_def restoreFromBadLiquidation_def
      intro!: still_rules untouched_still[OF views_untouched(1)] untouched_still[OF operators_untouched(2)])

lemma checkout_still: "keeps same_ledger (checkoutLoan V u dto)" "keeps same_ledger (setReleaseAddress V x i a otp pin totp)"
  "keeps same_ledger (handleLoanCollateral V pr t)"
  unfolding checkoutLoan_def setReleaseAddress_def handleLoanCollateral_def Let_def
  by (intro still.keeps_intros loan_operations_still untouched_still frame_ops)+

lemma release_all_still: "keeps same_ledger (release_all V rows n)"
proof (induction rows arbitrary: n)
  case (Cons row rows)
  show ?case unfolding release_all.simps by (intro still.keeps_intros loan_operations_still Cons.IH)
qed (simp add: still.keeps_intros)

lemma expire_all_still: "keeps same_ledger (expire_all rows)"
proof (induction rows)
  case (Cons row rows)
  show ?case unfolding expire_all.simps by (intro still.keeps_intros loan_operations_still Cons.IH)
qed (simp add: still.keeps_intros)

lemma monitor_loan_still: "keeps same_ledger (monitor_loan V rate reps t l n)"
  unfolding monitor_loan_def Let_def nudge_def evaluateCoverageTiers_def notify_tier_def sendCoverageNotice_def
  by (intro still.keeps_intros swap_still loan_operations_still)

lemma monitor_all_still: "keeps same_ledger (monitor_all V rate reps t rows n)"
proof (induction rows arbitrary: n)
  case (Cons row rows)
  show ?case unfolding monitor_all.simps by (intro still.keeps_intros monitor_loan_still Cons.IH)
qed (simp add: still.keeps_intros)

lemma cycles_still:
  "keeps same_ledger (runCollateralReleaseCycle V)" "keeps same_ledger runExpiryCycle" "keeps same_ledger (runLiquidationCycle V)"
  "keeps same_ledger (releaseCollateral V i j)"
  by (auto simp: runCollateralReleaseCycle_def runExpiryCycle_def runLiquidationCycle_def fetch_cycle_rate_def heartbeat_def releaseCollateral_def
      intro!: still.keeps_intros release_all_still expire_all_still monitor_all_still loan_operations_still untouched_still[OF operators_untouched(2)]
      split: cycle_rate.split rval.split release_result.split)

section \<open>Inflows and repayments\<close>

text \<open>A new inflow.\<close>

lemma create_inflow_grows:
  assumes "\<And>i. in_id (mk i) = i"
  shows "keeps ledger_grows (create_row inflow_table mk)"
proof (rule keepsI)
  fix w
  let ?n = "next_id (w_db w)" and ?v = "t_put inflow_table (\<lambda>rows. rows @ [mk (next_id (w_db w))]) (w\<lparr>w_db := (w_db w)\<lparr>next_id := Suc (next_id (w_db w))\<rparr>\<rparr>)"
  have "ledger_grows w ?v" if "violated inflow_table (mk ?n) (inflows (w_db w)) = None"
  proof -
    have "ledger_ok ?v" if ok: "ledger_ok w"
    proof -
      have "wf_table inflow_table ?v"
        by (rule inflow_tbl.wf_append[of w "mk ?n"]) (use ok assms \<open>violated _ _ _ = None\<close> in \<open>simp_all add: ledger_ok_def\<close>)
      then show ?thesis using ok by (force simp: ledger_ok_def wf_table_def[of repayment_table] find_row_append)
    qed
    then show ?thesis by (auto simp: ledger_grows_def find_row_append inflow_later_refl)
  qed
  then show "wp (create_row inflow_table mk) (\<lambda>_. ledger_grows w) (\<lambda>_. ledger_grows w) w"
    by (auto simp: wp_simps money.same_db split: option.split)
qed

text \<open>An inflow is marked as matched.\<close>

lemma match_inflow_grows:
  assumes "\<And>i. inflow_later i (f i)" "\<And>i. in_is_matched (f i)"
  shows "keeps ledger_grows (update_by_id inflow_table k f)"
proof (rule keepsI)
  fix w
  let ?v = "t_put inflow_table (update_row in_id k f) w"
  have key: "in_id (f i) = in_id i" for i using assms(1)[of i] by (simp add: inflow_later_def)
  have "ledger_grows w ?v" if "find_row in_id k (inflows (w_db w)) = Some i" "violated inflow_table (f i) (inflows (w_db w)) = None" for i
  proof -
    have "ledger_ok ?v" if ok: "ledger_ok w"
    proof -
      have "wf_table inflow_table ?v"
        by (rule inflow_tbl.wf_update[of w f k "f i"]) (use ok key \<open>find_row _ _ _ = _\<close> \<open>violated _ _ _ = None\<close> in \<open>simp_all add: ledger_ok_def update_by_id_def\<close>)
      then show ?thesis using ok assms(2) by (auto simp: ledger_ok_def wf_table_def[of repayment_table] find_row_update_row key)
    qed
    then show ?thesis using assms(1) by (auto simp: ledger_grows_def find_row_update_row key inflow_later_refl)
  qed
  then show "wp (update_by_id inflow_table k f) (\<lambda>_. ledger_grows w) (\<lambda>_. ledger_grows w) w"
    by (auto simp: wp_simps money.same_db split: option.split)
qed

text \<open>A credit appends one repayment and marks its inflow, in one transaction.\<close>

lemma credit_grows:
  assumes "find_row in_id (rep_inflow_id r) (inflows (w_db w)) = Some i" "violated repayment_table r (repayments (w_db w)) = None"
    and "rep_id r = next_id (w_db w)" "\<And>i. inflow_later i (f i)" "\<And>i. in_is_matched (f i)"
    and "violated inflow_table (f i) (inflows (w_db w)) = None"
    and v: "repayments (w_db v) = repayments (w_db w) @ [r]" "inflows (w_db v) = update_row in_id (rep_inflow_id r) f (inflows (w_db w))"
      "next_id (w_db v) = Suc (next_id (w_db w))"
  shows "ledger_grows w v"
proof -
  have key: "in_id (f i) = in_id i" for i using assms(4)[of i] by (simp add: inflow_later_def)
  have "ledger_ok v" if ok: "ledger_ok w"
  proof -
    have "wf_table repayment_table v" by (rule repayment_tbl.wf_append[of w r]) (use ok assms in \<open>simp_all add: ledger_ok_def\<close>)
    moreover have "wf_table inflow_table (t_put inflow_table (update_row in_id (rep_inflow_id r) f) w)"
      by (rule inflow_tbl.wf_update[of w f "rep_inflow_id r" "f i"]) (use ok key assms in \<open>simp_all add: ledger_ok_def update_by_id_def\<close>)
    then have "wf_table inflow_table v" using v by (force simp: wf_table_def)
    ultimately show ?thesis using ok assms by (auto simp: ledger_ok_def find_row_update_row key)
  qed
  then show ?thesis using assms(4) v by (auto simp: ledger_grows_def find_row_update_row key inflow_later_refl)
qed

lemma credit_active_grows: "wp (credit_active D p l) (\<lambda>_. ledger_grows w) (\<lambda>_ _. True) w"
proof -
  have rest: "wp (close_loan D p l sp t) (\<lambda>_. ledger_grows w) (\<lambda>_ _. True) v"
    "wp (transition_from l s tr rc d m) (\<lambda>_. ledger_grows w) (\<lambda>_ _. True) v" if "ledger_grows w v" for sp t s tr rc d m v
  proof -
    have "keeps same_ledger (close_loan D p l sp t)" by (auto simp: close_loan_def intro!: still_rules)
    then show "wp (close_loan D p l sp t) (\<lambda>_. ledger_grows w) (\<lambda>_ _. True) v"
      by (rule wp_mono[OF keeps_at]) (auto intro: money.trans[OF that] same_ledger_grows)
    show "wp (transition_from l s tr rc d m) (\<lambda>_. ledger_grows w) (\<lambda>_ _. True) v"
      by (rule wp_mono[OF keeps_at[OF transition_still(2)]]) (auto intro: money.trans[OF that] same_ledger_grows)
  qed
  have marks: "inflow_later i (mark_credited p t i)" "in_is_matched (mark_credited p t i)" for t i
    by (simp_all add: mark_credited_def inflow_later_def)
  have new: "rep_inflow_id (new_repayment D p sp t n) = cp_inflow_id p" "rep_id (new_repayment D p sp t n) = n" for sp t n
    by (simp_all add: new_repayment_def)
  have *: "ledger_grows w (t_put inflow_table (update_row in_id (cp_inflow_id p) (mark_credited p t))
      (t_put repayment_table (\<lambda>rows. rows @ [new_repayment D p sp t (next_id (w_db w))]) (w\<lparr>w_db := (w_db w)\<lparr>next_id := Suc (next_id (w_db w))\<rparr>\<rparr>)))"
    if "find_row in_id (cp_inflow_id p) (inflows (w_db w)) = Some i" "violated inflow_table (mark_credited p t i) (inflows (w_db w)) = None"
      "violated repayment_table (new_repayment D p sp t (next_id (w_db w))) (repayments (w_db w)) = None" for i sp t
    by (rule credit_grows[where r = "new_repayment D p sp t (next_id (w_db w))" and i = i and f = "mark_credited p t"]) (use that in \<open>simp_all add: new marks\<close>)
  show ?thesis
    unfolding credit_active_def Let_def wp_bind wp_now wp_gets wp_create_row wp_update_by_id wp_return_fun
    using rest * by (simp split: option.split)
qed

lemma creditInflow_grows: "keeps ledger_grows (creditInflow D p)"
proof -
  have tx: "keeps ledger_grows (transaction (credit_tx D p))"
    by (rule keepsI) (auto simp: credit_tx_def wp_simps money.same_db split: option.split intro: wp_mono[OF credit_active_grows])
  show ?thesis
    unfolding creditInflow_def send_receipt_def by (intro money.keeps_bind tx money.keeps_cases money.keeps_calls)
qed

lemma claims_grow: "keeps ledger_grows (applyInflowToLoan D u i j)" "keeps ledger_grows (claimInflow D u j)"
  unfolding applyInflowToLoan_def claimInflow_def
  by (intro money.keeps_intros creditInflow_grows still_ledger[OF untouched_still[OF views_untouched(2)]])+

section \<open>The webhooks\<close>

lemma ingest_grows: "keeps ledger_grows (ingest D p)"
  unfolding ingest_def createInflow_def matchInflow_def
  by (intro money.keeps_intros create_inflow_grows match_inflow_grows still_ledger[OF untouched_still[OF request_untouched(3)]]
      still_ledger[OF still_tables(5)]) (simp_all add: new_inflow_def inflow_later_def)

lemma logged_handler_grows: "keeps ledger_grows h \<Longrightarrow> keeps ledger_grows (logged_handler V d ok h)"
  unfolding logged_handler_def
  by (intro money.keeps_intros still_ledger[OF untouched_still[OF webhook_log_untouched(1)]] still_ledger[OF untouched_still[OF webhook_log_untouched(2)]])

lemma blink_webhook_grows: "keeps ledger_grows (blink_webhook V own d ok body)"
proof -
  have "keeps ledger_grows (blink_payment V p h)" for p h
    unfolding blink_payment_def by (intro money.keeps_intros ingest_grows still_ledger[OF checkout_still(3)])
  then show ?thesis
    unfolding blink_webhook_def blink_process_def
    by (intro logged_handler_grows, cases body) (auto intro!: money.keeps_intros)
qed

lemma payout_webhook_grows: "keeps ledger_grows (payout_webhook V d ok note)"
  unfolding payout_webhook_def
  by (intro logged_handler_grows money.keeps_intros still_ledger untouched_still settlement_untouched)

lemma park_grows: "keeps ledger_grows (park V p va amt u r detail)"
  unfolding park_def storeUnmatchedInflow_def
  by (intro money.keeps_intros create_inflow_grows) (simp add: collected_inflow_def)

lemma collection_credit_grows: "keeps ledger_grows (collection_credit V p va amt u i so)"
  unfolding collection_credit_def upsert_inflow_def credit_failed_outcome_def inflowIsMatched_def creditFailedBefore_def
  by (intro money.keeps_intros create_inflow_grows creditInflow_grows) (simp add: collected_inflow_def)

lemma collection_verify_grows: "keeps ledger_grows (collection_verify V p va amt u i)"
proof -
  have "keeps ledger_grows (case requery_verdict p va st of Refuse reason detail \<Rightarrow> park V p va amt u reason detail
      | Defer detail \<Rightarrow> return (refusal p DEFERRED detail) | Credit so \<Rightarrow> collection_credit V p va amt u i so)" for st
    by (cases "requery_verdict p va st") (simp_all add: park_grows collection_credit_grows money.keeps_intros)
  then show ?thesis unfolding collection_verify_def by (intro money.keeps_intros)
qed

lemma collection_webhook_grows: "keeps ledger_grows (collection_webhook V d ok note)"
proof -
  have "keeps ledger_grows (case rows of [] \<Rightarrow> park V p va amt u no_active_loans ''no_active_loans''
       | [loan] \<Rightarrow> collection_verify V p va amt u (l_id loan)
       | _ \<Rightarrow> bind (findActiveLoanMatchingOutstanding (e_dec V) u amt) (\<lambda>smart_match.
           case smart_match of
             None \<Rightarrow> park V p va amt u multiple_active_loans ''multiple_active_loans''
           | Some (loan_id, _) \<Rightarrow> collection_verify V p va amt u loan_id))" for rows p va amt u
    by (auto split: list.split intro!: money.keeps_intros park_grows collection_verify_grows still_ledger[OF untouched_still[OF views_untouched(7)]])
  then have "keeps ledger_grows (collection_for_user V p va amt u)" for p va amt u
    unfolding collection_for_user_def by (intro money.keeps_intros park_grows still_ledger[OF untouched_still[OF views_untouched(8)]])
  then show ?thesis
    unfolding collection_webhook_def collection_handle_def by (intro logged_handler_grows money.keeps_intros)
qed

end
