(* ===== verification/DisbursementAccounts.thy ===== *)
theory DisbursementAccounts
  imports Disbursements NameMatch
begin

text \<open>
  \<open>modules/disbursement-accounts\<close>: the bank accounts, mobile wallets and addresses that a
  customer is paid to. An account of a bank or a wallet is only added for a verified customer
  whose name matches the holder that the provider reports; each kind has at most five
  accounts and one of them is the default. The currency column always holds NGN and the
  network column nothing; both are left out, and so are the messages of the answers.
\<close>

section \<open>The operations\<close>

definition NAME_MATCHED_KINDS :: "DisbursementAccountKind list" where
  "NAME_MATCHED_KINDS = [DisbursementAccountKind.BANK, DisbursementAccountKind.MOBILE_MONEY]"

definition KIND_TO_RAIL :: "DisbursementAccountKind \<Rightarrow> DisbursementRail option" where
  "KIND_TO_RAIL kind =
     (case kind of DisbursementAccountKind.BANK \<Rightarrow> Some DisbursementRail.BANK_TRANSFER
      | DisbursementAccountKind.MOBILE_MONEY \<Rightarrow> Some DisbursementRail.MOBILE_MONEY
      | DisbursementAccountKind.CRYPTO_ADDRESS \<Rightarrow> None)"

record account_dto =
  ad_kind :: DisbursementAccountKind
  ad_provider_name :: string
  ad_provider_code :: string
  ad_account_unique :: string
  ad_account_unique_tag :: "string option"
  ad_label :: "string option"

definition of_kind :: "id \<Rightarrow> DisbursementAccountKind \<Rightarrow> account_row \<Rightarrow> bool" where
  "of_kind user_id kind a \<longleftrightarrow> acct_user_id a = user_id \<and> acct_kind a = kind"

definition user_name :: "user_row \<Rightarrow> string" where
  "user_name u = trim (join_with '' '' (filter (\<lambda>p. trim p \<noteq> [])
     (List.map_filter (\<lambda>p. p) [u_first_name u, u_middle_name u, u_last_name u])))"

definition canonical_name :: "user_row \<Rightarrow> string service" where
  "canonical_name u =
     (if user_name u \<noteq> [] then return (user_name u)
      else bind (find_first kyc_table (\<lambda>k. k_user_id k = u_id u \<and> k_tier k = 1)) (\<lambda>verification.
           return (case verification of None \<Rightarrow> [] | Some k \<Rightarrow> or_else (k_legal_name k) [])))"

definition matched_holder :: "env \<Rightarrow> id \<Rightarrow> account_dto \<Rightarrow> (string \<times> rat) service" where
  "matched_holder V user_id dto =
     bind (find_or_throw user_table user_id) (\<lambda>user.
     bind (require (1 \<le> u_kyc_tier user) (KycE (KycUpgradeRequiredException 1))) (\<lambda>_.
     bind (canonical_name user) (\<lambda>name.
     bind (the_or_throw (OtherError ''no rail'') (KIND_TO_RAIL (ad_kind dto))) (\<lambda>rail.
     bind (forRoute CUR_NGN rail) (\<lambda>provider.
     bind (call (\<lambda>w. e_lookup_account_name V w provider (ad_provider_code dto) (ad_account_unique dto))) (\<lambda>fetched.
     bind (the_or_throw (DisbursementAccountE DisbursementAccountLookupFailedException) (present fetched)) (\<lambda>fetched_name.
     let score = name_compare (e_float V) name fetched_name in
     bind (require (\<not> score < DISBURSEMENT_NAME_MATCH_THRESHOLD (e_float V))
             (DisbursementAccountE (DisbursementAccountNameMismatchException score))) (\<lambda>_.
     return (fetched_name, score)))))))))"

definition new_account ::
    "id \<Rightarrow> account_dto \<Rightarrow> (string \<times> rat) option \<Rightarrow> bool \<Rightarrow> time \<Rightarrow> id \<Rightarrow> account_row" where
  "new_account user_id dto holder is_first t i =
     \<lparr>acct_id = i, acct_user_id = user_id, acct_kind = ad_kind dto, acct_provider_name = ad_provider_name dto,
      acct_provider_code = ad_provider_code dto, acct_account_unique = ad_account_unique dto,
      acct_holder_name = map_option fst holder, acct_is_default = is_first,
      acct_status = DisbursementAccountStatus.VERIFIED, acct_account_unique_tag = ad_account_unique_tag dto,
      acct_label = ad_label dto, acct_name_match_score = map_option snd holder, acct_verified_at = Some t,
      acct_created_at = t\<rparr>"

definition addAccount :: "env \<Rightarrow> id \<Rightarrow> account_dto \<Rightarrow> account_row service" where
  "addAccount V user_id dto =
     bind (find_many account_table (of_kind user_id (ad_kind dto))) (\<lambda>existing.
     bind (require (length existing < MAX_DISBURSEMENT_ACCOUNTS_PER_KIND)
             (DisbursementAccountE (DisbursementAccountMaxPerKindException (ad_kind dto) MAX_DISBURSEMENT_ACCOUNTS_PER_KIND))) (\<lambda>_.
     bind (find_first account_table (\<lambda>a. of_kind user_id (ad_kind dto) a \<and>
             acct_provider_code a = ad_provider_code dto \<and> acct_account_unique a = ad_account_unique dto)) (\<lambda>duplicate.
     bind (require (duplicate = None) (DisbursementAccountE DisbursementAccountDuplicateException)) (\<lambda>_.
     bind (if ad_kind dto \<in> set NAME_MATCHED_KINDS
           then bind (matched_holder V user_id dto) (\<lambda>holder. return (Some holder)) else return None) (\<lambda>holder.
     bind now (\<lambda>t.
     create_row account_table (new_account user_id dto holder (existing = []) t)))))))"

definition listAccounts :: "id \<Rightarrow> account_row list service" where
  "listAccounts user_id =
     bind (find_many account_table (\<lambda>a. acct_user_id a = user_id)) (\<lambda>rows.
     return (sort_key (\<lambda>a. if acct_is_default a then 0 else 1 :: nat) (sort_key acct_created_at rows)))"

definition own_account :: "id \<Rightarrow> id \<Rightarrow> account_row service" where
  "own_account user_id account_id =
     bind (find_first account_table (\<lambda>a. acct_id a = account_id \<and> acct_user_id a = user_id))
       (the_or_throw (NotFoundException ''Disbursement account not found.''))"

definition setDefault :: "id \<Rightarrow> id \<Rightarrow> unit service" where
  "setDefault user_id account_id =
     bind (own_account user_id account_id) (\<lambda>account.
     bind (find_or_throw user_table user_id) (\<lambda>user.
     bind (require (\<not> (1 \<le> u_kyc_tier user \<and> acct_holder_name account = None))
             (DisbursementAccountE DisbursementAccountUnverifiedException)) (\<lambda>_.
     transaction
       (bind (update_many account_table (\<lambda>a. of_kind user_id (acct_kind account) a \<and> acct_is_default a)
                (\<lambda>a. a\<lparr>acct_is_default := False\<rparr>)) (\<lambda>_.
        bind (update_by_id account_table account_id (\<lambda>a. a\<lparr>acct_is_default := True\<rparr>)) (\<lambda>_. return ()))))))"

text \<open>A loan refers to the account it is paid to, and the database refuses to delete it.\<close>

definition delete_account_row :: "id \<Rightarrow> unit service" where
  "delete_account_row i w =
     (if \<exists>l\<in>set (loans (w_db w)). l_disbursement_account_id l = i
      then (Inl (PrismaForeignKeyViolation ''loans_disbursement_account_id_fkey''), w)
      else if find_row acct_id i (accounts (w_db w)) = None then (Inl PrismaRecordNotFound, w)
      else (Inr (), t_put account_table (filter (\<lambda>a. acct_id a \<noteq> i)) w))"

definition deleteAccount :: "id \<Rightarrow> id \<Rightarrow> unit service" where
  "deleteAccount user_id account_id =
     bind (own_account user_id account_id) (\<lambda>account.
     transaction
       (bind (delete_account_row account_id) (\<lambda>_.
        if acct_is_default account
        then bind (find_many account_table (of_kind user_id (acct_kind account))) (\<lambda>rest.
             case latest_by (\<lambda>a. - acct_created_at a) rest of
               None \<Rightarrow> return ()
             | Some next_default \<Rightarrow>
                 bind (update_by_id account_table (acct_id next_default) (\<lambda>a. a\<lparr>acct_is_default := True\<rparr>)) (\<lambda>_.
                 return ()))
        else return ())))"

lemma wp_delete_account [wp_simps]:
  "wp (delete_account_row i) Q E w =
     (if \<exists>l\<in>set (loans (w_db w)). l_disbursement_account_id l = i
      then E (PrismaForeignKeyViolation ''loans_disbursement_account_id_fkey'') w
      else if find_row acct_id i (accounts (w_db w)) = None then E PrismaRecordNotFound w
      else Q () (t_put account_table (filter (\<lambda>a. acct_id a \<noteq> i)) w))"
  by (simp add: wp_def delete_account_row_def)

section \<open>What every account list satisfies\<close>

definition same_destination :: "account_row \<Rightarrow> account_row \<Rightarrow> bool" where
  "same_destination a b \<longleftrightarrow> acct_user_id a = acct_user_id b \<and> acct_kind a = acct_kind b \<and>
     acct_provider_code a = acct_provider_code b \<and> acct_account_unique a = acct_account_unique b"

definition holder_matched :: "(rat \<Rightarrow> rat) \<Rightarrow> account_row \<Rightarrow> bool" where
  "holder_matched F a \<longleftrightarrow> acct_kind a \<in> set NAME_MATCHED_KINDS \<longrightarrow>
     (\<exists>name score. acct_holder_name a = Some name \<and> acct_name_match_score a = Some score \<and>
        DISBURSEMENT_NAME_MATCH_THRESHOLD F \<le> score)"

text \<open>The accounts without regard to which of them are defaults.\<close>

definition accounts_sound :: "(rat \<Rightarrow> rat) \<Rightarrow> id \<Rightarrow> account_row list \<Rightarrow> bool" where
  "accounts_sound F n rows \<longleftrightarrow>
     unique_keys acct_id rows \<and> (\<forall>a\<in>set rows. acct_id a < n) \<and>
     (\<forall>a\<in>set rows. \<forall>b\<in>set rows. acct_id a \<noteq> acct_id b \<longrightarrow> \<not> same_destination a b) \<and>
     (\<forall>u k. length (filter (of_kind u k) rows) \<le> MAX_DISBURSEMENT_ACCOUNTS_PER_KIND) \<and>
     (\<forall>a\<in>set rows. holder_matched F a)"

definition one_default_each :: "account_row list \<Rightarrow> bool" where
  "one_default_each rows \<longleftrightarrow>
     (\<forall>a\<in>set rows. \<exists>!d. d \<in> set rows \<and> of_kind (acct_user_id a) (acct_kind a) d \<and> acct_is_default d)"

definition accounts_ok :: "(rat \<Rightarrow> rat) \<Rightarrow> world \<Rightarrow> bool" where
  "accounts_ok F w \<longleftrightarrow> accounts_sound F (next_id (w_db w)) (accounts (w_db w)) \<and> one_default_each (accounts (w_db w))"

text \<open>The columns that no later operation touches.\<close>

definition fixed_columns :: "account_row \<Rightarrow> id \<times> id \<times> DisbursementAccountKind \<times> string \<times> string \<times> string option \<times> rat option" where
  "fixed_columns a = (acct_id a, acct_user_id a, acct_kind a, acct_provider_code a, acct_account_unique a,
     acct_holder_name a, acct_name_match_score a)"

lemma sound_map:
  assumes "accounts_sound F n rows" and g: "\<And>a. fixed_columns (g a) = fixed_columns a"
  shows "accounts_sound F n (map g rows)"
proof -
  have [simp]: "acct_id (g a) = acct_id a" "of_kind u k (g a) = of_kind u k a" "holder_matched F (g a) = holder_matched F a"
    "same_destination (g a) (g b) = same_destination a b" for a b u k
    using g[of a] g[of b] by (auto simp: fixed_columns_def of_kind_def holder_matched_def same_destination_def)
  have "length (filter (of_kind u k) (map g rows)) = length (filter (of_kind u k) rows)" for u k
    by (simp add: filter_map o_def)
  then show ?thesis using assms(1) by (simp add: accounts_sound_def unique_keys_def o_def)
qed

lemma sound_filter:
  assumes "accounts_sound F n rows"
  shows "accounts_sound F n (filter p rows)"
proof -
  have "length (filter q (filter p rows)) \<le> length (filter q rows)" for q
    using length_filter_le[of p "filter q rows"] by (simp add: conj_commute)
  then have "length (filter (of_kind u k) (filter p rows)) \<le> MAX_DISBURSEMENT_ACCOUNTS_PER_KIND" for u k
    using assms unfolding accounts_sound_def by (meson order_trans)
  then show ?thesis
    using assms unfolding accounts_sound_def by (auto simp: unique_keys_def distinct_map inj_on_def)
qed

lemma same_destination_sym: "same_destination a b = same_destination b a"
  by (auto simp: same_destination_def)

lemma sound_add:
  assumes "accounts_sound F n rows" and "acct_id r = n"
    and "\<And>a. a \<in> set rows \<Longrightarrow> \<not> same_destination r a"
    and "length (filter (of_kind (acct_user_id r) (acct_kind r)) rows) < MAX_DISBURSEMENT_ACCOUNTS_PER_KIND"
    and "holder_matched F r"
  shows "accounts_sound F (Suc n) (rows @ [r])"
proof -
  have "length (filter (of_kind u k) (rows @ [r])) \<le> MAX_DISBURSEMENT_ACCOUNTS_PER_KIND" for u k
    using assms(1,4) by (cases "of_kind u k r") (auto simp: accounts_sound_def of_kind_def Suc_le_eq)
  moreover have other: "\<not> same_destination a r" if "a \<in> set rows" for a
    using assms(3)[OF that] same_destination_sym[of a r] by simp
  moreover have "\<forall>a\<in>set (rows @ [r]). \<forall>b\<in>set (rows @ [r]). acct_id a \<noteq> acct_id b \<longrightarrow> \<not> same_destination a b"
    using assms(1,3) other by (auto simp: accounts_sound_def)
  moreover have "unique_keys acct_id (rows @ [r])"
    using assms(1,2) by (auto simp: accounts_sound_def unique_keys_append_one)
  moreover have "\<forall>a\<in>set (rows @ [r]). acct_id a < Suc n" using assms(1,2) by (auto simp: accounts_sound_def)
  ultimately show ?thesis using assms(1,5) unfolding accounts_sound_def by auto
qed

lemma sound_not_violated:
  assumes "accounts_sound F n rows" "one_default_each rows" "a \<in> set rows"
  shows "violated account_table a rows = None"
proof -
  have "\<not> (of_kind (acct_user_id a) (acct_kind a) b \<and> acct_is_default a \<and> acct_is_default b)"
    if "b \<in> set rows" "acct_id b \<noteq> acct_id a" for b
    using assms(2,3) that by (fastforce simp: one_default_each_def of_kind_def)
  then show ?thesis
    using assms(1,3) by (fastforce simp: violated_def find_None_iff table_defs accounts_sound_def same_destination_def of_kind_def)
qed

section \<open>Adding\<close>

lemma matched_holder_reads:
  "wp (matched_holder V u dto) (\<lambda>(name, score) w'. w' = w \<and> DISBURSEMENT_NAME_MATCH_THRESHOLD (e_float V) \<le> score)
     (\<lambda>_ w'. w' = w) w"
  by (auto simp: matched_holder_def canonical_name_def forRoute_def wp_simps Let_def split: option.split sum.split)

lemma ex1_insert: "\<exists>!d. d \<in> A \<and> P d \<Longrightarrow> \<not> P r \<Longrightarrow> \<exists>!d. d \<in> insert r A \<and> P d"
  by blast

lemma addAccount_ok:
  assumes ok: "accounts_ok (e_float V) w"
  shows "wp (addAccount V u dto) (\<lambda>_. accounts_ok (e_float V)) (\<lambda>_. accounts_ok (e_float V)) w"
proof -
  let ?k = "ad_kind dto" let ?rows = "accounts (w_db w)"
  have add: "accounts_ok (e_float V) w'"
    if few: "length (filter (of_kind u ?k) ?rows) < MAX_DISBURSEMENT_ACCOUNTS_PER_KIND"
    and new: "List.find (\<lambda>a. of_kind u ?k a \<and> acct_provider_code a = ad_provider_code dto \<and>
       acct_account_unique a = ad_account_unique dto) ?rows = None"
    and r: "r = new_account u dto holder (filter (of_kind u ?k) ?rows = []) (w_clock w) (next_id (w_db w))"
    and m: "holder_matched (e_float V) r"
    and w': "accounts (w_db w') = ?rows @ [r]" "next_id (w_db w') = Suc (next_id (w_db w))"
    for holder r w'
  proof -
    have dest: "\<not> same_destination r a" if "a \<in> set ?rows" for a
      using new that by (auto simp: find_None_iff same_destination_def r new_account_def of_kind_def)
    have "accounts_sound (e_float V) (next_id (w_db w')) (accounts (w_db w'))"
      unfolding w' using ok few dest m
      by (intro sound_add) (auto simp: accounts_ok_def r new_account_def)
    moreover have "one_default_each (?rows @ [r])"
      unfolding one_default_each_def
    proof
      fix a assume a: "a \<in> set (?rows @ [r])"
      show "\<exists>!d. d \<in> set (?rows @ [r]) \<and> of_kind (acct_user_id a) (acct_kind a) d \<and> acct_is_default d"
      proof (cases "filter (of_kind u ?k) ?rows = [] \<and> of_kind u ?k a")
        case True
        then have "of_kind u ?k r" "acct_is_default r" "\<And>d. d \<in> set ?rows \<Longrightarrow> \<not> of_kind u ?k d"
          by (simp_all add: r new_account_def of_kind_def filter_empty_conv)
        then show ?thesis using True by (intro ex1I[of _ r]) (auto simp: of_kind_def)
      next
        case False
        then obtain b where b: "b \<in> set ?rows" "acct_user_id b = acct_user_id a" "acct_kind b = acct_kind a"
          using a by (auto simp: r new_account_def of_kind_def filter_empty_conv)
        have "\<not> (of_kind (acct_user_id a) (acct_kind a) r \<and> acct_is_default r)"
          using False by (auto simp: r new_account_def of_kind_def)
        moreover have "\<exists>!d. d \<in> set ?rows \<and> of_kind (acct_user_id a) (acct_kind a) d \<and> acct_is_default d"
          using ok b unfolding accounts_ok_def one_default_each_def by metis
        ultimately show ?thesis
          using ex1_insert[of "set ?rows" "\<lambda>d. of_kind (acct_user_id a) (acct_kind a) d \<and> acct_is_default d" r]
          by simp
      qed
    qed
    ultimately show ?thesis by (simp add: accounts_ok_def w')
  qed
  show ?thesis
  proof (cases "?k \<in> set NAME_MATCHED_KINDS")
    case True
    show ?thesis
      unfolding addAccount_def
      apply (simp add: wp_simps True table_rows table_puts ok)
      apply (intro impI wp_mono[OF matched_holder_reads])
       apply (clarsimp simp: wp_simps table_rows table_puts ok split: option.split)
      subgoal for name score
        by (rule add[where holder = "Some (name, score)"]) (auto simp: holder_matched_def new_account_def)
      by (simp add: ok)
  next
    case False
    show ?thesis
      unfolding addAccount_def
      apply (simp add: wp_simps False table_rows table_puts)
      apply (clarsimp simp: ok split: option.split)
      apply (rule add)
      apply (auto simp: False holder_matched_def new_account_def)
      done
  qed
qed

section \<open>Changing the default and deleting\<close>

lemma own_account_reads:
  "wp (own_account u i) (\<lambda>a w'. w' = w \<and> a \<in> set (accounts (w_db w)) \<and> acct_id a = i \<and> acct_user_id a = u)
     (\<lambda>_ w'. w' = w) w"
  by (auto simp: own_account_def wp_simps table_rows dest: find_SomeD split: option.split)

text \<open>After the update of the transaction the chosen account is the default of its kind, and the
  other kinds and customers keep theirs.\<close>

definition redefault :: "id \<Rightarrow> DisbursementAccountKind \<Rightarrow> id \<Rightarrow> account_row \<Rightarrow> account_row" where
  "redefault u k i a = a\<lparr>acct_is_default := (if acct_id a = i then True else if of_kind u k a then False else acct_is_default a)\<rparr>"

lemma redefault_rows:
  assumes "\<forall>b\<in>set rows. acct_id b = i \<longrightarrow> of_kind u k b"
  shows "update_row acct_id i (\<lambda>a. a\<lparr>acct_is_default := True\<rparr>)
      (update_where (\<lambda>a. of_kind u k a \<and> acct_is_default a) (\<lambda>a. a\<lparr>acct_is_default := False\<rparr>) rows) =
    map (redefault u k i) rows"
  using assms
proof (induction rows)
  case (Cons b rows)
  then show ?case by (cases b) (auto simp: update_where_def redefault_def)
qed (simp add: update_where_def)

lemma redefault_columns: "fixed_columns (redefault u k i a) = fixed_columns a"
  by (simp add: fixed_columns_def redefault_def)

lemma one_default_redefault:
  assumes ok: "\<And>b. b \<in> set rows \<Longrightarrow> \<not> of_kind u k b \<Longrightarrow>
      \<exists>!d. d \<in> set rows \<and> of_kind (acct_user_id b) (acct_kind b) d \<and> acct_is_default d"
    and u: "unique_keys acct_id rows" and a: "a \<in> set rows" "acct_id a = i" "of_kind u k a"
  shows "one_default_each (map (redefault u k i) rows)"
  unfolding one_default_each_def
proof
  fix b assume "b \<in> set (map (redefault u k i) rows)"
  then obtain c where c: "c \<in> set rows" "b = redefault u k i c" by auto
  have only: "d = a" if "d \<in> set rows" "acct_id d = i" for d
    using u that a(1,2) by (auto simp: unique_keys_def distinct_map inj_on_def)
  show "\<exists>!d. d \<in> set (map (redefault u k i) rows) \<and> of_kind (acct_user_id b) (acct_kind b) d \<and> acct_is_default d"
  proof (cases "of_kind u k c")
    case True
    show ?thesis
    proof (rule ex1I[of _ "redefault u k i a"])
      show "redefault u k i a \<in> set (map (redefault u k i) rows) \<and>
          of_kind (acct_user_id b) (acct_kind b) (redefault u k i a) \<and> acct_is_default (redefault u k i a)"
        using a c True by (auto simp: redefault_def of_kind_def)
    next
      fix d assume "d \<in> set (map (redefault u k i) rows) \<and> of_kind (acct_user_id b) (acct_kind b) d \<and> acct_is_default d"
      then obtain e where "e \<in> set rows" "d = redefault u k i e" "acct_id e = i"
        using True c by (auto simp: redefault_def of_kind_def split: if_splits)
      then show "d = redefault u k i a" using only by simp
    qed
  next
    case False
    have same: "redefault u k i e = e" if "e \<in> set rows" "\<not> of_kind u k e" for e
      using only[OF that(1)] that a(3) by (cases e) (auto simp: redefault_def)
    obtain d where d: "d \<in> set rows" "of_kind (acct_user_id c) (acct_kind c) d" "acct_is_default d"
      and uniq: "\<And>e. e \<in> set rows \<Longrightarrow> of_kind (acct_user_id c) (acct_kind c) e \<Longrightarrow> acct_is_default e \<Longrightarrow> e = d"
      using ok[OF c(1) False] by blast
    have b: "b = c" using same[OF c(1) False] c(2) by simp
    have nd: "\<not> of_kind u k d" using False d(2) by (auto simp: of_kind_def)
    show ?thesis
    proof (rule ex1I[of _ d])
      show "d \<in> set (map (redefault u k i) rows) \<and> of_kind (acct_user_id b) (acct_kind b) d \<and> acct_is_default d"
        using d b same[OF d(1) nd] by force
    next
      fix e assume e: "e \<in> set (map (redefault u k i) rows) \<and> of_kind (acct_user_id b) (acct_kind b) e \<and> acct_is_default e"
      then obtain f where f: "f \<in> set rows" "e = redefault u k i f" by auto
      have "of_kind (acct_user_id c) (acct_kind c) f" using e f b by (auto simp: redefault_def of_kind_def)
      moreover from this have "\<not> of_kind u k f" using False by (auto simp: of_kind_def)
      then have "e = f" using same[OF f(1)] f(2) by simp
      ultimately show "e = d" using uniq[OF f(1)] e by simp
    qed
  qed
qed

lemma setDefault_ok:
  assumes ok: "accounts_ok F w"
  shows "wp (setDefault u i) (\<lambda>_. accounts_ok F) (\<lambda>_. accounts_ok F) w"
proof -
  let ?rows = "accounts (w_db w)"
  have set: "accounts_ok F w'"
    if a: "a \<in> set ?rows"
    and w': "accounts (w_db w') = update_row acct_id (acct_id a) (\<lambda>a. a\<lparr>acct_is_default := True\<rparr>)
        (update_where (\<lambda>b. of_kind (acct_user_id a) (acct_kind a) b \<and> acct_is_default b) (\<lambda>a. a\<lparr>acct_is_default := False\<rparr>) ?rows)"
    "next_id (w_db w') = next_id (w_db w)" for a w'
  proof -
    have s: "accounts_sound F (next_id (w_db w)) ?rows" and d: "one_default_each ?rows"
      using ok by (auto simp: accounts_ok_def)
    have u: "unique_keys acct_id ?rows" using s by (simp add: accounts_sound_def)
    have k: "of_kind (acct_user_id a) (acct_kind a) a" by (simp add: of_kind_def)
    have "\<forall>b\<in>set ?rows. acct_id b = acct_id a \<longrightarrow> of_kind (acct_user_id a) (acct_kind a) b"
      using u a by (fastforce simp: unique_keys_def distinct_map inj_on_def of_kind_def)
    note rows = redefault_rows[OF this]
    show ?thesis
      using sound_map[OF s redefault_columns] one_default_redefault[OF _ u a refl k] d w'(2)
      by (simp add: accounts_ok_def w'(1) rows one_default_each_def)
  qed
  show ?thesis
    unfolding setDefault_def
    apply (rule wp_seq[OF own_account_reads])
     apply (clarsimp simp: wp_simps table_rows table_puts ok split: option.split)
     apply (erule set)
      apply (simp_all add: ok)
    done
qed

lemma one_default_delete_other:
  assumes ok: "one_default_each rows" and u: "unique_keys acct_id rows" and a: "a \<in> set rows" "acct_id a = i"
    and b: "b \<in> set rows" "acct_id b \<noteq> i"
    and other: "acct_is_default a \<longrightarrow> \<not> of_kind (acct_user_id a) (acct_kind a) b"
  shows "\<exists>!d. d \<in> set (filter (\<lambda>c. acct_id c \<noteq> i) rows) \<and> of_kind (acct_user_id b) (acct_kind b) d \<and> acct_is_default d"
proof -
  obtain d where d: "d \<in> set rows" "of_kind (acct_user_id b) (acct_kind b) d" "acct_is_default d"
    and uniq: "\<And>e. e \<in> set rows \<Longrightarrow> of_kind (acct_user_id b) (acct_kind b) e \<Longrightarrow> acct_is_default e \<Longrightarrow> e = d"
    using ok b(1) unfolding one_default_each_def by blast
  have "acct_id d \<noteq> i"
  proof
    assume "acct_id d = i"
    then have "d = a" using u d(1) a by (auto simp: unique_keys_def distinct_map inj_on_def)
    with d other show False by (auto simp: of_kind_def)
  qed
  then have "d \<in> set (filter (\<lambda>c. acct_id c \<noteq> i) rows)" using d(1) by simp
  moreover have "e = d" if "e \<in> set (filter (\<lambda>c. acct_id c \<noteq> i) rows) \<and> of_kind (acct_user_id b) (acct_kind b) e \<and> acct_is_default e" for e
    using uniq[of e] that by simp
  ultimately show ?thesis using d(2,3) by blast
qed

lemma promote_rows:
  assumes "\<And>c. c \<in> set rows \<Longrightarrow> of_kind u k c \<Longrightarrow> \<not> acct_is_default c"
  shows "update_row acct_id j (\<lambda>a. a\<lparr>acct_is_default := True\<rparr>) rows = map (redefault u k j) rows"
  using assms
proof (induction rows)
  case (Cons b rows)
  then have "update_row acct_id j (\<lambda>a. a\<lparr>acct_is_default := True\<rparr>) rows = map (redefault u k j) rows" by simp
  moreover have "of_kind u k b \<longrightarrow> \<not> acct_is_default b" using Cons.prems by simp
  ultimately show ?case by (simp add: redefault_def)
qed simp

lemma deleteAccount_ok:
  assumes ok: "accounts_ok F w"
  shows "wp (deleteAccount u i) (\<lambda>_. accounts_ok F) (\<lambda>_. accounts_ok F) w"
proof -
  let ?rows = "accounts (w_db w)" let ?left = "\<lambda>a. filter (\<lambda>b. acct_id b \<noteq> acct_id a) ?rows"
  have s: "accounts_sound F (next_id (w_db w)) ?rows" and d: "one_default_each ?rows"
    using ok by (auto simp: accounts_ok_def)
  have u: "unique_keys acct_id ?rows" using s by (simp add: accounts_sound_def)
  have u': "unique_keys acct_id (?left a)" for a using sound_filter[OF s] by (simp add: accounts_sound_def)
  have plain: "accounts_ok F w'"
    if a: "a \<in> set ?rows"
    and last: "acct_is_default a \<longrightarrow> filter (of_kind (acct_user_id a) (acct_kind a)) (?left a) = []"
    and w': "accounts (w_db w') = (?left a)" "next_id (w_db w') = next_id (w_db w)" for a w'
  proof -
    have "one_default_each (?left a)"
      unfolding one_default_each_def
    proof
      fix b assume b: "b \<in> set (?left a)"
      then have "acct_is_default a \<longrightarrow> \<not> of_kind (acct_user_id a) (acct_kind a) b"
        using last by (auto simp: filter_empty_conv)
      then show "\<exists>!d. d \<in> set (?left a) \<and> of_kind (acct_user_id b) (acct_kind b) d \<and> acct_is_default d"
        using one_default_delete_other[OF d u a refl, of b] b by simp
    qed
    then show ?thesis using sound_filter[OF s] by (simp add: accounts_ok_def w')
  qed
  have promoted: "accounts_ok F w'"
    if a: "a \<in> set ?rows" "acct_is_default a"
    and n: "n \<in> set (?left a)" "of_kind (acct_user_id a) (acct_kind a) n"
    and w': "accounts (w_db w') = update_row acct_id (acct_id n) (\<lambda>a. a\<lparr>acct_is_default := True\<rparr>) (?left a)"
      "next_id (w_db w') = next_id (w_db w)" for a n w'
  proof -
    have nd: "\<not> acct_is_default c" if "c \<in> set (?left a)" "of_kind (acct_user_id a) (acct_kind a) c" for c
    proof
      assume "acct_is_default c"
      moreover have "of_kind (acct_user_id a) (acct_kind a) a" by (simp add: of_kind_def)
      ultimately have "c = a" using d a that unfolding one_default_each_def by auto
      with that(1) show False by simp
    qed
    have rows: "update_row acct_id (acct_id n) (\<lambda>a. a\<lparr>acct_is_default := True\<rparr>) (?left a) =
        map (redefault (acct_user_id a) (acct_kind a) (acct_id n)) (?left a)"
      by (rule promote_rows) (rule nd)
    have "one_default_each (map (redefault (acct_user_id a) (acct_kind a) (acct_id n)) (?left a))"
      using one_default_delete_other[OF d u a(1) refl]
      by (intro one_default_redefault[OF _ u' n(1) refl n(2)]) auto
    moreover have "accounts_sound F (next_id (w_db w)) (map (redefault (acct_user_id a) (acct_kind a) (acct_id n)) (?left a))"
      by (rule sound_map[OF sound_filter[OF s] redefault_columns])
    ultimately show ?thesis unfolding accounts_ok_def w' rows by blast
  qed
  show ?thesis
    unfolding deleteAccount_def
    apply (rule wp_seq[OF own_account_reads])
     apply (clarsimp simp: wp_simps wp_delete_account table_rows table_puts ok split: option.split)
     apply (intro conjI impI allI; (rule ok)?; clarsimp?; (drule latest_by_SomeD)?;
        (erule plain, simp_all add: filter_empty_conv; fail | erule promoted, simp_all; fail)?)
    apply (simp add: ok)
    done
qed

section \<open>Every sequence of requests\<close>

datatype account_op = AddAccount id account_dto | SetDefault id id | DeleteAccount id id

fun account_step :: "env \<Rightarrow> account_op \<Rightarrow> world \<Rightarrow> world" where
  "account_step V (AddAccount u dto) = final (addAccount V u dto)"
| "account_step V (SetDefault u i) = final (setDefault u i)"
| "account_step V (DeleteAccount u i) = final (deleteAccount u i)"

lemma account_step_ok: "accounts_ok (e_float V) w \<Longrightarrow> accounts_ok (e_float V) (account_step V op w)"
  using addAccount_ok setDefault_ok deleteAccount_ok by (cases op) (auto simp: wp_final)

text \<open>C16. Whatever customers add, choose and delete: no two accounts of a customer name the same
  destination, each kind of account a customer has contains exactly one default and at most
  five accounts, and every bank or wallet account carries the holder's name that the provider
  reported, which matched the customer's verified name.\<close>

theorem accounts_stay_ok:
  assumes "accounts_ok (e_float V) w"
  shows "accounts_ok (e_float V) (fold (account_step V) ops w)"
  using assms by (induction ops arbitrary: w) (simp_all add: account_step_ok)

definition verified_user :: user_row where
  "verified_user = (new_user ''a@b'' 0 1)\<lparr>u_kyc_tier := 1, u_first_name := Some ''Ada'', u_last_name := Some ''Obi''\<rparr>"

definition bank_dto :: "string \<Rightarrow> account_dto" where
  "bank_dto n = \<lparr>ad_kind = DisbursementAccountKind.BANK, ad_provider_name = ''Bank'', ad_provider_code = ''058'',
     ad_account_unique = n, ad_account_unique_tag = None, ad_label = None\<rparr>"

definition account_ops :: "account_op list" where
  "account_ops = [AddAccount 1 (bank_dto ''11''), AddAccount 1 (bank_dto ''22''), SetDefault 1 3, DeleteAccount 1 3]"

lemma sample_name: "name_compare (e_float toy_env) ''Ada Obi'' ''OBI ADA'' = 1"
proof -
  have "tokenize ''Ada Obi'' = [''ada'', ''obi'']" "tokenize ''OBI ADA'' = [''obi'', ''ada'']" by code_simp+
  then show ?thesis
    using compare_subset[OF double.js_number_axioms, of "''Ada Obi''" "''OBI ADA''"] by (simp add: toy_env_def)
qed

lemma threshold_at_most_one: "DISBURSEMENT_NAME_MATCH_THRESHOLD (e_float toy_env) \<le> 1"
  using double.F_le_1[of "85 / 100"] by (simp add: DISBURSEMENT_NAME_MATCH_THRESHOLD_def toy_env_def)

lemma toy_lookup: "e_lookup_account_name toy_env v p b a = Inr (Some ''OBI ADA'')"
  by (simp add: toy_env_def)

lemma sample_holder:
  "users (w_db w) = [verified_user] \<Longrightarrow>
   matched_holder toy_env 1 (bank_dto n) w = (Inr (''OBI ADA'', 1), w)"
proof -
  assume u: "users (w_db w) = [verified_user]"
  have "user_name verified_user = ''Ada Obi''" by code_simp
  then show ?thesis
    using threshold_at_most_one
    by (simp add: run_eq_wp matched_holder_def canonical_name_def forRoute_def wp_simps table_rows u verified_user_def new_user_def
        bank_dto_def KIND_TO_RAIL_def DISBURSEMENT_ROUTES_def Let_def present_def sample_name toy_lookup)
qed

definition sample_row :: "string \<Rightarrow> bool \<Rightarrow> id \<Rightarrow> account_row" where
  "sample_row n d i = new_account 1 (bank_dto n) (Some (''OBI ADA'', 1)) d 0 i"

lemma bank_dto_fields [simp]:
  "ad_kind (bank_dto n) = DisbursementAccountKind.BANK" "ad_provider_code (bank_dto n) = ''058''"
  "ad_account_unique (bank_dto n) = n"
  by (simp_all add: bank_dto_def)

lemma sample_row_fields [simp]:
  "acct_id (sample_row n d i) = i" "acct_user_id (sample_row n d i) = 1" "acct_kind (sample_row n d i) = DisbursementAccountKind.BANK"
  "acct_provider_code (sample_row n d i) = ''058''" "acct_account_unique (sample_row n d i) = n"
  "acct_is_default (sample_row n d i) = d" "acct_holder_name (sample_row n d i) = Some ''OBI ADA''"
  "(sample_row n d i)\<lparr>acct_is_default := e\<rparr> = sample_row n e i"
  by (simp_all add: sample_row_def new_account_def)

lemma wp_sample_holder:
  "users (w_db w) = [verified_user] \<Longrightarrow> wp (matched_holder toy_env 1 (bank_dto n)) Q E w = Q (''OBI ADA'', 1) w"
  by (simp only: wp_def sample_holder) simp

definition with_accounts :: "account_row list \<Rightarrow> id \<Rightarrow> world" where
  "with_accounts rows n = empty_world\<lparr>w_db := empty_db\<lparr>users := [verified_user], accounts := rows, next_id := n\<rparr>\<rparr>"

lemma with_accounts_fields [simp]:
  "users (w_db (with_accounts rows n)) = [verified_user]" "accounts (w_db (with_accounts rows n)) = rows"
  "next_id (w_db (with_accounts rows n)) = n" "loans (w_db (with_accounts rows n)) = []"
  "w_clock (with_accounts rows n) = 0"
  "with_accounts rows n\<lparr>w_db := (w_db (with_accounts rows n))\<lparr>next_id := m, accounts := rows'\<rparr>\<rparr> = with_accounts rows' m"
  "with_accounts rows n\<lparr>w_db := (w_db (with_accounts rows n))\<lparr>accounts := rows'\<rparr>\<rparr> = with_accounts rows' n"
  by (simp_all add: with_accounts_def empty_world_def empty_db_def)

lemma account_index: "t_unique account_table = [(''destination_unique'', same_destination), (''one_default_per_kind'', \<lambda>a b. acct_user_id a = acct_user_id b \<and>
     acct_kind a = acct_kind b \<and> acct_is_default a \<and> acct_is_default b)]"
  by (simp add: table_defs same_destination_def fun_eq_iff)

lemma final_iff: "final m s = t \<longleftrightarrow> wp m (\<lambda>_ u. u = t) (\<lambda>_ u. u = t) s"
  by (simp add: wp_final)

lemma sample_user: "u_id verified_user = 1" "u_kyc_tier verified_user = 1"
  by (simp_all add: verified_user_def new_user_def)

lemma sample_run:
  "final (addAccount toy_env 1 (bank_dto ''11'')) (with_accounts [] 2) = with_accounts [sample_row ''11'' True 2] 3"
  "final (addAccount toy_env 1 (bank_dto ''22'')) (with_accounts [sample_row ''11'' True 2] 3) =
     with_accounts [sample_row ''11'' True 2, sample_row ''22'' False 3] 4"
  "final (setDefault 1 3) (with_accounts [sample_row ''11'' True 2, sample_row ''22'' False 3] 4) =
     with_accounts [sample_row ''11'' False 2, sample_row ''22'' True 3] 4"
  "final (deleteAccount 1 3) (with_accounts [sample_row ''11'' False 2, sample_row ''22'' True 3] 4) =
     with_accounts [sample_row ''11'' True 2] 4"
  by (simp_all del: One_nat_def add: final_iff addAccount_def setDefault_def deleteAccount_def own_account_def
      wp_sample_holder wp_simps table_rows table_puts violated_def MAX_DISBURSEMENT_ACCOUNTS_PER_KIND_def
      NAME_MATCHED_KINDS_def of_kind_def update_where_def sample_user account_index same_destination_def flip: sample_row_def)

theorem accounts_stay_ok_witness:
  "accounts_ok (e_float toy_env) (fold (account_step toy_env) account_ops (with_accounts [] 2)) \<and>
   fold (account_step toy_env) account_ops (with_accounts [] 2) = with_accounts [sample_row ''11'' True 2] 4"
proof
  have "accounts_ok (e_float toy_env) (with_accounts [] 2)"
    by (simp add: accounts_ok_def accounts_sound_def one_default_each_def unique_keys_def)
  then show "accounts_ok (e_float toy_env) (fold (account_step toy_env) account_ops (with_accounts [] 2))"
    by (rule accounts_stay_ok)
  show "fold (account_step toy_env) account_ops (with_accounts [] 2) = with_accounts [sample_row ''11'' True 2] 4"
    by (simp only: account_ops_def fold.simps account_step.simps sample_run o_apply id_apply)
qed

end
