(* ===== verification/OpsKyc.thy ===== *)
theory OpsKyc
  imports Kyc Payouts
begin

text \<open>
  \<open>modules/ops/kyc/ops-kyc.controller.ts\<close>: what an operator does to a customer's
  verification. Each change is written in one transaction with its audit row. The request id,
  the address of the operator and the details of the audit row are left out.
\<close>

definition ops_provisionVa :: "env \<Rightarrow> id \<Rightarrow> id \<Rightarrow> va_summary service" where
  "ops_provisionVa V ops_user_id user_id =
     bind (ensureForUser V user_id (audit_write ops_user_id ''kyc.provision_va'' ''user'' (show_nat user_id))) (\<lambda>found.
     bind (the_or_throw (KycE KycNotFoundException) found) (\<lambda>(summary, _). return summary))"

definition ops_reset :: "id \<Rightarrow> id \<Rightarrow> unit service" where
  "ops_reset ops_user_id user_id =
     revokeToTier user_id 0 (audit_write ops_user_id ''kyc.reset'' ''user'' (show_nat user_id))"

definition ops_revoke :: "id \<Rightarrow> id \<Rightarrow> nat \<Rightarrow> unit service" where
  "ops_revoke ops_user_id user_id target_tier =
     revokeToTier user_id target_tier (audit_write ops_user_id ''kyc.revoke'' ''user'' (show_nat user_id))"

definition ops_listVerifications :: "id \<Rightarrow> kyc_row list service" where
  "ops_listVerifications user_id = listVerifications user_id"

text \<open>No change of an operator without its audit row, and none left behind by a change that
  failed: a reset or a revocation that went through wrote exactly one row that names the
  operator, the action and the customer, and one that failed left the whole database as it
  was.\<close>

theorem kyc_changes_are_audited:
  "case ops_revoke operator user_id tier w of
     (Inr _, w') \<Rightarrow> \<exists>a. audits (w_db w') = audits (w_db w) @ [a] \<and> au_ops_user_id a = operator \<and>
        au_action a = ''kyc.revoke'' \<and> au_target_id a = show_nat user_id \<and>
        map_option u_kyc_tier (find_row u_id user_id (users (w_db w'))) = Some tier \<and>
        list_all (\<lambda>k. k_tier k \<le> tier) (filter (\<lambda>k. k_user_id k = user_id) (kyc_verifications (w_db w')))
   | (Inl _, w') \<Rightarrow> w_db w' = w_db w"
proof -
  have "wp (ops_revoke operator user_id tier)
      (\<lambda>_ w'. \<exists>a. audits (w_db w') = audits (w_db w) @ [a] \<and> au_ops_user_id a = operator \<and>
        au_action a = ''kyc.revoke'' \<and> au_target_id a = show_nat user_id \<and>
        map_option u_kyc_tier (find_row u_id user_id (users (w_db w'))) = Some tier \<and>
        list_all (\<lambda>k. k_tier k \<le> tier) (filter (\<lambda>k. k_user_id k = user_id) (kyc_verifications (w_db w'))))
      (\<lambda>_ w'. w_db w' = w_db w) w"
    by (auto simp: ops_revoke_def revokeToTier_def audit_write_def wp_simps table_rows table_puts find_row_update_row
        list_all_iff audit_table_def split: option.split)
  then show ?thesis by (auto simp: wp_def split: prod.splits sum.splits)
qed

end
