(* ===== verification/OpsAuth.thy ===== *)
theory OpsAuth
  imports Guards
begin

text \<open>
  \<open>modules/ops/auth\<close> and \<open>common/guards/ops-session.guard.ts\<close>: how an operator signs in. The
  password opens a challenge or, before the second factor is set up, an enrolment; a TOTP code
  turns either into a session of eight hours, which the guard of every console route asks for.
  Operators and their sessions live in tables of their own. Hashing, token generation,
  encryption and TOTP verification are parameters; the QR code and the otpauth link are left out.
\<close>

section \<open>Sessions\<close>

record ops_client =
  oc_ip_address :: "string option"
  oc_user_agent :: "string option"

definition ops_session_create :: "auth_env \<Rightarrow> id \<Rightarrow> ops_client \<Rightarrow> string service" where
  "ops_session_create A ops_user_id client =
     bind (gets (ae_random_token A)) (\<lambda>token. bind now (\<lambda>t.
     bind (create_row ops_session_table (\<lambda>i. \<lparr>os_id = i, os_ops_user_id = ops_user_id,
        os_token_hash = ae_sha256 A token, os_expires_at = t + OPS_SESSION_TTL_SEC * 1000,
        os_ip_address = oc_ip_address client, os_user_agent = oc_user_agent client, os_created_at = t\<rparr>)) (\<lambda>_.
     return token)))"

definition ops_session_destroy :: "string \<Rightarrow> unit service" where
  "ops_session_destroy token_hash =
     bind (delete_many ops_session_table (\<lambda>s. os_token_hash s = token_hash)) (\<lambda>_. return ())"

definition ops_session_destroyAll :: "id \<Rightarrow> unit service" where
  "ops_session_destroyAll ops_user_id =
     bind (delete_many ops_session_table (\<lambda>s. os_ops_user_id s = ops_user_id)) (\<lambda>_. return ())"

section \<open>Signing in\<close>

text \<open>Redis keeps the operator's id as the value of a challenge or of an enrolment.\<close>

definition stored_id :: "rval option \<Rightarrow> id option" where
  "stored_id v = (case v of Some (VInt i) \<Rightarrow> Some (nat i) | _ \<Rightarrow> None)"

definition ops_login :: "auth_env \<Rightarrow> string \<Rightarrow> string \<Rightarrow> unit service" where
  "ops_login A raw_email password =
     bind (find_first ops_user_table (\<lambda>u. ou_email u = to_lower raw_email)) (\<lambda>found.
     bind (the_or_throw (OpsE OpsInvalidCredentialsException) found) (\<lambda>ops_user.
     bind (require (ae_argon2_verify A (ou_password_hash ops_user) password) (OpsE OpsInvalidCredentialsException)) (\<lambda>_.
     bind (require (ou_is_active ops_user) (OpsE OpsUserDisabledException)) (\<lambda>_.
     bind (gets (ae_random_token A)) (\<lambda>token.
     if \<not> ou_totp_enabled ops_user
     then bind (redis_setex (OPS_ENROLMENT token) (VInt (int (ou_id ops_user))) OPS_ENROLMENT_TTL_SEC) (\<lambda>_.
          throw (OpsE (OpsTwoFactorEnrolmentRequiredException token)))
     else bind (redis_setex (OPS_CHALLENGE token) (VInt (int (ou_id ops_user))) OPS_CHALLENGE_TTL_SEC) (\<lambda>_.
          throw (OpsE (OpsTwoFactorRequiredException token))))))))"

definition code_valid :: "auth_env \<Rightarrow> string \<Rightarrow> string \<Rightarrow> unit service" where
  "code_valid A encrypted_secret totp_code =
     bind now (\<lambda>t.
     require (ae_totp_verify A (ae_decrypt A encrypted_secret) totp_code t) (OpsE OpsTwoFactorInvalidException))"

definition ops_verifyTwoFactor :: "auth_env \<Rightarrow> string \<Rightarrow> string \<Rightarrow> ops_client \<Rightarrow> string service" where
  "ops_verifyTwoFactor A challenge_id totp_code client =
     bind (redis_get (OPS_CHALLENGE challenge_id)) (\<lambda>stored.
     bind (the_or_throw (OpsE OpsTwoFactorInvalidException) (stored_id stored)) (\<lambda>ops_user_id.
     bind (find_by_id ops_user_table ops_user_id) (\<lambda>found.
     bind (the_or_throw (OpsE OpsTwoFactorInvalidException) found) (\<lambda>ops_user.
     bind (require (ou_totp_enabled ops_user) (OpsE OpsTwoFactorInvalidException)) (\<lambda>_.
     bind (the_or_throw (OpsE OpsTwoFactorInvalidException) (present (ou_totp_secret ops_user))) (\<lambda>secret.
     bind (require (ou_is_active ops_user) (OpsE OpsUserDisabledException)) (\<lambda>_.
     bind (code_valid A secret totp_code) (\<lambda>_.
     bind (redis_del (OPS_CHALLENGE challenge_id)) (\<lambda>_.
     bind (ops_session_create A (ou_id ops_user) client) (\<lambda>token.
     bind now (\<lambda>t.
     bind (update_by_id ops_user_table (ou_id ops_user) (\<lambda>u. u\<lparr>ou_last_login_at := Some t\<rparr>)) (\<lambda>_.
     return token))))))))))))"

section \<open>Enrolment\<close>

definition resolveEnrolment :: "string \<Rightarrow> ops_user_row service" where
  "resolveEnrolment enrolment_token =
     bind (redis_get (OPS_ENROLMENT enrolment_token)) (\<lambda>stored.
     bind (the_or_throw (OpsE OpsTwoFactorInvalidException) (stored_id stored)) (\<lambda>ops_user_id.
     bind (find_by_id ops_user_table ops_user_id) (\<lambda>found.
     bind (the_or_throw (OpsE OpsTwoFactorInvalidException) found) (\<lambda>ops_user.
     bind (require (ou_is_active ops_user) (OpsE OpsUserDisabledException)) (\<lambda>_.
     return ops_user)))))"

definition startEnrolment :: "auth_env \<Rightarrow> string \<Rightarrow> string service" where
  "startEnrolment A enrolment_token =
     bind (resolveEnrolment enrolment_token) (\<lambda>ops_user.
     bind (gets (ae_totp_secret A)) (\<lambda>secret.
     bind (update_by_id ops_user_table (ou_id ops_user)
             (\<lambda>u. u\<lparr>ou_totp_secret := Some (ae_encrypt A secret), ou_totp_enabled := False\<rparr>)) (\<lambda>_.
     return secret)))"

definition confirmEnrolment :: "auth_env \<Rightarrow> string \<Rightarrow> string \<Rightarrow> ops_client \<Rightarrow> string service" where
  "confirmEnrolment A enrolment_token totp_code client =
     bind (resolveEnrolment enrolment_token) (\<lambda>ops_user.
     bind (the_or_throw (OpsE OpsTwoFactorInvalidException) (present (ou_totp_secret ops_user))) (\<lambda>secret.
     bind (code_valid A secret totp_code) (\<lambda>_.
     bind (redis_del (OPS_ENROLMENT enrolment_token)) (\<lambda>_.
     bind now (\<lambda>t.
     bind (update_by_id ops_user_table (ou_id ops_user)
             (\<lambda>u. u\<lparr>ou_totp_enabled := True, ou_last_login_at := Some t\<rparr>)) (\<lambda>_.
     ops_session_create A (ou_id ops_user) client))))))"

definition ops_logout :: "auth_env \<Rightarrow> string \<Rightarrow> unit service" where
  "ops_logout A token = ops_session_destroy (ae_sha256 A token)"

section \<open>The guard\<close>

text \<open>A request may carry the customer's cookie beside the operator's; the guard reads only its own.\<close>

record ops_request = request +
  rq_ops_session_cookie :: "string option"

definition ops_extractToken :: "ops_request \<Rightarrow> string option" where
  "ops_extractToken request =
     (case present (rq_ops_session_cookie request) of
        Some c \<Rightarrow> Some c
      | None \<Rightarrow>
          (case rq_authorization request of
             Some h \<Rightarrow> if starts_with ''Bearer '' h then Some (drop 7 h) else None
           | None \<Rightarrow> None))"

lemma customer_cookie_ignored [simp]:
  "ops_extractToken (request\<lparr>rq_session_cookie := other\<rparr>) = ops_extractToken request"
  by (simp add: ops_extractToken_def cong: option.case_cong)

definition ops_canActivate :: "auth_env \<Rightarrow> ops_request \<Rightarrow> ops_user_row service" where
  "ops_canActivate A request =
     bind (the_or_throw (OpsE OpsSessionInvalidException) (present (ops_extractToken request))) (\<lambda>token.
     bind (find_first ops_session_table (\<lambda>s. os_token_hash s = ae_sha256 A token)) (\<lambda>found.
     bind (the_or_throw (OpsE OpsSessionInvalidException) found) (\<lambda>session.
     bind now (\<lambda>t.
     bind (require (\<not> os_expires_at session < t) (OpsE OpsSessionInvalidException)) (\<lambda>_.
     bind (find_by_id ops_user_table (os_ops_user_id session)) (\<lambda>user.
     bind (the_or_throw (OpsE OpsSessionInvalidException) user) (\<lambda>ops_user.
     bind (require (ou_is_active ops_user) (OpsE OpsUserDisabledException)) (\<lambda>_.
     return ops_user))))))))"

section \<open>What a session stands for\<close>

text \<open>What operators and the people who pretend to be operators send, and what each message proves
  about its sender in the state it arrives in.\<close>

datatype ops_op =
    OpsLogin string string
  | OpsVerify string string ops_client
  | OpsStartEnrolment string
  | OpsConfirmEnrolment string string ops_client
  | OpsLogout string

fun ops_run :: "auth_env \<Rightarrow> ops_op \<Rightarrow> world \<Rightarrow> world" where
  "ops_run A (OpsLogin email password) w = final (ops_login A email password) w"
| "ops_run A (OpsVerify challenge code client) w = final (ops_verifyTwoFactor A challenge code client) w"
| "ops_run A (OpsStartEnrolment token) w = final (startEnrolment A token) w"
| "ops_run A (OpsConfirmEnrolment token code client) w = final (confirmEnrolment A token code client) w"
| "ops_run A (OpsLogout token) w = final (ops_logout A token) w"

fun shows_password :: "auth_env \<Rightarrow> id \<Rightarrow> ops_op \<Rightarrow> world \<Rightarrow> bool" where
  "shows_password A i (OpsLogin email password) w \<longleftrightarrow>
     (\<exists>u\<in>set (ops_users (w_db w)). ou_id u = i \<and> ou_email u = to_lower email \<and> ou_is_active u \<and>
        ae_argon2_verify A (ou_password_hash u) password)"
| "shows_password A i _ w \<longleftrightarrow> False"

definition code_matches :: "auth_env \<Rightarrow> id \<Rightarrow> string \<Rightarrow> world \<Rightarrow> bool" where
  "code_matches A i code w \<longleftrightarrow>
     (\<exists>u\<in>set (ops_users (w_db w)). \<exists>secret. ou_id u = i \<and> ou_is_active u \<and> ou_totp_secret u = Some secret \<and>
        ae_totp_verify A (ae_decrypt A secret) code (w_clock w))"

fun shows_code :: "auth_env \<Rightarrow> id \<Rightarrow> ops_op \<Rightarrow> world \<Rightarrow> bool" where
  "shows_code A i (OpsVerify _ code _) w \<longleftrightarrow> code_matches A i code w"
| "shows_code A i (OpsConfirmEnrolment _ code _) w \<longleftrightarrow> code_matches A i code w"
| "shows_code A i _ w \<longleftrightarrow> False"

text \<open>The histories of the system: messages arrive in any order, and in between the rest of the
  system may change everything but the operators' sessions, challenges and enrolments, the
  operators' rows included.\<close>

inductive ops_history :: "auth_env \<Rightarrow> (ops_op \<times> world) list \<Rightarrow> world \<Rightarrow> bool" for A where
  start: "ops_sessions (w_db w) = [] \<Longrightarrow> (\<And>c. w_redis w (OPS_CHALLENGE c) = None \<and> w_redis w (OPS_ENROLMENT c) = None) \<Longrightarrow>
    ops_history A [] w"
| message: "ops_history A h w \<Longrightarrow> ops_history A (h @ [(op, w)]) (ops_run A op w)"
| elsewhere: "ops_history A h w \<Longrightarrow> ops_sessions (w_db w') = ops_sessions (w_db w) \<Longrightarrow>
    (\<And>c. w_redis w' (OPS_CHALLENGE c) = w_redis w (OPS_CHALLENGE c) \<and>
         w_redis w' (OPS_ENROLMENT c) = w_redis w (OPS_ENROLMENT c)) \<Longrightarrow>
    w_clock w \<le> w_clock w' \<Longrightarrow> ops_history A h w'"

text \<open>A challenge or an enrolment was granted to a password, and a session to a code that followed
  a password.\<close>

definition granted :: "auth_env \<Rightarrow> (ops_op \<times> world) list \<Rightarrow> (rval \<times> time option) option \<Rightarrow> bool" where
  "granted A h entry \<longleftrightarrow> (\<forall>v t. entry = Some (v, t) \<longrightarrow>
     (\<exists>i op w1 ttl. v = VInt (int i) \<and> (op, w1) \<in> set h \<and> shows_password A i op w1 \<and>
        t = Some (w_clock w1 + ttl) \<and> ttl \<le> 900000))"

definition proved :: "auth_env \<Rightarrow> (ops_op \<times> world) list \<Rightarrow> ops_session_row \<Rightarrow> bool" where
  "proved A h s \<longleftrightarrow> (\<exists>op1 w1 op2 w2. (op1, w1) \<in> set h \<and> (op2, w2) \<in> set h \<and>
     shows_password A (os_ops_user_id s) op1 w1 \<and> shows_code A (os_ops_user_id s) op2 w2 \<and>
     w_clock w1 \<le> w_clock w2 \<and> w_clock w2 < w_clock w1 + 900000 \<and> os_expires_at s = w_clock w2 + 28800000)"

definition history_ok :: "auth_env \<Rightarrow> (ops_op \<times> world) list \<Rightarrow> world \<Rightarrow> bool" where
  "history_ok A h w \<longleftrightarrow> (\<forall>(op, w1)\<in>set h. w_clock w1 \<le> w_clock w) \<and>
     (\<forall>c. granted A h (w_redis w (OPS_CHALLENGE c)) \<and> granted A h (w_redis w (OPS_ENROLMENT c))) \<and>
     (\<forall>s\<in>set (ops_sessions (w_db w)). proved A h s)"

lemma granted_None [simp]: "granted A h None"
  by (simp add: granted_def)

lemma granted_more: "granted A h e \<Longrightarrow> granted A (h @ [x]) e"
  unfolding granted_def by fastforce

lemma proved_more: "proved A h s \<Longrightarrow> proved A (h @ [x]) s"
  unfolding proved_def by fastforce

lemma history_ok_more: "history_ok A h w \<Longrightarrow> history_ok A (h @ [(op, w)]) w"
  by (auto simp: history_ok_def granted_more proved_more)

lemma history_ok_change:
  "history_ok A h w \<Longrightarrow> ops_sessions (w_db w') = ops_sessions (w_db w) \<Longrightarrow> w_redis w' = w_redis w \<Longrightarrow>
   w_clock w' = w_clock w \<Longrightarrow> history_ok A h w'"
  by (simp add: history_ok_def)

lemma history_ok_del: "history_ok A h w \<Longrightarrow> history_ok A h (w\<lparr>w_redis := (w_redis w)(k := None)\<rparr>)"
  by (auto simp: history_ok_def)

lemma history_ok_users [simp]: "history_ok A h (w\<lparr>w_db := (w_db w)\<lparr>ops_users := rows\<rparr>\<rparr>) \<longleftrightarrow> history_ok A h w"
  by (simp add: history_ok_def)

lemma history_ok_del_users:
  "history_ok A h w \<Longrightarrow>
   history_ok A h (w\<lparr>w_redis := (w_redis w)(k := None), w_db := (w_db w)\<lparr>ops_users := rows\<rparr>\<rparr>)"
  by (auto simp: history_ok_def)

lemma history_ok_set:
  assumes "history_ok A h w" and "granted A h (Some (v, t))"
  shows "history_ok A h (set_key k v t w)"
  using assms by (auto simp: history_ok_def set_key_def)

lemma history_ok_session:
  "history_ok A h w \<Longrightarrow> proved A h s \<Longrightarrow>
   history_ok A h (w\<lparr>w_db := (w_db w)\<lparr>next_id := n, ops_sessions := ops_sessions (w_db w) @ [s]\<rparr>\<rparr>)"
  by (auto simp: history_ok_def)

lemma granted_live:
  assumes "history_ok A h w" and "live w k = v" and "stored_id v = Some i"
    and "k = OPS_CHALLENGE c \<or> k = OPS_ENROLMENT c"
  shows "\<exists>op w1. (op, w1) \<in> set h \<and> shows_password A i op w1 \<and> w_clock w1 \<le> w_clock w \<and> w_clock w < w_clock w1 + 900000"
proof -
  obtain n where v: "v = Some (VInt n)" "i = nat n" using assms(3) by (auto simp: stored_id_def split: option.splits rval.splits)
  then obtain t where t: "w_redis w k = Some (VInt n, t)" "\<forall>u. t = Some u \<longrightarrow> w_clock w < u"
    using assms(2) live_SomeD by metis
  then have "granted A h (Some (VInt n, t))" using assms(1,4) unfolding history_ok_def by metis
  then obtain j op w1 ttl where "VInt n = VInt (int j)" "(op, w1) \<in> set h" "shows_password A j op w1"
    "t = Some (w_clock w1 + ttl)" "ttl \<le> 900000"
    unfolding granted_def by blast
  moreover from this have "w_clock w1 \<le> w_clock w" using assms(1) by (auto simp: history_ok_def)
  ultimately show ?thesis using t(2) v(2) by fastforce
qed

lemma session_proved:
  assumes "history_ok A h w" and "(op1, w1) \<in> set h" "shows_password A i op1 w1"
    and "w_clock w1 \<le> w_clock w" "w_clock w < w_clock w1 + 900000" and "shows_code A i op w"
    and "os_ops_user_id s = i" "os_expires_at s = w_clock w + 28800000"
  shows "proved A (h @ [(op, w)]) s"
  using assms(2-) unfolding proved_def by (intro exI[of _ op1] exI[of _ w1] exI[of _ op] exI[of _ w]) auto

lemma session_create_ok:
  assumes "history_ok A h w"
    and "\<And>s. os_ops_user_id s = i \<Longrightarrow> os_expires_at s = w_clock w + 28800000 \<Longrightarrow> proved A h s"
  shows "wp (ops_session_create A i client) (\<lambda>_. history_ok A h) (\<lambda>_. history_ok A h) w"
  using assms by (auto simp: ops_session_create_def wp_simps table_ops OPS_SESSION_TTL_SEC_def
      split: option.split intro!: history_ok_session)

lemma stamp_login_ok:
  "history_ok A h w \<Longrightarrow>
   wp (bind now (\<lambda>t. bind (update_by_id ops_user_table i (f t)) (\<lambda>_. return x)))
     (\<lambda>_. history_ok A h) (\<lambda>_. history_ok A h) w"
  by (auto simp: wp_simps table_ops split: option.split intro: history_ok_change)

lemma verify_ok:
  assumes "history_ok A h w"
  shows "wp (ops_verifyTwoFactor A challenge code client)
    (\<lambda>_. history_ok A (h @ [(OpsVerify challenge code client, w)]))
    (\<lambda>_. history_ok A (h @ [(OpsVerify challenge code client, w)])) w"
proof -
  define H where "H = h @ [(OpsVerify challenge code client, w)]"
  have H: "history_ok A H w" using history_ok_more[OF assms(1)] by (simp add: H_def)
  have session: "wp (ops_session_create A i client) (\<lambda>_. history_ok A H) (\<lambda>_. history_ok A H)
      (w\<lparr>w_redis := (w_redis w)(OPS_CHALLENGE challenge := None)\<rparr>)"
    if i: "stored_id (live w (OPS_CHALLENGE challenge)) = Some i" "code_matches A i code w" for i
  proof (rule session_create_ok)
    show "history_ok A H (w\<lparr>w_redis := (w_redis w)(OPS_CHALLENGE challenge := None)\<rparr>)"
      by (rule history_ok_del[OF H])
  next
    fix s :: ops_session_row
    assume s: "os_ops_user_id s = i"
      "os_expires_at s = w_clock (w\<lparr>w_redis := (w_redis w)(OPS_CHALLENGE challenge := None)\<rparr>) + 28800000"
    obtain op w1 where "(op, w1) \<in> set h" "shows_password A i op w1" "w_clock w1 \<le> w_clock w"
      "w_clock w < w_clock w1 + 900000"
      using granted_live[OF assms(1) refl i(1)] by blast
    then show "proved A H s" using s i(2) unfolding H_def by (intro session_proved[OF assms(1)]) auto
  qed
  have created: "wp (ops_session_create A (ou_id u) client)
      (\<lambda>token. wp (bind now (\<lambda>t. bind (update_by_id ops_user_table (ou_id u) (\<lambda>u. u\<lparr>ou_last_login_at := Some t\<rparr>)) (\<lambda>_. return token)))
        (\<lambda>_. history_ok A H) (\<lambda>_. history_ok A H)) (\<lambda>_. history_ok A H)
      (w\<lparr>w_redis := (w_redis w)(OPS_CHALLENGE challenge := None)\<rparr>)"
    if "stored_id (live w (OPS_CHALLENGE challenge)) = Some i" "find_row ou_id i (ops_users (w_db w)) = Some u"
      "ou_is_active u" "ou_totp_secret u = Some secret" "ae_totp_verify A (ae_decrypt A secret) code (w_clock w)"
    for i u secret
  proof -
    have u: "u \<in> set (ops_users (w_db w))" "ou_id u = i" using that(2) find_row_in_set find_row_key by fastforce+
    then have "code_matches A i code w" using that(3-) by (auto simp: code_matches_def)
    from session[OF that(1) this] show ?thesis unfolding u(2) by (rule wp_mono) (simp_all add: stamp_login_ok)
  qed
  show ?thesis
    using H unfolding H_def[symmetric]
    by (auto simp: ops_verifyTwoFactor_def code_valid_def wp_simps table_rows present_def
        split: option.split intro: created[simplified])
qed

lemma confirm_ok:
  assumes "history_ok A h w"
  shows "wp (confirmEnrolment A token code client)
    (\<lambda>_. history_ok A (h @ [(OpsConfirmEnrolment token code client, w)]))
    (\<lambda>_. history_ok A (h @ [(OpsConfirmEnrolment token code client, w)])) w"
proof -
  define H where "H = h @ [(OpsConfirmEnrolment token code client, w)]"
  have H: "history_ok A H w" using history_ok_more[OF assms(1)] by (simp add: H_def)
  have session: "wp (ops_session_create A (ou_id u) client) (\<lambda>_. history_ok A H) (\<lambda>_. history_ok A H) v"
    if v: "history_ok A H v" "w_clock v = w_clock w" and i: "stored_id (live w (OPS_ENROLMENT token)) = Some i"
      "find_row ou_id i (ops_users (w_db w)) = Some u"
      "ou_is_active u" "ou_totp_secret u = Some secret" "ae_totp_verify A (ae_decrypt A secret) code (w_clock w)"
    for i u secret v
  proof (rule session_create_ok[OF v(1)])
    fix s :: ops_session_row
    assume s: "os_ops_user_id s = ou_id u" "os_expires_at s = w_clock v + 28800000"
    have u: "u \<in> set (ops_users (w_db w))" "ou_id u = i" using i(2) find_row_in_set find_row_key by fastforce+
    then have "code_matches A i code w" using i(3-) by (auto simp: code_matches_def)
    moreover obtain op w1 where "(op, w1) \<in> set h" "shows_password A i op w1" "w_clock w1 \<le> w_clock w"
      "w_clock w < w_clock w1 + 900000"
      using granted_live[OF assms(1) refl i(1)] by blast
    ultimately show "proved A H s" using s u(2) v(2) unfolding H_def by (intro session_proved[OF assms(1)]) auto
  qed
  show ?thesis
    using H unfolding H_def[symmetric]
    by (auto simp: confirmEnrolment_def resolveEnrolment_def code_valid_def wp_simps table_ops present_def
        split: option.split intro!: history_ok_del history_ok_del_users session)
qed

lemma login_ok:
  assumes "history_ok A h w"
  shows "wp (ops_login A email password)
    (\<lambda>_. history_ok A (h @ [(OpsLogin email password, w)]))
    (\<lambda>_. history_ok A (h @ [(OpsLogin email password, w)])) w"
proof -
  define H where "H = h @ [(OpsLogin email password, w)]"
  have H: "history_ok A H w" using history_ok_more[OF assms(1)] by (simp add: H_def)
  have "granted A H (Some (VInt (int (ou_id u)), Some (w_clock w + ttl)))"
    if u: "List.find (\<lambda>u. ou_email u = to_lower email) (ops_users (w_db w)) = Some u" "ou_is_active u"
      "ae_argon2_verify A (ou_password_hash u) password" and ttl: "ttl \<le> 900000" for u ttl
  proof -
    have "shows_password A (ou_id u) (OpsLogin email password) w" using find_SomeD[OF u(1)] u(2,3) by auto
    moreover have "(OpsLogin email password, w) \<in> set H" by (simp add: H_def)
    ultimately show ?thesis using ttl unfolding granted_def by blast
  qed
  then show ?thesis
    using H unfolding H_def[symmetric]
    by (auto simp: ops_login_def wp_simps table_rows OPS_ENROLMENT_TTL_SEC_def OPS_CHALLENGE_TTL_SEC_def
        split: option.split intro!: history_ok_set)
qed

lemma ops_run_ok: "history_ok A h w \<Longrightarrow> history_ok A (h @ [(op, w)]) (ops_run A op w)"
proof -
  assume ok: "history_ok A h w"
  show ?thesis
  proof (cases op)
    case (OpsLogin email password)
    then show ?thesis using login_ok[OF ok] by (simp add: wp_final)
  next
    case (OpsVerify challenge code client)
    then show ?thesis using verify_ok[OF ok] by (simp add: wp_final)
  next
    case (OpsStartEnrolment token)
    have "wp (startEnrolment A token) (\<lambda>_. history_ok A (h @ [(op, w)])) (\<lambda>_. history_ok A (h @ [(op, w)])) w"
      using history_ok_more[OF ok]
      by (auto simp: startEnrolment_def resolveEnrolment_def wp_simps table_ops split: option.split)
    then show ?thesis using OpsStartEnrolment by (simp add: wp_final)
  next
    case (OpsConfirmEnrolment token code client)
    then show ?thesis using confirm_ok[OF ok] by (simp add: wp_final)
  next
    case (OpsLogout token)
    have "wp (ops_logout A token) (\<lambda>_. history_ok A (h @ [(op, w)])) (\<lambda>_. history_ok A (h @ [(op, w)])) w"
      using history_ok_more[OF ok]
      by (auto simp: ops_logout_def ops_session_destroy_def wp_simps table_ops history_ok_def)
    then show ?thesis using OpsLogout by (simp add: wp_final)
  qed
qed

lemma history_is_ok: "ops_history A h w \<Longrightarrow> history_ok A h w"
proof (induction rule: ops_history.induct)
  case (elsewhere h w w')
  then show ?case by (fastforce simp: history_ok_def)
qed (simp_all add: ops_run_ok, simp add: history_ok_def)

lemma wp_ops_canActivate [wp_simps]:
  "wp (ops_canActivate A request) Q E w =
     (case present (ops_extractToken request) of
        None \<Rightarrow> E (OpsE OpsSessionInvalidException) w
      | Some token \<Rightarrow>
          (case List.find (\<lambda>s. os_token_hash s = ae_sha256 A token) (ops_sessions (w_db w)) of
             None \<Rightarrow> E (OpsE OpsSessionInvalidException) w
           | Some s \<Rightarrow>
               if os_expires_at s < w_clock w then E (OpsE OpsSessionInvalidException) w
               else (case find_row ou_id (os_ops_user_id s) (ops_users (w_db w)) of
                  None \<Rightarrow> E (OpsE OpsSessionInvalidException) w
                | Some u \<Rightarrow> if ou_is_active u then Q u w else E (OpsE OpsUserDisabledException) w)))"
  by (auto simp: ops_canActivate_def wp_simps table_rows split: option.split)

lemma admitted:
  assumes "ops_canActivate A request w = (Inr u, w')"
  shows "\<exists>token s. present (ops_extractToken request) = Some token \<and>
    List.find (\<lambda>s. os_token_hash s = ae_sha256 A token) (ops_sessions (w_db w)) = Some s \<and>
    \<not> os_expires_at s < w_clock w \<and> find_row ou_id (os_ops_user_id s) (ops_users (w_db w)) = Some u \<and>
    ou_is_active u \<and> w' = w"
proof (cases "present (ops_extractToken request)")
  case (Some token)
  then show ?thesis
    using assms unfolding run_eq_wp wp_ops_canActivate
    by (cases "List.find (\<lambda>s. os_token_hash s = ae_sha256 A token) (ops_sessions (w_db w))")
      (simp_all split: if_splits option.splits)
qed (use assms in \<open>simp add: run_eq_wp wp_ops_canActivate\<close>)

text \<open>C18. Nobody passes the operators' guard without both factors: whatever was sent before and
  whatever else happened in the system, if the guard admits a request as some operator, the
  operator is active, at some time the operator's password was shown, less than fifteen minutes
  later a code of the second factor stored for the operator, and that was at most eight hours
  ago. The check itself changes nothing, and a customer's cookie counts for nothing.\<close>

theorem operators_show_both_factors:
  assumes "ops_history A h w" and "ops_canActivate A request w = (Inr u, w')"
  shows "w' = w \<and> u \<in> set (ops_users (w_db w)) \<and> ou_is_active u \<and>
    (\<exists>op1 w1 op2 w2. (op1, w1) \<in> set h \<and> (op2, w2) \<in> set h \<and>
       shows_password A (ou_id u) op1 w1 \<and> shows_code A (ou_id u) op2 w2 \<and>
       w_clock w1 \<le> w_clock w2 \<and> w_clock w2 < w_clock w1 + 900000 \<and> w_clock w \<le> w_clock w2 + 28800000) \<and>
    ops_canActivate A (request\<lparr>rq_session_cookie := other\<rparr>) w = (Inr u, w)"
proof -
  have ok: "history_ok A h w" by (rule history_is_ok[OF assms(1)])
  obtain token s where t: "present (ops_extractToken request) = Some token"
    and s: "List.find (\<lambda>s. os_token_hash s = ae_sha256 A token) (ops_sessions (w_db w)) = Some s"
    and live: "\<not> os_expires_at s < w_clock w"
    and u: "find_row ou_id (os_ops_user_id s) (ops_users (w_db w)) = Some u" "ou_is_active u" and w: "w' = w"
    using admitted[OF assms(2)] by blast
  have "proved A h s" using ok find_SomeD[OF s] by (auto simp: history_ok_def)
  moreover have "ou_id u = os_ops_user_id s" using u(1) by (rule find_row_key)
  moreover have "ops_canActivate A (request\<lparr>rq_session_cookie := other\<rparr>) w = (Inr u, w)"
    using t s live u by (simp add: run_eq_wp wp_simps)
  ultimately show ?thesis using u(2) w live find_row_in_set[OF u(1)] unfolding proved_def
    by (simp only: simp_thms not_less) metis
qed

definition operator :: ops_user_row where
  "operator = \<lparr>ou_id = 1, ou_email = ''o@b'', ou_password_hash = ''wp'', ou_totp_secret = Some ''K'',
     ou_totp_enabled = True, ou_full_name = ''O'', ou_is_active = True, ou_last_login_at = None\<rparr>"

definition ops_world :: world where
  "ops_world = empty_world\<lparr>w_db := empty_db\<lparr>ops_users := [operator], next_id := 2\<rparr>\<rparr>"

definition no_client :: ops_client where
  "no_client = \<lparr>oc_ip_address = None, oc_user_agent = None\<rparr>"

definition ops_cookie :: "string \<Rightarrow> ops_request" where
  "ops_cookie token = \<lparr>rq_session_cookie = None, rq_authorization = None, rq_ops_session_cookie = Some token\<rparr>"

definition sign_in :: "ops_op list" where
  "sign_in = [OpsLogin ''O@b'' ''pw'', OpsVerify (show_nat 2) ''0'' no_client]"

lemma history_runs: "ops_history A h w \<Longrightarrow> \<exists>h'. ops_history A h' (fold (ops_run A) ops w)"
  by (induction ops arbitrary: h w) (auto intro: ops_history.message)

lemma sign_in_admits:
  "\<exists>w'. ops_canActivate toy_auth (ops_cookie (show_nat 2)) (fold (ops_run toy_auth) sign_in ops_world) =
     (Inr (operator\<lparr>ou_last_login_at := Some 0\<rparr>), w')"
proof -
  have low: "to_lower ''O@b'' = ''o@b''" and zero: "show_int 0 = ''0''" by code_simp+
  have rot: "rev (show_nat 2) \<noteq> []" using show_nat_not_minus[of 2] by simp
  show ?thesis
    using show_nat_not_minus[of 2]
    by (simp add: sign_in_def run_eq_wp wp_simps ops_login_def ops_verifyTwoFactor_def ops_session_create_def code_valid_def
        run_defs store_defs table_ops low zero ops_world_def operator_def toy_auth_def no_client_def ops_cookie_def
        empty_world_def empty_db_def live_def set_key_def stored_id_def present_def violated_def table_defs Let_def
        ops_extractToken_def OPS_CHALLENGE_TTL_SEC_def OPS_SESSION_TTL_SEC_def)
qed

theorem operators_show_both_factors_witness:
  "\<exists>h op1 w1 op2 w2. (op1, w1) \<in> set h \<and> (op2, w2) \<in> set h \<and>
     shows_password toy_auth 1 op1 w1 \<and> shows_code toy_auth 1 op2 w2 \<and> w_clock w2 < w_clock w1 + 900000 \<and>
     ops_history toy_auth h (fold (ops_run toy_auth) sign_in ops_world)"
proof -
  have "ops_history toy_auth [] ops_world"
    by (rule ops_history.start) (simp_all add: ops_world_def empty_world_def empty_db_def)
  then obtain h where h: "ops_history toy_auth h (fold (ops_run toy_auth) sign_in ops_world)"
    using history_runs by blast
  obtain w' where "ops_canActivate toy_auth (ops_cookie (show_nat 2)) (fold (ops_run toy_auth) sign_in ops_world) =
     (Inr (operator\<lparr>ou_last_login_at := Some 0\<rparr>), w')" using sign_in_admits by blast
  then have "\<exists>op1 w1 op2 w2. (op1, w1) \<in> set h \<and> (op2, w2) \<in> set h \<and>
      shows_password toy_auth (ou_id operator) op1 w1 \<and> shows_code toy_auth (ou_id operator) op2 w2 \<and>
      w_clock w2 < w_clock w1 + 900000"
    using operators_show_both_factors[OF h, of "ops_cookie (show_nat 2)" "operator\<lparr>ou_last_login_at := Some 0\<rparr>" w' None]
    by (simp only: ops_user_row.select_convs ops_user_row.update_convs) fastforce
  moreover have "ou_id operator = 1" by (simp add: operator_def)
  ultimately show ?thesis using h by metis
qed

section \<open>An enrolment outlives the enrolment\<close>

text \<open>The second factor of an operator can be replaced without it: an enrolment that was granted
  before the operator set up the second factor, and has not expired, is still honoured
  afterwards. Starting it again disables the factor and hands out a new secret, and a code for
  the new secret then opens a session of the operator.\<close>

theorem stale_enrolment_resets_second_factor:
  assumes "stored_id (live w (OPS_ENROLMENT token)) = Some i"
    and "find_row ou_id i (ops_users (w_db w)) = Some u" and "ou_is_active u" and "ou_totp_enabled u"
    and "wf_table ops_user_table w" and "ae_encrypt A (ae_totp_secret A w) \<noteq> []"
    and "ae_decrypt A (ae_encrypt A (ae_totp_secret A w)) = ae_totp_secret A w"
    and "ae_totp_verify A (ae_totp_secret A w) code (w_clock w)" and "ops_sessions (w_db w) = []"
  shows "\<exists>w1 w2 session. startEnrolment A token w = (Inr (ae_totp_secret A w), w1) \<and>
    map_option ou_totp_enabled (find_row ou_id i (ops_users (w_db w1))) = Some False \<and>
    confirmEnrolment A token code client w1 = (Inr session, w2) \<and>
    map (\<lambda>s. (os_ops_user_id s, os_token_hash s)) (ops_sessions (w_db w2)) = [(i, ae_sha256 A session)] \<and>
    map_option ou_totp_secret (find_row ou_id i (ops_users (w_db w2))) = Some (Some (ae_encrypt A (ae_totp_secret A w)))"
proof -
  define on where "on = (\<lambda>u :: ops_user_row. u\<lparr>ou_totp_secret := Some (ae_encrypt A (ae_totp_secret A w)), ou_totp_enabled := False\<rparr>)"
  define w1 where "w1 = w\<lparr>w_db := (w_db w)\<lparr>ops_users := update_row ou_id i on (ops_users (w_db w))\<rparr>\<rparr>"
  have id: "ou_id u = i" using assms(2) by (rule find_row_key)
  have row: "find_row ou_id i (ops_users (w_db w1)) = Some (on u)"
    using assms(2) by (simp add: w1_def find_row_update_row on_def)
  have v: "violated ops_user_table (on u) (ops_users (w_db w)) = None"
    using ops_user_tbl.not_violated[of w i u "on u"] assms(2,5) by (auto simp: table_rows on_def table_defs)
  have wf: "wf_table ops_user_table w1"
    by (rule ops_user_tbl.wf_update[OF assms(5), of on i "on u"])
      (use assms(2) v in \<open>simp_all add: update_by_id_def table_ops w1_def on_def\<close>)
  have start: "startEnrolment A token w = (Inr (ae_totp_secret A w), w1)"
    using assms v by (simp add: run_eq_wp startEnrolment_def resolveEnrolment_def wp_simps table_ops w1_def on_def id)
  have v2: "violated ops_user_table ((on u)\<lparr>ou_totp_enabled := True, ou_last_login_at := Some (w_clock w)\<rparr>) (ops_users (w_db w1)) = None"
    using ops_user_tbl.not_violated[of w1 i "on u" "(on u)\<lparr>ou_totp_enabled := True, ou_last_login_at := Some (w_clock w)\<rparr>"] row wf
    by (auto simp: table_rows on_def table_defs)
  have l: "live w1 k = live w k" and c: "w_clock w1 = w_clock w" and ss: "ops_sessions (w_db w1) = []" for k
    using assms(9) by (simp_all add: w1_def)
  have "wp (confirmEnrolment A token code client)
      (\<lambda>session w2. map (\<lambda>s. (os_ops_user_id s, os_token_hash s)) (ops_sessions (w_db w2)) = [(i, ae_sha256 A session)] \<and>
        map_option ou_totp_secret (find_row ou_id i (ops_users (w_db w2))) = Some (Some (ae_encrypt A (ae_totp_secret A w))))
      (\<lambda>_ _. False) w1"
    using assms row v2
    by (simp add: confirmEnrolment_def resolveEnrolment_def code_valid_def ops_session_create_def wp_simps table_ops
        l c ss id on_def present_def find_row_update_row)
  from wp_runD[OF this] start row show ?thesis by (auto simp: on_def)
qed

text \<open>The operator enrols with the first of two enrolments and signs in with the second factor; the
  second enrolment is still there.\<close>

definition stale_world :: world where
  "stale_world = fold (ops_run toy_auth) [OpsStartEnrolment ''first'', OpsConfirmEnrolment ''first'' ''0'' no_client,
       OpsLogout (show_nat 2)]
     (ops_world\<lparr>w_db := (w_db ops_world)\<lparr>ops_users := [operator\<lparr>ou_totp_secret := None, ou_totp_enabled := False\<rparr>]\<rparr>,
        w_redis := (\<lambda>_. None)(OPS_ENROLMENT ''first'' \<mapsto> (VInt 1, Some 800000),
          OPS_ENROLMENT ''second'' \<mapsto> (VInt 1, Some 900000))\<rparr>)"

theorem stale_enrolment_resets_second_factor_witness:
  "map ou_totp_enabled (ops_users (w_db stale_world)) = [True] \<and>
   (\<exists>w1 w2 session. startEnrolment toy_auth ''second'' stale_world = (Inr ''K'', w1) \<and>
     confirmEnrolment toy_auth ''second'' ''0'' no_client w1 = (Inr session, w2) \<and>
     map (\<lambda>s. os_ops_user_id s) (ops_sessions (w_db w2)) = [1])"
proof -
  have zero: "show_int 0 = ''0''" by code_simp
  have world: "stale_world = ops_world\<lparr>w_db := (w_db ops_world)\<lparr>next_id := 3,
       ops_users := [operator\<lparr>ou_last_login_at := Some 0\<rparr>]\<rparr>,
     w_redis := (\<lambda>_. None)(OPS_ENROLMENT ''second'' \<mapsto> (VInt 1, Some 900000))\<rparr>"
    by (auto simp: stale_world_def startEnrolment_def confirmEnrolment_def resolveEnrolment_def ops_logout_def
        ops_session_destroy_def ops_session_create_def code_valid_def
        run_defs store_defs zero ops_world_def operator_def toy_auth_def no_client_def
        empty_world_def empty_db_def live_def stored_id_def present_def violated_def table_defs Let_def
        OPS_SESSION_TTL_SEC_def fun_eq_iff)
  have wf: "wf_table ops_user_table stale_world"
    by (simp add: world wf_table_def table_defs unique_keys_def ops_world_def empty_db_def operator_def)
  have "\<exists>w1 w2 session. startEnrolment toy_auth ''second'' stale_world = (Inr (ae_totp_secret toy_auth stale_world), w1) \<and>
    map_option ou_totp_enabled (find_row ou_id 1 (ops_users (w_db w1))) = Some False \<and>
    confirmEnrolment toy_auth ''second'' ''0'' no_client w1 = (Inr session, w2) \<and>
    map (\<lambda>s. (os_ops_user_id s, os_token_hash s)) (ops_sessions (w_db w2)) = [(1, ae_sha256 toy_auth session)] \<and>
    map_option ou_totp_secret (find_row ou_id 1 (ops_users (w_db w2))) =
      Some (Some (ae_encrypt toy_auth (ae_totp_secret toy_auth stale_world)))"
    by (rule stale_enrolment_resets_second_factor[of stale_world "''second''" 1 "operator\<lparr>ou_last_login_at := Some 0\<rparr>"])
      (use wf zero in \<open>simp_all add: world ops_world_def empty_world_def empty_db_def operator_def live_def stored_id_def toy_auth_def\<close>)
  moreover have "ae_totp_secret toy_auth stale_world = ''K''" by (simp add: toy_auth_def)
  ultimately show ?thesis by (fastforce simp: world operator_def)
qed

end
