(* ===== verification/Activity.thy ===== *)
theory Activity
  imports LoanRepayments "HOL-Library.Product_Lexorder"
begin

text \<open>
  \<open>modules/me/activity.service.ts\<close>: the feed of a customer's money movements, merged from the
  status log of the loans and the unmatched inflows, page by page. The texts of an item are
  UTF-8 bytes; a cursor is its decoded form, a malformed one the absence of it; the link of an
  item, which repeats its kind, is left out. The two reads are one snapshot.
\<close>

section \<open>Items\<close>

datatype ActivityType =
    ACT_LOAN_CREATED | COLLATERAL_RECEIVED | ACT_COLLATERAL_TOPPED_UP | LOAN_DISBURSED | REPAYMENT_RECEIVED
  | LOAN_REPAID | ACT_COLLATERAL_RELEASED | LOAN_LIQUIDATED | LOAN_EXPIRED | LOAN_CANCELLED
  | INFLOW_RECEIVED_UNMATCHED

definition REASON_TO_TYPE :: "LoanReasonCode \<Rightarrow> ActivityType option" where
  "REASON_TO_TYPE reason =
     (case reason of
        LOAN_CREATED \<Rightarrow> Some ACT_LOAN_CREATED
      | COLLATERAL_CONFIRMED \<Rightarrow> Some COLLATERAL_RECEIVED
      | COLLATERAL_TOPPED_UP \<Rightarrow> Some ACT_COLLATERAL_TOPPED_UP
      | DISBURSEMENT_CONFIRMED \<Rightarrow> Some LOAN_DISBURSED
      | REPAYMENT_PARTIAL_NGN \<Rightarrow> Some REPAYMENT_RECEIVED
      | REPAYMENT_COMPLETED \<Rightarrow> Some LOAN_REPAID
      | COLLATERAL_RELEASED \<Rightarrow> Some ACT_COLLATERAL_RELEASED
      | LIQUIDATION_TRIGGERED \<Rightarrow> Some LOAN_LIQUIDATED
      | INVOICE_EXPIRED \<Rightarrow> Some LOAN_EXPIRED
      | CUSTOMER_CANCELLED \<Rightarrow> Some LOAN_CANCELLED
      | LIQUIDATION_COMPLETED \<Rightarrow> None
      | LIQUIDATION_REVERSED_BAD_RATE \<Rightarrow> None)"

datatype activity_source = from_log | from_inflow

record activity_item =
  ai_source :: activity_source
  ai_row_id :: id
  ai_occurred_at :: time
  ai_type :: ActivityType
  ai_title :: string
  ai_subtitle :: "string option"
  ai_amount_ngn :: "string option"
  ai_amount_sat :: "string option"
  ai_loan_id :: "id option"

text \<open>\<open>toLocaleString\<close> of a whole number: groups of three digits; and the naira sign.\<close>

fun commas :: "string \<Rightarrow> string" where
  "commas (a # b # c # d # s) = a # b # c # CHR '','' # commas (d # s)"
| "commas s = s"

definition group_digits :: "string \<Rightarrow> string" where
  "group_digits s = rev (commas (rev s))"

definition formatNgn :: "rat \<Rightarrow> string" where
  "formatNgn amount = [CHR 0xE2, CHR 0x82, CHR 0xA6] @ group_digits (displayNgn amount ceil_mode)"

definition formatSat :: "sats \<Rightarrow> string" where
  "formatSat amount_sat = group_digits (show_int amount_sat)"

definition maskAccount :: "string \<Rightarrow> string" where
  "maskAccount account_unique =
     (if length account_unique \<le> 4 then ''****'' @ account_unique
      else ''****'' @ drop (length account_unique - 4) account_unique)"

text \<open>Numbers in the metadata of a log row, which the services write in plain decimal notation.\<close>

definition all_digits :: "string \<Rightarrow> bool" where
  "all_digits s \<longleftrightarrow> s \<noteq> [] \<and> list_all (\<lambda>c. let n = of_char c :: nat in 48 \<le> n \<and> n \<le> 57) s"

definition read_plain :: "string \<Rightarrow> rat option" where
  "read_plain s =
     (let (sign, body) = (case s of CHR ''-'' # rest \<Rightarrow> (- 1, rest) | _ \<Rightarrow> (1, s));
          whole = takeWhile (\<lambda>c. c \<noteq> CHR ''.'') body;
          rest = drop (Suc (length whole)) body
      in if whole = body
         then (if all_digits whole then Some (sign * of_nat (read_digits whole)) else None)
         else if all_digits whole \<and> all_digits rest
         then Some (sign * (of_nat (read_digits whole) + of_nat (read_digits rest) / 10 ^ length rest))
         else None)"

definition readDecimal :: "json_value option \<Rightarrow> rat option" where
  "readDecimal value = (case value of None \<Rightarrow> None | Some (JNum x) \<Rightarrow> Some x | Some (JInt i) \<Rightarrow> Some (of_int i)
     | Some (JStr s) \<Rightarrow> read_plain s)"

definition whole_number :: "rat option \<Rightarrow> int option" where
  "whole_number x = (case x of None \<Rightarrow> None | Some y \<Rightarrow> if of_int \<lfloor>y\<rfloor> = y then Some \<lfloor>y\<rfloor> else None)"

definition readBigInt :: "json_value option \<Rightarrow> int option" where
  "readBigInt value =
     (case value of
        Some (JStr s) \<Rightarrow> if CHR ''.'' \<in> set s then None else whole_number (read_plain s)
      | _ \<Rightarrow> whole_number (readDecimal value))"

definition sumApplied :: "decimals \<Rightarrow> (string \<times> json_value) list \<Rightarrow> rat option" where
  "sumApplied D meta =
     (let principal = readDecimal (map_of meta ''applied_to_principal'');
          interest = readDecimal (map_of meta ''applied_to_interest'');
          custody = readDecimal (map_of meta ''applied_to_custody'')
      in if principal = None \<and> interest = None \<and> custody = None then None
         else Some (dplus D (dplus D (or_else principal 0) (or_else interest 0)) (or_else custody 0)))"

definition dash :: string where "dash = [CHR 0xE2, CHR 0x80, CHR 0x94]"

definition loan_tag :: "loan_row option \<Rightarrow> string option" where
  "loan_tag loan = map_option (\<lambda>l. ''Loan #'' @ take 8 (show_nat (l_id l))) loan"

text \<open>Kind by kind: the headline, the line below it and the two amounts.\<close>

definition log_texts :: "decimals \<Rightarrow> loan_row option \<Rightarrow> account_row option \<Rightarrow> (string \<times> json_value) list \<Rightarrow>
    ActivityType \<Rightarrow> string \<times> string option \<times> string option \<times> string option" where
  "log_texts D loan acct meta ty =
     (let principal = map_option l_principal_ngn loan;
          collateral = map_option l_collateral_amount_sat loan;
          tag = loan_tag loan;
          applied = sumApplied D meta
      in case ty of
        ACT_LOAN_CREATED \<Rightarrow>
          (case principal of None \<Rightarrow> ''Loan started'' | Some p \<Rightarrow> formatNgn p @ '' loan started'',
           Some ''Awaiting collateral'', map_option (\<lambda>p. displayNgn p ceil_mode) principal, None)
      | COLLATERAL_RECEIVED \<Rightarrow>
          (case collateral of None \<Rightarrow> ''Collateral received'' | Some c \<Rightarrow> formatSat c @ '' SAT collateral received'',
           tag, None, map_option show_int collateral)
      | ACT_COLLATERAL_TOPPED_UP \<Rightarrow>
          (let top_up_sat = (case readBigInt (map_of meta ''amount_sat'') of
                 None \<Rightarrow> readBigInt (map_of meta ''top_up_sat'') | Some x \<Rightarrow> Some x)
           in (case top_up_sat of
                 Some x \<Rightarrow> if x \<noteq> 0 then formatSat x @ '' SAT added to collateral'' else ''Collateral topped up''
               | None \<Rightarrow> ''Collateral topped up'',
               tag, None, map_option show_int top_up_sat))
      | LOAN_DISBURSED \<Rightarrow>
          (case principal of
             None \<Rightarrow> ''Loan disbursed''
           | Some p \<Rightarrow> formatNgn p @ '' sent'' @
               (case acct of None \<Rightarrow> []
                | Some a \<Rightarrow> '' to '' @ acct_provider_name a @ '' '' @ maskAccount (acct_account_unique a)),
           tag, map_option (\<lambda>p. displayNgn p floor_mode) principal, None)
      | REPAYMENT_RECEIVED \<Rightarrow>
          (case applied of None \<Rightarrow> ''Repayment received'' | Some a \<Rightarrow> formatNgn a @ '' repayment received'',
           Some (case tag of None \<Rightarrow> ''Partial repayment'' | Some g \<Rightarrow> g @ '' '' @ dash @ '' partial repayment''),
           map_option (\<lambda>a. displayNgn a ceil_mode) applied, None)
      | LOAN_REPAID \<Rightarrow>
          (case tag of None \<Rightarrow> ''Loan fully repaid'' | Some g \<Rightarrow> g @ '' fully repaid'',
           map_option (\<lambda>a. ''Final payment '' @ formatNgn a) applied,
           map_option (\<lambda>a. displayNgn a ceil_mode) applied, None)
      | ACT_COLLATERAL_RELEASED \<Rightarrow>
          (case collateral of None \<Rightarrow> ''Collateral returned'' | Some c \<Rightarrow> formatSat c @ '' SAT returned'',
           Some ''Sent to your address'', None, map_option show_int collateral)
      | LOAN_LIQUIDATED \<Rightarrow>
          (case tag of None \<Rightarrow> ''Loan liquidated'' | Some g \<Rightarrow> g @ '' liquidated'',
           Some ''Collateral seized to cover outstanding'', None, None)
      | LOAN_EXPIRED \<Rightarrow>
          (case tag of None \<Rightarrow> ''Loan expired'' | Some g \<Rightarrow> g @ '' expired'',
           Some (''Collateral wasn'' @ [CHR 0x27] @ ''t paid in time''), None, None)
      | LOAN_CANCELLED \<Rightarrow>
          (case tag of None \<Rightarrow> ''Loan cancelled'' | Some g \<Rightarrow> g @ '' cancelled'', Some ''Cancelled by you'', None, None)
      | INFLOW_RECEIVED_UNMATCHED \<Rightarrow> (''INFLOW_RECEIVED_UNMATCHED'', None, None, None))"

definition buildLogItem :: "decimals \<Rightarrow> world \<Rightarrow> status_log_row \<Rightarrow> ActivityType \<Rightarrow> activity_item" where
  "buildLogItem D w row ty =
     (let loan = find_row l_id (sl_loan_id row) (loans (w_db w));
          acct = Option.bind loan (\<lambda>l. find_row acct_id (l_disbursement_account_id l) (accounts (w_db w)));
          (title, subtitle, amount_ngn, amount_sat) = log_texts D loan acct (sl_metadata row) ty
      in \<lparr>ai_source = from_log, ai_row_id = sl_id row, ai_occurred_at = sl_created_at row, ai_type = ty,
          ai_title = title, ai_subtitle = subtitle, ai_amount_ngn = amount_ngn, ai_amount_sat = amount_sat,
          ai_loan_id = map_option l_id loan\<rparr>)"

definition buildInflowItem :: "inflow_row \<Rightarrow> activity_item" where
  "buildInflowItem row =
     \<lparr>ai_source = from_inflow, ai_row_id = in_id row, ai_occurred_at = in_created_at row,
      ai_type = INFLOW_RECEIVED_UNMATCHED,
      ai_title = formatNgn (in_amount row) @ '' received '' @ dash @ '' needs matching'',
      ai_subtitle = Some ''Tap to apply to a loan'', ai_amount_ngn = Some (displayNgn (in_amount row) ceil_mode),
      ai_amount_sat = None, ai_loan_id = None\<rparr>"

section \<open>Pages\<close>

record cursor =
  cur_occurred_at :: time
  cur_source :: activity_source
  cur_id :: id

definition before_cursor :: "cursor option \<Rightarrow> time \<Rightarrow> id \<Rightarrow> bool" where
  "before_cursor c created_at i \<longleftrightarrow>
     (case c of None \<Rightarrow> True
      | Some k \<Rightarrow> created_at < cur_occurred_at k \<or> created_at = cur_occurred_at k \<and> i < cur_id k)"

definition log_rows_of :: "id \<Rightarrow> cursor option \<Rightarrow> world \<Rightarrow> status_log_row list" where
  "log_rows_of user_id c w =
     sort_key (\<lambda>r. (- sl_created_at r, - int (sl_id r)))
       (filter (\<lambda>r. sl_user_id r = user_id \<and> REASON_TO_TYPE (sl_reason_code r) \<noteq> None \<and>
          before_cursor c (sl_created_at r) (sl_id r)) (status_logs (w_db w)))"

definition inflow_rows_of :: "id \<Rightarrow> cursor option \<Rightarrow> world \<Rightarrow> inflow_row list" where
  "inflow_rows_of user_id c w =
     sort_key (\<lambda>r. (- in_created_at r, - int (in_id r)))
       (filter (\<lambda>r. in_user_id r = Some user_id \<and> in_currency r = CUR_NGN \<and> \<not> in_is_matched r \<and>
          in_source_type r = None \<and> before_cursor c (in_created_at r) (in_id r)) (inflows (w_db w)))"

definition log_items_of :: "decimals \<Rightarrow> world \<Rightarrow> status_log_row list \<Rightarrow> activity_item list" where
  "log_items_of D w rows =
     List.map_filter (\<lambda>r. map_option (buildLogItem D w r) (REASON_TO_TYPE (sl_reason_code r))) rows"

definition inflow_items_of :: "inflow_row list \<Rightarrow> activity_item list" where
  "inflow_items_of rows = map buildInflowItem (filter (\<lambda>i. \<not> untrusted i) rows)"

text \<open>Newest first; on a tie the prefixed ids decide, and \<open>log:\<close> comes after \<open>inflow:\<close> in the
  alphabet.\<close>

definition item_key :: "activity_item \<Rightarrow> int \<times> nat \<times> int" where
  "item_key i = (- ai_occurred_at i, case ai_source i of from_log \<Rightarrow> 0 | from_inflow \<Rightarrow> 1, - int (ai_row_id i))"

definition cursor_of :: "activity_item \<Rightarrow> cursor" where
  "cursor_of i = \<lparr>cur_occurred_at = ai_occurred_at i, cur_source = ai_source i, cur_id = ai_row_id i\<rparr>"

definition page_of :: "nat \<Rightarrow> activity_item list \<Rightarrow> bool \<Rightarrow> activity_item list \<times> cursor option" where
  "page_of limit items full =
     (let merged = sort_key item_key items; page = take limit merged;
          has_more = limit < length merged \<or> full
      in (page, if has_more \<and> page \<noteq> [] then Some (cursor_of (last page)) else None))"

definition getPage :: "decimals \<Rightarrow> id \<Rightarrow> cursor option option \<Rightarrow> nat \<Rightarrow> (activity_item list \<times> cursor option) service" where
  "getPage D user_id raw_cursor limit =
     bind (case raw_cursor of None \<Rightarrow> return None
           | Some decoded \<Rightarrow> bind (the_or_throw (BadRequestException ''Malformed cursor'') decoded) (\<lambda>c. return (Some c))) (\<lambda>cursor.
     gets (\<lambda>w.
       let log_rows = take limit (log_rows_of user_id cursor w);
           inflow_rows = take limit (inflow_rows_of user_id cursor w)
       in page_of limit (log_items_of D w log_rows @ inflow_items_of inflow_rows)
            (length log_rows = limit \<or> length inflow_rows = limit)))"

section \<open>Merging the newest of two lists\<close>

lemma take_sorted_part:
  assumes "distinct L" and "set M \<subseteq> set L" and "set (take n L) \<subseteq> set M" and "M = filter (\<lambda>x. x \<in> set M) L"
  shows "take n M = take n L"
proof -
  have "M = filter (\<lambda>x. x \<in> set M) (take n L) @ filter (\<lambda>x. x \<in> set M) (drop n L)"
    using assms(4) by (metis append_take_drop_id filter_append)
  also have "filter (\<lambda>x. x \<in> set M) (take n L) = take n L" using assms(3) by (auto intro: filter_True)
  finally have M: "M = take n L @ filter (\<lambda>x. x \<in> set M) (drop n L)" .
  show ?thesis
  proof (cases "n \<le> length L")
    case True
    then have "length (take n L) = n" by simp
    then show ?thesis by (subst M) simp
  next
    case False
    then show ?thesis using M by simp
  qed
qed

lemma take_filter_part: "filter P (take n L) = take (length (filter P (take n L))) (filter P L)"
proof -
  have "filter P L = filter P (take n L) @ filter P (drop n L)" by (metis append_take_drop_id filter_append)
  then show ?thesis by simp
qed

lemma merge_takes:
  fixes key :: "'a \<Rightarrow> 'k :: linorder"
  assumes inj: "inj_on key (set (xs @ ys))" and d: "distinct (xs @ ys)"
    and xs: "sorted (map key xs)" and ys: "sorted (map key ys)"
  shows "take n (sort_key key (take n xs @ take n ys)) = take n (sort_key key (xs @ ys))"
proof -
  define L where "L = sort_key key (xs @ ys)"
  define M where "M = sort_key key (take n xs @ take n ys)"
  have L: "distinct L" "set L = set (xs @ ys)" "sorted (map key L)" using d by (auto simp: L_def)
  have sub: "set M \<subseteq> set L" by (auto simp: L(2) M_def dest: in_set_takeD)
  have uniq: "sort_key key zs = filter (\<lambda>x. x \<in> set zs) L" if "distinct zs" "set zs \<subseteq> set L" for zs
  proof (rule sort_key_inj_key_eq)
    show "mset zs = mset (filter (\<lambda>x. x \<in> set zs) L)"
      using that L(1) by (subst set_eq_iff_mset_eq_distinct[symmetric]) auto
    show "inj_on key (set zs)" using inj that(2) L(2) inj_on_subset by metis
    show "sorted (map key (filter (\<lambda>x. x \<in> set zs) L))" using L(3) by (rule sorted_filter)
  qed
  have dM: "distinct (take n xs @ take n ys)" using d by (auto dest: in_set_takeD)
  have sM: "set M = set (take n xs @ take n ys)" by (simp add: M_def)
  then have "set (take n xs @ take n ys) \<subseteq> set L" using sub by simp
  from uniq[OF dM this] have M: "M = filter (\<lambda>x. x \<in> set M) L" unfolding sM by (simp only: M_def)
  have part: "set (filter (\<lambda>x. x \<in> set zs) (take n L)) \<subseteq> set (take n zs)"
    if zs: "distinct zs" "set zs \<subseteq> set L" "sorted (map key zs)" for zs
  proof -
    have "zs = filter (\<lambda>x. x \<in> set zs) L"
      using uniq[OF zs(1,2)] zs(3) by (simp add: sort_key_id_if_sorted)
    then have "filter (\<lambda>x. x \<in> set zs) (take n L) = take (length (filter (\<lambda>x. x \<in> set zs) (take n L))) zs"
      using take_filter_part[of "\<lambda>x. x \<in> set zs" n L] by simp
    moreover have "length (filter (\<lambda>x. x \<in> set zs) (take n L)) \<le> n"
      by (rule order_trans[OF length_filter_le]) simp
    ultimately show ?thesis by (metis set_take_subset_set_take)
  qed
  have "set (take n L) \<subseteq> set M"
  proof
    fix x
    assume x: "x \<in> set (take n L)"
    then have "x \<in> set xs \<or> x \<in> set ys" using L(2) by (auto dest: in_set_takeD)
    then show "x \<in> set M" using part[of xs] part[of ys] x d xs ys L(2) by (auto simp: M_def)
  qed
  with take_sorted_part[OF L(1) sub _ M] show ?thesis by (simp add: L_def M_def)
qed

lemma rest_of_sorted:
  fixes key :: "'a \<Rightarrow> 'k :: linorder"
  assumes "sorted (map key L)" and "inj_on key (set L)" and "distinct L" and "take n L \<noteq> []"
  shows "filter (\<lambda>i. key (last (take n L)) < key i) L = drop n L"
proof -
  let ?z = "last (take n L)"
  have z: "?z \<in> set (take n L)" using assms(4) by (rule last_in_set)
  have sorted: "sorted (map key (take n L @ drop n L))" using assms(1) by simp
  then have le: "key x \<le> key y" if "x \<in> set (take n L)" "y \<in> set (drop n L)" for x y
    using that by (simp only: map_append sorted_append) auto
  have "key y \<le> key ?z" if "y \<in> set (take n L)" for y
  proof -
    have "sorted (map key (take n L))" using sorted by (simp only: map_append sorted_append)
    then have "sorted (map key (butlast (take n L) @ [?z]))" by (simp only: append_butlast_last_id[OF assms(4)])
    then have "\<forall>x\<in>set (butlast (take n L)). key x \<le> key ?z" by (simp add: sorted_append)
    moreover have "y \<in> set (butlast (take n L)) \<or> y = ?z"
      using that assms(4) append_butlast_last_id[of "take n L"] by (metis in_set_conv_decomp set_ConsD append_Nil Un_iff set_append list.set(1) empty_iff insert_iff list.simps(15))
    ultimately show ?thesis by auto
  qed
  then have "filter (\<lambda>i. key ?z < key i) (take n L) = []" by (auto simp: filter_empty_conv not_less)
  moreover have "filter (\<lambda>i. key ?z < key i) (drop n L) = drop n L"
  proof (rule filter_True, rule ballI)
    fix y
    assume y: "y \<in> set (drop n L)"
    have "?z \<noteq> y" using z y assms(3) set_take_disj_set_drop_if_distinct[of L n n] by auto
    then have "key ?z \<noteq> key y"
      using assms(2) z y by (meson in_set_dropD in_set_takeD inj_onD)
    then show "key ?z < key y" using le[OF z y] by simp
  qed
  ultimately show ?thesis
    by (metis append_Nil append_take_drop_id filter_append)
qed

section \<open>Following the cursors\<close>

text \<open>What a client does that reads the whole feed: it asks for the next page until there is no
  cursor. Nothing in the code bounds the number of pages.\<close>

partial_function (option) all_pages :: "decimals \<Rightarrow> id \<Rightarrow> nat \<Rightarrow> cursor option \<Rightarrow> world \<Rightarrow> activity_item list option" where
  "all_pages D user_id limit c w =
     (case getPage D user_id (map_option Some c) limit w of
        (Inl _, _) \<Rightarrow> None
      | (Inr (items, next), w') \<Rightarrow>
          (case next of
             None \<Rightarrow> Some items
           | Some c' \<Rightarrow> Option.bind (all_pages D user_id limit (Some c') w') (\<lambda>rest. Some (items @ rest))))"

definition log_feed :: "decimals \<Rightarrow> id \<Rightarrow> world \<Rightarrow> activity_item list" where
  "log_feed D user_id w = log_items_of D w (log_rows_of user_id None w)"

definition inflow_feed :: "id \<Rightarrow> world \<Rightarrow> activity_item list" where
  "inflow_feed user_id w = inflow_items_of (inflow_rows_of user_id None w)"

definition feed :: "decimals \<Rightarrow> id \<Rightarrow> world \<Rightarrow> activity_item list" where
  "feed D user_id w = sort_key item_key (log_feed D user_id w @ inflow_feed user_id w)"

definition no_ties :: "id \<Rightarrow> world \<Rightarrow> bool" where
  "no_ties user_id w \<longleftrightarrow> (\<forall>r\<in>set (log_rows_of user_id None w). \<forall>i\<in>set (inflow_rows_of user_id None w).
     sl_created_at r \<noteq> in_created_at i)"

definition newer :: "cursor option \<Rightarrow> activity_item \<Rightarrow> bool" where
  "newer c i \<longleftrightarrow> before_cursor c (ai_occurred_at i) (ai_row_id i)"

lemma log_items_map:
  "list_all (\<lambda>r. REASON_TO_TYPE (sl_reason_code r) \<noteq> None) rows \<Longrightarrow>
   log_items_of D w rows = map (\<lambda>r. buildLogItem D w r (the (REASON_TO_TYPE (sl_reason_code r)))) rows"
  by (induction rows) (auto simp: log_items_of_def map_filter_simps)

lemma built [simp]:
  "ai_source (buildLogItem D w r ty) = from_log" "ai_row_id (buildLogItem D w r ty) = sl_id r"
  "ai_occurred_at (buildLogItem D w r ty) = sl_created_at r"
  "ai_source (buildInflowItem i) = from_inflow" "ai_row_id (buildInflowItem i) = in_id i"
  "ai_occurred_at (buildInflowItem i) = in_created_at i"
  by (simp_all add: buildLogItem_def buildInflowItem_def Let_def split: prod.split)

lemma log_rows_from:
  "log_rows_of u c w = filter (\<lambda>r. before_cursor c (sl_created_at r) (sl_id r)) (log_rows_of u None w)"
  by (simp add: log_rows_of_def filter_sort before_cursor_def[of None] conj_ac)

lemma inflow_rows_from:
  "inflow_rows_of u c w = filter (\<lambda>r. before_cursor c (in_created_at r) (in_id r)) (inflow_rows_of u None w)"
  by (simp add: inflow_rows_of_def filter_sort before_cursor_def[of None] conj_ac)

lemma log_rows_shown: "list_all (\<lambda>r. REASON_TO_TYPE (sl_reason_code r) \<noteq> None) (log_rows_of u c w)"
  by (simp add: log_rows_of_def list_all_iff)

lemma log_feed_from: "log_items_of D w (log_rows_of u c w) = filter (newer c) (log_feed D u w)"
  unfolding log_items_map[OF log_rows_shown] log_feed_def
  by (simp add: log_rows_from[of u c] filter_map o_def newer_def)

lemma inflow_feed_from: "inflow_items_of (inflow_rows_of u c w) = filter (newer c) (inflow_feed u w)"
  by (simp add: inflow_feed_def inflow_items_of_def inflow_rows_from[of u c] filter_map o_def newer_def conj_commute)

lemma feeds_sorted: "sorted (map item_key (log_feed D u w))" "sorted (map item_key (inflow_feed u w))"
proof -
  have "sorted (map (\<lambda>r. (- sl_created_at r, - int (sl_id r))) (log_rows_of u None w))" by (simp add: log_rows_of_def)
  then show "sorted (map item_key (log_feed D u w))"
    by (auto simp: log_feed_def log_items_map[OF log_rows_shown] item_key_def sorted_map elim!: sorted_wrt_mono_rel[rotated])
  have "sorted (map (\<lambda>r. (- in_created_at r, - int (in_id r))) (inflow_rows_of u None w))" by (simp add: inflow_rows_of_def)
  then show "sorted (map item_key (inflow_feed u w))"
    by (auto simp: inflow_feed_def inflow_items_of_def item_key_def sorted_map sorted_wrt_map
        elim!: sorted_wrt_mono_rel[rotated] intro!: sorted_wrt_filter)
qed

lemma log_feed_map:
  "log_feed D u w = map (\<lambda>r. buildLogItem D w r (the (REASON_TO_TYPE (sl_reason_code r)))) (log_rows_of u None w)"
  unfolding log_feed_def by (rule log_items_map[OF log_rows_shown])

lemma row_ids:
  assumes "wf_table status_log_table w" "wf_table inflow_table w"
  shows "distinct (map ai_row_id (log_feed D u w))" "distinct (map ai_row_id (inflow_feed u w))"
proof -
  have sorted: "distinct (map f (sort_key g xs)) \<longleftrightarrow> distinct (map f xs)" for f :: "'a \<Rightarrow> nat" and g :: "'a \<Rightarrow> 'k::linorder" and xs
    by (simp add: distinct_map)
  have "distinct (map sl_id (status_logs (w_db w)))" "distinct (map in_id (inflows (w_db w)))"
    using assms by (simp_all add: wf_table_def unique_keys_def table_rows)
  then show "distinct (map ai_row_id (log_feed D u w))" "distinct (map ai_row_id (inflow_feed u w))"
    by (simp_all add: log_feed_map inflow_feed_def inflow_items_of_def o_def
        log_rows_of_def inflow_rows_of_def sorted distinct_map_filter)
qed

lemma feed_sources: "i \<in> set (log_feed D u w) \<Longrightarrow> ai_source i = from_log" "i \<in> set (inflow_feed u w) \<Longrightarrow> ai_source i = from_inflow"
  by (auto simp: log_feed_def log_items_map[OF log_rows_shown] inflow_feed_def inflow_items_of_def)

lemma feeds_keyed:
  assumes "wf_table status_log_table w" "wf_table inflow_table w"
  shows "distinct (log_feed D u w @ inflow_feed u w)" "inj_on item_key (set (log_feed D u w @ inflow_feed u w))"
proof -
  note ids = row_ids(1)[OF assms, of D u] row_ids(2)[OF assms, of u]
  note sources = feed_sources(1)[of _ D u w] feed_sources(2)[of _ u w]
  show "distinct (log_feed D u w @ inflow_feed u w)"
    using ids sources by (fastforce simp: distinct_map)
  show "inj_on item_key (set (log_feed D u w @ inflow_feed u w))"
  proof (rule inj_onI)
    fix i j
    assume i: "i \<in> set (log_feed D u w @ inflow_feed u w)" and j: "j \<in> set (log_feed D u w @ inflow_feed u w)"
      and k: "item_key i = item_key j"
    have "ai_row_id i = ai_row_id j" using k by (simp add: item_key_def)
    moreover have "i \<in> set (log_feed D u w) \<and> j \<in> set (log_feed D u w) \<or> i \<in> set (inflow_feed u w) \<and> j \<in> set (inflow_feed u w)"
      using i j k sources by (auto simp: item_key_def)
    ultimately show "i = j" using ids by (auto simp: distinct_map inj_on_def)
  qed
qed

lemma times_apart:
  assumes "no_ties u w" and "i \<in> set (log_feed D u w)" and "j \<in> set (inflow_feed u w)"
  shows "ai_occurred_at i \<noteq> ai_occurred_at j"
  using assms by (auto simp: no_ties_def log_feed_def log_items_map[OF log_rows_shown] inflow_feed_def inflow_items_of_def)

lemma newer_iff:
  assumes "no_ties u w" and "x \<in> set (log_feed D u w @ inflow_feed u w)" and "i \<in> set (log_feed D u w @ inflow_feed u w)"
  shows "newer (Some (cursor_of x)) i \<longleftrightarrow> item_key x < item_key i"
  using assms(2,3) times_apart[OF assms(1), of _ D] times_apart[OF assms(1), of _ D, THEN not_sym] feed_sources(1)[of _ D u w] feed_sources(2)[of _ u w]
  by (auto simp: newer_def before_cursor_def cursor_of_def item_key_def less_prod_def)

lemma getPage_run:
  assumes "list_all (\<lambda>i. \<not> untrusted i) (inflow_rows_of u None w)"
  shows "getPage D u (map_option Some c) limit w =
    (Inr (page_of limit (take limit (filter (newer c) (log_feed D u w)) @ take limit (filter (newer c) (inflow_feed u w)))
      (length (take limit (filter (newer c) (log_feed D u w))) = limit \<or>
       length (take limit (filter (newer c) (inflow_feed u w))) = limit)), w)"
proof -
  have "list_all (\<lambda>r. REASON_TO_TYPE (sl_reason_code r) \<noteq> None) (take limit (log_rows_of u c w))"
    using log_rows_shown[of u c w] by (auto simp: list_all_iff dest: in_set_takeD)
  from log_items_map[OF this, of D w] log_items_map[OF log_rows_shown[of u c w], of D w]
  have logs: "log_items_of D w (take limit (log_rows_of u c w)) = take limit (filter (newer c) (log_feed D u w))"
    "length (take limit (log_rows_of u c w)) = length (take limit (filter (newer c) (log_feed D u w)))"
    unfolding log_feed_from[symmetric] by (simp_all add: take_map)
  have "\<not> untrusted i" if "i \<in> set (inflow_rows_of u c w)" for i
    using assms that by (auto simp: inflow_rows_from[of u c] list_all_iff)
  then have "filter (\<lambda>i. \<not> untrusted i) (inflow_rows_of u c w) = inflow_rows_of u c w"
    "filter (\<lambda>i. \<not> untrusted i) (take limit (inflow_rows_of u c w)) = take limit (inflow_rows_of u c w)"
    by (auto intro!: filter_True dest: in_set_takeD)
  then have inflows: "inflow_items_of (take limit (inflow_rows_of u c w)) = take limit (filter (newer c) (inflow_feed u w))"
    "length (take limit (inflow_rows_of u c w)) = length (take limit (filter (newer c) (inflow_feed u w)))"
    unfolding inflow_feed_from[symmetric] by (simp_all add: inflow_items_of_def take_map)
  show ?thesis
    unfolding logs(2)[symmetric] inflows(2)[symmetric] unfolding logs(1)[symmetric] inflows(1)[symmetric]
    by (cases c) (simp_all add: getPage_def run_defs)
qed

lemma page_of_sorted:
  assumes inj: "inj_on item_key (set (xs @ ys))" and d: "distinct (xs @ ys)"
    and xs: "sorted (map item_key xs)" and ys: "sorted (map item_key ys)" and limit: "0 < limit"
  shows "(\<exists>next. page_of limit (take limit xs @ take limit ys)
      (length (take limit xs) = limit \<or> length (take limit ys) = limit) =
      (take limit (sort_key item_key (xs @ ys)), next) \<and>
      (case next of None \<Rightarrow> length (sort_key item_key (xs @ ys)) \<le> limit
       | Some c \<Rightarrow> take limit (sort_key item_key (xs @ ys)) \<noteq> [] \<and>
           c = cursor_of (last (take limit (sort_key item_key (xs @ ys))))))"
proof -
  let ?m = "sort_key item_key (take limit xs @ take limit ys)"
  let ?full = "length (take limit xs) = limit \<or> length (take limit ys) = limit"
  note page = merge_takes[OF inj d xs ys, of limit]
  have "length (sort_key item_key (xs @ ys)) \<le> limit" if "\<not> (limit < length ?m \<or> ?full)"
  proof -
    have "take limit xs = xs" "take limit ys = ys" using that by (auto simp: min_def split: if_splits)
    then show ?thesis using that by simp
  qed
  moreover have "take limit (sort_key item_key (xs @ ys)) = [] \<Longrightarrow> length (sort_key item_key (xs @ ys)) \<le> limit"
    using limit by simp
  ultimately show ?thesis unfolding page_of_def Let_def page by auto
qed

lemma all_pages_rest:
  assumes wf: "wf_table status_log_table w" "wf_table inflow_table w" and ties: "no_ties u w"
    and trusted: "list_all (\<lambda>i. \<not> untrusted i) (inflow_rows_of u None w)" and limit: "0 < limit"
  shows "(case c of None \<Rightarrow> True | Some k \<Rightarrow> \<exists>x\<in>set (feed D u w). k = cursor_of x) \<Longrightarrow>
    all_pages D u limit c w = Some (filter (newer c) (feed D u w))"
proof (induction "length (filter (newer c) (feed D u w))" arbitrary: c rule: less_induct)
  case less
  let ?F = "feed D u w" and ?xs = "filter (newer c) (log_feed D u w)" and ?ys = "filter (newer c) (inflow_feed u w)"
  let ?R = "filter (newer c) ?F"
  have R: "?R = sort_key item_key (?xs @ ?ys)" by (simp add: feed_def filter_sort)
  have set_F: "set ?F = set (log_feed D u w @ inflow_feed u w)" by (simp add: feed_def)
  have inj: "inj_on item_key (set (?xs @ ?ys))" "inj_on item_key (set ?R)"
    by (rule inj_on_subset[OF feeds_keyed(2)[OF wf, of D u]], use set_F in force)+
  have d: "distinct (?xs @ ?ys)" using feeds_keyed(1)[OF wf, of D u] by auto
  have sorted: "sorted (map item_key ?xs)" "sorted (map item_key ?ys)"
    by (rule sorted_filter, rule feeds_sorted)+
  obtain "next" where page: "page_of limit (take limit ?xs @ take limit ?ys)
      (length (take limit ?xs) = limit \<or> length (take limit ?ys) = limit) = (take limit ?R, next)"
    and n: "case next of None \<Rightarrow> length ?R \<le> limit
       | Some c \<Rightarrow> take limit ?R \<noteq> [] \<and> c = cursor_of (last (take limit ?R))"
    using page_of_sorted[OF inj(1) d sorted limit] unfolding R by blast
  have run: "getPage D u (map_option Some c) limit w = (Inr (take limit ?R, next), w)"
    using getPage_run[OF trusted, of D c limit] page by simp
  show ?case
  proof (cases "next")
    case None
    then show ?thesis using n run by (subst all_pages.simps) simp
  next
    case (Some k)
    let ?z = "last (take limit ?R)"
    have ne: "take limit ?R \<noteq> []" and k: "k = cursor_of ?z" using n Some by auto
    have z: "?z \<in> set ?R" using last_in_set[OF ne] by (rule in_set_takeD)
    then have zF: "?z \<in> set ?F" by simp
    have newer_z: "newer (Some k) i \<longleftrightarrow> item_key ?z < item_key i" if "i \<in> set ?F" for i
      using newer_iff[OF ties, of ?z D i] that zF unfolding k set_F by blast
    have older: "newer c i" if "i \<in> set ?F" "item_key ?z < item_key i" for i
    proof (cases c)
      case (Some k0)
      then obtain x where x: "x \<in> set ?F" "k0 = cursor_of x" using less.prems by auto
      have "item_key x < item_key ?z" using newer_iff[OF ties, of x D ?z] z x zF Some unfolding set_F by auto
      then show ?thesis using newer_iff[OF ties, of x D i] x that Some unfolding set_F by auto
    qed (simp add: newer_def before_cursor_def)
    have "filter (newer (Some k)) ?F = filter (\<lambda>i. item_key ?z < item_key i) ?R"
      unfolding filter_filter using newer_z older by (intro filter_cong refl) blast
    also have "\<dots> = drop limit ?R"
    proof (rule rest_of_sorted[OF _ inj(2) _ ne])
      show "sorted (map item_key ?R)" unfolding R by simp
      show "distinct ?R" unfolding R using d by (simp only: distinct_sort)
    qed
    finally have rest: "filter (newer (Some k)) ?F = drop limit ?R" .
    have "length (drop limit ?R) < length ?R" using ne limit by (cases "?R = []") auto
    then have "all_pages D u limit (Some k) w = Some (drop limit ?R)"
      using less.hyps[of "Some k"] k zF rest by auto
    then show ?thesis using run Some by (subst all_pages.simps) simp
  qed
qed

text \<open>Untrusted inflows are sifted out of a page after the page was cut, so in general a page shows the newest loan events and
  some of the newest trusted inflows.\<close>

lemma getPage_any:
  "\<exists>m b. m \<le> limit \<and> getPage D u (map_option Some c) limit w =
    (Inr (page_of limit (take limit (filter (newer c) (log_feed D u w)) @ take m (filter (newer c) (inflow_feed u w)))
      (length (take limit (filter (newer c) (log_feed D u w))) = limit \<or> b)), w)"
proof -
  let ?rows = "inflow_rows_of u c w" and ?trusted = "\<lambda>i. \<not> untrusted i"
  let ?m = "length (filter ?trusted (take limit ?rows))"
  have "list_all (\<lambda>r. REASON_TO_TYPE (sl_reason_code r) \<noteq> None) (take limit (log_rows_of u c w))"
    using log_rows_shown[of u c w] by (auto simp: list_all_iff dest: in_set_takeD)
  from log_items_map[OF this, of D w] log_items_map[OF log_rows_shown[of u c w], of D w]
  have logs: "log_items_of D w (take limit (log_rows_of u c w)) = take limit (filter (newer c) (log_feed D u w))"
    "length (take limit (log_rows_of u c w)) = length (take limit (filter (newer c) (log_feed D u w)))"
    unfolding log_feed_from[symmetric] by (simp_all add: take_map)
  have "inflow_items_of (take limit ?rows) = map buildInflowItem (take ?m (filter ?trusted ?rows))"
    unfolding inflow_items_of_def by (rule arg_cong[OF take_filter_part])
  then have inflows: "inflow_items_of (take limit ?rows) = take ?m (filter (newer c) (inflow_feed u w))"
    unfolding inflow_feed_from[symmetric] by (simp add: inflow_items_of_def take_map)
  have "?m \<le> length (take limit ?rows)" by (rule length_filter_le)
  then have "?m \<le> limit" by simp
  moreover have "getPage D u (map_option Some c) limit w =
    (Inr (page_of limit (take limit (filter (newer c) (log_feed D u w)) @ take ?m (filter (newer c) (inflow_feed u w)))
      (length (take limit (filter (newer c) (log_feed D u w))) = limit \<or> length (take limit ?rows) = limit)), w)"
    unfolding logs(2)[symmetric] unfolding logs(1)[symmetric] inflows[symmetric]
    by (cases c) (simp_all add: getPage_def run_defs)
  ultimately show ?thesis by blast
qed

lemma page_of_short:
  assumes inj: "inj_on item_key (set (xs @ ys))" and d: "distinct (xs @ ys)"
    and xs: "sorted (map item_key xs)" and ys: "sorted (map item_key ys)" "length ys \<le> limit"
  shows "\<exists>next. page_of limit (take limit xs @ ys) (length (take limit xs) = limit \<or> b) = (take limit (sort_key item_key (xs @ ys)), next) \<and>
    (case next of None \<Rightarrow> length (sort_key item_key (xs @ ys)) \<le> limit \<or> take limit (sort_key item_key (xs @ ys)) = []
     | Some c \<Rightarrow> take limit (sort_key item_key (xs @ ys)) \<noteq> [] \<and> c = cursor_of (last (take limit (sort_key item_key (xs @ ys)))))"
proof -
  have "take limit ys = ys" using ys(2) by simp
  with merge_takes[OF inj d xs ys(1), of limit]
  have page: "take limit (sort_key item_key (take limit xs @ ys)) = take limit (sort_key item_key (xs @ ys))" by simp
  have "length (sort_key item_key (xs @ ys)) \<le> limit"
    if "\<not> (limit < length (sort_key item_key (take limit xs @ ys)) \<or> length (take limit xs) = limit \<or> b)"
    using that by (auto simp: min_def split: if_splits)
  then show ?thesis unfolding page_of_def Let_def page by auto
qed

lemma all_pages_events:
  assumes wf: "wf_table status_log_table w" "wf_table inflow_table w" and ties: "no_ties u w" and limit: "0 < limit"
  shows "(case c of None \<Rightarrow> True | Some k \<Rightarrow> \<exists>x\<in>set (feed D u w). k = cursor_of x) \<Longrightarrow>
    \<exists>items. all_pages D u limit c w = Some items \<and> sorted (map item_key items) \<and> distinct items \<and>
      set items \<subseteq> set (filter (newer c) (feed D u w)) \<and> set (filter (newer c) (log_feed D u w)) \<subseteq> set items"
proof (induction "length (filter (newer c) (feed D u w))" arbitrary: c rule: less_induct)
  case less
  let ?F = "feed D u w" and ?xs = "filter (newer c) (log_feed D u w)"
  have set_F: "set ?F = set (log_feed D u w @ inflow_feed u w)" by (simp add: feed_def)
  obtain m b where m: "m \<le> limit" and get: "getPage D u (map_option Some c) limit w =
      (Inr (page_of limit (take limit ?xs @ take m (filter (newer c) (inflow_feed u w))) (length (take limit ?xs) = limit \<or> b)), w)"
    using getPage_any[of limit D u c w] by blast
  define ys where "ys = take m (filter (newer c) (inflow_feed u w))"
  define R where "R = sort_key item_key (?xs @ ys)"
  have ys: "set ys \<subseteq> set (filter (newer c) (inflow_feed u w))" "length ys \<le> limit"
    using m by (auto simp: ys_def dest: in_set_takeD)
  have R: "set R \<subseteq> set (filter (newer c) ?F)" "set ?xs \<subseteq> set R" using ys(1) by (auto simp: R_def set_F)
  have inj: "inj_on item_key (set (?xs @ ys))"
    by (rule inj_on_subset[OF feeds_keyed(2)[OF wf, of D u]]) (use ys(1) in auto)
  have d: "distinct (?xs @ ys)" using feeds_keyed(1)[OF wf, of D u] ys(1) by (auto simp: ys_def)
  have sorted: "sorted (map item_key ?xs)" "sorted (map item_key ys)"
    unfolding ys_def take_map[symmetric] by (rule sorted_filter, rule feeds_sorted) (rule sorted_wrt_take, rule sorted_filter, rule feeds_sorted)
  have R': "sorted (map item_key R)" "distinct R" "inj_on item_key (set R)" using d inj by (simp_all add: R_def)
  obtain "next" where page: "getPage D u (map_option Some c) limit w = (Inr (take limit R, next), w)"
    and n: "case next of None \<Rightarrow> length R \<le> limit \<or> take limit R = []
       | Some c \<Rightarrow> take limit R \<noteq> [] \<and> c = cursor_of (last (take limit R))"
    using page_of_short[OF inj d sorted ys(2), of b] get unfolding R_def ys_def by metis
  have front: "sorted (map item_key (take limit R))" "distinct (take limit R)" "set (take limit R) \<subseteq> set (filter (newer c) ?F)"
    using R'(1,2) R(1) by (auto simp: sorted_wrt_take simp flip: take_map dest: in_set_takeD)
  show ?case
  proof (cases "next")
    case None
    then have "take limit R = R" using n limit by auto
    then show ?thesis using None page front R(2) by (subst all_pages.simps) auto
  next
    case (Some k)
    let ?z = "last (take limit R)"
    have ne: "take limit R \<noteq> []" and k: "k = cursor_of ?z" using n Some by auto
    have z: "?z \<in> set (filter (newer c) ?F)" using last_in_set[OF ne] front(3) by blast
    then have zF: "?z \<in> set ?F" by simp
    have newer_z: "newer (Some k) i \<longleftrightarrow> item_key ?z < item_key i" if "i \<in> set ?F" for i
      using newer_iff[OF ties, of ?z D i] that zF unfolding k set_F by blast
    have older: "newer c i" if "i \<in> set ?F" "item_key ?z < item_key i" for i
    proof (cases c)
      case (Some k0)
      then obtain x where x: "x \<in> set ?F" "k0 = cursor_of x" using less.prems by auto
      have "item_key x < item_key ?z" using newer_iff[OF ties, of x D ?z] z x zF Some unfolding set_F by auto
      then show ?thesis using newer_iff[OF ties, of x D i] x that Some unfolding set_F by auto
    qed (simp add: newer_def before_cursor_def)
    have "filter (newer (Some k)) ?F = filter (newer (Some k)) (filter (newer c) ?F)"
      unfolding filter_filter using newer_z older by (intro filter_cong refl) blast
    moreover have "length (filter (newer (Some k)) (filter (newer c) ?F)) < length (filter (newer c) ?F)"
      by (rule length_filter_less[OF z]) (simp add: newer_z[OF zF])
    ultimately have "length (filter (newer (Some k)) ?F) < length (filter (newer c) ?F)" by simp
    then obtain rest where rest: "all_pages D u limit (Some k) w = Some rest" "sorted (map item_key rest)" "distinct rest"
      "set rest \<subseteq> set (filter (newer (Some k)) ?F)" "set (filter (newer (Some k)) (log_feed D u w)) \<subseteq> set rest"
      using less.hyps[of "Some k"] k zF by auto
    have last: "item_key y \<le> item_key ?z" if "y \<in> set (take limit R)" for y
    proof -
      have "y \<notin> set (drop limit R)" using that R'(2) set_take_disj_set_drop_if_distinct[of R limit limit] by auto
      then have "y \<notin> set (filter (\<lambda>i. item_key ?z < item_key i) R)" using rest_of_sorted[OF R'(1,3,2) ne] by simp
      then show ?thesis using that by (auto dest: in_set_takeD)
    qed
    have after: "item_key ?z < item_key y" if "y \<in> set rest" for y using that rest(4) newer_z by auto
    have apart: "item_key x < item_key y" if "x \<in> set (take limit R)" "y \<in> set rest" for x y
      using last[OF that(1)] after[OF that(2)] by (rule order.strict_trans1)
    have "sorted (map item_key (take limit R @ rest))"
      unfolding map_append sorted_append using front(1) rest(2) apart by (auto intro: order.strict_implies_order)
    moreover have "distinct (take limit R @ rest)" using front(2) rest(3) apart by fastforce
    moreover have "set (take limit R @ rest) \<subseteq> set (filter (newer c) ?F)" using front(3) rest(4) older newer_z by auto
    moreover have "set ?xs \<subseteq> set (take limit R @ rest)"
    proof
      fix x assume x: "x \<in> set ?xs"
      then have "x \<in> set R" using R(2) by blast
      then have "x \<in> set (take limit R) \<or> x \<in> set (drop limit R)" by (metis Un_iff append_take_drop_id set_append)
      moreover have "x \<in> set rest" if "x \<in> set (drop limit R)"
      proof -
        have "item_key ?z < item_key x" using that rest_of_sorted[OF R'(1,3,2) ne] by (metis (mono_tags, lifting) mem_Collect_eq set_filter)
        moreover have "x \<in> set ?F" using x set_F by auto
        ultimately show ?thesis using rest(5) x newer_z by auto
      qed
      ultimately show "x \<in> set (take limit R @ rest)" by auto
    qed
    ultimately show ?thesis using page Some rest(1) by (subst all_pages.simps) simp
  qed
qed

text \<open>C25. Reading the feed page by page ends and shows every loan event once. Suppose no loan event happened in the same
  instant as an unmatched inflow of the customer arrived. Then a client that follows the cursors, with whatever positive page
  size, gets to a last page, and the pages put together are newest first, show nothing twice, show only loan events and trusted
  unmatched inflows of the customer, and miss no loan event; if none of the customer's unmatched inflows is untrusted
  they miss no inflow either.\<close>

theorem pages_show_everything_once:
  assumes "wf_table status_log_table w" and "wf_table inflow_table w" and "no_ties u w" and "0 < limit"
  shows "\<exists>items. all_pages D u limit None w = Some items \<and> sorted (map item_key items) \<and> distinct items \<and>
    set items \<subseteq> set (log_feed D u w) \<union> set (inflow_feed u w) \<and> set (log_feed D u w) \<subseteq> set items \<and>
    (list_all (\<lambda>i. \<not> untrusted i) (inflow_rows_of u None w) \<longrightarrow> mset items = mset (log_feed D u w) + mset (inflow_feed u w))"
proof -
  have all: "filter (newer None) xs = xs" for xs by (simp add: newer_def before_cursor_def)
  obtain items where items: "all_pages D u limit None w = Some items" "sorted (map item_key items)" "distinct items"
    "set items \<subseteq> set (feed D u w)" "set (log_feed D u w) \<subseteq> set items"
    using all_pages_events[OF assms, where c = None and D = D] by (auto simp: all)
  moreover have "mset items = mset (log_feed D u w) + mset (inflow_feed u w)"
    if "list_all (\<lambda>i. \<not> untrusted i) (inflow_rows_of u None w)"
    using all_pages_rest[OF assms(1-3) that assms(4), where c = None and D = D] items(1) by (simp add: all feed_def)
  ultimately show ?thesis by (auto simp: feed_def)
qed

text \<open>Untrusted inflows hide the trusted ones: the inflows of a page are taken before the
  untrusted ones are sifted out, so when the newest of a customer's unmatched inflows fill a
  page and are all untrusted, and there is no loan event, the feed ends with an empty first
  page, whatever older inflows the customer could claim.\<close>

theorem untrusted_inflows_end_the_feed:
  assumes "log_rows_of u None w = []" and "inflow_rows_of u None w = hidden @ older"
    and "length hidden = limit" and "list_all untrusted hidden"
  shows "getPage D u None limit w = (Inr ([], None), w) \<and> all_pages D u limit None w = Some []"
proof -
  have "filter (\<lambda>i. \<not> untrusted i) (take limit (inflow_rows_of u None w)) = []"
    using assms(2-4) by (auto simp: filter_empty_conv list_all_iff)
  then have "getPage D u None limit w = (Inr ([], None), w)"
    using assms(1) by (simp add: getPage_def run_defs log_items_of_def inflow_items_of_def page_of_def map_filter_simps)
  then show ?thesis by (subst all_pages.simps) simp
qed

definition started_log :: status_log_row where
  "started_log = \<lparr>sl_id = 1, sl_loan_id = 9, sl_user_id = 7, sl_from_status = None,
     sl_to_status = LoanStatus.PENDING_COLLATERAL, sl_triggered_by = CUSTOMER, sl_triggered_by_id = None,
     sl_reason_code = LOAN_CREATED, sl_reason_detail = None, sl_metadata = [], sl_created_at = 500\<rparr>"

definition feed_world :: "status_log_row list \<Rightarrow> inflow_row list \<Rightarrow> world" where
  "feed_world logs ins = empty_world\<lparr>w_db := empty_db\<lparr>status_logs := logs, inflows := ins, next_id := 50\<rparr>\<rparr>"

definition late_inflow :: "id \<Rightarrow> time \<Rightarrow> inflow_row" where
  "late_inflow i t = naira_inflow\<lparr>in_id := i, in_provider_reference := show_nat i, in_created_at := t\<rparr>"

lemmas feed_world_defs = feed_world_def late_inflow_def naira_inflow_def started_log_def empty_world_def empty_db_def
  log_rows_of_def inflow_rows_of_def REASON_TO_TYPE_def before_cursor_def untrusted_def

theorem pages_show_everything_once_witness:
  "\<exists>items. all_pages js_decimals 7 1 None (feed_world [started_log] [late_inflow 2 600, late_inflow 3 700]) = Some items \<and>
     length items = 3 \<and> sorted (map item_key items) \<and> distinct items"
proof -
  let ?w = "feed_world [started_log] [late_inflow 2 600, late_inflow 3 700]"
  have wf: "wf_table status_log_table ?w" "wf_table inflow_table ?w" "no_ties 7 ?w"
    and trusted: "list_all (\<lambda>i. \<not> untrusted i) (inflow_rows_of 7 None ?w)"
    by (auto simp: wf_table_def unique_keys_def table_defs no_ties_def feed_world_defs show_nat.simps)
  from pages_show_everything_once[OF wf, of 1 js_decimals] trusted
  obtain items where items: "all_pages js_decimals 7 1 None ?w = Some items" "sorted (map item_key items)" "distinct items"
    "mset items = mset (log_feed js_decimals 7 ?w) + mset (inflow_feed 7 ?w)" by auto
  have "length items = length (log_feed js_decimals 7 ?w) + length (inflow_feed 7 ?w)"
    using items(4) by (metis size_mset size_union)
  also have "\<dots> = 3" by (simp add: log_feed_map inflow_feed_def inflow_items_of_def feed_world_defs)
  finally show ?thesis using items by blast
qed

theorem untrusted_inflows_end_the_feed_witness:
  "\<exists>doubtful. untrusted doubtful \<and> \<not> untrusted (late_inflow 2 600) \<and>
     all_pages js_decimals 7 1 None (feed_world [] [late_inflow 2 600, doubtful]) = Some []"
proof -
  define doubtful where "doubtful = (late_inflow 3 700)\<lparr>in_provider_response :=
    Some \<lparr>resp_unmatched_reason = Some credit_failed, resp_payer_name = None, resp_payer_bank_name = None\<rparr>\<rparr>"
  have "inflow_rows_of 7 None (feed_world [] [late_inflow 2 600, doubtful]) = [doubtful] @ [late_inflow 2 600]"
    by (simp add: doubtful_def feed_world_defs)
  moreover have "untrusted doubtful" "\<not> untrusted (late_inflow 2 600)"
    by (simp_all add: doubtful_def late_inflow_def naira_inflow_def untrusted_def)
  ultimately show ?thesis
    using untrusted_inflows_end_the_feed[of 7 "feed_world [] [late_inflow 2 600, doubtful]" "[doubtful]" "[late_inflow 2 600]" 1 js_decimals]
    by (auto simp: feed_world_def log_rows_of_def empty_db_def)
qed

end
