(* ===== verification/Me.thy ===== *)
theory Me
  imports Activity PriceFeed
begin

text \<open>
  \<open>modules/me/me.service.ts\<close>: the summary on a customer's home screen, computed from the loans,
  the rate and the unmatched inflows. The reads of one call are one snapshot of the database.
\<close>

datatype AttentionKind = ATT_LIQUIDATION_RISK | ATT_PENDING_COLLATERAL | ATT_AWAITING_RELEASE_ADDRESS

definition URGENCY :: "AttentionKind \<Rightarrow> int" where
  "URGENCY kind = (case kind of ATT_LIQUIDATION_RISK \<Rightarrow> 100 | ATT_PENDING_COLLATERAL \<Rightarrow> 80
     | ATT_AWAITING_RELEASE_ADDRESS \<Rightarrow> 30)"

record attention_card =
  at_loan_id :: id
  at_kind :: AttentionKind
  at_urgency :: int
  at_title :: string
  at_subtitle :: string
  at_expires_at :: "time option"

record me_summary =
  ms_outstanding_ngn :: string
  ms_daily_accrual_ngn :: string
  ms_active_loan_count :: nat
  ms_attention :: "attention_card list"
  ms_unmatched_inflow_count :: nat
  ms_unmatched_inflow_total_ngn :: string

definition loans_in :: "LoanStatus \<Rightarrow> id \<Rightarrow> world \<Rightarrow> loan_row list" where
  "loans_in status user_id w = filter (\<lambda>l. l_user_id l = user_id \<and> l_status l = status) (loans (w_db w))"

definition owed_by :: "decimals \<Rightarrow> loan_row \<Rightarrow> world \<Rightarrow> rat" where
  "owed_by D loan w = o_total_outstanding_ngn (outstanding_at D loan w)"

definition daily_interest :: "decimals \<Rightarrow> loan_row \<Rightarrow> world \<Rightarrow> rat" where
  "daily_interest D loan w =
     dmul D (o_principal_ngn (outstanding_at D loan w)) (ddiv D (of_nat (l_daily_interest_rate_bps loan)) 10000)"

definition decimal_sum :: "decimals \<Rightarrow> rat list \<Rightarrow> rat" where
  "decimal_sum D xs = foldl (dplus D) 0 xs"

definition invoice_expiry :: "loan_row list \<Rightarrow> world \<Rightarrow> id \<Rightarrow> time option" where
  "invoice_expiry pending w =
     map_of (rev (map (\<lambda>pr. (pr_source_id pr, pr_expires_at pr))
       (filter (\<lambda>pr. pr_source_type pr = SOURCE_LOAN \<and> pr_source_id pr \<in> l_id ` set pending \<and>
          pr_status pr = PaymentRequestStatus.PENDING) (payment_requests (w_db w)))))"

definition pending_card :: "(id \<Rightarrow> time option) \<Rightarrow> loan_row \<Rightarrow> attention_card" where
  "pending_card deadline loan =
     \<lparr>at_loan_id = l_id loan, at_kind = ATT_PENDING_COLLATERAL, at_urgency = URGENCY ATT_PENDING_COLLATERAL,
      at_title = ''Send '' @ formatSat (l_collateral_amount_sat loan) @ '' SAT'',
      at_subtitle = ''Pay to start your '' @ formatNgn (l_principal_ngn loan) @ '' loan'',
      at_expires_at = deadline (l_id loan)\<rparr>"

definition liquidation_risk :: "decimals \<Rightarrow> rate_pair \<Rightarrow> world \<Rightarrow> loan_row \<Rightarrow> bool" where
  "liquidation_risk D rate w loan \<longleftrightarrow>
     \<not> owed_by D loan w \<le> 0 \<and>
     ddiv D (dmul D (of_int (l_collateral_amount_sat loan)) (rp_buy rate)) SATS_PER_BTC
       < dmul D (owed_by D loan w) ALERT_THRESHOLD"

definition liquidation_card :: "loan_row \<Rightarrow> attention_card" where
  "liquidation_card loan =
     \<lparr>at_loan_id = l_id loan, at_kind = ATT_LIQUIDATION_RISK, at_urgency = URGENCY ATT_LIQUIDATION_RISK,
      at_title = ''Add collateral or repay'',
      at_subtitle = ''Bitcoin price has dropped '' @ dash @ '' your loan is at risk of liquidation'',
      at_expires_at = None\<rparr>"

definition release_card :: "loan_row \<Rightarrow> attention_card" where
  "release_card loan =
     \<lparr>at_loan_id = l_id loan, at_kind = ATT_AWAITING_RELEASE_ADDRESS, at_urgency = URGENCY ATT_AWAITING_RELEASE_ADDRESS,
      at_title = ''Set a Lightning address'',
      at_subtitle = ''Get your '' @ formatSat (l_collateral_amount_sat loan) @ '' SAT collateral back'',
      at_expires_at = None\<rparr>"

lemma cards [simp]:
  "at_kind (pending_card d l) = ATT_PENDING_COLLATERAL" "at_loan_id (pending_card d l) = l_id l"
  "at_kind (liquidation_card l) = ATT_LIQUIDATION_RISK" "at_loan_id (liquidation_card l) = l_id l"
  "at_kind (release_card l) = ATT_AWAITING_RELEASE_ADDRESS" "at_loan_id (release_card l) = l_id l"
  by (simp_all add: pending_card_def liquidation_card_def release_card_def)

lemma cards_split:
  "{c \<in> pending_card d ` P \<union> (liquidation_card ` R \<union> release_card ` Q). at_kind c = k} =
   (case k of ATT_PENDING_COLLATERAL \<Rightarrow> pending_card d ` P | ATT_LIQUIDATION_RISK \<Rightarrow> liquidation_card ` R
    | ATT_AWAITING_RELEASE_ADDRESS \<Rightarrow> release_card ` Q)"
  by (cases k) auto

text \<open>Most urgent first, then the sooner deadline; a card without one comes last.\<close>

definition card_key :: "attention_card \<Rightarrow> int \<times> nat \<times> int" where
  "card_key c = (- at_urgency c, case at_expires_at c of None \<Rightarrow> (1, 0) | Some t \<Rightarrow> (0, t))"

definition open_inflows :: "id \<Rightarrow> world \<Rightarrow> inflow_row list" where
  "open_inflows user_id w =
     filter (\<lambda>i. in_user_id i = Some user_id \<and> in_currency i = CUR_NGN \<and> \<not> in_is_matched i \<and>
       in_source_type i = None \<and> \<not> untrusted i) (inflows (w_db w))"

definition getSummary :: "decimals \<Rightarrow> id \<Rightarrow> me_summary service" where
  "getSummary D user_id =
     bind (gets (\<lambda>w. (loans_in LoanStatus.ACTIVE user_id w, loans_in LoanStatus.PENDING_COLLATERAL user_id w,
                      loans_in LoanStatus.REPAID user_id w, w))) (\<lambda>(active, pending, repaid, w).
     bind (if active = [] then return []
           else bind (getCurrentRate SAT_NGN) (\<lambda>rate.
                return (map liquidation_card (filter (liquidation_risk D rate w) active)))) (\<lambda>risks.
     return
       \<lparr>ms_outstanding_ngn = displayNgn (decimal_sum D (map (\<lambda>l. owed_by D l w) active)) ceil_mode,
        ms_daily_accrual_ngn = displayNgn (decimal_sum D (map (\<lambda>l. daily_interest D l w) active)) ceil_mode,
        ms_active_loan_count = length active,
        ms_attention = sort_key card_key
          (map (pending_card (invoice_expiry pending w)) pending @ risks @
           map release_card (filter (\<lambda>l. l_collateral_release_address l = None) repaid)),
        ms_unmatched_inflow_count = length (open_inflows user_id w),
        ms_unmatched_inflow_total_ngn =
          displayNgn (decimal_sum D (map in_amount (open_inflows user_id w))) ceil_mode\<rparr>))"

section \<open>The summary\<close>

definition cards_of :: "AttentionKind \<Rightarrow> me_summary \<Rightarrow> id set" where
  "cards_of kind s = at_loan_id ` {c \<in> set (ms_attention s). at_kind c = kind}"

text \<open>The home screen agrees with what it leads to: it counts exactly the inflows that the list of
  unmatched inflows shows, it asks for collateral for exactly the pending loans and for an
  address for exactly the repaid loans without one, it shows the most urgent card first, and
  reading it changes nothing.\<close>

theorem summary_agrees_with_lists:
  assumes "getSummary D u w = (Inr s, w')"
  shows "w' = w \<and> (\<exists>items. listUnmatchedInflowsForUser u w = (Inr items, w) \<and> ms_unmatched_inflow_count s = length items) \<and>
    cards_of ATT_PENDING_COLLATERAL s = l_id ` {l \<in> set (loans (w_db w)). l_user_id l = u \<and> l_status l = LoanStatus.PENDING_COLLATERAL} \<and>
    cards_of ATT_AWAITING_RELEASE_ADDRESS s =
      l_id ` {l \<in> set (loans (w_db w)). l_user_id l = u \<and> l_status l = LoanStatus.REPAID \<and> l_collateral_release_address l = None} \<and>
    cards_of ATT_LIQUIDATION_RISK s \<subseteq> l_id ` {l \<in> set (loans (w_db w)). l_user_id l = u \<and> l_status l = LoanStatus.ACTIVE} \<and>
    sorted (map card_key (ms_attention s))"
proof -
  let ?post = "\<lambda>s w'. w' = w \<and> ms_unmatched_inflow_count s = length (open_inflows u w) \<and>
    (\<exists>risky. set risky \<subseteq> set (loans_in LoanStatus.ACTIVE u w) \<and>
      ms_attention s = sort_key card_key
          (map (pending_card (invoice_expiry (loans_in LoanStatus.PENDING_COLLATERAL u w) w))
             (loans_in LoanStatus.PENDING_COLLATERAL u w) @ map liquidation_card risky @
           map release_card (filter (\<lambda>l. l_collateral_release_address l = None) (loans_in LoanStatus.REPAID u w))))"
  have "wp (getSummary D u) ?post (\<lambda>_ _. True) w"
    by (auto simp: getSummary_def wp_simps wp_getCurrentRate split: option.split rval.split)
      (metis filter_is_subset list.simps(8) empty_set empty_subsetI)+
  then have post: "?post s w'" using assms by (simp add: wp_def)
  then obtain risky where risky: "set risky \<subseteq> set (loans_in LoanStatus.ACTIVE u w)"
    and att: "ms_attention s = sort_key card_key
          (map (pending_card (invoice_expiry (loans_in LoanStatus.PENDING_COLLATERAL u w) w))
             (loans_in LoanStatus.PENDING_COLLATERAL u w) @ map liquidation_card risky @
           map release_card (filter (\<lambda>l. l_collateral_release_address l = None) (loans_in LoanStatus.REPAID u w)))"
    by blast
  have "length (filter (\<lambda>i. \<not> untrusted i) (sort_key f (filter P xs))) = length (filter (\<lambda>i. P i \<and> \<not> untrusted i) xs)"
    for f :: "inflow_row \<Rightarrow> int" and P xs
    by (simp add: filter_sort conj_commute)
  then have "\<exists>items. listUnmatchedInflowsForUser u w = (Inr items, w) \<and> ms_unmatched_inflow_count s = length items"
    using post by (simp add: listUnmatchedInflowsForUser_def run_defs find_many_def table_rows open_inflows_def conj_assoc)
  moreover have "cards_of ATT_PENDING_COLLATERAL s = l_id ` set (loans_in LoanStatus.PENDING_COLLATERAL u w)"
    "cards_of ATT_AWAITING_RELEASE_ADDRESS s = l_id ` {l \<in> set (loans_in LoanStatus.REPAID u w). l_collateral_release_address l = None}"
    "cards_of ATT_LIQUIDATION_RISK s \<subseteq> l_id ` set (loans_in LoanStatus.ACTIVE u w)"
    using risky unfolding cards_of_def att set_sort set_append set_map cards_split
    by (simp_all add: image_image image_mono)
  ultimately show ?thesis using post by (auto simp: loans_in_def att)
qed

text \<open>The home screen cries wolf: the rate is already a price of one satoshi, but the summary
  divides the value of the collateral by the satoshis of a bitcoin once more, so every active
  loan with something to pay is shown at risk of liquidation, even when the collateral is worth
  up to a thousand times the debt.\<close>

theorem healthy_loans_are_flagged:
  assumes "decimal_env D" and "getSummary D u w = (Inr s, w')" and "getCurrentRate SAT_NGN w = (Inr rate, w)"
    and "l \<in> set (loans (w_db w))" and "l_user_id l = u" and "l_status l = LoanStatus.ACTIVE"
    and "0 < owed_by D l w" and "0 \<le> of_int (l_collateral_amount_sat l) * rp_buy rate"
    and "of_int (l_collateral_amount_sat l) * rp_buy rate \<le> 1000 * owed_by D l w"
  shows "l_id l \<in> cards_of ATT_LIQUIDATION_RISK s"
proof -
  let ?worth = "of_int (l_collateral_amount_sat l) * rp_buy rate" and ?owed = "owed_by D l w"
  note up = decimal_env.round_bounds(2)[OF assms(1)] and down = decimal_env.round_bounds(1)[OF assms(1)]
    and pos = decimal_env.round_nonneg[OF assms(1)]
  have "d_round D ?worth \<le> ?worth * 2" using up[OF assms(8)] assms(8) by (simp add: field_simps)
  moreover have "d_round D (d_round D ?worth / 10 ^ 8) \<le> d_round D ?worth / 10 ^ 8 * 2"
    using up[of "d_round D ?worth / 10 ^ 8"] pos[OF assms(8)] by (simp add: field_simps)
  moreover have "?owed \<le> d_round D (?owed * (6 / 5))"
    using down[of "?owed * (6 / 5)"] assms(7) by (simp add: field_simps)
  ultimately have "liquidation_risk D rate w l"
    using assms(7,9) by (simp add: liquidation_risk_def ddiv_def dmul_def SATS_PER_BTC_def ALERT_THRESHOLD_def)
  moreover have "l \<in> set (loans_in LoanStatus.ACTIVE u w)" using assms(4-6) by (simp add: loans_in_def)
  moreover from this have "loans_in LoanStatus.ACTIVE u w \<noteq> []" by auto
  ultimately have "liquidation_card l \<in> set (ms_attention s)"
    using assms(2,3) by (auto simp: getSummary_def run_defs)
  then show ?thesis unfolding cards_of_def by force
qed

text \<open>A loan of a hundred thousand naira with collateral worth ten million.\<close>

definition home_world :: world where
  "home_world = credit_world\<lparr>w_db := (w_db credit_world)\<lparr>loans := [active_loan\<lparr>l_collateral_amount_sat := 10000000\<rparr>]\<rparr>,
     w_redis := (\<lambda>_. None)(PRICE SAT_NGN \<mapsto> (VRates 1 1, None))\<rparr>"

lemma home_world_run:
  "getCurrentRate SAT_NGN home_world = (Inr \<lparr>rp_buy = 1, rp_sell = 1\<rparr>, home_world)"
  "\<exists>s. getSummary js_decimals 7 home_world = (Inr s, home_world)"
  by (simp_all add: getSummary_def run_defs getCurrentRate_def redis_get_def now_def live_def parse_stale_def
      home_world_def credit_world_def empty_world_def)

theorem summary_agrees_with_lists_witness:
  "\<exists>s items. getSummary js_decimals 7 home_world = (Inr s, home_world) \<and>
     listUnmatchedInflowsForUser 7 home_world = (Inr items, home_world) \<and> ms_unmatched_inflow_count s = length items"
proof -
  obtain s where s: "getSummary js_decimals 7 home_world = (Inr s, home_world)" using home_world_run(2) by blast
  from summary_agrees_with_lists[OF s] s show ?thesis by blast
qed

theorem healthy_loans_are_flagged_witness:
  "\<exists>s. getSummary js_decimals 7 home_world = (Inr s, home_world) \<and> 3 \<in> cards_of ATT_LIQUIDATION_RISK s"
proof -
  obtain s where s: "getSummary js_decimals 7 home_world = (Inr s, home_world)" using home_world_run(2) by blast
  define l where "l = active_loan\<lparr>l_collateral_amount_sat := 10000000\<rparr>"
  have l: "l \<in> set (loans (w_db home_world))" "l_user_id l = 7" "l_status l = LoanStatus.ACTIVE" "l_id l = 3"
    "l_collateral_amount_sat l = 10000000"
    by (simp_all add: l_def home_world_def active_loan_def repaid_loan_def)
  have ok: "accrual_ok (accrual_loan_of active_loan) [] 0 86400000"
    by (simp add: accrual_ok_def accrual_loan_of_def active_loan_def repaid_loan_def MS_PER_DAY_def)
  have "owed_principal (accrual_loan_of active_loan) [] 86400000
      + owed_interest (accrual_loan_of active_loan) 0 [] 86400000 = 100300"
    by code_simp
  then have "owed_by js_decimals l home_world = 100300"
    using js.compute_facts[OF _ ok]
    by (simp add: owed_by_def outstanding_at_def ledger_of_def accrual_loan_of_def l_def home_world_def)
  then show ?thesis
    using healthy_loans_are_flagged[OF js.decimal_env_axioms s home_world_run(1) l(1-3)] s l(4,5) by auto
qed

end
