(* ===== verification/System.thy ===== *)
theory System
  imports Evolve Ledger DisbursementAccounts OpsKyc OpsAuth Me
begin

text \<open>
  The program as a whole: the requests, webhook deliveries, worker ticks and operator actions that
  change the world, one at a time and in any order, with time passing between them. Each runs to its end,
  successful or not, before the next; the tasks that a request hands over run later, in order.
\<close>

section \<open>Everything that happens\<close>

datatype request =
    Signup string | VerifyEmail string string | ResendVerification string
  | RequestLogin string | Login string string | Logout string | LogoutAll id
  | Setup2fa id | Confirm2fa id string | Disable2fa id string
  | RequestPinSet id | SetPin id string string | RequestPinChange id | ChangePin id string string string
  | RequestPinDisable id | DisablePin id "string option" "string option" string
  | Checkout user_row checkout_dto | CancelLoan id id | ViewLoan id id
  | RequestAddressChange id id | SetAddress id id string "string option" "string option" "string option"
  | TopUp id id | RepaymentInstructions id id | ClaimInflow id id | ApplyInflow id id id
  | BlinkDelivery string delivery bool parsed_body
  | PayoutDelivery delivery bool "payout_notification option"
  | CollectionDelivery delivery bool "collection_notification option"
  | PriceTick string "tickers option" feed_worker
  | ExpiryTick | LiquidationTick | ReleaseTick | ReconcileTick
  | OpsRetry id id | OpsCancel id string id | OpsRecreate id id | OpsAbandon id string id
  | OpsQuote string string money id | OpsRestore id string id | OpsRelease id id
  | OnAccount account_op | SubmitKyc id kyc_dto
  | ProvisionVa id id | ResetKyc id id | RevokeKyc id id nat | SignIn ops_op
  | Summary id | ActivityPage id "cursor option option" nat

definition quietly :: "'a service \<Rightarrow> unit service" where
  "quietly m = bind m (\<lambda>_. return ())"

fun handle :: "env \<Rightarrow> request \<Rightarrow> unit service" where
  "handle V (Signup em) = signup (e_auth V) em"
| "handle V (VerifyEmail em c) = verifyEmail (e_auth V) em c"
| "handle V (ResendVerification em) = resendVerificationEmail (e_auth V) em"
| "handle V (RequestLogin em) = requestLoginOtp (e_auth V) em"
| "handle V (Login em c) = quietly (verifyLoginOtp (e_auth V) em c)"
| "handle V (Logout tok) = logout (e_auth V) tok"
| "handle V (LogoutAll u) = logoutAll u"
| "handle V (Setup2fa u) = quietly (setup2fa (e_auth V) u)"
| "handle V (Confirm2fa u c) = confirm2fa (e_auth V) u c"
| "handle V (Disable2fa u c) = disable2fa (e_auth V) u c"
| "handle V (RequestPinSet u) = requestSetOtp (e_auth V) u"
| "handle V (SetPin u pin c) = setPin (e_auth V) u pin c"
| "handle V (RequestPinChange u) = requestChangeOtp (e_auth V) u"
| "handle V (ChangePin u pin pin' c) = changePin (e_auth V) u pin pin' c"
| "handle V (RequestPinDisable u) = requestDisableOtp (e_auth V) u"
| "handle V (DisablePin u pin totp c) = disablePin (e_auth V) u pin totp c"
| "handle V (Checkout user dto) = quietly (checkoutLoan V user dto)"
| "handle V (CancelLoan u i) = cancelLoan u i"
| "handle V (ViewLoan u i) = quietly (getLoan V u i)"
| "handle V (RequestAddressChange u i) = requestReleaseAddressChangeOtp V u i"
| "handle V (SetAddress u i a otp pin totp) = setReleaseAddress V u i a otp pin totp"
| "handle V (TopUp u i) = quietly (createCollateralTopUp V u i)"
| "handle V (RepaymentInstructions u i) = quietly (getRepaymentInstructions V u i)"
| "handle V (ClaimInflow u i) = quietly (claimInflow (e_dec V) u i)"
| "handle V (ApplyInflow u i l) = quietly (applyInflowToLoan (e_dec V) u i l)"
| "handle V (BlinkDelivery own d ok body) = blink_webhook V own d ok body"
| "handle V (PayoutDelivery d ok note) = payout_webhook V d ok note"
| "handle V (CollectionDelivery d ok note) = collection_webhook V d ok note"
| "handle V (PriceTick source response fw) = quietly (runCycle (e_dec V) source response fw)"
| "handle V ExpiryTick = quietly runExpiryCycle"
| "handle V LiquidationTick = quietly (runLiquidationCycle V)"
| "handle V ReleaseTick = quietly (runCollateralReleaseCycle V)"
| "handle V ReconcileTick = quietly (runReconcilerCycle V)"
| "handle V (OpsRetry i ops) = ops_retry V i ops"
| "handle V (OpsCancel i reason ops) = ops_cancel i reason ops"
| "handle V (OpsRecreate i ops) = quietly (recreateForActiveLoan V i ops)"
| "handle V (OpsAbandon i reason ops) = abandonAttempt i reason ops"
| "handle V (OpsQuote name email amt ops) = quietly (createLoanQuote V name email amt ops)"
| "handle V (OpsRestore i reason ops) = restoreFromBadLiquidation (e_dec V) i reason ops"
| "handle V (OpsRelease i ops) = quietly (releaseCollateral V i ops)"
| "handle V (OnAccount (AddAccount u dto)) = quietly (addAccount V u dto)"
| "handle V (OnAccount (SetDefault u i)) = setDefault u i"
| "handle V (OnAccount (DeleteAccount u i)) = deleteAccount u i"
| "handle V (SubmitKyc u dto) = submitTier1 V u dto"
| "handle V (ProvisionVa ops u) = quietly (ops_provisionVa V ops u)"
| "handle V (ResetKyc ops u) = ops_reset ops u"
| "handle V (RevokeKyc ops u tier) = ops_revoke ops u tier"
| "handle V (SignIn (OpsLogin em pw)) = ops_login (e_auth V) em pw"
| "handle V (SignIn (OpsVerify c code client)) = quietly (ops_verifyTwoFactor (e_auth V) c code client)"
| "handle V (SignIn (OpsStartEnrolment tok)) = quietly (startEnrolment (e_auth V) tok)"
| "handle V (SignIn (OpsConfirmEnrolment tok code client)) = quietly (confirmEnrolment (e_auth V) tok code client)"
| "handle V (SignIn (OpsLogout tok)) = ops_logout (e_auth V) tok"
| "handle V (Summary u) = quietly (getSummary (e_dec V) u)"
| "handle V (ActivityPage u c n) = quietly (getPage (e_dec V) u c n)"

fun run_task :: "env \<Rightarrow> task \<Rightarrow> unit service" where
  "run_task V (ReleaseForLoan i) = quietly (releaseForLoan V i)"

inductive system_step :: "env \<Rightarrow> world \<Rightarrow> world \<Rightarrow> bool" for V where
  request: "handle V r w = (res, v) \<Longrightarrow> system_step V w v"
| task: "w_tasks w = t # ts \<Longrightarrow> run_task V t (w\<lparr>w_tasks := ts\<rparr>) = (res, v) \<Longrightarrow> system_step V w v"
| time: "0 \<le> d \<Longrightarrow> system_step V w (wait_world d w)"

inductive_cases system_stepE: "system_step V w v"

abbreviation system_run :: "env \<Rightarrow> world \<Rightarrow> world \<Rightarrow> bool" where
  "system_run V \<equiv> (system_step V)\<^sup>*\<^sup>*"

text \<open>What every request and every task keeps, every run keeps.\<close>

lemma system_run_keeps:
  assumes "frame R" and "\<And>r. keeps R (handle V r)" and "\<And>t. keeps R (run_task V t)" and "system_run V w v"
  shows "R w v"
proof -
  have step: "R u x" if "system_step V u x" for u x
    using that
  proof (cases rule: system_step.cases)
    case (request r res)
    then show ?thesis using keepsD[OF assms(2), of u r] by simp
  next
    case (task t ts res)
    then show ?thesis
      using keepsD[OF assms(3), of "u\<lparr>w_tasks := ts\<rparr>" t] frame.trans[OF assms(1) frame.same_db[OF assms(1), of "u\<lparr>w_tasks := ts\<rparr>" u]] by simp
  next
    case (time d)
    then show ?thesis using frame.same_db[OF assms(1), of x u] by (simp add: wait_world_def)
  qed
  show ?thesis using assms(4)
    by (induction rule: rtranclp_induct) (auto intro: frame.same_db[OF assms(1)] frame.trans[OF assms(1)] step)
qed

section \<open>The handlers implement the book of loans\<close>

lemma price_cycle_untouched: "keeps untouched (runCycle D source response fw)"
proof -
  have "keeps untouched (insert_rate D source x)" "keeps untouched (cache_rate D x)" for x
    by (auto simp: insert_rate_def cache_rate_def intro!: frame_rules)
  then show ?thesis unfolding runCycle_def Let_def by (intro frame_rules)
qed

lemma accounts_untouched [frame_ops]:
  "keeps untouched (addAccount V u dto)" "keeps untouched (setDefault u i)" "keeps untouched (deleteAccount u i)"
proof -
  have "keeps untouched (matched_holder V u dto)"
    by (auto simp: matched_holder_def canonical_name_def forRoute_def Let_def intro!: frame_rules)
  then show "keeps untouched (addAccount V u dto)" by (auto simp: addAccount_def intro!: frame_rules)
  show "keeps untouched (setDefault u i)" by (auto simp: setDefault_def own_account_def intro!: frame_rules)
  have "keeps untouched (delete_account_row i)"
    by (auto simp: keeps_def wp_simps untouched_def table_puts)
  then show "keeps untouched (deleteAccount u i)"
    by (auto simp: deleteAccount_def own_account_def intro!: frame_rules)
qed

lemma kyc_untouched [frame_ops]:
  "keeps untouched (submitTier1 V u dto)" "keeps untouched (ops_provisionVa V ops u)"
  "keeps untouched (ops_reset ops u)" "keeps untouched (ops_revoke ops u tier)"
proof -
  have audit: "keeps untouched (audit_write ops a t i)" for a t i
    by (auto simp: audit_write_def intro!: frame_rules)
  have revoke: "keeps untouched h \<Longrightarrow> keeps untouched (revokeToTier u n h)" for n h
    by (auto simp: revokeToTier_def intro!: frame_rules)
  have "keeps untouched (kyc_admission V u dto)" "keeps untouched (check_identity V dto)"
    "keeps untouched (write_verification V u dto answer day)" for answer day
    by (auto simp: kyc_admission_def check_identity_def resolveIdNumber_def verifyBiodata_def write_verification_def
        upsert_verification_def dob_column_def intro!: frame_rules split: exn.split kyc_exn.split)
  then show "keeps untouched (submitTier1 V u dto)"
    by (auto simp: submitTier1_def intro!: frame_rules repayment_accounts_untouched)
  show "keeps untouched (ops_provisionVa V ops u)"
    by (auto simp: ops_provisionVa_def intro!: frame_rules repayment_accounts_untouched audit)
  show "keeps untouched (ops_reset ops u)" "keeps untouched (ops_revoke ops u tier)"
    by (auto simp: ops_reset_def ops_revoke_def intro!: revoke audit)
qed

lemma sign_in_untouched [frame_ops]:
  "keeps untouched (ops_login A em pw)" "keeps untouched (ops_verifyTwoFactor A c code client)"
  "keeps untouched (startEnrolment A tok)" "keeps untouched (confirmEnrolment A tok code client)"
  "keeps untouched (ops_logout A tok)"
  by (auto simp: ops_login_def ops_verifyTwoFactor_def startEnrolment_def confirmEnrolment_def resolveEnrolment_def
      ops_logout_def ops_session_destroy_def ops_session_create_def code_valid_def intro!: frame_rules)

lemma home_untouched [frame_ops]: "keeps untouched (getSummary D u)" "keeps untouched (getPage D u c n)"
  by (auto simp: getSummary_def getPage_def intro!: frame_rules rates_untouched)

lemma quietly_untouched: "keeps untouched m \<Longrightarrow> keeps untouched (quietly m)"
  unfolding quietly_def by (intro frame_rules)

lemma routed_untouched: "keeps untouched (handle V (OnAccount a))" "keeps untouched (handle V (SignIn m))"
  by (cases a; auto intro!: quietly_untouched frame_ops) (cases m; auto intro!: quietly_untouched frame_ops)

lemma quietly_evolves: "keeps (evolves D) m \<Longrightarrow> keeps (evolves D) (quietly m)"
  unfolding quietly_def by (intro life.keeps_bind life.keeps_calls)

lemma handle_evolves: "keeps (evolves (e_dec V)) (handle V r)"
  by (cases r)
     (auto intro!: quietly_evolves checkoutLoan_evolves cancelLoan_evolves setReleaseAddress_evolves claims_evolve
        blink_webhook_evolves payout_webhook_evolves collection_webhook_evolves runExpiryCycle_evolves runLiquidationCycle_evolves
        release_work_evolves restore_evolves routed_untouched[THEN keeps_untouched]
        intro: keeps_untouched[OF price_cycle_untouched] frame_ops[THEN keeps_untouched])

lemma task_evolves: "keeps (evolves (e_dec V)) (run_task V t)"
  by (cases t) (simp add: quietly_evolves releaseForLoan_evolves)

text \<open>C1. The program implements the book of loans: from well-formed loans, whatever requests, deliveries,
  worker ticks, operator actions and release tasks run, in whatever order and however they end, what they have done to
  the loans is a run of the abstract book. A loan is opened once and pending; it is funded, expired or cancelled while it waits, repaid or
  liquidated while it is active; a liquidation is taken back only at a bad rate; collateral goes back once, after repayment, to an address that is set.\<close>

theorem system_follows_the_book:
  assumes "wf_table loan_table w" and "system_run V w v"
  shows "wf_table loan_table v \<and> book_run (e_dec V) (book w) (book v)"
proof -
  have "evolves (e_dec V) w v"
    by (rule system_run_keeps[OF life.frame_axioms handle_evolves task_evolves assms(2)])
  with assms(1) show ?thesis by (simp add: evolves_def)
qed

text \<open>C2. A loan keeps what was agreed at checkout, whatever happens: its owner, principal, collateral, rates and
  fees never change, a repaid, expired or cancelled loan stays so, and once the collateral went back not a single column changes
  any more. The status of every loan agrees with its timestamps all along.\<close>

theorem loans_keep_their_terms:
  assumes "wf_table loan_table w" "book_ok (book w)" "book w i = Some l" and "system_run V w v"
  shows "book_ok (book v) \<and> (\<exists>l'. book v i = Some l' \<and> follows l l')"
proof -
  have "evolves (e_dec V) w v"
    by (rule system_run_keeps[OF life.frame_axioms handle_evolves task_evolves assms(4)])
  then have "book_run (e_dec V) (book w) (book v)" using assms(1) by (simp add: evolves_def)
  then show ?thesis by (rule book_run_follows[OF _ assms(2,3)])
qed

text \<open>C6. Collateral is returned once. After a release that succeeded, let the system run on in any way, with further ticks,
  release tasks, operators' releases and restores among it: at every point of that run the loan is still stamped with the reference of the
  payment, and one more attempt to release it, whatever the provider would answer, sends nothing and writes nothing.\<close>

theorem released_once:
  assumes "wf_table loan_table w" and "book_ok (book w)" and "releaseForLoan V i w = (Inr (Released ref), w')"
    and "system_run V w' v"
  shows "\<exists>r v'. releaseForLoan V' i v = (Inr r, v') \<and> r \<in> {AlreadyReleased (Some ref), InFlight} \<and>
    w_outbox v' = w_outbox v \<and> w_db v' = w_db v"
proof -
  have "evolves (e_dec V) w w'" using keepsD[OF releaseForLoan_evolves, of "e_dec V" w V i] assms(3) by simp
  then have wf: "wf_table loan_table w'" and moved: "book_run (e_dec V) (book w) (book w')"
    using assms(1) by (simp_all add: evolves_def)
  obtain l where l: "book w' i = Some l" "l_status l = LoanStatus.REPAID" "l_collateral_released_at l \<noteq> None"
    "l_collateral_release_reference l = Some ref"
    using released_state[OF assms(1,3)] by (auto simp: book_def)
  have "book w i \<noteq> None"
    using assms(3) by (cases rule: release_cases[of V i w]) (auto simp: book_def release_due_def)
  then have "book_ok (book w')" using book_run_follows[OF moved assms(2)] by blast
  moreover have "evolves (e_dec V) w' v"
    by (rule system_run_keeps[OF life.frame_axioms handle_evolves task_evolves assms(4)])
  then have "book_run (e_dec V) (book w') (book v)" using wf by (simp add: evolves_def)
  ultimately have "\<exists>l'. book v i = Some l' \<and> follows l l'" using book_run_follows[where b = "book w'" and i = i, OF _ _ l(1)] by blast
  then have found: "find_row l_id i (loans (w_db v)) = Some l" using l(3) by (simp add: follows_def book_def)
  show ?thesis
  proof (cases "live v (COLLATERAL_RELEASE_LOCK i)")
    case None
    from wp_runD[OF release_stamped_again[OF found l(2,3) None, of V']] l(4) show ?thesis by auto
  next
    case (Some x)
    then show ?thesis by (simp add: releaseForLoan_def run_defs redis_setnx_def)
  qed
qed

section \<open>The ledger\<close>

lemma quietly_grows: "keeps ledger_grows m \<Longrightarrow> keeps ledger_grows (quietly m)"
  unfolding quietly_def by (intro money.keeps_bind money.keeps_calls)

lemma handle_grows: "keeps ledger_grows (handle V r)"
  by (cases r)
     (auto intro!: routed_untouched[THEN untouched_still, THEN still_ledger] quietly_grows claims_grow blink_webhook_grows payout_webhook_grows collection_webhook_grows
        intro: still_ledger checkout_still cycles_still loan_operations_still
          price_cycle_untouched[THEN untouched_still, THEN still_ledger] frame_ops[THEN untouched_still, THEN still_ledger])

lemma task_grows: "keeps ledger_grows (run_task V t)"
  by (cases t) (simp add: quietly_grows still_ledger loan_operations_still)

lemma ledger_distinct: "ledger_ok w \<Longrightarrow> distinct (map rep_inflow_id (repayments (w_db w)))"
proof -
  assume ok: "ledger_ok w"
  have "rep_id a = rep_id b" if "a \<in> set (repayments (w_db w))" "b \<in> set (repayments (w_db w))" "rep_inflow_id a = rep_inflow_id b" for a b
  proof (rule ccontr)
    have "\<forall>a\<in>set (repayments (w_db w)). \<forall>b\<in>set (repayments (w_db w)). rep_id a \<noteq> rep_id b \<longrightarrow> rep_inflow_id a \<noteq> rep_inflow_id b"
      using ok by (simp add: ledger_ok_def wf_table_def) (simp add: repayment_table_def)
    then show "rep_id a \<noteq> rep_id b \<Longrightarrow> False" using that by blast
  qed
  moreover have "distinct (map rep_id (repayments (w_db w)))" using ok by (simp add: ledger_ok_def wf_table_def unique_keys_def)
  ultimately show ?thesis unfolding distinct_map inj_on_def by blast
qed

text \<open>C3. Every payment counts once, whatever happens: the repayments on record are never changed or removed, no inflow ever pays for
  two of them, and the inflow behind each is on record and matched.\<close>

theorem every_payment_counts_once:
  assumes "ledger_ok w" and "system_run V w v"
  shows "prefix (repayments (w_db w)) (repayments (w_db v)) \<and> distinct (map rep_inflow_id (repayments (w_db v))) \<and>
    list_all (\<lambda>r. \<exists>i. find_row in_id (rep_inflow_id r) (inflows (w_db v)) = Some i \<and> in_is_matched i) (repayments (w_db v))"
proof -
  have "ledger_grows w v"
    by (rule system_run_keeps[OF money.frame_axioms handle_grows task_grows assms(2)])
  then show ?thesis using assms(1) ledger_distinct[of v] by (auto simp: ledger_grows_def ledger_ok_def list_all_iff)
qed

section \<open>Concrete runs\<close>

lemma one_request: "system_run V w (snd (handle V r w))"
  by (rule r_into_rtranclp, cases "handle V r w") (auto intro: system_step.request)

theorem system_follows_the_book_witness:
  "\<exists>v. system_run toy_env pending_world v \<and> map l_status (loans (w_db v)) = [LoanStatus.CANCELLED] \<and>
     book_run js_decimals (book pending_world) (book v)"
proof -
  let ?v = "snd (handle toy_env (CancelLoan 7 3) pending_world)"
  have "wp (cancelLoan 7 3) (\<lambda>_ v. map l_status (loans (w_db v)) = [LoanStatus.CANCELLED]) (\<lambda>_ _. False) pending_world"
    by (simp add: cancelLoan_def own_loan_def transition_from_def wp_simps wp_transition pending_world_facts pending_loan_def repaid_loan_def
        valid_transition_def VALID_TRANSITIONS_def)
  then have "map l_status (loans (w_db ?v)) = [LoanStatus.CANCELLED]" by (simp add: wp_def split: prod.splits sum.splits)
  moreover have run: "system_run toy_env pending_world ?v" by (rule one_request)
  ultimately show ?thesis using system_follows_the_book[OF pending_world_facts(2) run] by auto
qed

theorem loans_keep_their_terms_witness:
  "\<exists>v l. system_run toy_env repaid_world v \<and> book v 3 = Some l \<and> loan_ok l \<and> l_status l = LoanStatus.REPAID \<and>
     l_principal_ngn l = 100000"
proof -
  let ?v = "snd (handle toy_env ReleaseTick repaid_world)"
  have run: "system_run toy_env repaid_world ?v" by (rule one_request)
  have b: "book repaid_world = [3 \<mapsto> repaid_loan]"
    by (simp add: book_def repaid_world_def empty_world_def empty_db_def repaid_loan_def fun_eq_iff)
  have ok: "book_ok (book repaid_world)" by (simp add: b book_ok_def ran_def loan_ok_def repaid_loan_def)
  have l: "book repaid_world 3 = Some repaid_loan" by (simp add: b)
  obtain l' where l': "book_ok (book ?v)" "book ?v 3 = Some l'" "follows repaid_loan l'"
    using loans_keep_their_terms[OF repaid_world_due(2) ok l run] by blast
  have "l_principal_ngn l' = l_principal_ngn (loan_terms l')" by (simp add: loan_terms_def)
  also have "\<dots> = 100000" using l'(3) by (simp add: follows_def loan_terms_def repaid_loan_def)
  finally have "l_principal_ngn l' = 100000" .
  moreover have "l_status l' = LoanStatus.REPAID" using l'(3) by (simp add: follows_def settled_status_def repaid_loan_def)
  ultimately show ?thesis using run l'(2) book_okD[OF l'(1,2)] by blast
qed

theorem released_once_witness:
  "\<exists>w' v. releaseForLoan toy_env 3 repaid_world = (Inr (Released ''paid''), w') \<and> v = snd (handle toy_env ReleaseTick w') \<and>
     (\<exists>r v'. releaseForLoan (toy_env\<lparr>e_fault := \<lambda>_ _. True\<rparr>) 3 v = (Inr r, v') \<and> lightning_sends v' = lightning_sends v)"
proof (cases rule: release_cases[of toy_env 3 repaid_world])
  case (due l a r w1)
  have ok: "book_ok (book repaid_world)"
    by (auto simp: book_def book_ok_def ran_def loan_ok_def repaid_world_def empty_world_def empty_db_def repaid_loan_def)
  from due(4) have "r = Released ''paid''" by (cases rule: release_endsE) auto
  then have run: "releaseForLoan toy_env 3 repaid_world = (Inr (Released ''paid''), unlocked 3 w1)" using due(1) by simp
  from released_once[OF repaid_world_due(2) ok run one_request[of _ _ ReleaseTick], of "toy_env\<lparr>e_fault := \<lambda>_ _. True\<rparr>"]
  show ?thesis using run by (auto simp: lightning_sends_def)
qed (use repaid_world_due in auto)

theorem every_payment_counts_once_witness:
  "\<exists>v. system_run toy_env credit_world v \<and> map rep_inflow_id (repayments (w_db v)) = [4] \<and> map in_is_matched (inflows (w_db v)) = [True]"
proof -
  let ?v = "snd (handle toy_env (ApplyInflow 7 4 3) credit_world)"
  have run: "system_run toy_env credit_world ?v" by (rule one_request)
  have ok: "ledger_ok credit_world" using credit_world_wf by (simp add: ledger_ok_def wf_table_def unique_keys_def)
  have "wp (applyInflowToLoan js_decimals 7 4 3) (\<lambda>_ v. map rep_inflow_id (repayments (w_db v)) = [4] \<and> map in_id (inflows (w_db v)) = [4]) (\<lambda>_ _. False) credit_world"
    by (simp add: applyInflowToLoan_def own_active_loan_def untrusted_def creditInflow_def send_receipt_def credit_tx_def credit_active_def close_loan_def
        transition_from_def wp_simps wp_transition Let_def naira_inflow_def mark_credited_def new_repayment_def)
  then have "map rep_inflow_id (repayments (w_db ?v)) = [4] \<and> map in_id (inflows (w_db ?v)) = [4]"
    by (simp add: quietly_def wp_def bind_def return_def split: prod.splits sum.splits)
  moreover note every_payment_counts_once[OF ok run]
  ultimately show ?thesis using run by (intro exI[of _ ?v]) (auto simp: map_eq_Cons_conv)
qed

end
