(* ===== verification/Progress.thy ===== *)
theory Progress
  imports Evolve
begin

text \<open>
  What the workers get done: as long as the provider answers, each tick of the release worker sends back the collateral of
  fifty waiting loans, and each tick of the expiry worker closes every loan whose invoice has run out.
\<close>

section \<open>Every repaid loan gets its collateral back\<close>

text \<open>The release can go through: the provider answers, the database accepts the stamp, and no earlier attempt holds a lock.\<close>

definition provider_pays :: "env \<Rightarrow> bool" where
  "provider_pays V \<longleftrightarrow> (\<forall>w a n. \<exists>ref. e_send_lightning V w a n = Inr ref) \<and> (\<forall>f w. \<not> e_fault V f w)"

definition release_ready :: "world \<Rightarrow> bool" where
  "release_ready w \<longleftrightarrow> wf_table loan_table w \<and> (\<forall>i. live w (COLLATERAL_RELEASE_LOCK i) = None) \<and>
     (\<forall>l\<in>set (loans (w_db w)). l_collateral_release_address l \<noteq> Some [])"

lemma mark_released_list:
  "loans (w_db v) = mark_released i t ref (loans (w_db w)) \<Longrightarrow>
   filter awaits_release (loans (w_db v)) = filter (\<lambda>l. awaits_release l \<and> l_id l \<noteq> i) (loans (w_db w)) \<and>
   (\<forall>j. j \<noteq> i \<longrightarrow> find_row l_id j (loans (w_db v)) = find_row l_id j (loans (w_db w)))"
proof -
  have "filter awaits_release (mark_released i t ref rows) = filter (\<lambda>l. awaits_release l \<and> l_id l \<noteq> i) rows" for rows
    by (induction rows) (auto simp: mark_released_def update_where_def awaits_release_def)
  moreover have "find_row l_id j (mark_released i t ref rows) = find_row l_id j rows" if "j \<noteq> i" for j rows
    using that by (cases "find_row l_id j rows") (auto simp: mark_released_def find_row_update_where dest: find_row_key)
  ultimately show "loans (w_db v) = mark_released i t ref (loans (w_db w)) \<Longrightarrow> ?thesis" by simp
qed

lemma release_one:
  assumes "provider_pays V" "release_ready w" "find_row l_id (l_id l) (loans (w_db w)) = Some l" "awaits_release l"
  shows "wp (releaseForLoan V (l_id l)) (\<lambda>r v. (\<exists>ref. r = Released ref) \<and> release_ready v \<and>
     filter awaits_release (loans (w_db v)) = filter (\<lambda>x. awaits_release x \<and> l_id x \<noteq> l_id l) (loans (w_db w)) \<and>
     (\<forall>j. j \<noteq> l_id l \<longrightarrow> find_row l_id j (loans (w_db v)) = find_row l_id j (loans (w_db w)))) (\<lambda>_ _. False) w"
    (is "wp ?m ?Q _ _")
proof -
  let ?i = "l_id l" and ?D = js_decimals
  let ?lock = "\<lambda>w. w\<lparr>w_redis := (w_redis w)(COLLATERAL_RELEASE_LOCK (l_id l) := None)\<rparr>"
  have l: "l \<in> set (loans (w_db w))" "l_status l = LoanStatus.REPAID" "l_collateral_released_at l = None"
    using assms(3,4) by (auto simp: awaits_release_def dest: find_row_in_set)
  obtain a where a: "l_collateral_release_address l = Some a" "present (l_collateral_release_address l) = Some a"
    using assms(2,4) l(1) by (auto simp: awaits_release_def release_ready_def present_def)
  define u where "u = set_key (COLLATERAL_RELEASE_LOCK ?i) (VInt 1) (Some (w_clock w + RELEASE_LOCK_TTL_SEC * 1000)) w"
  obtain ref where ref: "e_send_lightning V u a (l_collateral_amount_sat l) = Inr ref" using assms(1) unfolding provider_pays_def by blast
  let ?v = "u\<lparr>w_outbox := w_outbox u @ [LightningSend ?i a (l_collateral_amount_sat l) (Inr ref)]\<rparr>"
  have "find_row l_id ?i (loans (w_db ?v)) = Some l" using assms(3) by (simp add: u_def)
  from stamp_release_run[OF this l(3)]
  have "wp (stamp_release V l a ref) (\<lambda>_ v. w_clock v = w_clock w \<and> w_redis v = (w_redis u)(COLLATERAL_RELEASE_ALERTED ?i := None) \<and>
      loans (w_db v) = mark_released ?i (w_clock w) ref (loans (w_db w))) (\<lambda>_ _. False) ?v"
    by (rule wp_mono) (use assms(1) in \<open>auto simp: u_def provider_pays_def\<close>)
  then have "wp (release_locked V ?i) (\<lambda>r v. r = Released ref \<and> w_clock v = w_clock w \<and> w_redis v = (w_redis u)(COLLATERAL_RELEASE_ALERTED ?i := None) \<and>
      loans (w_db v) = mark_released ?i (w_clock w) ref (loans (w_db w))) (\<lambda>_ _. False) u"
    using l a ref assms(3) by (auto simp: release_locked_def wp_simps u_def elim!: wp_mono)
  then have run: "wp ?m (\<lambda>r v. r = Released ref \<and> w_clock v = w_clock w \<and>
      w_redis v = (w_redis u)(COLLATERAL_RELEASE_ALERTED ?i := None, COLLATERAL_RELEASE_LOCK ?i := None) \<and>
      loans (w_db v) = mark_released ?i (w_clock w) ref (loans (w_db w))) (\<lambda>_ _. False) w"
    using assms(2) by (auto simp: wp_releaseForLoan release_ready_def u_def elim!: wp_mono)
  have ready: "release_ready v" if "evolves ?D w v" "w_clock v = w_clock w"
    "w_redis v = (w_redis u)(COLLATERAL_RELEASE_ALERTED ?i := None, COLLATERAL_RELEASE_LOCK ?i := None)"
    "loans (w_db v) = mark_released ?i (w_clock w) ref (loans (w_db w))" for v
  proof -
    have "live v (COLLATERAL_RELEASE_LOCK j) = (if j = ?i then None else live w (COLLATERAL_RELEASE_LOCK j))" for j
      unfolding live_def that(2,3) u_def by simp
    then have "live v (COLLATERAL_RELEASE_LOCK j) = None" for j using assms(2) by (simp add: release_ready_def)
    moreover have "\<forall>x\<in>set (loans (w_db v)). l_collateral_release_address x \<noteq> Some []"
      using assms(2) that(4) by (auto simp: release_ready_def mark_released_def set_update_where split: if_splits)
    ultimately show ?thesis using that(1) assms(2) by (simp add: release_ready_def evolves_def)
  qed
  show ?thesis
    by (rule wp_mono[OF wp_conj[OF run keeps_at[OF releaseForLoan_evolves[of ?D]]]]) (use ready mark_released_list in \<open>blast, blast\<close>)
qed

text \<open>A run over a list of waiting loans.\<close>

lemma release_each:
  assumes "provider_pays V" "release_ready w" "distinct (map l_id rows)"
    and "\<forall>l\<in>set rows. find_row l_id (l_id l) (loans (w_db w)) = Some l \<and> awaits_release l"
  shows "wp (release_all V rows n) (\<lambda>m v. rt_released m = rt_released n + length rows \<and> release_ready v \<and>
     filter awaits_release (loans (w_db v)) = filter (\<lambda>x. awaits_release x \<and> l_id x \<notin> l_id ` set rows) (loans (w_db w))) (\<lambda>_ _. False) w"
  using assms(2-)
proof (induction rows arbitrary: n w)
  case Nil
  then show ?case by (simp add: wp_return)
next
  case (Cons l rows)
  let ?Q = "\<lambda>v. release_ready v \<and> filter awaits_release (loans (w_db v)) = filter (\<lambda>x. awaits_release x \<and> l_id x \<noteq> l_id l) (loans (w_db w)) \<and>
     (\<forall>j. j \<noteq> l_id l \<longrightarrow> find_row l_id j (loans (w_db v)) = find_row l_id j (loans (w_db w)))"
  have one: "wp (attempt (bind (releaseForLoan V (l_id l)) (\<lambda>r. return (count_result r n))) (\<lambda>_. return (n\<lparr>rt_errors := Suc (rt_errors n)\<rparr>)))
      (\<lambda>m v. rt_released m = Suc (rt_released n) \<and> ?Q v) (\<lambda>_ _. False) w"
    unfolding wp_attempt wp_bind
    by (rule wp_mono[OF release_one[OF assms(1) Cons.prems(1)]]) (use Cons.prems(3) in \<open>auto simp: wp_return count_result_def\<close>)
  have rest: "wp (release_all V rows m) (\<lambda>k v'. rt_released k = rt_released n + length (l # rows) \<and> release_ready v' \<and>
      filter awaits_release (loans (w_db v')) = filter (\<lambda>x. awaits_release x \<and> l_id x \<notin> l_id ` set (l # rows)) (loans (w_db w))) (\<lambda>_ _. False) v"
    if m: "rt_released m = Suc (rt_released n)" and v: "?Q v" for m v
  proof (rule wp_mono[OF Cons.IH])
    show "\<forall>x\<in>set rows. find_row l_id (l_id x) (loans (w_db v)) = Some x \<and> awaits_release x"
      using v Cons.prems(2,3) by (metis (no_types, lifting) distinct.simps(2) image_eqI list.map(2) list.set_intros(2) set_map)
    have "filter (\<lambda>x. awaits_release x \<and> l_id x \<notin> l_id ` set rows) (loans (w_db v)) =
        filter (\<lambda>x. l_id x \<notin> l_id ` set rows) (filter awaits_release (loans (w_db v)))" by (auto simp: conj_commute)
    also have "\<dots> = filter (\<lambda>x. awaits_release x \<and> l_id x \<notin> l_id ` set (l # rows)) (loans (w_db w))"
      using v by (auto intro!: filter_cong)
    finally show "rt_released k = rt_released n + length (l # rows) \<and> release_ready v' \<and>
        filter awaits_release (loans (w_db v')) = filter (\<lambda>x. awaits_release x \<and> l_id x \<notin> l_id ` set (l # rows)) (loans (w_db w))"
      if "rt_released k = rt_released m + length rows \<and> release_ready v' \<and>
        filter awaits_release (loans (w_db v')) = filter (\<lambda>x. awaits_release x \<and> l_id x \<notin> l_id ` set rows) (loans (w_db v))" for k v'
      using that m by simp
  qed (use v Cons.prems(2) in auto)
  show ?case unfolding release_all.simps by (rule wp_seq[OF one]) (use rest in auto)
qed

lemma length_filter_ids:
  assumes "set xs \<subseteq> set ys" "distinct (map f ys)" "distinct xs"
  shows "length (filter (\<lambda>y. f y \<notin> f ` set xs) ys) = length ys - length xs"
proof -
  have inj: "inj_on f (set ys)" and d: "distinct ys" using assms(2) by (auto simp: distinct_map)
  have "set (filter (\<lambda>y. f y \<notin> f ` set xs) ys) = set ys - set xs"
    using assms(1) inj by (auto simp: inj_on_def)
  then have "length (filter (\<lambda>y. f y \<notin> f ` set xs) ys) = card (set ys - set xs)"
    using d distinct_card[of "filter (\<lambda>y. f y \<notin> f ` set xs) ys"] by simp
  then show ?thesis using assms(1,3) d by (simp add: card_Diff_subset distinct_card)
qed

definition waiting_releases :: "world \<Rightarrow> nat" where
  "waiting_releases w = length (filter awaits_release (loans (w_db w)))"

lemma release_tick:
  assumes "provider_pays V" "release_ready w"
  shows "wp (runCollateralReleaseCycle V) (\<lambda>n v. rt_released n = min 50 (waiting_releases w) \<and> release_ready v \<and>
     waiting_releases v = waiting_releases w - 50) (\<lambda>_ _. False) w"
proof -
  let ?due = "filter awaits_release (loans (w_db w))"
  define rows where "rows = take MAX_LOANS_PER_CYCLE (sort_key l_repaid_at ?due)"
  define u where "u = set_key (WORKER_HEARTBEAT ''collateral_release'') (VInt (w_clock w)) None w"
  have keys: "unique_keys l_id (loans (w_db w))" using assms(2) by (simp add: release_ready_def wf_table_def)
  then have ids: "distinct (map l_id ?due)" by (simp add: unique_keys_def distinct_map_filter)
  have "mset (map l_id (sort_key l_repaid_at ?due)) = mset (map l_id ?due)" by simp
  then have "distinct (map l_id (sort_key l_repaid_at ?due))" using ids by (metis mset_eq_imp_distinct_iff)
  then have rows: "distinct (map l_id rows)" "set rows \<subseteq> set ?due" "length rows = min 50 (waiting_releases w)"
    by (auto simp: rows_def take_map[symmetric] MAX_LOANS_PER_CYCLE_def waiting_releases_def dest: in_set_takeD)
  have u: "release_ready u" "loans (w_db u) = loans (w_db w)"
    using assms(2) by (auto simp: u_def release_ready_def wf_table_def)
  have "\<forall>l\<in>set rows. find_row l_id (l_id l) (loans (w_db u)) = Some l \<and> awaits_release l"
    using rows(2) find_row_unique[OF keys] by (auto simp: u(2))
  note run = release_each[OF assms(1) u(1) rows(1) this, unfolded u(2)]
  have "length (filter (\<lambda>x. awaits_release x \<and> l_id x \<notin> l_id ` set rows) (loans (w_db w))) = waiting_releases w - 50"
    using length_filter_ids[OF rows(2) ids] rows by (auto simp: distinct_map waiting_releases_def filter_filter conj_commute)
  then show ?thesis
    by (simp add: runCollateralReleaseCycle_def wp_simps flip: rows_def u_def)
       (rule wp_mono[OF run], auto simp: rows(3) waiting_releases_def)
qed

fun release_ticks :: "env \<Rightarrow> nat \<Rightarrow> world \<Rightarrow> world" where
  "release_ticks V 0 w = w"
| "release_ticks V (Suc k) w = release_ticks V k (snd (runCollateralReleaseCycle V w))"

lemma release_ticks_clear:
  "provider_pays V \<Longrightarrow> release_ready w \<Longrightarrow> waiting_releases (release_ticks V k w) = waiting_releases w - 50 * k"
proof (induction k arbitrary: w)
  case (Suc k)
  from wp_runD[OF release_tick[OF Suc.prems]] obtain n v where "runCollateralReleaseCycle V w = (Inr n, v)" "release_ready v"
    "waiting_releases v = waiting_releases w - 50" by blast
  then show ?case using Suc.IH[of v] Suc.prems(1) by simp
qed simp

text \<open>C9. Every repaid loan with a release address gets its collateral back: while the provider pays, no lock is left behind and the
  addresses are not empty, every tick of the worker releases fifty of the waiting loans, or all when there are fewer, so that
  after enough ticks, at most one for every fifty loans, no repaid loan waits any more.\<close>

theorem every_release_goes_out:
  assumes "provider_pays V" and "release_ready w"
  shows "(\<exists>n v. runCollateralReleaseCycle V w = (Inr n, v) \<and> rt_released n = min 50 (waiting_releases w) \<and>
      waiting_releases v = waiting_releases w - 50) \<and>
    (waiting_releases w \<le> 50 * k \<longrightarrow> filter awaits_release (loans (w_db (release_ticks V k w))) = [])"
proof (intro conjI impI)
  show "\<exists>n v. runCollateralReleaseCycle V w = (Inr n, v) \<and> rt_released n = min 50 (waiting_releases w) \<and> waiting_releases v = waiting_releases w - 50"
    using wp_runD[OF release_tick[OF assms]] by blast
  assume "waiting_releases w \<le> 50 * k"
  then have "waiting_releases (release_ticks V k w) = 0" using release_ticks_clear[OF assms] by simp
  then show "filter awaits_release (loans (w_db (release_ticks V k w))) = []" by (simp add: waiting_releases_def)
qed

theorem every_release_goes_out_witness:
  "filter awaits_release (loans (w_db repaid_world)) = [repaid_loan] \<and>
   filter awaits_release (loans (w_db (release_ticks toy_env 1 repaid_world))) = []"
proof -
  have l: "loans (w_db repaid_world) = [repaid_loan]" "awaits_release repaid_loan" "l_collateral_release_address repaid_loan = Some ''me''"
    by (simp_all add: repaid_world_def empty_world_def empty_db_def awaits_release_def repaid_loan_def)
  have "provider_pays toy_env" "release_ready repaid_world"
    using repaid_world_due l by (auto simp: provider_pays_def release_ready_def)
  from every_release_goes_out[OF this, of 1] show ?thesis using l by (simp add: waiting_releases_def)
qed

end
