(* ===== verification/Idempotency.thy ===== *)
theory Idempotency
  imports Auth
begin

text \<open>
  \<open>common/interceptors/idempotency.interceptor.ts\<close>: what happens around the handler of a request
  that carries an idempotency key. A handler answers with a status and a body, both as the
  response shows them; an error is answered by the exception filter and never reaches the code
  after the handler. The interceptor waits between its read, its mark, the handler and the write of the
  response; each of these is a step of its own, so that requests with the same key can overlap in any way. The write
  itself is not waited for: its step is the moment it takes effect, and the client may have its answer a little before that.
\<close>

type_synonym response = "nat \<times> string"

datatype http_method = GET | POST | PUT | PATCH | DELETE

definition IN_FLIGHT_TTL_SEC :: int where "IN_FLIGHT_TTL_SEC = 60"

definition remember :: "rkey \<Rightarrow> response \<Rightarrow> response service" where
  "remember key answer =
     bind (redis_setex key (VResponse (fst answer) (snd answer)) IDEMPOTENCY_TTL_SEC) (\<lambda>_. return answer)"

text \<open>The first read: a recorded response, nothing, or a refusal.\<close>

definition look_up :: "rkey \<Rightarrow> response option service" where
  "look_up key =
     bind (redis_get key) (\<lambda>existing.
     case existing of
       Some VInFlight \<Rightarrow> throw IdempotencyConflictException
     | Some (VResponse status body) \<Rightarrow> return (Some (status, body))
     | _ \<Rightarrow> return None)"

definition mark_in_flight :: "rkey \<Rightarrow> unit service" where
  "mark_in_flight key =
     bind (redis_setnx key VInFlight IN_FLIGHT_TTL_SEC) (\<lambda>set_result.
     if \<not> set_result then throw IdempotencyConflictException else return ())"

definition once :: "rkey \<Rightarrow> response service \<Rightarrow> response service" where
  "once key handle =
     bind (look_up key) (\<lambda>cached.
     case cached of
       Some answer \<Rightarrow> return answer
     | None \<Rightarrow> bind (mark_in_flight key) (\<lambda>_. bind handle (remember key)))"

definition intercept :: "http_method \<Rightarrow> string option \<Rightarrow> id option \<Rightarrow> response service \<Rightarrow> response service" where
  "intercept method idempotency_key user_id handle =
     (if method \<notin> {POST, PUT, PATCH} then handle
      else case (present idempotency_key, user_id) of
        (Some key, Some user) \<Rightarrow> once (IDEMPOTENCY user key) handle
      | _ \<Rightarrow> handle)"

definition writes :: "http_method \<Rightarrow> bool" where
  "writes method \<longleftrightarrow> method \<in> {POST, PUT, PATCH}"

lemma intercept_writes:
  "writes method \<Longrightarrow> key \<noteq> [] \<Longrightarrow> intercept method (Some key) (Some user) handle = once (IDEMPOTENCY user key) handle"
  by (simp add: intercept_def writes_def present_def)

text \<open>What \<open>once\<close> does when nothing stands in its way.\<close>

definition run_marked :: "rkey \<Rightarrow> response service \<Rightarrow> response service" where
  "run_marked key handle =
     (\<lambda>w. bind handle (remember key) (set_key key VInFlight (Some (w_clock w + 60000)) w))"

section \<open>Requests that overlap\<close>

text \<open>
  Any number of requests with one key, each at a point of its way through \<open>once\<close>. Between any two steps
  the rest of the system, the running handlers among it, may do anything but touch the key, and time passes.
  The history records when a handler was started and when a response was recorded, newest first.
\<close>

datatype phase = Arrived | Checked | Running | Answered response | Repeated response | Refused exn | Failed

datatype record_of = Started time | Recorded time response

record race =
  rc_world :: world
  rc_phase :: "nat \<Rightarrow> phase"
  rc_history :: "record_of list"

definition moves :: "nat \<Rightarrow> phase \<Rightarrow> world \<Rightarrow> race \<Rightarrow> race" where
  "moves i p w c = c\<lparr>rc_world := w, rc_phase := (rc_phase c)(i := p)\<rparr>"

definition noting :: "record_of \<Rightarrow> race \<Rightarrow> race" where
  "noting e c = c\<lparr>rc_history := e # rc_history c\<rparr>"

inductive race_step :: "rkey \<Rightarrow> race \<Rightarrow> race \<Rightarrow> bool" for k where
  nothing_found: "rc_phase c i = Arrived \<Longrightarrow> look_up k (rc_world c) = (Inr None, w) \<Longrightarrow> race_step k c (moves i Checked w c)"
| found: "rc_phase c i = Arrived \<Longrightarrow> look_up k (rc_world c) = (Inr (Some a), w) \<Longrightarrow> race_step k c (moves i (Repeated a) w c)"
| busy: "rc_phase c i = Arrived \<Longrightarrow> look_up k (rc_world c) = (Inl e, w) \<Longrightarrow> race_step k c (moves i (Refused e) w c)"
| begins: "rc_phase c i = Checked \<Longrightarrow> mark_in_flight k (rc_world c) = (Inr (), w) \<Longrightarrow>
    race_step k c (noting (Started (w_clock (rc_world c))) (moves i Running w c))"
| overtaken: "rc_phase c i = Checked \<Longrightarrow> mark_in_flight k (rc_world c) = (Inl e, w) \<Longrightarrow> race_step k c (moves i (Refused e) w c)"
| answers: "rc_phase c i = Running \<Longrightarrow> remember k a (rc_world c) = (Inr a, w) \<Longrightarrow>
    race_step k c (noting (Recorded (w_clock (rc_world c)) a) (moves i (Answered a) w c))"
| fails: "rc_phase c i = Running \<Longrightarrow> race_step k c (moves i Failed (rc_world c) c)"
| elsewhere: "w_redis w k = w_redis (rc_world c) k \<Longrightarrow> w_clock (rc_world c) \<le> w_clock w \<Longrightarrow>
    race_step k c (c\<lparr>rc_world := w\<rparr>)"

definition all_arrived :: "world \<Rightarrow> race" where
  "all_arrived w = \<lparr>rc_world = w, rc_phase = \<lambda>_. Arrived, rc_history = []\<rparr>"

lemma run_look_up:
  "look_up k w = (case live w k of Some VInFlight \<Rightarrow> (Inl IdempotencyConflictException, w)
     | Some (VResponse status body) \<Rightarrow> (Inr (Some (status, body)), w) | _ \<Rightarrow> (Inr None, w))"
  by (simp add: look_up_def run_defs redis_get_def split: option.split rval.split)

lemma run_mark:
  "mark_in_flight k w = (if live w k = None then (Inr (), set_key k VInFlight (Some (w_clock w + 60000)) w)
     else (Inl IdempotencyConflictException, w))"
  by (simp add: mark_in_flight_def run_defs redis_setnx_def IN_FLIGHT_TTL_SEC_def)

lemma run_remember:
  "remember k answer w = (Inr answer, set_key k (VResponse (fst answer) (snd answer)) (Some (w_clock w + 86400000)) w)"
  by (simp add: remember_def run_defs redis_setex_def IDEMPOTENCY_TTL_SEC_def)

text \<open>One request alone goes through the steps as \<open>once\<close> does.\<close>

lemma once_alone:
  assumes "handle w1 = (r, w2)" and "w_redis w2 k = w_redis w1 k" and "w_clock w1 \<le> w_clock w2"
    and "mark_in_flight k w = (Inr (), w1)" and "look_up k w = (Inr None, w)" and "once k handle w = (out, w')"
  shows "\<exists>c. (race_step k)\<^sup>*\<^sup>* (all_arrived w) c \<and> rc_world c = w' \<and>
    rc_phase c 0 = (case out of Inr a \<Rightarrow> Answered a | Inl _ \<Rightarrow> Failed)"
proof -
  let ?checked = "moves 0 Checked w (all_arrived w)"
  let ?running = "noting (Started (w_clock w)) (moves 0 Running w1 ?checked)"
  let ?done = "?running\<lparr>rc_world := w2\<rparr>"
  have "race_step k (all_arrived w) ?checked"
    by (rule nothing_found) (simp_all add: all_arrived_def assms(5))
  moreover have "race_step k ?checked ?running"
    using begins[of ?checked 0 k w1] assms(4) by (simp add: moves_def)
  moreover have "race_step k ?running ?done"
    by (rule elsewhere) (simp_all add: moves_def noting_def assms(2,3))
  ultimately have run: "(race_step k)\<^sup>*\<^sup>* (all_arrived w) ?done" by (meson converse_rtranclp_into_rtranclp rtranclp.rtrancl_refl)
  have phase: "rc_phase ?done 0 = Running" by (simp add: moves_def noting_def)
  have once: "once k handle w = (case r of Inl e \<Rightarrow> (Inl e, w2) | Inr a \<Rightarrow> remember k a w2)"
    using assms(1,4,5) by (simp add: once_def bind_def split: sum.split)
  show ?thesis
  proof (cases r)
    case (Inl e)
    have "race_step k ?done (moves 0 Failed w2 ?done)" using fails[OF phase, of k] by simp
    with run have "(race_step k)\<^sup>*\<^sup>* (all_arrived w) (moves 0 Failed w2 ?done)" by (rule rtranclp.rtrancl_into_rtrancl)
    then show ?thesis
      using once assms(6) Inl by (intro exI[of _ "moves 0 Failed w2 ?done"]) (simp add: moves_def)
  next
    case (Inr a)
    have a: "remember k a w2 = (Inr a, w')" "out = Inr a"
      using once assms(6) Inr by (simp_all add: run_remember)
    have "race_step k ?done (noting (Recorded (w_clock w2) a) (moves 0 (Answered a) w' ?done))"
      using answers[OF phase, of k a w'] a(1) by simp
    with run have "(race_step k)\<^sup>*\<^sup>* (all_arrived w) (noting (Recorded (w_clock w2) a) (moves 0 (Answered a) w' ?done))"
      by (rule rtranclp.rtrancl_into_rtrancl)
    then show ?thesis
      using a(2) by (intro exI[of _ "noting (Recorded (w_clock w2) a) (moves 0 (Answered a) w' ?done)"])
        (simp add: moves_def noting_def)
  qed
qed

section \<open>How far apart handlers start\<close>

fun expiry :: "record_of \<Rightarrow> time" where
  "expiry (Started t) = t + 60000"
| "expiry (Recorded t a) = t + 86400000"

fun entry :: "record_of \<Rightarrow> rval \<times> time option" where
  "entry (Started t) = (VInFlight, Some (t + 60000))"
| "entry (Recorded t a) = (VResponse (fst a) (snd a), Some (t + 86400000))"

text \<open>A handler starts only when all that was recorded before has run out.\<close>

definition apart :: "record_of \<Rightarrow> record_of \<Rightarrow> bool" where
  "apart later earlier \<longleftrightarrow> (\<forall>t. later = Started t \<longrightarrow> expiry earlier \<le> t)"

definition race_ok :: "rkey \<Rightarrow> race \<Rightarrow> bool" where
  "race_ok k c \<longleftrightarrow> sorted_wrt apart (rc_history c) \<and>
     (case rc_history c of
        [] \<Rightarrow> live (rc_world c) k = None
      | e # es \<Rightarrow> w_redis (rc_world c) k = Some (entry e) \<and> (\<forall>e'\<in>set es. expiry e' \<le> expiry e)) \<and>
     (\<forall>t. Started t \<in> set (rc_history c) \<longrightarrow> t \<le> w_clock (rc_world c)) \<and>
     (\<forall>t a. Recorded t a \<in> set (rc_history c) \<longrightarrow> t \<le> w_clock (rc_world c)) \<and>
     (\<forall>i a. rc_phase c i \<in> {Answered a, Repeated a} \<longrightarrow> (\<exists>t. Recorded t a \<in> set (rc_history c)))"

lemma live_entry: "w_redis w k = Some (entry e) \<Longrightarrow> live w k = (if w_clock w < expiry e then Some (fst (entry e)) else None)"
  by (cases e) (simp_all add: live_def)

lemma race_step_ok: "race_step k c c' \<Longrightarrow> race_ok k c \<Longrightarrow> race_ok k c'"
proof (induction rule: race_step.induct)
  case (nothing_found c i w)
  then show ?case by (auto simp: race_ok_def moves_def run_look_up split: option.splits rval.splits list.splits)
next
  case (found c i a w)
  then have w: "w = rc_world c" "live (rc_world c) k = Some (VResponse (fst a) (snd a))"
    by (auto simp: run_look_up split: option.splits rval.splits)
  have "\<exists>t. Recorded t a \<in> set (rc_history c)"
  proof (cases "rc_history c")
    case Nil
    then show ?thesis using found(3) w by (simp add: race_ok_def)
  next
    case (Cons e es)
    then have "live (rc_world c) k = (if w_clock (rc_world c) < expiry e then Some (fst (entry e)) else None)"
      using found(3) by (simp add: race_ok_def live_entry)
    then show ?thesis using w(2) Cons by (cases e) (auto simp: prod_eq_iff split: if_splits)
  qed
  then show ?case using found(3) w(1) by (auto simp: race_ok_def moves_def split: list.splits)
next
  case (busy c i e w)
  then show ?case by (auto simp: race_ok_def moves_def run_look_up split: option.splits rval.splits list.splits)
next
  case (begins c i w)
  then have free: "live (rc_world c) k = None" and w: "w = set_key k VInFlight (Some (w_clock (rc_world c) + 60000)) (rc_world c)"
    by (simp_all add: run_mark split: if_splits)
  have out: "\<forall>e\<in>set (rc_history c). expiry e \<le> w_clock (rc_world c)"
    using begins(3) free by (auto simp: race_ok_def live_entry split: list.splits if_splits)
  then have "\<forall>e\<in>set (rc_history c). expiry e \<le> w_clock (rc_world c) + 60000" by fastforce
  then show ?case
    using begins(3) out w by (auto simp: race_ok_def moves_def noting_def apart_def)
next
  case (overtaken c i e w)
  then show ?case by (auto simp: race_ok_def moves_def run_mark split: if_splits list.splits)
next
  case (answers c i a w)
  then have w: "w = set_key k (VResponse (fst a) (snd a)) (Some (w_clock (rc_world c) + 86400000)) (rc_world c)"
    by (simp add: run_remember)
  have "expiry e \<le> w_clock (rc_world c) + 86400000" if "e \<in> set (rc_history c)" for e
    using answers(3) that by (cases e) (auto simp: race_ok_def)
  moreover have "\<exists>t. Recorded t b \<in> set (Recorded (w_clock (rc_world c)) a # rc_history c)"
    if "((rc_phase c)(i := Answered a)) j \<in> {Answered b, Repeated b}" for j b
  proof (cases "j = i")
    case False
    then have "\<exists>t. Recorded t b \<in> set (rc_history c)"
      using that answers(3) unfolding race_ok_def by (metis fun_upd_other)
    then show ?thesis by auto
  qed (use that in auto)
  ultimately show ?case
    using answers(3) w by (simp add: race_ok_def moves_def noting_def apart_def)
next
  case (fails c i)
  then show ?case by (auto simp: race_ok_def moves_def split: list.splits)
next
  case (elsewhere w c)
  have "live w k = None" if "live (rc_world c) k = None"
    using that elsewhere(1,2) by (auto simp: live_def split: option.splits prod.splits if_splits)
  then show ?case using elsewhere by (fastforce simp: race_ok_def split: list.splits)
qed

lemma race_run_ok:
  assumes "(race_step k)\<^sup>*\<^sup>* (all_arrived w) c" and "live w k = None"
  shows "race_ok k c"
  using assms(1)
proof (induction rule: rtranclp_induct)
  case base
  then show ?case using assms(2) by (simp add: race_ok_def all_arrived_def)
qed (rule race_step_ok)

text \<open>C19. However the requests with one idempotency key overlap, and however long their handlers take: a handler
  starts at least a minute after every other one started and at least a day after every response was recorded;
  whoever is answered gets a recorded response; while the last thing that happened is a handler started less than a minute ago,
  finished or not, a write with the key is refused, and while it is a response recorded less than a day ago, the write gets
  that response and changes nothing.\<close>

theorem overlapping_requests_run_apart:
  assumes "key \<noteq> []" and "writes verb" and "live w (IDEMPOTENCY user key) = None"
    and "(race_step (IDEMPOTENCY user key))\<^sup>*\<^sup>* (all_arrived w) c"
  shows "sorted_wrt apart (rc_history c) \<and>
    (\<forall>i a. rc_phase c i \<in> {Answered a, Repeated a} \<longrightarrow> (\<exists>t. Recorded t a \<in> set (rc_history c))) \<and>
    intercept verb (Some key) (Some user) handle (rc_world c) =
      (case rc_history c of
         Started t # _ \<Rightarrow>
           if w_clock (rc_world c) < t + 60000 then (Inl IdempotencyConflictException, rc_world c)
           else run_marked (IDEMPOTENCY user key) handle (rc_world c)
       | Recorded t a # _ \<Rightarrow>
           if w_clock (rc_world c) < t + 86400000 then (Inr a, rc_world c)
           else run_marked (IDEMPOTENCY user key) handle (rc_world c)
       | [] \<Rightarrow> run_marked (IDEMPOTENCY user key) handle (rc_world c))"
proof -
  let ?k = "IDEMPOTENCY user key" and ?w = "rc_world c"
  have ok: "race_ok ?k c" using race_run_ok[OF assms(4,3)] .
  have free: "once ?k handle ?w = run_marked ?k handle ?w" if "live ?w ?k = None"
    using that by (simp add: once_def run_marked_def bind_def run_look_up run_mark)
  have "once ?k handle ?w =
      (case rc_history c of
         Started t # _ \<Rightarrow>
           if w_clock ?w < t + 60000 then (Inl IdempotencyConflictException, ?w) else run_marked ?k handle ?w
       | Recorded t a # _ \<Rightarrow> if w_clock ?w < t + 86400000 then (Inr a, ?w) else run_marked ?k handle ?w
       | [] \<Rightarrow> run_marked ?k handle ?w)"
  proof (cases "rc_history c")
    case Nil
    then show ?thesis using ok free by (simp add: race_ok_def)
  next
    case (Cons e es)
    then have l: "live ?w ?k = (if w_clock ?w < expiry e then Some (fst (entry e)) else None)"
      using ok by (simp add: race_ok_def live_entry)
    show ?thesis
      using Cons l free by (cases e) (auto simp: once_def bind_def run_look_up return_def)
  qed
  then show ?thesis using ok assms(1,2) by (simp add: race_ok_def intercept_writes)
qed

text \<open>A handler that is slower than its mark is run a second time by a repetition, and both answers are recorded.\<close>

lemma step_looks: "rc_phase c i = Arrived \<Longrightarrow> live (rc_world c) k = None \<Longrightarrow> race_step k c (moves i Checked (rc_world c) c)"
  by (rule nothing_found) (simp_all add: run_look_up)

lemma step_begins:
  "rc_phase c i = Checked \<Longrightarrow> live (rc_world c) k = None \<Longrightarrow> race_step k c (noting (Started (w_clock (rc_world c)))
     (moves i Running (set_key k VInFlight (Some (w_clock (rc_world c) + 60000)) (rc_world c)) c))"
  by (rule begins) (simp_all add: run_mark)

lemma step_answers:
  "rc_phase c i = Running \<Longrightarrow> race_step k c (noting (Recorded (w_clock (rc_world c)) a) (moves i (Answered a)
     (set_key k (VResponse (fst a) (snd a)) (Some (w_clock (rc_world c) + 86400000)) (rc_world c)) c))"
  by (rule answers) (simp_all add: run_remember)

lemma step_waits: "0 \<le> d \<Longrightarrow> race_step k c (c\<lparr>rc_world := wait_world d (rc_world c)\<rparr>)"
  by (rule elsewhere) (simp_all add: wait_world_def)

lemmas race_fields = moves_def noting_def all_arrived_def wait_world_def live_def set_key_def

theorem slow_handler_runs_twice:
  assumes "live w k = None"
  shows "\<exists>c. (race_step k)\<^sup>*\<^sup>* (all_arrived w) c \<and> rc_phase c 0 = Answered a \<and> rc_phase c 1 = Answered b \<and>
    rc_history c = [Recorded (w_clock w + 60000) b, Recorded (w_clock w + 60000) a, Started (w_clock w + 60000), Started (w_clock w)]"
proof -
  note later = rtranclp.rtrancl_into_rtrancl[of "race_step k"]
  define c1 where "c1 = moves 0 Checked w (all_arrived w)"
  define c2 where "c2 = noting (Started (w_clock w)) (moves 0 Running (set_key k VInFlight (Some (w_clock w + 60000)) w) c1)"
  define c3 where "c3 = c2\<lparr>rc_world := wait_world 60000 (rc_world c2)\<rparr>"
  define c4 where "c4 = moves 1 Checked (rc_world c3) c3"
  define c5 where "c5 = noting (Started (w_clock w + 60000)) (moves 1 Running (set_key k VInFlight (Some (w_clock w + 120000)) (rc_world c4)) c4)"
  define c6 where "c6 = noting (Recorded (w_clock w + 60000) a) (moves 0 (Answered a)
    (set_key k (VResponse (fst a) (snd a)) (Some (w_clock w + 86460000)) (rc_world c5)) c5)"
  define c7 where "c7 = noting (Recorded (w_clock w + 60000) b) (moves 1 (Answered b)
    (set_key k (VResponse (fst b) (snd b)) (Some (w_clock w + 86460000)) (rc_world c6)) c6)"
  have s1: "race_step k (all_arrived w) c1"
    using step_looks[of "all_arrived w" 0 k] assms by (simp add: c1_def all_arrived_def)
  have s2: "race_step k c1 c2"
    using step_begins[of c1 0 k] assms by (simp add: c2_def c1_def moves_def all_arrived_def)
  have s3: "race_step k c2 c3" unfolding c3_def by (rule step_waits) simp
  have s4: "race_step k c3 c4"
    using step_looks[of c3 1 k] by (simp add: c4_def c3_def c2_def c1_def race_fields)
  have s5: "race_step k c4 c5"
    using step_begins[of c4 1 k] by (simp add: c5_def c4_def c3_def c2_def c1_def race_fields add.assoc)
  have s6: "race_step k c5 c6"
    using step_answers[of c5 0 k a] by (simp add: c6_def c5_def c4_def c3_def c2_def c1_def race_fields add.assoc)
  have s7: "race_step k c6 c7"
    using step_answers[of c6 1 k b] by (simp add: c7_def c6_def c5_def c4_def c3_def c2_def c1_def race_fields add.assoc)
  have "(race_step k)\<^sup>*\<^sup>* (all_arrived w) c7"
    by (rule later[OF later[OF later[OF later[OF later[OF later[OF later[OF rtranclp.rtrancl_refl s1] s2] s3] s4] s5] s6] s7])
  then show ?thesis
    by (intro exI[of _ c7]) (simp add: c7_def c6_def c5_def c4_def c3_def c2_def c1_def race_fields)
qed

definition new_session :: "response service" where
  "new_session = bind (session_create toy_auth 1) (\<lambda>token. return (201, token))"

theorem overlapping_requests_run_apart_witness:
  "\<exists>c :: race. rc_phase c 0 = Answered (201, ''a'') \<and> rc_phase c 1 = Answered (201, ''b'') \<and>
     rc_history c = [Recorded 60000 (201, ''b''), Recorded 60000 (201, ''a''), Started 60000, Started 0] \<and>
     sorted_wrt apart (rc_history c) \<and>
     (w_clock (rc_world c) < 86460000 \<longrightarrow>
        intercept POST (Some ''key'') (Some 1) new_session (rc_world c) = (Inr (201, ''b''), rc_world c))"
proof -
  have free: "live empty_world (IDEMPOTENCY 1 ''key'') = None" by (simp add: empty_world_def live_def)
  obtain c where c: "(race_step (IDEMPOTENCY 1 ''key''))\<^sup>*\<^sup>* (all_arrived empty_world) c" "rc_phase c 0 = Answered (201, ''a'')"
    "rc_phase c 1 = Answered (201, ''b'')"
    "rc_history c = [Recorded 60000 (201, ''b''), Recorded 60000 (201, ''a''), Started 60000, Started 0]"
    using slow_handler_runs_twice[OF free, of "(201, ''a'')" "(201, ''b'')"] by (auto simp: empty_world_def)
  have "''key'' \<noteq> []" "writes POST" by (simp_all add: writes_def)
  from overlapping_requests_run_apart[OF this free c(1), of new_session]
  have "sorted_wrt apart (rc_history c) \<and> (w_clock (rc_world c) < 86460000 \<longrightarrow>
      intercept POST (Some ''key'') (Some 1) new_session (rc_world c) = (Inr (201, ''b''), rc_world c))"
    using c(4) by simp
  with c(2-) show ?thesis by blast
qed

end
