(* ===== verification/Spec2Isabelle.thy ===== *)
theory Spec2Isabelle
  imports Display Accrual Calculator LoanStatus PriceFeed Guards TransactionPin PaymentRequests
    PalmpayProvider BlinkProvider IdentityProviders Remediation Backfill System Progress DisbursementAccounts OpsKyc OpsAuth Idempotency Me
begin

text \<open>
  A model of the backend of Bitmonie, a NestJS service that lends naira against bitcoin, and the
  theorems that make it correct. A customer signs up by email, checks out a loan and pays a
  Lightning invoice as collateral (Blink); the webhook of the payment activates the loan and pays
  the principal to the customer's bank account (PalmPay). Transfers into the customer's virtual
  account repay the loan; when it is repaid the collateral is sent back to the customer's Lightning
  address, and when its value falls too low the liquidation monitor sells it. Workers poll the
  rate, expire unpaid loans, liquidate, release and reconcile; operators retry and undo.

  \<^bold>\<open>How programs are modelled.\<close> An \<open>async\<close> method is a function of the world before it to a
  result and the world after it (\<open>service\<close>, Prelude and Store): \<open>Inl e\<close> is a rejected promise,
  every \<open>throw\<close> of the source is a value of \<open>exn\<close> (Errors), and what was written before a throw
  stays written, except inside \<open>$transaction\<close>. The world (\<open>world\<close>, Store) is the database, one list of
  rows per Prisma model (Schema) with its key and unique indexes, Redis with its times to live, the
  messages and payments that left the system, the tasks that a request hands over without waiting,
  and the clock, which stands still while one handler runs. Properties of handlers are
  weakest preconditions computed along the program text (\<open>wp\<close>, collection \<open>wp_simps\<close>).
  Handlers run one after the other in any order (System; payout steps in BlinkWebhook). An interleaving inside a handler is
  modelled where the code itself hands work over, for the requests that share an idempotency key, whose reads, marks,
  handlers and recorded responses alternate freely (Idempotency), and for the scripts, whose reads and writes are apart.

  \<^bold>\<open>Which theory models what\<close> (paths under \<open>src/src\<close> unless they start with \<open>workers\<close> or \<open>scripts\<close>):
  Rounding, Decimals: the arithmetic of \<open>decimal.js\<close> (twenty digits, half up), of the decimal columns and
  of floating point, as laws that a concrete rounding satisfies.
  Schema, Constants, Errors, Display: \<open>prisma/schema.prisma\<close>, \<open>common/constants\<close>, \<open>common/errors\<close> with the
  exception filter, \<open>common/formatting\<close>.
  Accrual, Calculator, LoanStatus: interest, quotes and the status machine of \<open>modules/loans\<close>.
  PriceFeed: \<open>modules/price-feed\<close>, the Quidax mapping and \<open>workers/price-feed.worker.ts\<close>.
  Auth, Guards, TransactionPin: \<open>modules/auth\<close> and the guards of \<open>common/guards\<close>.
  OpsAuth: \<open>modules/ops/auth\<close> and the operators' guard. Idempotency: \<open>common/interceptors\<close>.
  PaymentRequests: \<open>modules/payment-requests\<close> and \<open>modules/inflows\<close>.
  CollateralRelease, LoanRepayments, Loans: the release, the credit of a repayment and the other
  operations of \<open>modules/loans\<close>.
  NameMatch, RepaymentAccounts, DisbursementAccounts, Kyc, OpsKyc: the comparison of names, the
  virtual account, the payout accounts, the identity check and its console.
  Disbursements, Payouts: \<open>modules/disbursements\<close>, the payout webhook, the reconciler and the operators'
  actions on payouts.
  WebhooksLog, BlinkWebhook, PalmpayCollection: the delivery log and the webhooks of incoming money.
  JsonShape, PalmpayProvider, BlinkProvider: the clients of \<open>providers/palmpay\<close> and \<open>providers/blink\<close>, whose
  operations fill the places that the environment keeps for them (\<open>palmpay_env\<close>, \<open>blink_env\<close>).
  IdentityProviders: \<open>providers/easeid\<close>, \<open>providers/qoreid\<close>, \<open>providers/dojah\<close>, the stub and the choice among
  them (\<open>identity_env\<close>).
  LoanExpiry, Liquidation, OpsLoans: the two loan workers and the operators' actions on loans.
  Activity, Me: the feed and the home summary of \<open>modules/me\<close>.
  JsText, Remediation: text functions of the language, and the three \<open>scripts\<close> with which operators replay
  dropped notices, restore liquidations and release collateral. What a script reads and what it writes
  after it asked the operator are separate programs, so that requests may run in between.
  Backfill: the four \<open>scripts\<close> that correct stored hashes, account names, accounts and bank names.

  \<^bold>\<open>Interfaces\<close> are locales, each interpreted on the definitions of the code: \<open>table\<close> (rows with a key and
  indexes) on every table, \<open>kv_store\<close> (locks and cooldowns) on Redis, \<open>otp_channel\<close> on both kinds of
  emailed codes, \<open>frame\<close> on the relations that handlers keep, \<open>significand\<close>, \<open>decimal_env\<close> and
  \<open>js_number\<close> on the concrete roundings to decimal and binary digits.

  \<^bold>\<open>What is shown.\<close> LoanBook states what the business promises of a loan, without handlers or
  tables; Frames, Evolve and Ledger show of each handler what it keeps of the loans and of the
  repayments; System composes every request, delivery, tick and operator action into one
  transition system and shows that each of its runs is a run of the book, that a loan keeps its
  terms and that every payment counts once; Progress shows that released collateral goes out. Each component
  has its own laws: the waterfall conserves the payment, the accrual equals a day-by-day reference,
  a credit closes a loan exactly when it covers the debt, a release is stamped once, a checkout was
  entitled to what it created and refuses a second one, a repayment stands on a verified notice and the provider's word,
  at most one attempt of a payout is open, accounts keep exactly one
  default, a tier is backed by a matched check, an operator's session by both factors, handlers of a repeated
  write run a minute apart or not at all, a replay books every order once, changing a signed field of a
  PalmPay notice takes a forgery, a rate is no older than twenty minutes, a Blink delivery expires, and following the cursors
  of the feed ends and misses no loan event.
  Where the code does something else than it means to, a theorem says exactly what
  (a cancelled loan that is paid, a repaid loan that is liquidated, a stamp or a transfer that
  is repeated, a script that pays what the worker paid, a pending payment that counts as sent, an identity number stored in clear, an enrolment that outlives itself, a summary that cries wolf).

  \<^bold>\<open>Bounds and termination.\<close> Loops over rows are structural recursions. The release worker takes
  fifty loans per tick, as the code does. The day-by-day loop of the accrual is a
  fold over the segments between repayments. Two loops that nothing bounds, the inner walk of the name comparison and
  a client that follows cursors, are partial functions, and that they return is proved. No definition uses fuel.

  \<^bold>\<open>Parameters\<close> (\<open>env\<close>, \<open>auth_env\<close>, \<open>decimals\<close>, \<open>palmpay_api\<close>, \<open>blink_api\<close>, \<open>identity_api\<close>): the answers of the providers, any function
  of the world and the request to a failure or an answer, and for PalmPay, Blink and the identity providers the exchange below them; hashing, encryption, token and code generation and their
  verification; rounding; whether a signature verifies and what a body decodes to; and which of the
  infrastructure failures that the code catches occur. A failure of the database or of
  Redis that the code does not catch is not modelled. Notifications are effects that succeed.

  \<^bold>\<open>Not modelled.\<close> The clients of the mail providers, the stubs of the payment providers, and the cryptography (code outside the
  repository behind thin wrappers), routing, request validation and response shaping in controllers and DTOs,
  the rendering of mails and alerts, the paged lists of the console, the forms of
  \<open>modules/loan-applications\<close> and \<open>modules/users\<close>, timers, digests, pruning, the other \<open>scripts\<close> and wiring. Of the modelled tables the asset, memo and \<open>updated_at\<close>
  columns, and the details, request id and address of audit rows, are left out.
\<close>

end
